(* ===== verification/Prelude.thy ===== *)
theory Prelude
  imports Complex_Main "HOL-Library.Product_Lexorder"
begin

text \<open>
  Shared vocabulary of the development: the exceptions the modelled Python code raises, the
  error monad that stands for \<open>raise\<close> and early exit, and generic facts about lists,
  association of rows and sums that several components use.

  A Python function that may raise is a HOL function into \<open>exn + 'a\<close>: \<open>Inl e\<close> is the
  exception, \<open>Inr x\<close> the returned value.
\<close>

datatype exn =
    ValueError
  | LookupError
  | KeyError
  | IndexError
  | TypeError
  | AttributeError
  | IntegrityError
  | RuntimeError
  | ZeroDivisionError
  | InvalidOperation
  | InvalidTransitionError
  | ValidationError
  | CircuitOpenError
  | OverflowError
  | OtherError
  | Hang

type_synonym 'a res = "exn + 'a"

definition bindE :: "'e + 'a \<Rightarrow> ('a \<Rightarrow> 'e + 'b) \<Rightarrow> 'e + 'b" where
  "bindE m f = (case m of Inl e \<Rightarrow> Inl e | Inr x \<Rightarrow> f x)"

definition guardE :: "bool \<Rightarrow> 'e \<Rightarrow> 'e + unit" where
  "guardE b e = (if b then Inr () else Inl e)"

fun is_ok :: "'e + 'a \<Rightarrow> bool" where
  "is_ok (Inl _) = False"
| "is_ok (Inr _) = True"

named_theorems py_simps \<open>unfolding rules of the modelled operations\<close>
named_theorems exact_simps \<open>facts that a decimal or float operation is exact\<close>

lemma bindE_simps [simp]:
  "bindE (Inl e) f = Inl e"
  "bindE (Inr x) f = f x"
  by (simp_all add: bindE_def)

lemma bindE_Inr_iff:
  "bindE m f = Inr y \<longleftrightarrow> (\<exists>x. m = Inr x \<and> f x = Inr y)"
  by (cases m) simp_all

lemma bindE_Inl_iff:
  "bindE m f = Inl e \<longleftrightarrow> m = Inl e \<or> (\<exists>x. m = Inr x \<and> f x = Inl e)"
  by (cases m) auto

lemma guardE_iff [simp]:
  "guardE b e = Inr u \<longleftrightarrow> b"
  "guardE b e = Inl e' \<longleftrightarrow> \<not> b \<and> e' = e"
  by (auto simp: guardE_def)

lemma bindE_guardE [simp]:
  "bindE (guardE b e) f = (if b then f () else Inl e)"
  by (simp add: guardE_def)

lemma is_ok_iff: "is_ok m \<longleftrightarrow> (\<exists>x. m = Inr x)"
  by (cases m) auto

fun mapE :: "('a \<Rightarrow> 'e + 'b) \<Rightarrow> 'a list \<Rightarrow> 'e + 'b list" where
  "mapE f [] = Inr []"
| "mapE f (x # xs) = bindE (f x) (\<lambda>y. bindE (mapE f xs) (\<lambda>ys. Inr (y # ys)))"

fun foldE :: "('s \<Rightarrow> 'a \<Rightarrow> 'e + 's) \<Rightarrow> 's \<Rightarrow> 'a list \<Rightarrow> 'e + 's" where
  "foldE f s [] = Inr s"
| "foldE f s (x # xs) = bindE (f s x) (\<lambda>s'. foldE f s' xs)"

lemma foldE_append: "foldE f s (xs @ ys) = bindE (foldE f s xs) (\<lambda>s'. foldE f s' ys)"
proof (induction xs arbitrary: s)
  case (Cons x xs)
  then show ?case by (cases "f s x") simp_all
qed simp

text \<open>An invariant kept by every successful step holds at the end of a successful fold.\<close>

lemma foldE_invariant:
  assumes step: "\<And>s x s'. x \<in> set xs \<Longrightarrow> I s \<Longrightarrow> f s x = Inr s' \<Longrightarrow> I s'"
    and "I s" and "foldE f s xs = Inr t"
  shows "I t"
  using assms
proof (induction xs arbitrary: s)
  case (Cons x xs)
  from Cons.prems(3) obtain s' where s': "f s x = Inr s'" and rest: "foldE f s' xs = Inr t"
    by (auto simp: bindE_Inr_iff)
  have "I s'" by (rule Cons.prems(1)[OF _ Cons.prems(2) s']) simp
  show ?case
    by (rule Cons.IH[OF _ \<open>I s'\<close> rest], rule Cons.prems(1)) simp_all
qed simp

lemma mapE_Inr_length: "mapE f xs = Inr ys \<Longrightarrow> length ys = length xs"
  by (induction xs arbitrary: ys) (auto simp: bindE_Inr_iff)

lemma mapE_Inr_nth:
  "mapE f xs = Inr ys \<Longrightarrow> i < length xs \<Longrightarrow> f (xs ! i) = Inr (ys ! i)"
proof (induction xs arbitrary: ys i)
  case (Cons x xs)
  from Cons.prems obtain y ys' where "f x = Inr y" "mapE f xs = Inr ys'" "ys = y # ys'"
    by (auto simp: bindE_Inr_iff)
  with Cons show ?case by (cases i) auto
qed simp

lemma mapE_pure: "(\<And>x. x \<in> set xs \<Longrightarrow> f x = Inr (g x)) \<Longrightarrow> mapE f xs = Inr (map g xs)"
  by (induction xs) auto

text \<open>A Python \<open>x or y\<close> on an optional value, and \<open>dict.get(key, default)\<close>.\<close>

definition or_else :: "'a option \<Rightarrow> 'a \<Rightarrow> 'a" where
  "or_else m d = (case m of Some x \<Rightarrow> x | None \<Rightarrow> d)"

lemma or_else_simps [simp]: "or_else None d = d" "or_else (Some x) d = x"
  by (simp_all add: or_else_def)

text \<open>
  Tables of rows with a unique key, as the repositories of the application keep them.  The
  rows stay in insertion order, which is the order of \<open>created_at\<close>.
\<close>

definition find_row :: "('r \<Rightarrow> 'k) \<Rightarrow> 'k \<Rightarrow> 'r list \<Rightarrow> 'r option" where
  "find_row key k rows = List.find (\<lambda>r. key r = k) rows"

definition update_rows :: "('r \<Rightarrow> 'k) \<Rightarrow> 'k \<Rightarrow> ('r \<Rightarrow> 'r) \<Rightarrow> 'r list \<Rightarrow> 'r list" where
  "update_rows key k f rows = map (\<lambda>r. if key r = k then f r else r) rows"

lemma find_row_Nil [simp]: "find_row key k [] = None"
  by (simp add: find_row_def)

lemma find_row_Cons [simp]:
  "find_row key k (r # rows) = (if key r = k then Some r else find_row key k rows)"
  by (simp add: find_row_def)

lemma find_row_Some: "find_row key k rows = Some r \<Longrightarrow> r \<in> set rows \<and> key r = k"
  by (induction rows) (auto split: if_splits)

lemma find_row_None: "find_row key k rows = None \<longleftrightarrow> (\<forall>r\<in>set rows. key r \<noteq> k)"
  by (induction rows) auto

lemma find_row_distinct:
  "r \<in> set rows \<Longrightarrow> key r = k \<Longrightarrow> distinct (map key rows) \<Longrightarrow> find_row key k rows = Some r"
  by (induction rows) auto

lemma find_row_append:
  "find_row key k (xs @ ys) =
     (case find_row key k xs of Some r \<Rightarrow> Some r | None \<Rightarrow> find_row key k ys)"
  by (induction xs) auto

lemma find_row_update:
  assumes "\<And>r. key (f r) = key r"
  shows "find_row key j (update_rows key k f rows) =
    (if j = k then map_option f (find_row key j rows) else find_row key j rows)"
  using assms by (induction rows) (auto simp: update_rows_def)

lemma keys_update_rows:
  "(\<And>r. key (f r) = key r) \<Longrightarrow> map key (update_rows key k f rows) = map key rows"
  by (induction rows) (auto simp: update_rows_def)

lemma set_update_rows:
  "r \<in> set (update_rows key k f rows) \<Longrightarrow>
     (\<exists>q\<in>set rows. r = (if key q = k then f q else q))"
  by (auto simp: update_rows_def)

lemma length_update_rows [simp]: "length (update_rows key k f rows) = length rows"
  by (simp add: update_rows_def)

lemma update_rows_fixed:
  "(\<And>r. r \<in> set rows \<Longrightarrow> key r = k \<Longrightarrow> f r = r) \<Longrightarrow> update_rows key k f rows = rows"
  by (induction rows) (auto simp: update_rows_def)

text \<open>Sums over lists that a pointwise update or a filter leaves unchanged.\<close>

lemma sum_list_filter_zero:
  "(\<And>x. x \<in> set xs \<Longrightarrow> \<not> P x \<Longrightarrow> f x = (0::'a::comm_monoid_add)) \<Longrightarrow>
     sum_list (map f (filter P xs)) = sum_list (map f xs)"
  by (induction xs) auto

lemma sum_list_map_nonneg:
  "(\<And>x. x \<in> set xs \<Longrightarrow> 0 \<le> (f x :: 'a::ordered_comm_monoid_add)) \<Longrightarrow> 0 \<le> sum_list (map f xs)"
  by (induction xs) (auto intro: add_nonneg_nonneg)

end
