(* ===== verification/PyNum.thy ===== *)
theory PyNum
  imports Prelude "HOL-Library.Log_Nat"
begin

text \<open>
  The two number types the Python code computes with.

  \<open>Decimal\<close> (standard library, default context: 28 significant digits, ROUND_HALF_EVEN) is
  modelled by its value, a rational: constructors, comparison, \<open>min\<close> and \<open>max\<close> are exact,
  while every arithmetic operation is the exact one followed by \<open>fix28\<close>, the rounding of the
  context.  \<open>float\<close> is an IEEE double, again by value: every operation is followed by
  \<open>fl64\<close>, the rounding to 53 bits.  Both are instances of \<open>round_sig\<close>.  Signed zeros,
  infinities, NaNs and the exponent limits of the two formats are outside the model.

  \<open>Decimal.quantize\<close> rounds to a fixed number of decimal places and raises
  \<open>InvalidOperation\<close> when the result would need more than 28 digits.
\<close>

section \<open>Rounding a rational to an integer\<close>

definition round_even :: "rat \<Rightarrow> int" where
  "round_even x =
     (let f = \<lfloor>x\<rfloor>; d = x - of_int f
      in if d < 1/2 then f else if d > 1/2 then f + 1 else if even f then f else f + 1)"

definition round_up :: "rat \<Rightarrow> int" where
  \<comment> \<open>ROUND\_HALF\_UP: ties away from zero\<close>
  "round_up x = (if 0 \<le> x then \<lfloor>x + 1/2\<rfloor> else - \<lfloor>1/2 - x\<rfloor>)"

lemma round_even_of_int [simp]: "round_even (of_int n) = n"
  by (simp add: round_even_def)

lemma round_even_numeral [simp]:
  "round_even 0 = 0" "round_even 1 = 1" "round_even (numeral n) = numeral n"
  "round_even (- numeral n) = - numeral n"
  using round_even_of_int[of 0] round_even_of_int[of 1] round_even_of_int[of "numeral n"]
    round_even_of_int[of "- numeral n"] by simp_all

lemma round_up_of_int [simp]: "round_up (of_int n) = n"
proof -
  have "\<lfloor>of_int n + 1/2 :: rat\<rfloor> = n" and "\<lfloor>1/2 - of_int n :: rat\<rfloor> = - n"
    by (simp_all add: floor_eq_iff)
  then show ?thesis by (simp add: round_up_def)
qed

lemma round_even_bounds: "of_int (round_even x) \<le> x + 1/2" "x - 1/2 \<le> of_int (round_even x)"
proof -
  define f where "f = \<lfloor>x\<rfloor>"
  have f: "of_int f \<le> x" "x < of_int f + 1"
    using floor_correct[of x] by (auto simp: f_def)
  have r: "round_even x = (if x - of_int f < 1/2 then f else if x - of_int f > 1/2 then f + 1
      else if even f then f else f + 1)"
    by (simp add: round_even_def f_def Let_def)
  show "of_int (round_even x) \<le> x + 1/2" "x - 1/2 \<le> of_int (round_even x)"
    unfolding r using f by (auto split: if_splits)
qed

lemma round_up_bounds: "of_int (round_up x) \<le> x + 1/2" "x - 1/2 \<le> of_int (round_up x)"
proof -
  define f g where "f = \<lfloor>x + 1/2\<rfloor>" and "g = \<lfloor>1/2 - x\<rfloor>"
  have fg: "of_int f \<le> x + 1/2" "x + 1/2 < of_int f + 1"
    "of_int g \<le> 1/2 - x" "1/2 - x < of_int g + 1"
    using floor_correct[of "x + 1/2"] floor_correct[of "1/2 - x"] by (auto simp: f_def g_def)
  have r: "round_up x = (if 0 \<le> x then f else - g)"
    by (simp add: round_up_def f_def g_def)
  show "of_int (round_up x) \<le> x + 1/2" "x - 1/2 \<le> of_int (round_up x)"
    unfolding r using fg by (auto split: if_splits)
qed

lemma round_even_floor: "round_even x = \<lfloor>x\<rfloor> \<or> round_even x = \<lfloor>x\<rfloor> + 1"
  by (auto simp: round_even_def Let_def)

lemma round_even_mono: "x \<le> y \<Longrightarrow> round_even x \<le> round_even y"
proof (cases "\<lfloor>x\<rfloor> = \<lfloor>y\<rfloor>")
  case True
  assume "x \<le> y"
  with True show ?thesis by (auto simp: round_even_def Let_def)
next
  case False
  assume "x \<le> y"
  then have "\<lfloor>x\<rfloor> \<le> \<lfloor>y\<rfloor>" by (rule floor_mono)
  with False have "\<lfloor>x\<rfloor> + 1 \<le> \<lfloor>y\<rfloor>" by simp
  then show ?thesis
    using round_even_floor[of x] round_even_floor[of y] by auto
qed

lemma round_up_mono: "x \<le> y \<Longrightarrow> round_up x \<le> round_up y"
proof -
  assume le: "x \<le> y"
  have a: "\<lfloor>x + 1/2\<rfloor> \<le> \<lfloor>y + 1/2\<rfloor>" and b: "\<lfloor>1/2 - y\<rfloor> \<le> \<lfloor>1/2 - x\<rfloor>"
    using le by (auto intro!: floor_mono)
  have c: "0 \<le> \<lfloor>1/2 - x\<rfloor>" if "\<not> 0 \<le> x" using that by simp
  have d: "0 \<le> \<lfloor>y + 1/2\<rfloor>" if "0 \<le> y" using that by simp
  show ?thesis
  proof (cases "0 \<le> x"; cases "0 \<le> y")
    assume "\<not> 0 \<le> x" "0 \<le> y"
    with c d have "- \<lfloor>1/2 - x\<rfloor> \<le> \<lfloor>y + 1/2\<rfloor>" by (smt (verit))
    with \<open>\<not> 0 \<le> x\<close> \<open>0 \<le> y\<close> show ?thesis by (simp add: round_up_def)
  qed (use a b le in \<open>simp_all add: round_up_def\<close>)
qed

lemma round_even_uminus: "round_even (- x) = - round_even x"
proof (cases "x = of_int \<lfloor>x\<rfloor>")
  case True
  then show ?thesis by (metis of_int_minus round_even_of_int)
next
  case False
  then have n: "x \<notin> \<int>" using Ints_cases by force
  then have "\<lfloor>- x\<rfloor> = - \<lfloor>x\<rfloor> - 1"
    using floor_minus ceiling_altdef by (metis False uminus_add_conv_diff add.commute diff_minus_eq_add minus_diff_eq minus_minus)
  then show ?thesis by (auto simp: round_even_def Let_def)
qed

lemma round_up_uminus: "round_up (- x) = - round_up x"
proof (cases "x = 0")
  case True
  have "\<lfloor>1/2 :: rat\<rfloor> = 0" by (simp add: floor_eq_iff)
  with True show ?thesis by (simp add: round_up_def)
next
  case False
  then show ?thesis by (auto simp: round_up_def add.commute)
qed

section \<open>Rounding to a number of significant digits\<close>

definition ilog :: "nat \<Rightarrow> rat \<Rightarrow> int" where
  \<comment> \<open>the exponent e with \<open>b\<close> to the \<open>e\<close> at most \<open>x\<close> and \<open>x\<close> below the next power\<close>
  "ilog b x =
     (if 1 \<le> x then int (floorlog b (nat \<lfloor>x\<rfloor>)) - 1
      else - int (floorlog b (nat (\<lceil>1 / x\<rceil> - 1))))"

definition round_sig :: "nat \<Rightarrow> nat \<Rightarrow> rat \<Rightarrow> rat" where
  "round_sig b p x =
     (if x = 0 then 0
      else let s = of_nat b powi (ilog b \<bar>x\<bar> - int (p - 1))
           in of_int (round_even (x / s)) * s)"

text \<open>The exponent by repeated integer division, for evaluation.\<close>

function digits :: "int \<Rightarrow> int \<Rightarrow> int" where
  "digits b n = (if 1 < b \<and> 0 < n then 1 + digits b (n div b) else 0)"
  by pat_completeness auto
termination
  by (relation "measure (\<lambda>(b, n). nat n)") (auto simp: int_div_less_self)

declare digits.simps [simp del]

lemma digits_floorlog: "digits (int b) (int n) = int (floorlog b n)"
proof (induction n rule: less_induct)
  case (less n)
  show ?case
  proof (cases "0 < n \<and> 1 < b")
    case True
    then have "digits (int b) (int (n div b)) = int (floorlog b (n div b))" by (intro less) simp
    with True show ?thesis by (subst digits.simps, subst compute_floorlog) (simp add: zdiv_int)
  next
    case False
    then show ?thesis by (subst digits.simps, subst compute_floorlog) auto
  qed
qed

lemma digits_nat: "digits (int b) z = int (floorlog b (nat z))"
proof (cases "0 \<le> z")
  case True
  then show ?thesis using digits_floorlog[of b "nat z"] by simp
next
  case False
  then show ?thesis by (subst digits.simps) (simp add: floorlog_def)
qed

lemma ilog_code [code]:
  "ilog b x = (if 1 \<le> x then digits (int b) \<lfloor>x\<rfloor> - 1 else - digits (int b) (\<lceil>1 / x\<rceil> - 1))"
  by (simp add: ilog_def digits_nat)

lemma floorlog_sandwich:
  assumes "1 < b" and "0 < n"
  shows "b ^ (floorlog b n - 1) \<le> n" and "n < b ^ floorlog b n"
  using floorlog_bounds[of n b] assms by auto

lemma ilog_bounds:
  assumes b: "1 < b" and x: "0 < x"
  shows "of_nat b powi ilog b x \<le> x" and "x < of_nat b powi (ilog b x + 1)"
proof -
  have both: "of_nat b powi ilog b x \<le> x \<and> x < of_nat b powi (ilog b x + 1)"
  proof (cases "1 \<le> x")
    case True
    define n where "n = nat \<lfloor>x\<rfloor>"
    have n: "0 < n" "of_nat n \<le> x" "x < of_nat n + 1"
      using True floor_correct[of x] by (auto simp: n_def le_floor_iff)
    define l where "l = floorlog b n"
    have l: "b ^ (l - 1) \<le> n" "n < b ^ l" "0 < l"
      using floorlog_sandwich[OF b n(1)] b n(1) by (auto simp: l_def floorlog_def) 
    have e: "ilog b x = int l - 1" using True by (simp add: ilog_def l_def n_def)
    have p1: "of_nat b powi (int l - 1) = (of_nat (b ^ (l - 1)) :: rat)"
      using l(3) by (simp add: power_int_nonneg_exp nat_diff_distrib)
    have p2: "of_nat b powi (int l) = (of_nat (b ^ l) :: rat)" by simp
    have "of_nat (b ^ (l - 1)) \<le> x"
      using l(1) n(2) by (meson of_nat_le_iff order_trans)
    moreover have "x < of_nat (b ^ l)"
    proof -
      have "n + 1 \<le> b ^ l" using l(2) by simp
      then have "(of_nat n + 1 :: rat) \<le> of_nat (b ^ l)"
        by (metis of_nat_1 of_nat_add of_nat_le_iff)
      with n(3) show ?thesis by simp
    qed
    ultimately show ?thesis using e p1 p2 by simp
  next
    case False
    define y where "y = 1 / x"
    have y: "1 < y" using False x by (simp add: y_def)
    define n where "n = nat (\<lceil>y\<rceil> - 1)"
    have n: "0 < n" "of_nat n < y" "y \<le> of_nat n + 1"
    proof -
      have c: "of_int \<lceil>y\<rceil> - 1 < y" "y \<le> of_int \<lceil>y\<rceil>"
        using ceiling_correct[of y] by auto
      have "2 \<le> \<lceil>y\<rceil>" using y by (simp add: le_ceiling_iff)
      then show "0 < n" "of_nat n < y" "y \<le> of_nat n + 1"
        using c by (auto simp: n_def)
    qed
    define l where "l = floorlog b n"
    have l: "b ^ (l - 1) \<le> n" "n < b ^ l" "0 < l"
      using floorlog_sandwich[OF b n(1)] b n(1) by (auto simp: l_def floorlog_def) 
    have e: "ilog b x = - int l" using False by (simp add: ilog_def l_def n_def y_def)
    have yle: "y \<le> of_nat (b ^ l)"
    proof -
      have "n + 1 \<le> b ^ l" using l(2) by simp
      then have "(of_nat n + 1 :: rat) \<le> of_nat (b ^ l)"
        by (metis of_nat_1 of_nat_add of_nat_le_iff)
      with n(3) show ?thesis by simp
    qed
    have ygt: "of_nat (b ^ (l - 1)) < y"
      using l(1) n(2) by (meson of_nat_le_iff order_le_less_trans)
    have bp: "(0::rat) < of_nat (b ^ k)" for k using b by simp
    have xy: "x = 1 / y" by (simp add: y_def)
    have "1 / of_nat (b ^ l) \<le> x"
      unfolding xy using yle y by (simp add: frac_le)
    moreover have "x < 1 / of_nat (b ^ (l - 1))"
      unfolding xy using ygt bp[of "l - 1"] by (simp add: frac_less2)
    moreover have "of_nat b powi (- int l) = (1 / of_nat (b ^ l) :: rat)"
      by (simp add: power_int_minus_divide)
    moreover have "of_nat b powi (- int l + 1) = (1 / of_nat (b ^ (l - 1)) :: rat)"
    proof -
      have "- int l + 1 = - int (l - 1)" using l(3) by simp
      then show ?thesis by (simp only: power_int_minus_divide power_int_of_nat of_nat_power)
    qed
    ultimately show ?thesis using e by simp
  qed
  from both show "of_nat b powi ilog b x \<le> x" "x < of_nat b powi (ilog b x + 1)" by auto
qed

lemma ilog_unique:
  assumes b: "1 < b" and x: "of_nat b powi e \<le> x" "x < of_nat b powi (e + 1)"
  shows "ilog b x = e"
proof -
  have bp: "(1::rat) < of_nat b" using b by simp
  have "0 < (of_nat b powi e :: rat)" using bp by simp
  with x have x0: "0 < x" by linarith
  note i = ilog_bounds[OF b x0]
  have "of_nat b powi e < (of_nat b powi (ilog b x + 1) :: rat)" using x(1) i(2) by linarith
  then have "e < ilog b x + 1" using bp
    by (meson less_le_not_le linorder_not_le power_int_increasing)
  moreover have "of_nat b powi ilog b x < (of_nat b powi (e + 1) :: rat)" using x(2) i(1) by linarith
  then have "ilog b x < e + 1" using bp
    by (meson less_le_not_le linorder_not_le power_int_increasing)
  ultimately show ?thesis by simp
qed

lemma ilog_mono:
  assumes b: "1 < b" and x: "0 < x" "x \<le> y"
  shows "ilog b x \<le> ilog b y"
proof -
  have bp: "(1::rat) < of_nat b" using b by simp
  have "of_nat b powi ilog b x < (of_nat b powi (ilog b y + 1) :: rat)"
    using ilog_bounds[OF b x(1)] ilog_bounds[OF b, of y] x by linarith
  then have "ilog b x < ilog b y + 1" using bp
    by (meson less_le_not_le linorder_not_le power_int_increasing)
  then show ?thesis by simp
qed

lemma round_sig_0 [simp]: "round_sig b p 0 = 0"
  by (simp add: round_sig_def)

lemma round_sig_uminus [simp]: "round_sig b p (- x) = - round_sig b p x"
  by (simp add: round_sig_def Let_def round_even_uminus)

text \<open>The scaled value lies between the two powers that bound a \<open>p\<close>-digit coefficient.\<close>

lemma round_sig_range:
  assumes b: "1 < b" and p: "0 < p" and x: "0 < x"
  shows "of_nat b powi ilog b x \<le> round_sig b p x"
    and "round_sig b p x \<le> of_nat b powi (ilog b x + 1)"
proof -
  define e where "e = ilog b x - int (p - 1)"
  define s :: rat where "s = of_nat b powi e"
  have b0: "(of_nat b :: rat) \<noteq> 0" using b by simp
  have s: "0 < s" using b by (simp add: s_def)
  have lo: "of_nat b powi ilog b x = of_int (int (b ^ (p - 1))) * s"
  proof -
    have "ilog b x = int (p - 1) + e" by (simp add: e_def)
    then show ?thesis using b0 by (simp add: s_def power_int_add)
  qed
  have hi: "of_nat b powi (ilog b x + 1) = of_int (int (b ^ p)) * s"
  proof -
    have "ilog b x + 1 = int p + e" using p by (simp add: e_def)
    then show ?thesis using b0 by (simp add: s_def power_int_add)
  qed
  have "of_int (int (b ^ (p - 1))) \<le> x / s" "x / s \<le> of_int (int (b ^ p))"
    using ilog_bounds[OF b x] s unfolding lo hi by (simp_all add: pos_le_divide_eq pos_divide_le_eq)
  then have "int (b ^ (p - 1)) \<le> round_even (x / s)" "round_even (x / s) \<le> int (b ^ p)"
    by (metis round_even_mono round_even_of_int)+
  then have "of_int (int (b ^ (p - 1))) * s \<le> of_int (round_even (x / s)) * s"
    "of_int (round_even (x / s)) * s \<le> of_int (int (b ^ p)) * s"
    using s by (simp_all only: mult_le_cancel_right_pos of_int_le_iff)
  moreover have "round_sig b p x = of_int (round_even (x / s)) * s"
    using x by (simp add: round_sig_def s_def e_def Let_def)
  ultimately show "of_nat b powi ilog b x \<le> round_sig b p x"
    "round_sig b p x \<le> of_nat b powi (ilog b x + 1)"
    using lo hi by simp_all
qed

lemma round_sig_pos:
  assumes "1 < b" "0 < p" "0 < x"
  shows "0 < round_sig b p x"
proof -
  have "(0::rat) < of_nat b powi ilog b x" using assms(1) by simp
  with round_sig_range(1)[OF assms] show ?thesis by linarith
qed

lemma round_sig_mono_pos:
  assumes b: "1 < b" and p: "0 < p" and x: "0 < x" "x \<le> y"
  shows "round_sig b p x \<le> round_sig b p y"
proof (cases "ilog b x = ilog b y")
  case True
  define s :: rat where "s = of_nat b powi (ilog b y - int (p - 1))"
  have s: "0 < s" using b by (simp add: s_def)
  have "x / s \<le> y / s" using s x by (simp add: divide_right_mono)
  then have "round_even (x / s) \<le> round_even (y / s)" by (rule round_even_mono)
  then have "of_int (round_even (x / s)) * s \<le> of_int (round_even (y / s)) * s"
    using s by (simp only: mult_le_cancel_right_pos of_int_le_iff)
  then show ?thesis using x True by (simp add: round_sig_def Let_def s_def)
next
  case False
  with ilog_mono[OF b x] have "ilog b x + 1 \<le> ilog b y" by simp
  then have "of_nat b powi (ilog b x + 1) \<le> (of_nat b powi ilog b y :: rat)"
    using b by (intro power_int_increasing) auto
  then show ?thesis
    using round_sig_range(2)[OF b p x(1)] round_sig_range(1)[OF b p, of y] x by linarith
qed

lemma round_sig_mono:
  assumes b: "1 < b" and p: "0 < p" and xy: "x \<le> y"
  shows "round_sig b p x \<le> round_sig b p y"
proof -
  consider "0 < x" | "y < 0" | "x \<le> 0" "0 \<le> y" by linarith
  then show ?thesis
  proof cases
    case 1
    then show ?thesis using round_sig_mono_pos[OF b p] xy by simp
  next
    case 2
    then have "round_sig b p (- y) \<le> round_sig b p (- x)"
      using round_sig_mono_pos[OF b p, of "- y" "- x"] xy by simp
    then show ?thesis by simp
  next
    case 3
    have "round_sig b p x \<le> 0"
      using 3(1) round_sig_pos[OF b p, of "- x"] by (cases "x = 0") auto
    moreover have "0 \<le> round_sig b p y"
      using 3(2) round_sig_pos[OF b p, of y] by (cases "y = 0") auto
    ultimately show ?thesis by linarith
  qed
qed

text \<open>Values with at most \<open>p\<close> digits are not changed.\<close>

lemma round_sig_exact:
  assumes b: "1 < b" and p: "0 < p" and n: "\<bar>n\<bar> \<le> int (b ^ p)"
  shows "round_sig b p (of_int n * of_nat b powi k) = of_int n * of_nat b powi k"
proof (cases "n = 0")
  case False
  define x :: rat where "x = of_int n * of_nat b powi k"
  have bp: "(1::rat) < of_nat b" using b by simp
  have x: "x \<noteq> 0" using False b by (simp add: x_def)
  define i where "i = ilog b \<bar>x\<bar>"
  define e where "e = i - int (p - 1)"
  define s :: rat where "s = of_nat b powi e"
  have s: "s \<noteq> 0" using b by (simp add: s_def)
  have lo: "of_nat b powi i \<le> \<bar>x\<bar>" using ilog_bounds[OF b, of "\<bar>x\<bar>"] x by (simp add: i_def)
  have ax: "\<bar>x\<bar> = of_int \<bar>n\<bar> * of_nat b powi k" using b by (simp add: x_def abs_mult)
  have "\<exists>m. x / s = of_int m"
  proof (cases "e \<le> k")
    case True
    have "x / s = of_int n * of_nat b powi (k - e)"
      using b by (simp add: x_def s_def power_int_diff)
    also have "\<dots> = of_int (n * int (b ^ nat (k - e)))"
      using True by (simp add: power_int_nonneg_exp)
    finally show ?thesis by blast
  next
    case False
    have "of_int \<bar>n\<bar> \<le> (of_int (int (b ^ p)) :: rat)" using n of_int_le_iff by blast
    also have "\<dots> = of_nat b powi (int p)" by simp
    finally have "\<bar>x\<bar> \<le> of_nat b powi (int p) * of_nat b powi k"
      unfolding ax using b by (intro mult_right_mono) auto
    also have "\<dots> = of_nat b powi (int p + k)" using b by (simp add: power_int_add)
    finally have hi: "\<bar>x\<bar> \<le> of_nat b powi (int p + k)" .
    have "of_nat b powi (int p + k) \<le> (of_nat b powi i :: rat)"
      using b False p by (intro power_int_increasing) (auto simp: e_def)
    with lo hi have abs: "\<bar>x\<bar> = of_nat b powi i" "\<bar>x\<bar> = of_nat b powi (int p + k)" by linarith+
    have "of_nat b powi i = of_int (int (b ^ (p - 1))) * s"
    proof -
      have "i = int (p - 1) + e" by (simp add: e_def)
      then show ?thesis using b by (simp add: s_def power_int_add)
    qed
    with abs have "\<bar>x\<bar> / s = of_int (int (b ^ (p - 1)))" using s by simp
    then have "x / s = of_int (int (b ^ (p - 1))) \<or> x / s = of_int (- int (b ^ (p - 1)))"
      by (auto simp: abs_if split: if_splits)
    then show ?thesis by blast
  qed
  then obtain m where m: "x / s = of_int m" ..
  then have "round_sig b p x = of_int m * s"
    using x by (simp add: round_sig_def Let_def s_def e_def i_def)
  also have "\<dots> = x" using m s by (simp add: field_simps)
  finally show ?thesis by (simp add: x_def)
qed simp

lemma round_sig_error:
  assumes b: "1 < b" and x: "x \<noteq> 0"
  shows "\<bar>round_sig b p x - x\<bar> \<le> \<bar>x\<bar> / (2 * of_nat (b ^ (p - 1)))"
proof -
  define i where "i = ilog b \<bar>x\<bar>"
  define s :: rat where "s = of_nat b powi (i - int (p - 1))"
  have s: "0 < s" using b by (simp add: s_def)
  have eq: "round_sig b p x = of_int (round_even (x / s)) * s"
    using x by (simp add: round_sig_def Let_def s_def i_def)
  have "\<bar>of_int (round_even (x / s)) - x / s\<bar> \<le> 1 / 2"
    using round_even_bounds[of "x / s"] by linarith
  then have "\<bar>of_int (round_even (x / s)) - x / s\<bar> * s \<le> 1 / 2 * s"
    using s by (intro mult_right_mono) auto
  also have "\<bar>of_int (round_even (x / s)) - x / s\<bar> * s = \<bar>round_sig b p x - x\<bar>"
    using s unfolding eq by (simp add: abs_mult_pos left_diff_distrib)
  finally have err: "\<bar>round_sig b p x - x\<bar> \<le> s / 2" by simp
  have "s * of_nat (b ^ (p - 1)) = of_nat b powi i"
    using b by (simp add: s_def power_int_diff)
  also have "\<dots> \<le> \<bar>x\<bar>" using ilog_bounds[OF b, of "\<bar>x\<bar>"] x by (simp add: i_def)
  finally have "s \<le> \<bar>x\<bar> / of_nat (b ^ (p - 1))"
    using b by (simp add: pos_le_divide_eq del: of_nat_power)
  with err show ?thesis by (simp add: field_simps)
qed

section \<open>Decimal arithmetic\<close>

type_synonym dec = rat

definition fix28 :: "rat \<Rightarrow> dec" where
  "fix28 = round_sig 10 28"

definition dadd :: "dec \<Rightarrow> dec \<Rightarrow> dec" where "dadd a b = fix28 (a + b)"
definition dsub :: "dec \<Rightarrow> dec \<Rightarrow> dec" where "dsub a b = fix28 (a - b)"
definition dmul :: "dec \<Rightarrow> dec \<Rightarrow> dec" where "dmul a b = fix28 (a * b)"
definition dneg :: "dec \<Rightarrow> dec" where "dneg a = fix28 (- a)"
definition dabs :: "dec \<Rightarrow> dec" where "dabs a = fix28 \<bar>a\<bar>"

definition ddiv :: "dec \<Rightarrow> dec \<Rightarrow> dec" where
  \<comment> \<open>division at a place where the source has already excluded a zero divisor\<close>
  "ddiv a b = fix28 (a / b)"

definition ddivE :: "dec \<Rightarrow> dec \<Rightarrow> dec res" where
  \<comment> \<open>\<open>0 / 0\<close> signals InvalidOperation, any other division by zero DivisionByZero\<close>
  "ddivE a b =
     (if b = 0 then Inl (if a = 0 then InvalidOperation else ZeroDivisionError) else Inr (ddiv a b))"

definition dsum :: "dec list \<Rightarrow> dec" where
  "dsum xs = foldl dadd 0 xs"

definition quantizeE :: "nat \<Rightarrow> dec \<Rightarrow> dec res" where
  "quantizeE k x =
     (let n = round_even (x * 10 ^ k)
      in if \<bar>n\<bar> < 10 ^ 28 then Inr (of_int n / 10 ^ k) else Inl InvalidOperation)"

definition quantize_upE :: "nat \<Rightarrow> dec \<Rightarrow> dec res" where
  "quantize_upE k x =
     (let n = round_up (x * 10 ^ k)
      in if \<bar>n\<bar> < 10 ^ 28 then Inr (of_int n / 10 ^ k) else Inl InvalidOperation)"

lemma fix28_0 [simp]: "fix28 0 = 0"
  by (simp add: fix28_def)

lemma fix28_uminus [simp]: "fix28 (- x) = - fix28 x"
  by (simp add: fix28_def)

lemma fix28_mono: "x \<le> y \<Longrightarrow> fix28 x \<le> fix28 y"
  unfolding fix28_def by (rule round_sig_mono) simp_all

lemma fix28_pos: "0 < x \<Longrightarrow> 0 < fix28 x"
  unfolding fix28_def by (rule round_sig_pos) simp_all

lemma fix28_nonneg: "0 \<le> x \<Longrightarrow> 0 \<le> fix28 x"
  using fix28_mono[of 0 x] by simp

lemma fix28_neg: "x < 0 \<Longrightarrow> fix28 x < 0"
  using fix28_pos[of "- x"] by simp

lemma fix28_sign_iff [simp]:
  "0 < fix28 x \<longleftrightarrow> 0 < x"
  "fix28 x < 0 \<longleftrightarrow> x < 0"
  "0 \<le> fix28 x \<longleftrightarrow> 0 \<le> x"
  "fix28 x \<le> 0 \<longleftrightarrow> x \<le> 0"
  "fix28 x = 0 \<longleftrightarrow> x = 0"
proof -
  have p: "0 < x \<Longrightarrow> 0 < fix28 x" and n: "x < 0 \<Longrightarrow> fix28 x < 0"
    by (simp_all add: fix28_pos fix28_neg)
  then show "0 < fix28 x \<longleftrightarrow> 0 < x" "fix28 x < 0 \<longleftrightarrow> x < 0" "0 \<le> fix28 x \<longleftrightarrow> 0 \<le> x"
    "fix28 x \<le> 0 \<longleftrightarrow> x \<le> 0" "fix28 x = 0 \<longleftrightarrow> x = 0"
    by (cases x "0::rat" rule: linorder_cases; fastforce)+
qed

lemma fix28_error: "\<bar>fix28 x - x\<bar> \<le> \<bar>x\<bar> / (2 * 10 ^ 27)"
  using round_sig_error[of 10 x 28] by (cases "x = 0") (simp_all add: fix28_def)

text \<open>
  A decimal grid: the values with at most \<open>k\<close> places after the point.  Quantities and prices
  live on one; sums of moderate size stay on it and are computed exactly.
\<close>

definition on_grid :: "nat \<Rightarrow> dec \<Rightarrow> bool" where
  "on_grid k x \<longleftrightarrow> of_int \<lfloor>x * 10 ^ k\<rfloor> = x * 10 ^ k"

lemma on_gridI: "x * 10 ^ k = of_int n \<Longrightarrow> on_grid k x"
  by (simp add: on_grid_def)

lemma on_gridE:
  assumes "on_grid k x"
  obtains n where "x = of_int n / 10 ^ k"
proof -
  have "x = of_int \<lfloor>x * 10 ^ k\<rfloor> / 10 ^ k"
    using assms unfolding on_grid_def by (simp only: eq_divide_eq) simp
  then show thesis by (rule that)
qed

lemma on_grid_of_int_div [simp, intro]: "on_grid k (of_int n / 10 ^ k)"
  by (rule on_gridI[of _ _ n]) simp

lemma on_grid_0 [simp]: "on_grid k 0"
  by (simp add: on_grid_def)

lemma on_grid_numeral [simp]: "on_grid k (numeral n)" "on_grid k 1"
  by (rule on_gridI[of _ _ "numeral n * 10 ^ k"], simp, rule on_gridI[of _ _ "10 ^ k"], simp)

lemma on_grid_add [intro]: "on_grid k x \<Longrightarrow> on_grid k y \<Longrightarrow> on_grid k (x + y)"
proof -
  assume "on_grid k x" "on_grid k y"
  then obtain m n where "x = of_int m / 10 ^ k" "y = of_int n / 10 ^ k"
    by (elim on_gridE)
  then have "x + y = of_int (m + n) / 10 ^ k" by (simp add: add_divide_distrib)
  then show ?thesis by (simp only: on_grid_of_int_div)
qed

lemma on_grid_uminus [simp]: "on_grid k (- x) \<longleftrightarrow> on_grid k x"
proof -
  have "on_grid k (- x)" if "on_grid k x" for x
  proof -
    from that obtain n where "x = of_int n / 10 ^ k" by (elim on_gridE)
    then have "- x = of_int (- n) / 10 ^ k" by simp
    then show ?thesis by (simp only: on_grid_of_int_div)
  qed
  from this[of x] this[of "- x"] show ?thesis by auto
qed

lemma on_grid_diff [intro]: "on_grid k x \<Longrightarrow> on_grid k y \<Longrightarrow> on_grid k (x - y)"
  using on_grid_add[of k x "- y"] by simp

lemma on_grid_abs [simp]: "on_grid k \<bar>x\<bar> \<longleftrightarrow> on_grid k x"
  by (simp add: abs_if)

lemma on_grid_mult:
  assumes "on_grid j x" "on_grid k y"
  shows "on_grid (j + k) (x * y)"
proof -
  from assms obtain m n where "x = of_int m / 10 ^ j" "y = of_int n / 10 ^ k"
    by (elim on_gridE)
  then have "x * y = of_int (m * n) / 10 ^ (j + k)" by (simp add: power_add)
  then show ?thesis by (simp only: on_grid_of_int_div)
qed

lemma on_grid_mono:
  assumes "on_grid j x" "j \<le> k"
  shows "on_grid k x"
proof -
  have "on_grid (k - j) 1" by simp
  from on_grid_mult[OF assms(1) this] assms(2) show ?thesis by simp
qed

lemma on_grid_sum_list: "(\<And>x. x \<in> set xs \<Longrightarrow> on_grid k x) \<Longrightarrow> on_grid k (sum_list xs)"
  by (induction xs) auto

lemma fix28_exact:
  assumes g: "on_grid k x" and m: "\<bar>x\<bar> * 10 ^ k \<le> 10 ^ 28"
  shows "fix28 x = x"
proof -
  from g obtain n where n: "x = of_int n / 10 ^ k" by (elim on_gridE)
  have x: "x = of_int n * of_nat 10 powi (- int k)"
    by (simp add: n power_int_minus_divide)
  have "\<bar>of_int n :: rat\<bar> = \<bar>x\<bar> * 10 ^ k" by (simp add: n abs_mult)
  also have "\<dots> \<le> of_int (10 ^ 28)" using m by simp
  finally have "\<bar>n\<bar> \<le> int (10 ^ 28)" by (simp only: of_int_abs[symmetric] of_int_le_iff) simp
  from round_sig_exact[OF _ _ this, of "- int k"] show ?thesis
    unfolding x fix28_def by simp
qed

lemma fix28_idem [simp]: "fix28 (fix28 x) = fix28 x"
proof (cases "x = 0")
  case False
  define i where "i = ilog 10 \<bar>x\<bar>"
  define s :: rat where "s = of_nat 10 powi (i - 27)"
  have s: "0 < s" by (simp add: s_def)
  have eq: "fix28 y = of_int (round_even (y / s)) * s" if "y = x \<or> y = \<bar>x\<bar>" for y
    using that False by (auto simp: fix28_def round_sig_def Let_def s_def i_def)
  define n where "n = round_even (\<bar>x\<bar> / s)"
  have n0: "0 \<le> n"
    using round_even_mono[of 0 "\<bar>x\<bar> / s"] s by (simp add: n_def round_even_def)
  have "of_int n * s \<le> of_nat 10 powi (i + 1)"
    using round_sig_range(2)[of 10 28 "\<bar>x\<bar>"] eq[of "\<bar>x\<bar>"] False by (simp add: fix28_def i_def n_def)
  also have "\<dots> = 10 ^ 28 * s"
  proof -
    have "of_nat 10 powi (i + 1) = (of_nat 10 powi (28 + (i - 27)) :: rat)" by (simp add: add.commute)
    also have "\<dots> = 10 ^ 28 * s" unfolding s_def by (subst power_int_add) simp_all
    finally show ?thesis .
  qed
  finally have "of_int n \<le> (10 ^ 28 :: rat)" using s by simp
  then have "n \<le> 10 ^ 28" by (metis of_int_le_iff of_int_numeral of_int_power)
  then have n: "\<bar>n\<bar> \<le> int (10 ^ 28)" using n0 by simp
  have "fix28 (of_int n * s) = of_int n * s"
    unfolding s_def fix28_def by (rule round_sig_exact[OF _ _ n]) simp_all
  moreover have "fix28 \<bar>x\<bar> = of_int n * s" using eq[of "\<bar>x\<bar>"] by (simp add: n_def)
  ultimately have "fix28 (fix28 \<bar>x\<bar>) = fix28 \<bar>x\<bar>" by simp
  then show ?thesis by (simp add: abs_if split: if_splits)
qed simp

text \<open>Sums: the running total of a list on a grid is exact while it stays small.\<close>

lemma foldl_dadd_exact:
  assumes "on_grid k a" "\<And>x. x \<in> set xs \<Longrightarrow> on_grid k x"
    and "(\<bar>a\<bar> + sum_list (map abs xs)) * 10 ^ k \<le> 10 ^ 28"
  shows "foldl dadd a xs = a + sum_list xs"
  using assms
proof (induction xs arbitrary: a)
  case (Cons x xs)
  have nn: "0 \<le> sum_list (map abs xs)" by (rule sum_list_map_nonneg) simp
  have le: "\<bar>a + x\<bar> + sum_list (map abs xs) \<le> \<bar>a\<bar> + sum_list (map abs (x # xs))" by simp
  then have b: "(\<bar>a + x\<bar> + sum_list (map abs xs)) * 10 ^ k \<le> 10 ^ 28"
    using Cons.prems(3) by (meson mult_right_mono order_trans zero_le_numeral zero_le_power)
  have "\<bar>a + x\<bar> * 10 ^ k \<le> (\<bar>a + x\<bar> + sum_list (map abs xs)) * 10 ^ k"
    using nn by (intro mult_right_mono) auto
  then have m: "\<bar>a + x\<bar> * 10 ^ k \<le> 10 ^ 28" using b by (rule order_trans)
  have "fix28 (a + x) = a + x"
    by (rule fix28_exact[OF _ m]) (use Cons.prems in auto)
  moreover have "foldl dadd (a + x) xs = a + x + sum_list xs"
    by (rule Cons.IH) (use Cons.prems b in auto)
  ultimately show ?case by (simp add: dadd_def[of a x])
qed simp

lemma dsum_exact:
  assumes "\<And>x. x \<in> set xs \<Longrightarrow> on_grid k x"
    and "sum_list (map abs xs) * 10 ^ k \<le> 10 ^ 28"
  shows "dsum xs = sum_list xs"
  using foldl_dadd_exact[of k 0 xs] assms by (simp add: dsum_def)

lemma dsum_Nil [simp]: "dsum [] = 0"
  by (simp add: dsum_def)

lemma foldl_dadd_nonneg: "0 \<le> a \<Longrightarrow> (\<And>x. x \<in> set xs \<Longrightarrow> 0 \<le> x) \<Longrightarrow> 0 \<le> foldl dadd a xs"
  by (induction xs arbitrary: a) (auto simp: dadd_def)

lemma dsum_nonneg: "(\<And>x. x \<in> set xs \<Longrightarrow> 0 \<le> x) \<Longrightarrow> 0 \<le> dsum xs"
  by (simp add: dsum_def foldl_dadd_nonneg)

lemma dsum_snoc: "dsum (xs @ [x]) = dadd (dsum xs) x"
  by (simp add: dsum_def)

text \<open>Evaluation on closed values: used to compute witnesses.\<close>

lemma floor_frac [exact_simps]:
  "\<lfloor>numeral a / numeral b :: rat\<rfloor> = numeral a div numeral b"
  "\<lfloor>- (numeral a / numeral b) :: rat\<rfloor> = - numeral a div numeral b"
  "\<lfloor>1 / numeral b :: rat\<rfloor> = 1 div numeral b"
  "\<lfloor>- (1 / numeral b) :: rat\<rfloor> = - 1 div numeral b"
  using floor_divide_of_int_eq[of "numeral a" "numeral b", where 'a = rat]
    floor_divide_of_int_eq[of "- numeral a" "numeral b", where 'a = rat]
    floor_divide_of_int_eq[of "1" "numeral b", where 'a = rat]
    floor_divide_of_int_eq[of "- 1" "numeral b", where 'a = rat]
  by simp_all

lemma fix28_eval [exact_simps]:
  "of_int \<lfloor>x * 10000000000\<rfloor> = x * 10000000000 \<Longrightarrow> \<bar>x\<bar> \<le> 1000000000000000000 \<Longrightarrow> fix28 x = x"
  by (rule fix28_exact[of 10]) (simp_all add: on_grid_def)

lemmas dec_defs = dadd_def dsub_def dmul_def ddiv_def dneg_def dabs_def

lemma quantizeE_Inr:
  assumes "quantizeE k x = Inr q"
  shows "on_grid k q" and "\<bar>q - x\<bar> \<le> 1 / (2 * 10 ^ k)" and "0 \<le> x \<Longrightarrow> 0 \<le> q"
proof -
  define n where "n = round_even (x * 10 ^ k)"
  from assms have q: "q = of_int n / 10 ^ k"
    by (auto simp: quantizeE_def n_def Let_def split: if_splits)
  then show "on_grid k q" by simp
  have "\<bar>of_int n - x * 10 ^ k\<bar> \<le> 1 / 2"
    using round_even_bounds[of "x * 10 ^ k"] unfolding n_def by linarith
  moreover have "q - x = (of_int n - x * 10 ^ k) / 10 ^ k" by (simp add: q diff_divide_distrib)
  ultimately show "\<bar>q - x\<bar> \<le> 1 / (2 * 10 ^ k)"
    by (simp add: divide_right_mono[of _ "1/2", simplified])
  assume "0 \<le> x"
  then have "round_even 0 \<le> n" unfolding n_def by (intro round_even_mono) simp
  then show "0 \<le> q" by (simp add: q round_even_def)
qed

section \<open>Float arithmetic\<close>

definition fl64 :: "rat \<Rightarrow> rat" where
  "fl64 = round_sig 2 53"

definition fdiv_int :: "int \<Rightarrow> int \<Rightarrow> rat" where
  \<comment> \<open>Python's true division of two integers, correctly rounded\<close>
  "fdiv_int a b = fl64 (of_int a / of_int b)"

definition fmul :: "rat \<Rightarrow> rat \<Rightarrow> rat" where "fmul a b = fl64 (a * b)"
definition fadd :: "rat \<Rightarrow> rat \<Rightarrow> rat" where "fadd a b = fl64 (a + b)"
definition fsub :: "rat \<Rightarrow> rat \<Rightarrow> rat" where "fsub a b = fl64 (a - b)"

lemma fl64_mono: "x \<le> y \<Longrightarrow> fl64 x \<le> fl64 y"
  unfolding fl64_def by (rule round_sig_mono) simp_all

lemma fl64_0 [simp]: "fl64 0 = 0"
  by (simp add: fl64_def)

lemma fl64_nonneg: "0 \<le> x \<Longrightarrow> 0 \<le> fl64 x"
  using fl64_mono[of 0 x] by simp

lemma fl64_of_int: "\<bar>n\<bar> \<le> 2 ^ 53 \<Longrightarrow> fl64 (of_int n) = of_int n"
  using round_sig_exact[of 2 53 n 0] by (simp add: fl64_def)

end
