(* ===== verification/Positions.thy ===== *)
theory Positions
  imports PyNum "HOL-Library.Multiset"
begin

text \<open>
  The event-sourced position aggregate (\<open>app/modules/positions/core/aggregate.py\<close>, events of
  \<open>positions/interfaces/events.py\<close>) and the asset-class strategies that value a position
  (\<open>positions/core/strategy.py\<close>).

  A position is a list of lots in the order they were opened.  A buy appends a lot, a sell
  consumes lots in FIFO order and opens a short lot for what is left, a split rescales the
  lots, a dividend is realised income.  \<open>uuid5\<close> (name-based UUIDs) is a parameter.  Python
  mutates the lots in place while it walks a sorted copy of the list; the model walks the
  sorted indices and writes each lot back at its index.
\<close>

type_synonym uuid = int
type_synonym timestamp = int

section \<open>Events\<close>

datatype trade_side = Buy | Sell

datatype position_event_type =
    TRADE_BUY
  | TRADE_SELL
  | STOCK_SPLIT
  | DIVIDEND_PAID
  | POSITION_CHANGED
  | PNL_REALIZED
  | PNL_MARK_TO_MARKET

record trade_event_data =
  td_portfolio :: uuid
  td_instrument :: string
  td_side :: trade_side
  td_quantity :: dec
  td_price :: dec
  td_trade_id :: uuid
  td_currency :: string

record corporate_action_data =
  ca_portfolio :: uuid
  ca_instrument :: string
  ca_currency :: string
  ca_action_id :: uuid
  ca_split_ratio :: dec
  ca_dividend_amount :: dec

datatype event_data = TradeData trade_event_data | CaData corporate_action_data

record trade_event =
  ev_type :: position_event_type
  ev_timestamp :: timestamp
  ev_data :: event_data

record position_changed_data =
  pc_portfolio :: uuid
  pc_instrument :: string
  pc_quantity :: dec
  pc_avg_cost :: dec
  pc_cost_basis :: dec
  pc_currency :: string

record pnl_realized_data =
  pr_portfolio :: uuid
  pr_instrument :: string
  pr_realized_pnl :: dec
  pr_price :: dec
  pr_currency :: string

record pnl_mtm_data =
  pm_portfolio :: uuid
  pm_instrument :: string
  pm_market_price :: dec
  pm_market_value :: dec
  pm_unrealized_pnl :: dec
  pm_pnl_change :: dec
  pm_currency :: string

datatype downstream_event =
    PositionChanged position_changed_data
  | PnLRealized pnl_realized_data
  | PnLMarkToMarket pnl_mtm_data

fun data_portfolio :: "event_data \<Rightarrow> uuid" where
  "data_portfolio (TradeData d) = td_portfolio d"
| "data_portfolio (CaData d) = ca_portfolio d"

fun data_instrument :: "event_data \<Rightarrow> string" where
  "data_instrument (TradeData d) = td_instrument d"
| "data_instrument (CaData d) = ca_instrument d"

section \<open>The aggregate\<close>

record lot_state =
  lot_id :: uuid
  lot_quantity :: dec
  lot_original :: dec
  lot_price :: dec
  lot_acquired :: timestamp
  lot_trade :: uuid

record position =
  pos_portfolio :: uuid
  pos_instrument :: string
  pos_quantity :: dec
  pos_cost_basis :: dec
  pos_realized :: dec
  pos_currency :: string
  pos_lots :: "lot_state list"
  pos_version :: nat

definition empty_position :: "uuid \<Rightarrow> string \<Rightarrow> position" where
  "empty_position p i =
     \<lparr>pos_portfolio = p, pos_instrument = i, pos_quantity = 0, pos_cost_basis = 0,
      pos_realized = 0, pos_currency = ''USD'', pos_lots = [], pos_version = 0\<rparr>"

definition avg_cost :: "position \<Rightarrow> dec" where
  "avg_cost a = (if pos_quantity a = 0 then 0 else ddiv (pos_cost_basis a) (dabs (pos_quantity a)))"

definition position_changed_event :: "position \<Rightarrow> downstream_event" where
  "position_changed_event a = PositionChanged
     \<lparr>pc_portfolio = pos_portfolio a, pc_instrument = pos_instrument a,
      pc_quantity = pos_quantity a, pc_avg_cost = avg_cost a,
      pc_cost_basis = pos_cost_basis a, pc_currency = pos_currency a\<rparr>"

definition pnl_realized_event :: "position \<Rightarrow> dec \<Rightarrow> dec \<Rightarrow> downstream_event" where
  "pnl_realized_event a amount price = PnLRealized
     \<lparr>pr_portfolio = pos_portfolio a, pr_instrument = pos_instrument a,
      pr_realized_pnl = amount, pr_price = price, pr_currency = pos_currency a\<rparr>"

type_synonym uuid5_fn = "uuid \<Rightarrow> string \<Rightarrow> uuid"

definition apply_buy ::
  "uuid5_fn \<Rightarrow> position \<Rightarrow> trade_event_data \<Rightarrow> timestamp \<Rightarrow> position \<times> downstream_event list" where
  "apply_buy uuid5 a d t =
     (let lot = \<lparr>lot_id = uuid5 (td_trade_id d) ''lot'', lot_quantity = td_quantity d,
            lot_original = td_quantity d, lot_price = td_price d, lot_acquired = t,
            lot_trade = td_trade_id d\<rparr>;
          a' = a\<lparr>pos_currency := td_currency d,
                pos_quantity := dadd (pos_quantity a) (td_quantity d),
                pos_cost_basis := dadd (pos_cost_basis a) (dmul (td_quantity d) (td_price d)),
                pos_lots := pos_lots a @ [lot],
                pos_version := Suc (pos_version a)\<rparr>
      in (a', [position_changed_event a']))"

definition fifo_order :: "lot_state list \<Rightarrow> nat list" where
  "fifo_order lots =
     sort_key (\<lambda>i. (lot_acquired (lots ! i), lot_id (lots ! i))) [0..<length lots]"

fun sell_loop ::
  "dec \<Rightarrow> dec \<Rightarrow> dec \<Rightarrow> nat list \<Rightarrow> lot_state list \<Rightarrow> dec \<times> dec \<times> lot_state list" where
  "sell_loop price remaining realized [] lots = (remaining, realized, lots)"
| "sell_loop price remaining realized (i # is) lots =
     (let lot = lots ! i
      in if remaining \<le> 0 \<or> lot_quantity lot \<le> 0 then (remaining, realized, lots)
         else let sold = min remaining (lot_quantity lot)
              in sell_loop price (dsub remaining sold)
                   (dadd realized (dmul sold (dsub price (lot_price lot)))) is
                   (lots[i := lot\<lparr>lot_quantity := dsub (lot_quantity lot) sold\<rparr>]))"

definition lots_cost :: "lot_state list \<Rightarrow> dec" where
  "lots_cost lots = dsum (map (\<lambda>l. dmul (dabs (lot_quantity l)) (lot_price l)) lots)"

definition apply_sell ::
  "uuid5_fn \<Rightarrow> position \<Rightarrow> trade_event_data \<Rightarrow> timestamp \<Rightarrow> position \<times> downstream_event list" where
  "apply_sell uuid5 a d t =
     (case sell_loop (td_price d) (td_quantity d) 0 (fifo_order (pos_lots a)) (pos_lots a) of
        (remaining, realized, walked) \<Rightarrow>
          let kept = filter (\<lambda>l. 0 < lot_quantity l) walked;
              lots = (if 0 < remaining
                      then kept @ [\<lparr>lot_id = uuid5 (td_trade_id d) ''short'',
                              lot_quantity = dneg remaining, lot_original = dneg remaining,
                              lot_price = td_price d, lot_acquired = t,
                              lot_trade = td_trade_id d\<rparr>]
                      else kept);
              a' = a\<lparr>pos_currency := td_currency d, pos_lots := lots,
                    pos_quantity := dsub (pos_quantity a) (td_quantity d),
                    pos_cost_basis := lots_cost lots,
                    pos_realized := dadd (pos_realized a) realized,
                    pos_version := Suc (pos_version a)\<rparr>
          in (a', [position_changed_event a', pnl_realized_event a' realized (td_price d)]))"

definition apply_split ::
  "position \<Rightarrow> event_data \<Rightarrow> (position \<times> downstream_event list) res" where
  "apply_split a ed = (case ed of
      TradeData _ \<Rightarrow> Inl TypeError
    | CaData d \<Rightarrow>
        bindE (mapE (\<lambda>l. bindE (ddivE (lot_price l) (ca_split_ratio d)) (\<lambda>p.
                 Inr (l\<lparr>lot_quantity := dmul (lot_quantity l) (ca_split_ratio d),
                        lot_original := dmul (lot_original l) (ca_split_ratio d),
                        lot_price := p\<rparr>))) (pos_lots a)) (\<lambda>lots.
        let a' = a\<lparr>pos_currency := ca_currency d, pos_lots := lots,
                  pos_quantity := dmul (pos_quantity a) (ca_split_ratio d),
                  pos_version := Suc (pos_version a)\<rparr>
        in Inr (a', [position_changed_event a'])))"

definition apply_dividend ::
  "position \<Rightarrow> event_data \<Rightarrow> (position \<times> downstream_event list) res" where
  "apply_dividend a ed = (case ed of
      TradeData _ \<Rightarrow> Inl TypeError
    | CaData d \<Rightarrow>
        let a' = a\<lparr>pos_currency := ca_currency d,
                  pos_realized := dadd (pos_realized a) (ca_dividend_amount d),
                  pos_version := Suc (pos_version a)\<rparr>
        in Inr (a', [position_changed_event a', pnl_realized_event a' (ca_dividend_amount d) 0]))"

definition apply_event ::
  "uuid5_fn \<Rightarrow> position \<Rightarrow> trade_event \<Rightarrow> (position \<times> downstream_event list) res" where
  "apply_event uuid5 a e = (case ev_type e of
      TRADE_BUY \<Rightarrow> (case ev_data e of
          TradeData d \<Rightarrow> Inr (apply_buy uuid5 a d (ev_timestamp e))
        | CaData _ \<Rightarrow> Inl AttributeError)
    | TRADE_SELL \<Rightarrow> (case ev_data e of
          TradeData d \<Rightarrow> Inr (apply_sell uuid5 a d (ev_timestamp e))
        | CaData _ \<Rightarrow> Inl AttributeError)
    | STOCK_SPLIT \<Rightarrow> apply_split a (ev_data e)
    | DIVIDEND_PAID \<Rightarrow> apply_dividend a (ev_data e)
    | _ \<Rightarrow> Inr (a, []))"

definition replay_step ::
  "uuid5_fn \<Rightarrow> uuid \<Rightarrow> string \<Rightarrow> position \<Rightarrow> trade_event \<Rightarrow> position res" where
  "replay_step uuid5 p i a e =
     (if data_portfolio (ev_data e) \<noteq> p \<or> data_instrument (ev_data e) \<noteq> i then Inl ValueError
      else bindE (apply_event uuid5 a e) (\<lambda>(a', _). Inr a'))"

definition from_events ::
  "uuid5_fn \<Rightarrow> uuid \<Rightarrow> string \<Rightarrow> trade_event list \<Rightarrow> position res" where
  "from_events uuid5 p i events = foldE (replay_step uuid5 p i) (empty_position p i) events"

section \<open>Asset-class strategies\<close>

datatype asset_class =
    EQUITY | FIXED_INCOME | OPTION | FUTURE | ETF | FX | FX_FORWARD | SWAP | PRIVATE

datatype strategy =
    EquityStrategy | FixedIncomeStrategy | OptionStrategy | FutureStrategy

record strategy_args =
  arg_accrued :: "dec option"
  arg_multiplier :: "dec option"
  arg_contract_size :: "dec option"

definition no_args :: strategy_args where
  "no_args = \<lparr>arg_accrued = None, arg_multiplier = None, arg_contract_size = None\<rparr>"

definition get_position_strategy :: "asset_class \<Rightarrow> strategy res" where
  "get_position_strategy c = (case c of
      EQUITY \<Rightarrow> Inr EquityStrategy
    | ETF \<Rightarrow> Inr EquityStrategy
    | FIXED_INCOME \<Rightarrow> Inr FixedIncomeStrategy
    | OPTION \<Rightarrow> Inr OptionStrategy
    | FUTURE \<Rightarrow> Inr FutureStrategy
    | _ \<Rightarrow> Inl KeyError)"

fun market_value :: "strategy \<Rightarrow> dec \<Rightarrow> dec \<Rightarrow> strategy_args \<Rightarrow> dec" where
  "market_value EquityStrategy q p k = dmul (dabs q) p"
| "market_value FixedIncomeStrategy q p k =
     dadd (ddiv (dmul q p) 100) (or_else (arg_accrued k) 0)"
| "market_value OptionStrategy q p k =
     dmul (dmul (dabs q) p) (or_else (arg_multiplier k) 100)"
| "market_value FutureStrategy q p k =
     dmul (dmul (dabs q) p) (or_else (arg_contract_size k) 1)"

fun unrealized_pnl :: "strategy \<Rightarrow> dec \<Rightarrow> dec \<Rightarrow> dec \<Rightarrow> strategy_args \<Rightarrow> dec" where
  "unrealized_pnl EquityStrategy q cost p k =
     (let mv = dmul (dabs q) p in if q < 0 then dsub cost mv else dsub mv cost)"
| "unrealized_pnl FixedIncomeStrategy q cost p k =
     (let dirty = dadd (ddiv (dmul q p) 100) (or_else (arg_accrued k) 0);
          c = ddiv (dmul q cost) 100
      in dsub dirty c)"
| "unrealized_pnl OptionStrategy q cost p k =
     (let mv = dmul (dmul (dabs q) p) (or_else (arg_multiplier k) 100)
      in if q < 0 then dsub cost mv else dsub mv cost)"
| "unrealized_pnl FutureStrategy q cost p k =
     (let mv = dmul (dmul (dabs q) p) (or_else (arg_contract_size k) 1)
      in if q < 0 then dsub cost mv else dsub mv cost)"

section \<open>The FIFO walk\<close>

text \<open>
  Exactness.  Quantities and prices are stored with eight decimal places; the facts below hold
  for lots on that grid whose total value stays under the 28 digits of the decimal context:
  \<open>Q\<close> bounds the quantity ever held, \<open>P\<close> every price.
\<close>

definition exact_bounds :: "rat \<Rightarrow> rat \<Rightarrow> bool" where
  "exact_bounds Q P \<longleftrightarrow> 0 \<le> Q \<and> 0 \<le> P \<and> Q \<le> 10 ^ 12 \<and> P \<le> 10 ^ 12 \<and> Q * P \<le> 10 ^ 12"

definition good_lot :: "rat \<Rightarrow> lot_state \<Rightarrow> bool" where
  "good_lot P l \<longleftrightarrow> on_grid 8 (lot_quantity l) \<and> on_grid 8 (lot_price l) \<and>
     0 \<le> lot_quantity l \<and> 0 \<le> lot_price l \<and> lot_price l \<le> P"

definition total_qty :: "lot_state list \<Rightarrow> rat" where
  "total_qty lots = sum_list (map lot_quantity lots)"

definition exact_cost :: "lot_state list \<Rightarrow> rat" where
  "exact_cost lots = sum_list (map (\<lambda>l. lot_quantity l * lot_price l) lots)"

lemma total_qty_simps [simp]:
  "total_qty [] = 0" "total_qty (l # ls) = lot_quantity l + total_qty ls"
  "total_qty (xs @ ys) = total_qty xs + total_qty ys"
  by (simp_all add: total_qty_def)

lemma exact_cost_simps [simp]:
  "exact_cost [] = 0" "exact_cost (l # ls) = lot_quantity l * lot_price l + exact_cost ls"
  "exact_cost (xs @ ys) = exact_cost xs + exact_cost ys"
  by (simp_all add: exact_cost_def)

lemma total_qty_update:
  "i < length lots \<Longrightarrow>
     total_qty (lots[i := l]) = total_qty lots - lot_quantity (lots ! i) + lot_quantity l"
  by (induction lots arbitrary: i) (auto split: nat.splits)

lemma exact_cost_update:
  "i < length lots \<Longrightarrow> exact_cost (lots[i := l]) =
     exact_cost lots - lot_quantity (lots ! i) * lot_price (lots ! i) + lot_quantity l * lot_price l"
  by (induction lots arbitrary: i) (auto split: nat.splits)

lemma total_qty_nonneg: "(\<And>l. l \<in> set lots \<Longrightarrow> 0 \<le> lot_quantity l) \<Longrightarrow> 0 \<le> total_qty lots"
  unfolding total_qty_def by (rule sum_list_map_nonneg)

lemma lot_quantity_le_total:
  "l \<in> set lots \<Longrightarrow> (\<And>l. l \<in> set lots \<Longrightarrow> 0 \<le> lot_quantity l) \<Longrightarrow> lot_quantity l \<le> total_qty lots"
proof (induction lots)
  case (Cons x xs)
  have "0 \<le> total_qty xs" by (rule total_qty_nonneg) (use Cons.prems in auto)
  with Cons show ?case by fastforce
qed simp

lemma exact_cost_le:
  "(\<And>l. l \<in> set lots \<Longrightarrow> good_lot P l) \<Longrightarrow> 0 \<le> exact_cost lots \<and> exact_cost lots \<le> P * total_qty lots"
proof (induction lots)
  case (Cons x xs)
  have x: "good_lot P x" by (rule Cons.prems) simp
  then have "0 \<le> lot_quantity x * lot_price x" "lot_quantity x * lot_price x \<le> P * lot_quantity x"
    by (simp_all add: good_lot_def mult.commute[of P] mult_left_mono)
  moreover have "0 \<le> exact_cost xs \<and> exact_cost xs \<le> P * total_qty xs"
    by (rule Cons.IH, rule Cons.prems) simp
  ultimately show ?case by (auto simp: distrib_left)
qed simp

lemma exact_boundsD:
  assumes "exact_bounds Q P"
  shows "0 \<le> Q" "0 \<le> P" "Q * 10 ^ 8 \<le> 10 ^ 28" "P * 10 ^ 8 \<le> 10 ^ 28" "Q * P * 10 ^ 16 \<le> 10 ^ 28"
  using assms by (auto simp: exact_bounds_def mult.commute)

lemma qty_exact:
  assumes "exact_bounds Q P" "on_grid 8 x" "\<bar>x\<bar> \<le> Q"
  shows "fix28 x = x"
proof (rule fix28_exact[OF assms(2)])
  have "\<bar>x\<bar> * 10 ^ 8 \<le> Q * 10 ^ 8" using assms(3) by simp
  also have "\<dots> \<le> 10 ^ 28" using assms(1) by (rule exact_boundsD)
  finally show "\<bar>x\<bar> * 10 ^ 8 \<le> 10 ^ 28" .
qed

lemma price_exact:
  assumes "exact_bounds Q P" "on_grid 8 x" "\<bar>x\<bar> \<le> P"
  shows "fix28 x = x"
proof (rule fix28_exact[OF assms(2)])
  have "\<bar>x\<bar> * 10 ^ 8 \<le> P * 10 ^ 8" using assms(3) by simp
  also have "\<dots> \<le> 10 ^ 28" using assms(1) by (rule exact_boundsD)
  finally show "\<bar>x\<bar> * 10 ^ 8 \<le> 10 ^ 28" .
qed

lemma value_exact:
  assumes "exact_bounds Q P" "on_grid 16 x" "\<bar>x\<bar> \<le> Q * P"
  shows "fix28 x = x"
proof (rule fix28_exact[OF assms(2)])
  have "\<bar>x\<bar> * 10 ^ 16 \<le> Q * P * 10 ^ 16" using assms(3) by (intro mult_right_mono) auto
  also have "\<dots> \<le> 10 ^ 28" using assms(1) by (rule exact_boundsD)
  finally show "\<bar>x\<bar> * 10 ^ 16 \<le> 10 ^ 28" .
qed

lemma on_grid_value: "on_grid 8 x \<Longrightarrow> on_grid 8 y \<Longrightarrow> on_grid 16 (x * y)"
  using on_grid_mult[of 8 x 8 y] by simp

text \<open>The reference for the walk: what is left of each lot, oldest first.\<close>

fun fifo_consume :: "rat \<Rightarrow> rat list \<Rightarrow> rat list" where
  "fifo_consume r [] = []"
| "fifo_consume r (q # qs) = (q - min r q) # fifo_consume (r - min r q) qs"

lemma fifo_consume_0: "(\<And>q. q \<in> set qs \<Longrightarrow> 0 \<le> q) \<Longrightarrow> fifo_consume 0 qs = qs"
  by (induction qs) (auto simp: min_def)

text \<open>
  One walk over the lots \<open>is\<close>: it consumes \<open>r - r'\<close>, never more than a lot holds; the money
  realised is the proceeds less the cost of what was consumed; other lots are untouched.
\<close>

definition walk_ok ::
  "rat \<Rightarrow> dec \<Rightarrow> nat list \<Rightarrow> dec \<Rightarrow> dec \<Rightarrow> lot_state list \<Rightarrow> dec \<times> dec \<times> lot_state list \<Rightarrow> bool" where
  "walk_ok P price is r g lots res = (case res of (r', g', lots') \<Rightarrow>
     length lots' = length lots \<and>
     (\<forall>l\<in>set lots'. good_lot P l) \<and>
     r' = max 0 (r - sum_list (map (\<lambda>i. lot_quantity (lots ! i)) is)) \<and>
     total_qty lots' = total_qty lots - (r - r') \<and>
     g' - g = price * (r - r') - (exact_cost lots - exact_cost lots') \<and>
     on_grid 16 g' \<and> \<bar>g'\<bar> \<le> \<bar>g\<bar> + P * (r - r') \<and>
     map (\<lambda>i. lot_quantity (lots' ! i)) is
       = fifo_consume r (map (\<lambda>i. lot_quantity (lots ! i)) is) \<and>
     (\<forall>i. i \<notin> set is \<longrightarrow> i < length lots \<longrightarrow> lots' ! i = lots ! i))"

lemma walk_ok_step:
  assumes i: "i < length lots" "i \<notin> set is"
    and sold: "sold = min r (lot_quantity (lots ! i))"
    and lots1: "lots1 = lots[i := (lots ! i)\<lparr>lot_quantity := lot_quantity (lots ! i) - sold\<rparr>]"
    and g1: "g1 = g + sold * (price - lot_price (lots ! i))"
    and b: "\<bar>g1\<bar> \<le> \<bar>g\<bar> + P * sold" and r: "0 \<le> r"
    and q: "\<forall>j\<in>set is. 0 < lot_quantity (lots ! j)" "0 < lot_quantity (lots ! i)"
    and ok: "walk_ok P price is (r - sold) g1 lots1 res"
  shows "walk_ok P price (i # is) r g lots res"
proof -
  obtain r' g' lots' where res: "res = (r', g', lots')" by (metis prod_cases3)
  have same: "lot_quantity (lots1 ! j) = lot_quantity (lots ! j)" if "j \<in> set is" for j
    using that i by (auto simp: lots1 nth_list_update)
  then have m: "map (\<lambda>i. lot_quantity (lots1 ! i)) is = map (\<lambda>i. lot_quantity (lots ! i)) is"
    by simp
  have nn: "0 \<le> sum_list (map (\<lambda>i. lot_quantity (lots ! i)) is)"
    by (rule sum_list_map_nonneg) (use q in force)
  have tq: "total_qty lots1 = total_qty lots - sold"
    using i by (simp add: lots1 total_qty_update)
  have ec: "exact_cost lots1 = exact_cost lots - sold * lot_price (lots ! i)"
    using i by (simp add: lots1 exact_cost_update left_diff_distrib)
  have li: "lot_quantity (lots' ! i) = lot_quantity (lots ! i) - sold"
    using ok i by (auto simp: walk_ok_def res lots1)
  have rr: "max 0 (r - sold - S) = max 0 (r - (lot_quantity (lots ! i) + S))"
    if "0 \<le> S" for S :: rat
    using that r q(2) by (auto simp: sold min_def max_def)
  note ok' = ok[unfolded walk_ok_def res prod.case m]
  from ok' have gq: "g' - g1 = price * (r - sold - r') - (exact_cost lots1 - exact_cost lots')"
    and gd: "\<bar>g'\<bar> \<le> \<bar>g1\<bar> + P * (r - sold - r')"
    by blast+
  have "r' = max 0 (r - sum_list (map (\<lambda>i. lot_quantity (lots ! i)) (i # is)))"
    using ok' rr[OF nn] by simp
  moreover have "g' - g = price * (r - r') - (exact_cost lots - exact_cost lots')"
    using gq by (simp add: g1 ec algebra_simps)
  moreover have "\<bar>g'\<bar> \<le> \<bar>g\<bar> + P * (r - r')"
  proof -
    have "P * (r - sold - r') = P * (r - r') - P * sold" by (simp add: algebra_simps)
    with gd b show ?thesis by linarith
  qed
  moreover have "total_qty lots' = total_qty lots - (r - r')"
  proof -
    from ok' have "total_qty lots' = total_qty lots1 - (r - sold - r')" by blast
    then show ?thesis using tq by simp
  qed
  moreover have "\<forall>j. j \<notin> set (i # is) \<longrightarrow> j < length lots \<longrightarrow> lots' ! j = lots ! j"
    using ok' by (auto simp: lots1)
  moreover have "map (\<lambda>i. lot_quantity (lots' ! i)) (i # is)
      = fifo_consume r (map (\<lambda>i. lot_quantity (lots ! i)) (i # is))"
    using ok' li by (simp add: sold)
  moreover have "length lots' = length lots" using ok' by (simp add: lots1)
  moreover have "(\<forall>l\<in>set lots'. good_lot P l) \<and> on_grid 16 g'" using ok' by blast
  ultimately show ?thesis unfolding walk_ok_def res prod.case by blast
qed

lemma sell_loop_walk:
  assumes eb: "exact_bounds Q P" and price: "on_grid 8 price" "0 \<le> price" "price \<le> P"
  shows "\<lbrakk>distinct is; \<forall>i\<in>set is. i < length lots \<and> 0 < lot_quantity (lots ! i);
     \<forall>l\<in>set lots. good_lot P l; total_qty lots \<le> Q; on_grid 8 r; 0 \<le> r; r \<le> Q;
     on_grid 16 g; \<bar>g\<bar> + P * r \<le> Q * P\<rbrakk>
     \<Longrightarrow> walk_ok P price is r g lots (sell_loop price r g is lots)"
proof (induction "is" arbitrary: r g lots)
  case Nil
  then show ?case by (simp add: walk_ok_def)
next
  case (Cons i "is")
  define lot where "lot = lots ! i"
  define sold where "sold = min r (lot_quantity lot)"
  define lots1 where "lots1 = lots[i := lot\<lparr>lot_quantity := lot_quantity lot - sold\<rparr>]"
  define g1 where "g1 = g + sold * (price - lot_price lot)"
  from Cons.prems have i: "i < length lots" "i \<notin> set is" and q: "0 < lot_quantity lot"
    and qs: "\<forall>j\<in>set is. 0 < lot_quantity (lots ! j)"
    by (auto simp: lot_def)
  have gl: "good_lot P lot" using Cons.prems i by (simp add: lot_def)
  have P0: "0 \<le> P" using eb by (rule exact_boundsD)
  show ?case
  proof (cases "r \<le> 0")
    case True
    with Cons.prems have r0: "r = 0" by simp
    have "0 \<le> sum_list (map (\<lambda>i. lot_quantity (lots ! i)) (i # is))"
      by (rule sum_list_map_nonneg) (use Cons.prems in force)
    moreover have "fifo_consume 0 (map (\<lambda>i. lot_quantity (lots ! i)) (i # is))
        = map (\<lambda>i. lot_quantity (lots ! i)) (i # is)"
      by (rule fifo_consume_0) (use Cons.prems in force)
    ultimately show ?thesis using r0 Cons.prems by (simp add: walk_ok_def Let_def)
  next
    case False
    have s: "0 \<le> sold" "sold \<le> r" "sold \<le> lot_quantity lot" "on_grid 8 sold"
      using False q gl Cons.prems by (auto simp: sold_def min_def good_lot_def)
    have lq: "lot_quantity lot \<le> Q"
    proof -
      have "lot_quantity lot \<le> total_qty lots"
        by (rule lot_quantity_le_total) (use Cons.prems i in \<open>auto simp: lot_def good_lot_def\<close>)
      with Cons.prems show ?thesis by simp
    qed
    have e1: "dsub r sold = r - sold"
      unfolding dsub_def by (rule qty_exact[OF eb]) (use s Cons.prems in auto)
    have e2: "dsub (lot_quantity lot) sold = lot_quantity lot - sold"
      unfolding dsub_def by (rule qty_exact[OF eb]) (use s lq gl in \<open>auto simp: good_lot_def\<close>)
    have dp: "on_grid 8 (price - lot_price lot)" "\<bar>price - lot_price lot\<bar> \<le> P"
      using price gl by (auto simp: good_lot_def)
    have e3: "dsub price (lot_price lot) = price - lot_price lot"
      unfolding dsub_def by (rule price_exact[OF eb dp])
    have pl: "\<bar>sold * (price - lot_price lot)\<bar> \<le> P * sold"
      using s dp(2) by (simp add: abs_mult mult.commute[of P] mult_left_mono)
    have og: "on_grid 16 (sold * (price - lot_price lot))"
      using s dp by (intro on_grid_value)
    have Ps: "P * sold \<le> P * r" using s P0 by (simp add: mult_left_mono)
    have e4: "dmul sold (price - lot_price lot) = sold * (price - lot_price lot)"
      unfolding dmul_def by (rule value_exact[OF eb og]) (use pl Ps Cons.prems in linarith)
    have gb: "\<bar>g1\<bar> \<le> \<bar>g\<bar> + P * sold" using pl unfolding g1_def by linarith
    have g1: "on_grid 16 g1" using og Cons.prems by (auto simp: g1_def)
    have e5: "dadd g (sold * (price - lot_price lot)) = g1"
      unfolding dadd_def g1_def[symmetric]
      by (rule value_exact[OF eb g1]) (use gb Ps Cons.prems in linarith)
    have loop: "sell_loop price r g (i # is) lots = sell_loop price (r - sold) g1 is lots1"
      using False q e1 e2 e3 e4 e5
      by (simp add: Let_def lot_def[symmetric] sold_def[symmetric] lots1_def)
    have gls: "\<forall>l\<in>set lots1. good_lot P l"
      using Cons.prems gl s unfolding lots1_def
      by (auto simp: good_lot_def dest!: set_update_subset_insert[THEN subsetD])
    have tq: "total_qty lots1 \<le> Q"
      using i s Cons.prems by (simp add: lots1_def total_qty_update lot_def)
    have idx: "\<forall>j\<in>set is. j < length lots1 \<and> 0 < lot_quantity (lots1 ! j)"
      using Cons.prems i by (auto simp: lots1_def nth_list_update)
    have "walk_ok P price is (r - sold) g1 lots1 (sell_loop price (r - sold) g1 is lots1)"
      by (rule Cons.IH[OF _ idx gls tq _ _ _ g1])
        (use Cons.prems s gb in \<open>auto simp: right_diff_distrib\<close>)
    then show ?thesis
      unfolding loop
      by (intro walk_ok_step[OF i _ _ _ gb _ qs])
        (use q Cons.prems in \<open>simp_all add: lot_def sold_def lots1_def g1_def\<close>)
  qed
qed

section \<open>Selling and buying long positions\<close>

abbreviation lot_key :: "lot_state \<Rightarrow> timestamp \<times> uuid" where
  "lot_key l \<equiv> (lot_acquired l, lot_id l)"

lemma map_insort_key: "map f (insort_key (\<lambda>x. g (f x)) x xs) = insort_key g (f x) (map f xs)"
  by (induction xs) auto

lemma map_sort_key: "map f (sort_key (\<lambda>x. g (f x)) xs) = sort_key g (map f xs)"
  by (induction xs) (simp_all add: map_insort_key)

lemma fifo_order_nth: "map ((!) lots) (fifo_order lots) = sort_key lot_key lots"
  using map_sort_key[of "(!) lots" lot_key "[0..<length lots]"]
  by (simp add: fifo_order_def map_nth)

lemma fifo_order_props [simp]:
  "distinct (fifo_order lots)" "set (fifo_order lots) = {0..<length lots}"
  by (simp_all add: fifo_order_def)

lemma sum_fifo_order:
  "sum_list (map (\<lambda>i. lot_quantity (lots ! i)) (fifo_order lots)) = total_qty lots"
proof -
  have "mset (map lot_quantity (map ((!) lots) (fifo_order lots))) = mset (map lot_quantity lots)"
    by (simp only: fifo_order_nth mset_map mset_sort)
  then have "sum_list (map lot_quantity (map ((!) lots) (fifo_order lots))) = total_qty lots"
    unfolding total_qty_def by (metis sum_mset_sum_list)
  then show ?thesis by (simp add: comp_def)
qed

lemma insort_key_eq: "(\<And>y. y \<in> insert x (set xs) \<Longrightarrow> f y = g y) \<Longrightarrow> insort_key f x xs = insort_key g x xs"
  by (induction xs) auto

lemma sort_key_eq: "(\<And>x. x \<in> set xs \<Longrightarrow> f x = g x) \<Longrightarrow> sort_key f xs = sort_key g xs"
proof (induction xs)
  case (Cons x xs)
  then have "sort_key f xs = sort_key g xs" by simp
  moreover have "insort_key f x (sort_key g xs) = insort_key g x (sort_key g xs)"
    by (rule insort_key_eq) (use Cons.prems in auto)
  ultimately show ?case by simp
qed simp

lemma lot_key_update: "lot_key (xs[i := (xs ! i)\<lparr>lot_quantity := q\<rparr>] ! j) = lot_key (xs ! j)"
  by (cases "i = j"; cases "i < length xs") (auto simp: list_update_beyond)

lemma sell_loop_keys:
  "sell_loop price r g is lots = (r', g', lots') \<Longrightarrow>
     length lots' = length lots \<and> (\<forall>i<length lots. lot_key (lots' ! i) = lot_key (lots ! i))"
proof (induction price r g "is" lots rule: sell_loop.induct)
  case (2 price r g i "is" lots)
  show ?case
  proof (cases "r \<le> 0 \<or> lot_quantity (lots ! i) \<le> 0")
    case False
    with 2 show ?thesis by (auto simp: Let_def lot_key_update[simplified])
  qed (use 2 in \<open>auto simp: Let_def\<close>)
qed simp

lemma fifo_order_cong:
  assumes "length ys = length xs" "\<And>i. i < length xs \<Longrightarrow> lot_key (ys ! i) = lot_key (xs ! i)"
  shows "fifo_order ys = fifo_order xs"
  unfolding fifo_order_def assms(1) by (rule sort_key_eq) (use assms(2) in simp)

lemma lots_cost_exact:
  assumes eb: "exact_bounds Q P" and gl: "\<forall>l\<in>set lots. good_lot P l" and tq: "total_qty lots \<le> Q"
  shows "lots_cost lots = exact_cost lots"
proof -
  have P0: "0 \<le> P" using eb by (rule exact_boundsD)
  have one: "dmul (dabs (lot_quantity l)) (lot_price l) = lot_quantity l * lot_price l
      \<and> on_grid 16 (lot_quantity l * lot_price l) \<and> 0 \<le> lot_quantity l * lot_price l"
    if "l \<in> set lots" for l
  proof -
    from gl that have g: "good_lot P l" by simp
    have "lot_quantity l \<le> total_qty lots"
      using that gl by (intro lot_quantity_le_total) (auto simp: good_lot_def)
    with tq have le: "lot_quantity l \<le> Q" by simp
    from g have f: "fix28 (lot_quantity l) = lot_quantity l"
      by (intro qty_exact[OF eb]) (use le in \<open>auto simp: good_lot_def\<close>)
    have og: "on_grid 16 (lot_quantity l * lot_price l)"
      using g by (intro on_grid_value) (auto simp: good_lot_def)
    have "lot_quantity l * lot_price l \<le> Q * P"
      using g le P0 by (intro mult_mono) (auto simp: good_lot_def)
    then have "fix28 (lot_quantity l * lot_price l) = lot_quantity l * lot_price l"
      using g by (intro value_exact[OF eb og]) (auto simp: good_lot_def)
    with f g og show ?thesis by (simp add: dmul_def dabs_def good_lot_def)
  qed
  have ml: "map (\<lambda>l. dmul (dabs (lot_quantity l)) (lot_price l)) lots
      = map (\<lambda>l. lot_quantity l * lot_price l) lots"
    using one by simp
  have "exact_cost lots \<le> P * total_qty lots" using exact_cost_le[of lots P] gl by blast
  also have "\<dots> \<le> P * Q" using tq P0 by (rule mult_left_mono)
  finally have ec: "exact_cost lots * 10 ^ 16 \<le> 10 ^ 28"
    using exact_boundsD(5)[OF eb] by (simp add: mult.commute)
  have ab: "map abs (map (\<lambda>l. lot_quantity l * lot_price l) lots)
      = map (\<lambda>l. lot_quantity l * lot_price l) lots"
    using one by simp
  have "dsum (map (\<lambda>l. lot_quantity l * lot_price l) lots) = exact_cost lots"
    unfolding exact_cost_def
    by (rule dsum_exact[of _ 16], use one in force, unfold ab) (use ec in \<open>simp add: exact_cost_def\<close>)
  then show ?thesis by (simp only: lots_cost_def ml)
qed

text \<open>
  The invariant of a long position: every lot is long, the aggregate's quantity and cost basis
  are those of its lots, and the profit realised so far is bounded by what \<open>B\<close> bought shares
  can have earned.
\<close>

definition long_inv :: "rat \<Rightarrow> rat \<Rightarrow> position \<Rightarrow> bool" where
  "long_inv P B a \<longleftrightarrow>
     (\<forall>l\<in>set (pos_lots a). good_lot P l \<and> 0 < lot_quantity l) \<and>
     pos_quantity a = total_qty (pos_lots a) \<and> pos_cost_basis a = exact_cost (pos_lots a) \<and>
     total_qty (pos_lots a) \<le> B \<and>
     on_grid 16 (pos_realized a) \<and> \<bar>pos_realized a\<bar> \<le> P * (B - total_qty (pos_lots a))"

definition good_trade :: "rat \<Rightarrow> trade_event_data \<Rightarrow> bool" where
  "good_trade P d \<longleftrightarrow> on_grid 8 (td_quantity d) \<and> on_grid 8 (td_price d) \<and>
     0 < td_quantity d \<and> 0 \<le> td_price d \<and> td_price d \<le> P"

lemma long_inv_empty: "0 \<le> P \<Longrightarrow> long_inv P 0 (empty_position p i)"
  by (simp add: long_inv_def empty_position_def)

lemma long_inv_buy:
  assumes inv: "long_inv P B a" and d: "good_trade P d" and eb: "exact_bounds (B + td_quantity d) P"
  shows "long_inv P (B + td_quantity d) (fst (apply_buy u a d t))"
    and "pos_quantity (fst (apply_buy u a d t)) = pos_quantity a + td_quantity d"
    and "pos_cost_basis (fst (apply_buy u a d t)) = pos_cost_basis a + td_quantity d * td_price d"
    and "pos_realized (fst (apply_buy u a d t)) = pos_realized a"
proof -
  let ?q = "td_quantity d" and ?p = "td_price d" and ?ls = "pos_lots a"
  have P0: "0 \<le> P" using eb by (rule exact_boundsD)
  have gl: "\<forall>l\<in>set ?ls. good_lot P l" using inv by (simp add: long_inv_def)
  have tq: "0 \<le> total_qty ?ls" "total_qty ?ls \<le> B"
    using inv by (auto simp: long_inv_def good_lot_def intro!: total_qty_nonneg)
  have oq: "on_grid 8 (total_qty ?ls + ?q)"
    using gl d unfolding total_qty_def
    by (intro on_grid_add on_grid_sum_list) (auto simp: good_lot_def good_trade_def)
  have e1: "dadd (pos_quantity a) ?q = pos_quantity a + ?q"
    unfolding dadd_def
    by (rule qty_exact[OF eb]) (use inv d tq oq in \<open>auto simp: long_inv_def good_trade_def\<close>)
  have og: "on_grid 16 (?q * ?p)" using d by (intro on_grid_value) (auto simp: good_trade_def)
  have qp: "0 \<le> ?q * ?p" "?q * ?p \<le> ?q * P" using d by (auto simp: good_trade_def)
  have "?q * P \<le> (B + ?q) * P" using tq P0 by (intro mult_right_mono) auto
  with qp have e2: "dmul ?q ?p = ?q * ?p"
    unfolding dmul_def by (intro value_exact[OF eb og]) linarith
  have ec: "0 \<le> exact_cost ?ls" "exact_cost ?ls \<le> P * total_qty ?ls"
    using exact_cost_le[of ?ls P] gl by blast+
  have "P * total_qty ?ls \<le> P * B" using tq P0 by (simp add: mult_left_mono)
  then have cb: "exact_cost ?ls + ?q * ?p \<le> (B + ?q) * P"
    using ec qp by (simp add: algebra_simps)
  have oc: "on_grid 16 (exact_cost ?ls + ?q * ?p)"
    using gl og unfolding exact_cost_def
    by (intro on_grid_add on_grid_sum_list) (auto simp: good_lot_def intro!: on_grid_value)
  have e3: "dadd (pos_cost_basis a) (?q * ?p) = pos_cost_basis a + ?q * ?p"
    unfolding dadd_def
    by (rule value_exact[OF eb]) (use inv oc cb ec qp in \<open>auto simp: long_inv_def\<close>)
  show "pos_quantity (fst (apply_buy u a d t)) = pos_quantity a + ?q"
    and "pos_cost_basis (fst (apply_buy u a d t)) = pos_cost_basis a + ?q * ?p"
    and "pos_realized (fst (apply_buy u a d t)) = pos_realized a"
    using e1 e2 e3 by (simp_all add: apply_buy_def Let_def)
  show "long_inv P (B + ?q) (fst (apply_buy u a d t))"
    using inv d e1 e2 e3
    by (auto simp: long_inv_def apply_buy_def Let_def good_lot_def good_trade_def)
qed

lemma total_qty_filter_pos:
  "(\<And>l. l \<in> set lots \<Longrightarrow> 0 \<le> lot_quantity l) \<Longrightarrow>
     total_qty (filter (\<lambda>l. 0 < lot_quantity l) lots) = total_qty lots \<and>
     exact_cost (filter (\<lambda>l. 0 < lot_quantity l) lots) = exact_cost lots"
  unfolding total_qty_def exact_cost_def
  by (intro conjI sum_list_filter_zero) force+

lemma sell_walk_of_inv:
  assumes inv: "long_inv P B a" and d: "good_trade P d"
    and eb: "exact_bounds (B + td_quantity d) P"
  obtains r' g lots' where
    "sell_loop (td_price d) (td_quantity d) 0 (fifo_order (pos_lots a)) (pos_lots a) = (r', g, lots')"
    "walk_ok P (td_price d) (fifo_order (pos_lots a)) (td_quantity d) 0 (pos_lots a) (r', g, lots')"
    "r' = max 0 (td_quantity d - pos_quantity a)"
proof -
  have P0: "0 \<le> P" using eb by (rule exact_boundsD)
  have "0 \<le> total_qty (pos_lots a)" "total_qty (pos_lots a) \<le> B"
    using inv by (auto simp: long_inv_def good_lot_def intro!: total_qty_nonneg)
  then have B: "0 \<le> B" "total_qty (pos_lots a) \<le> B + td_quantity d"
    using d by (auto simp: good_trade_def)
  have Pq: "\<bar>0\<bar> + P * td_quantity d \<le> (B + td_quantity d) * P"
    using B P0 by (simp add: algebra_simps)
  obtain r' g lots' where w: "sell_loop (td_price d) (td_quantity d) 0
      (fifo_order (pos_lots a)) (pos_lots a) = (r', g, lots')"
    by (metis prod_cases3)
  have "walk_ok P (td_price d) (fifo_order (pos_lots a)) (td_quantity d) 0 (pos_lots a)
      (sell_loop (td_price d) (td_quantity d) 0 (fifo_order (pos_lots a)) (pos_lots a))"
    by (rule sell_loop_walk[OF eb])
      (use inv d B Pq in \<open>auto simp: long_inv_def good_trade_def\<close>)
  then have ok: "walk_ok P (td_price d) (fifo_order (pos_lots a)) (td_quantity d) 0 (pos_lots a)
      (r', g, lots')" by (simp only: w)
  then have "r' = max 0 (td_quantity d - total_qty (pos_lots a))"
    unfolding walk_ok_def prod.case sum_fifo_order by blast
  then show thesis using that[OF w ok] inv by (simp add: long_inv_def)
qed

lemma apply_sell_long:
  fixes u :: uuid5_fn and t :: timestamp
  assumes inv: "long_inv P B a" and d: "good_trade P d"
    and eb: "exact_bounds (B + td_quantity d) P" and le: "td_quantity d \<le> pos_quantity a"
  defines "a' \<equiv> fst (apply_sell u a d t)"
  shows "long_inv P B a'"
    and "pos_quantity a' = pos_quantity a - td_quantity d"
    and "pos_realized a' - pos_realized a
           = td_quantity d * td_price d - (pos_cost_basis a - pos_cost_basis a')"
    and "map lot_quantity (sort_key lot_key (pos_lots a'))
           = filter (\<lambda>q. 0 < q) (fifo_consume (td_quantity d)
               (map lot_quantity (sort_key lot_key (pos_lots a))))"
proof -
  let ?q = "td_quantity d" and ?p = "td_price d" and ?ls = "pos_lots a"
  obtain r' g ws where w: "sell_loop ?p ?q 0 (fifo_order ?ls) ?ls = (r', g, ws)"
    and ok: "walk_ok P ?p (fifo_order ?ls) ?q 0 ?ls (r', g, ws)" and r': "r' = max 0 (?q - pos_quantity a)"
    by (rule sell_walk_of_inv[OF inv d eb])
  have r0: "r' = 0" using r' le by simp
  note ok' = ok[unfolded walk_ok_def prod.case r0]
  let ?kept = "filter (\<lambda>l. 0 < lot_quantity l) ws"
  have P0: "0 \<le> P" using eb by (rule exact_boundsD)
  have gl: "\<forall>l\<in>set ws. good_lot P l" using ok' by blast
  have tq: "total_qty ws = total_qty ?ls - ?q" using ok' by simp
  have kept: "total_qty ?kept = total_qty ws" "exact_cost ?kept = exact_cost ws"
    using total_qty_filter_pos[of ws] gl by (auto simp: good_lot_def)
  have q: "0 < ?q" using d by (simp add: good_trade_def)
  have inv': "pos_quantity a = total_qty ?ls" "pos_cost_basis a = exact_cost ?ls" "total_qty ?ls \<le> B"
    using inv by (auto simp: long_inv_def)
  have e1: "dsub (pos_quantity a) ?q = pos_quantity a - ?q"
    unfolding dsub_def
  proof (rule qty_exact[OF eb])
    show "on_grid 8 (pos_quantity a - ?q)"
      using inv d unfolding long_inv_def total_qty_def
      by (auto simp: good_lot_def good_trade_def intro!: on_grid_diff on_grid_sum_list)
    show "\<bar>pos_quantity a - ?q\<bar> \<le> B + ?q" using inv' le q by simp
  qed
  have lc: "lots_cost ?kept = exact_cost ?kept"
    by (rule lots_cost_exact[OF eb]) (use gl kept tq inv' q in auto)
  have gP: "\<bar>g\<bar> \<le> P * ?q" and og: "on_grid 16 g" using ok' by auto
  have rb: "\<bar>pos_realized a + g\<bar> \<le> P * (B - total_qty ws)"
  proof -
    have "\<bar>pos_realized a\<bar> \<le> P * (B - total_qty ?ls)" using inv by (simp add: long_inv_def)
    then have "\<bar>pos_realized a + g\<bar> \<le> P * (B - total_qty ?ls) + P * ?q" using gP by linarith
    then show ?thesis by (simp add: tq algebra_simps)
  qed
  have e2: "dadd (pos_realized a) g = pos_realized a + g"
    unfolding dadd_def
  proof (rule value_exact[OF eb])
    show "on_grid 16 (pos_realized a + g)" using inv og by (auto simp: long_inv_def)
    have "0 \<le> total_qty ws" by (rule total_qty_nonneg) (use gl in \<open>auto simp: good_lot_def\<close>)
    then have "P * (B - total_qty ws) \<le> P * (B + ?q)" using P0 q by (intro mult_left_mono) auto
    with rb show "\<bar>pos_realized a + g\<bar> \<le> (B + ?q) * P" by (simp add: mult.commute)
  qed
  have a': "pos_lots a' = ?kept" "pos_quantity a' = pos_quantity a - ?q"
    "pos_cost_basis a' = exact_cost ws" "pos_realized a' = pos_realized a + g"
    using r0 e1 e2 lc kept by (simp_all add: a'_def apply_sell_def w Let_def)
  then show "pos_quantity a' = pos_quantity a - ?q" by simp
  show "long_inv P B a'"
    using a' gl kept tq inv' q rb inv og unfolding long_inv_def by (auto intro: on_grid_add)
  have "g = ?p * ?q - (exact_cost ?ls - exact_cost ws)" using ok' by simp
  then show "pos_realized a' - pos_realized a
      = ?q * ?p - (pos_cost_basis a - pos_cost_basis a')"
    using a' inv' by (simp add: mult.commute)
  have fo: "fifo_order ws = fifo_order ?ls"
    using sell_loop_keys[OF w] by (intro fifo_order_cong) auto
  have qs: "map lot_quantity (sort_key lot_key xs) = map (\<lambda>i. lot_quantity (xs ! i)) (fifo_order xs)"
    for xs by (simp add: fifo_order_nth[symmetric])
  have "map (\<lambda>i. lot_quantity (ws ! i)) (fifo_order ?ls)
      = fifo_consume ?q (map (\<lambda>i. lot_quantity (?ls ! i)) (fifo_order ?ls))"
    using ok' by blast
  then have all: "map lot_quantity (sort_key lot_key ws)
      = fifo_consume ?q (map lot_quantity (sort_key lot_key ?ls))"
    by (simp only: qs fo)
  have "map lot_quantity (sort_key lot_key ?kept)
      = filter (\<lambda>q. 0 < q) (map lot_quantity (sort_key lot_key ws))"
    by (simp add: filter_sort[symmetric] filter_map comp_def)
  then show "map lot_quantity (sort_key lot_key (pos_lots a'))
      = filter (\<lambda>q. 0 < q) (fifo_consume ?q (map lot_quantity (sort_key lot_key ?ls)))"
    by (simp only: a'(1) all)
qed

lemma apply_sell_oversell:
  assumes inv: "long_inv P B a" and d: "good_trade P d"
    and eb: "exact_bounds (B + td_quantity d) P" and gt: "pos_quantity a < td_quantity d"
  shows "pos_quantity (fst (apply_sell u a d t)) = pos_quantity a - td_quantity d"
    and "\<exists>l. pos_lots (fst (apply_sell u a d t)) = [l] \<and>
           lot_quantity l = pos_quantity a - td_quantity d \<and> lot_price l = td_price d"
    and "pos_realized (fst (apply_sell u a d t))
           = fix28 (pos_realized a + (pos_quantity a * td_price d - pos_cost_basis a))"
proof -
  let ?q = "td_quantity d" and ?p = "td_price d" and ?ls = "pos_lots a"
  obtain r' g ws where w: "sell_loop ?p ?q 0 (fifo_order ?ls) ?ls = (r', g, ws)"
    and ok: "walk_ok P ?p (fifo_order ?ls) ?q 0 ?ls (r', g, ws)" and r': "r' = max 0 (?q - pos_quantity a)"
    by (rule sell_walk_of_inv[OF inv d eb])
  have r: "r' = ?q - pos_quantity a" "0 < r'" using r' gt by simp_all
  note ok' = ok[unfolded walk_ok_def prod.case]
  have gl: "\<forall>l\<in>set ws. good_lot P l" using ok' by blast
  have inv': "pos_quantity a = total_qty ?ls" "pos_cost_basis a = exact_cost ?ls"
    using inv by (auto simp: long_inv_def)
  have "total_qty ws = total_qty ?ls - (?q - r')" using ok' by blast
  then have z: "total_qty ws = 0" using r inv' by simp
  have none: "filter (\<lambda>l. 0 < lot_quantity l) ws = []"
  proof -
    have "lot_quantity l \<le> 0" if "l \<in> set ws" for l
      using lot_quantity_le_total[OF that] gl z by (auto simp: good_lot_def)
    then show ?thesis by (auto simp: filter_empty_conv not_less)
  qed
  have zc: "exact_cost ws = 0"
    using exact_cost_le[of ws P] gl z by simp
  have og: "on_grid 8 (?q - pos_quantity a)"
    using inv d unfolding long_inv_def total_qty_def
    by (auto simp: good_lot_def good_trade_def intro!: on_grid_diff on_grid_sum_list)
  have bnd: "0 \<le> pos_quantity a" "pos_quantity a \<le> B"
    using inv by (auto simp: long_inv_def good_lot_def intro!: total_qty_nonneg)
  have e: "fix28 (?q - pos_quantity a) = ?q - pos_quantity a"
    by (rule qty_exact[OF eb og]) (use gt bnd in auto)
  then have e1: "dsub (pos_quantity a) ?q = pos_quantity a - ?q"
    unfolding dsub_def using fix28_uminus[of "?q - pos_quantity a"] by simp
  then have e2: "fix28 (pos_quantity a - ?q) = pos_quantity a - ?q" by (simp add: dsub_def)
  have "g - 0 = ?p * (?q - r') - (exact_cost ?ls - exact_cost ws)" using ok' by blast
  then have g: "g = pos_quantity a * ?p - pos_cost_basis a" using r zc inv' by (simp add: mult.commute)
  show "pos_quantity (fst (apply_sell u a d t)) = pos_quantity a - ?q"
    "\<exists>l. pos_lots (fst (apply_sell u a d t)) = [l] \<and>
       lot_quantity l = pos_quantity a - ?q \<and> lot_price l = ?p"
    "pos_realized (fst (apply_sell u a d t))
       = fix28 (pos_realized a + (pos_quantity a * ?p - pos_cost_basis a))"
    using r e e1 e2 none g by (simp_all add: apply_sell_def w Let_def dneg_def dadd_def)
qed

section \<open>Replaying a trade history\<close>

fun bought :: "trade_event list \<Rightarrow> rat" where
  "bought [] = 0"
| "bought (e # es) = (case (ev_type e, ev_data e) of
      (TRADE_BUY, TradeData d) \<Rightarrow> td_quantity d + bought es
    | _ \<Rightarrow> bought es)"

fun net_quantity :: "trade_event list \<Rightarrow> rat" where
  "net_quantity [] = 0"
| "net_quantity (e # es) = (case (ev_type e, ev_data e) of
      (TRADE_BUY, TradeData d) \<Rightarrow> td_quantity d + net_quantity es
    | (TRADE_SELL, TradeData d) \<Rightarrow> net_quantity es - td_quantity d
    | _ \<Rightarrow> net_quantity es)"

fun cash_paid :: "trade_event list \<Rightarrow> rat" where
  \<comment> \<open>what the trades cost less what they brought in\<close>
  "cash_paid [] = 0"
| "cash_paid (e # es) = (case (ev_type e, ev_data e) of
      (TRADE_BUY, TradeData d) \<Rightarrow> td_quantity d * td_price d + cash_paid es
    | (TRADE_SELL, TradeData d) \<Rightarrow> cash_paid es - td_quantity d * td_price d
    | _ \<Rightarrow> cash_paid es)"

fun long_only :: "rat \<Rightarrow> uuid \<Rightarrow> string \<Rightarrow> rat \<Rightarrow> trade_event list \<Rightarrow> bool" where
  \<comment> \<open>buys and sells of one position that never sell more than is held\<close>
  "long_only P p i h [] \<longleftrightarrow> True"
| "long_only P p i h (e # es) \<longleftrightarrow> (case ev_data e of
      CaData _ \<Rightarrow> False
    | TradeData d \<Rightarrow> good_trade P d \<and> td_portfolio d = p \<and> td_instrument d = i \<and>
        (if ev_type e = TRADE_BUY then long_only P p i (h + td_quantity d) es
         else if ev_type e = TRADE_SELL then td_quantity d \<le> h \<and> long_only P p i (h - td_quantity d) es
         else False))"

lemma bought_nonneg: "long_only P p i h es \<Longrightarrow> 0 \<le> bought es"
proof (induction es arbitrary: h)
  case (Cons e es)
  from Cons.prems obtain d where d: "ev_data e = TradeData d" and g: "good_trade P d"
    by (cases "ev_data e") auto
  have q: "0 < td_quantity d" using g by (simp add: good_trade_def)
  have "0 \<le> bought es"
    using Cons.prems Cons.IH d by (cases "ev_type e = TRADE_BUY"; cases "ev_type e = TRADE_SELL") auto
  then show ?case using d q by (cases "ev_type e") simp_all
qed simp

lemma exact_bounds_mono:
  assumes "exact_bounds Q P" "0 \<le> R" "R \<le> Q"
  shows "exact_bounds R P"
proof -
  have "R * P \<le> Q * P" using assms by (auto simp: exact_bounds_def intro: mult_right_mono)
  with assms show ?thesis by (simp add: exact_bounds_def)
qed

lemma replay_long:
  assumes "long_inv P B a" "pos_portfolio a = p" "pos_instrument a = i"
    and "long_only P p i (pos_quantity a) es" "exact_bounds (2 * (B + bought es)) P"
  shows "\<exists>a'. foldE (replay_step u p i) a es = Inr a' \<and> long_inv P (B + bought es) a' \<and>
    pos_quantity a' = pos_quantity a + net_quantity es \<and>
    pos_cost_basis a' - pos_realized a' = pos_cost_basis a - pos_realized a + cash_paid es \<and>
    pos_version a' = pos_version a + length es"
  using assms
proof (induction es arbitrary: a B)
  case Nil
  then show ?case by simp
next
  case (Cons e es)
  from Cons.prems(4) obtain d where d: "ev_data e = TradeData d" "good_trade P d"
    "td_portfolio d = p" "td_instrument d = i" and ty: "ev_type e = TRADE_BUY \<or> ev_type e = TRADE_SELL"
    by (auto split: event_data.splits if_splits)
  have "0 \<le> total_qty (pos_lots a)"
    by (rule total_qty_nonneg) (use Cons.prems(1) in \<open>auto simp: long_inv_def good_lot_def\<close>)
  then have B0: "0 \<le> B" using Cons.prems(1) by (simp add: long_inv_def)
  show ?case
  proof (cases "ev_type e = TRADE_BUY")
    case True
    define a1 where "a1 = fst (apply_buy u a d (ev_timestamp e))"
    have lo: "long_only P p i (pos_quantity a + td_quantity d) es"
      and bs: "bought (e # es) = td_quantity d + bought es"
      using Cons.prems(4) d True by simp_all
    have q: "0 < td_quantity d" using d by (simp add: good_trade_def)
    have eb: "exact_bounds (B + td_quantity d) P"
      by (rule exact_bounds_mono[OF Cons.prems(5)]) (use B0 q bs bought_nonneg[OF lo] in auto)
    note buy = long_inv_buy[OF Cons.prems(1) d(2) eb, of u "ev_timestamp e", folded a1_def]
    have step: "replay_step u p i a e = Inr a1"
      using d True by (simp add: replay_step_def apply_event_def a1_def split: prod.splits)
    have meta: "pos_portfolio a1 = p" "pos_instrument a1 = i" "pos_version a1 = Suc (pos_version a)"
      using Cons.prems(2,3) by (simp_all add: a1_def apply_buy_def Let_def)
    have "\<exists>a'. foldE (replay_step u p i) a1 es = Inr a' \<and>
        long_inv P (B + td_quantity d + bought es) a' \<and>
        pos_quantity a' = pos_quantity a1 + net_quantity es \<and>
        pos_cost_basis a' - pos_realized a' = pos_cost_basis a1 - pos_realized a1 + cash_paid es \<and>
        pos_version a' = pos_version a1 + length es"
      by (rule Cons.IH[OF buy(1) meta(1,2)])
        (use lo buy(2) bs Cons.prems(5) in \<open>simp_all add: add.assoc\<close>)
    then show ?thesis using step bs buy meta d True by (auto simp: add.assoc)
  next
    case False
    with ty have ts: "ev_type e = TRADE_SELL" by simp
    define a1 where "a1 = fst (apply_sell u a d (ev_timestamp e))"
    have le: "td_quantity d \<le> pos_quantity a"
      and lo: "long_only P p i (pos_quantity a - td_quantity d) es"
      and bs: "bought (e # es) = bought es"
      using Cons.prems(4) d ts by simp_all
    have q: "0 < td_quantity d" using d by (simp add: good_trade_def)
    have qB: "td_quantity d \<le> B" using le Cons.prems(1) by (simp add: long_inv_def)
    have eb: "exact_bounds (B + td_quantity d) P"
      by (rule exact_bounds_mono[OF Cons.prems(5)]) (use B0 q qB bs bought_nonneg[OF lo] in auto)
    note sell = apply_sell_long[OF Cons.prems(1) d(2) eb le, of u "ev_timestamp e", folded a1_def]
    have step: "replay_step u p i a e = Inr a1"
      using d ts by (simp add: replay_step_def apply_event_def a1_def split: prod.splits)
    have meta: "pos_portfolio a1 = p" "pos_instrument a1 = i" "pos_version a1 = Suc (pos_version a)"
      using Cons.prems(2,3) by (simp_all add: a1_def apply_sell_def Let_def split: prod.splits)
    have "\<exists>a'. foldE (replay_step u p i) a1 es = Inr a' \<and> long_inv P (B + bought es) a' \<and>
        pos_quantity a' = pos_quantity a1 + net_quantity es \<and>
        pos_cost_basis a' - pos_realized a' = pos_cost_basis a1 - pos_realized a1 + cash_paid es \<and>
        pos_version a' = pos_version a1 + length es"
      by (rule Cons.IH[OF sell(1) meta(1,2)]) (use lo sell(2) bs Cons.prems(5) in simp_all)
    then show ?thesis using step bs sell(2,3) meta d ts by auto
  qed
qed

lemma short_walk_stops:
  "\<lbrakk>\<And>l. l \<in> set lots \<Longrightarrow> lot_quantity l \<le> 0; \<forall>i\<in>set is. i < length lots\<rbrakk> \<Longrightarrow>
     sell_loop price r g is lots = (r, g, lots)"
  by (cases "is") (auto simp: Let_def)

section \<open>Properties\<close>

definition demo_position :: position where
  "demo_position = (empty_position 1 ''AAPL'')\<lparr>pos_quantity := 150, pos_cost_basis := 1600,
     pos_lots := [\<lparr>lot_id = 7, lot_quantity = 50, lot_original = 50, lot_price = 12,
                   lot_acquired = 20, lot_trade = 2\<rparr>,
                  \<lparr>lot_id = 8, lot_quantity = 100, lot_original = 100, lot_price = 10,
                   lot_acquired = 10, lot_trade = 1\<rparr>]\<rparr>"

definition demo_trade :: "trade_side \<Rightarrow> dec \<Rightarrow> dec \<Rightarrow> trade_event_data" where
  "demo_trade s q p = \<lparr>td_portfolio = 1, td_instrument = ''AAPL'', td_side = s, td_quantity = q,
     td_price = p, td_trade_id = 3, td_currency = ''USD''\<rparr>"

text \<open>C8. Selling at most what a long position holds consumes the lots strictly oldest first,
  keeps the position consistent with its lots, and realises the proceeds less the cost basis
  that leaves the position.\<close>

theorem sell_within_holdings:
  assumes "long_inv P B a" "good_trade P d" "exact_bounds (B + td_quantity d) P"
    and "td_quantity d \<le> pos_quantity a"
  shows "long_inv P B (fst (apply_sell u a d t)) \<and>
    pos_quantity (fst (apply_sell u a d t)) = pos_quantity a - td_quantity d \<and>
    pos_realized (fst (apply_sell u a d t)) - pos_realized a
      = td_quantity d * td_price d - (pos_cost_basis a - pos_cost_basis (fst (apply_sell u a d t))) \<and>
    map lot_quantity (sort_key lot_key (pos_lots (fst (apply_sell u a d t))))
      = filter (\<lambda>q. 0 < q) (fifo_consume (td_quantity d)
          (map lot_quantity (sort_key lot_key (pos_lots a))))"
  using apply_sell_long[OF assms] by blast

lemma demo_position_inv: "long_inv 1000 1000 demo_position"
  by (simp add: long_inv_def demo_position_def empty_position_def good_lot_def)

lemma demo_trade_good: "0 \<le> p \<Longrightarrow> p \<le> 1000 \<Longrightarrow> on_grid 8 p \<Longrightarrow> on_grid 8 q \<Longrightarrow> 0 < q \<Longrightarrow>
    good_trade 1000 (demo_trade s q p)"
  by (simp add: good_trade_def demo_trade_def)

theorem sell_within_holdings_witness:
  "map lot_quantity (sort_key lot_key (pos_lots (fst (apply_sell (\<lambda>x _. x) demo_position
      (demo_trade Sell 120 15) 30)))) = [30]"
proof -
  have eb: "exact_bounds (1000 + td_quantity (demo_trade Sell 120 15)) 1000"
    by (simp add: exact_bounds_def demo_trade_def)
  have le: "td_quantity (demo_trade Sell 120 15) \<le> pos_quantity demo_position"
    by (simp add: demo_trade_def demo_position_def)
  have "map lot_quantity (sort_key lot_key (pos_lots (fst (apply_sell (\<lambda>x _. x) demo_position
      (demo_trade Sell 120 15) 30)))) = filter (\<lambda>q. 0 < q) (fifo_consume
        (td_quantity (demo_trade Sell 120 15)) (map lot_quantity (sort_key lot_key (pos_lots demo_position))))"
    using sell_within_holdings[OF demo_position_inv demo_trade_good eb le] by simp
  also have "\<dots> = [30]"
    by (simp add: demo_trade_def demo_position_def empty_position_def)
  finally show ?thesis .
qed

text \<open>Selling more than a long position holds closes every lot at the sale price and opens
  exactly one short lot, for the excess, at that price.\<close>

theorem oversell_opens_one_short_lot:
  assumes "long_inv P B a" "good_trade P d" "exact_bounds (B + td_quantity d) P"
    and "pos_quantity a < td_quantity d"
  shows "pos_quantity (fst (apply_sell u a d t)) = pos_quantity a - td_quantity d \<and>
    (\<exists>l. pos_lots (fst (apply_sell u a d t)) = [l] \<and>
       lot_quantity l = pos_quantity a - td_quantity d \<and> lot_price l = td_price d) \<and>
    pos_realized (fst (apply_sell u a d t))
      = fix28 (pos_realized a + (pos_quantity a * td_price d - pos_cost_basis a))"
  using apply_sell_oversell[OF assms] by blast

theorem oversell_opens_one_short_lot_witness:
  "pos_quantity (fst (apply_sell (\<lambda>x _. x) demo_position (demo_trade Sell 200 15) 30)) = - 50"
proof -
  have eb: "exact_bounds (1000 + td_quantity (demo_trade Sell 200 15)) 1000"
    by (simp add: exact_bounds_def demo_trade_def)
  have gt: "pos_quantity demo_position < td_quantity (demo_trade Sell 200 15)"
    by (simp add: demo_trade_def demo_position_def)
  have "pos_quantity (fst (apply_sell (\<lambda>x _. x) demo_position (demo_trade Sell 200 15) 30))
      = pos_quantity demo_position - td_quantity (demo_trade Sell 200 15)"
    using oversell_opens_one_short_lot[OF demo_position_inv demo_trade_good eb gt] by simp
  then show ?thesis by (simp add: demo_trade_def demo_position_def)
qed

text \<open>Replaying any history of buys and sells that never goes short succeeds, ends with a
  position whose quantity is the net quantity traded and whose lots agree with it, and accounts
  for every cent: cost basis less realised profit is the net cash paid.\<close>

theorem replay_accounts_for_cash:
  assumes "long_only P p i 0 es" "exact_bounds (2 * bought es) P"
  shows "\<exists>a. from_events u p i es = Inr a \<and> long_inv P (bought es) a \<and>
    pos_quantity a = net_quantity es \<and> total_qty (pos_lots a) = net_quantity es \<and>
    pos_cost_basis a - pos_realized a = cash_paid es \<and> pos_version a = length es"
proof -
  have P0: "0 \<le> P" using assms(2) by (rule exact_boundsD)
  show ?thesis
    using replay_long[OF long_inv_empty[OF P0, of p i], of p i es u] assms
    by (auto simp: from_events_def empty_position_def long_inv_def)
qed

theorem replay_accounts_for_cash_witness:
  "\<exists>a. from_events (\<lambda>x _. x) 1 ''AAPL''
     [\<lparr>ev_type = TRADE_BUY, ev_timestamp = 5, ev_data = TradeData (demo_trade Buy 100 10)\<rparr>,
      \<lparr>ev_type = TRADE_SELL, ev_timestamp = 6, ev_data = TradeData (demo_trade Sell 40 15)\<rparr>]
     = Inr a \<and> pos_quantity a = 60 \<and> pos_cost_basis a - pos_realized a = 400"
proof -
  let ?es = "[\<lparr>ev_type = TRADE_BUY, ev_timestamp = 5, ev_data = TradeData (demo_trade Buy 100 10)\<rparr>,
      \<lparr>ev_type = TRADE_SELL, ev_timestamp = 6, ev_data = TradeData (demo_trade Sell 40 15)\<rparr>]"
  have lo: "long_only 1000 1 ''AAPL'' 0 ?es"
    by (simp add: demo_trade_def good_trade_def)
  have eb: "exact_bounds (2 * bought ?es) 1000"
    by (simp add: exact_bounds_def demo_trade_def)
  have "net_quantity ?es = 60" "cash_paid ?es = 400" by (simp_all add: demo_trade_def)
  then show ?thesis using replay_accounts_for_cash[OF lo eb, of "\<lambda>x _. x"] by auto
qed

text \<open>A sell against a position whose lots are all short throws every existing lot away:
  only the lot of the new sale is left, while the quantity accumulates, so the lots and the
  cost basis no longer describe the position.\<close>

theorem sell_while_short_drops_lots:
  assumes "\<forall>l\<in>set (pos_lots a). lot_quantity l < 0" and "0 < td_quantity d"
  shows "map lot_quantity (pos_lots (fst (apply_sell u a d t))) = [- fix28 (td_quantity d)] \<and>
    pos_quantity (fst (apply_sell u a d t)) = dsub (pos_quantity a) (td_quantity d) \<and>
    pos_cost_basis (fst (apply_sell u a d t)) = lots_cost (pos_lots (fst (apply_sell u a d t)))"
proof -
  have w: "sell_loop (td_price d) (td_quantity d) 0 (fifo_order (pos_lots a)) (pos_lots a)
      = (td_quantity d, 0, pos_lots a)"
    by (rule short_walk_stops) (use assms in \<open>auto simp: less_imp_le\<close>)
  have "filter (\<lambda>l. 0 < lot_quantity l) (pos_lots a) = []"
    using assms(1) by (auto simp: filter_empty_conv not_less less_imp_le)
  then show ?thesis using assms(2) by (simp add: apply_sell_def w Let_def dneg_def)
qed

theorem sell_while_short_drops_lots_witness:
  "let a = fst (apply_sell (\<lambda>x _. x) (empty_position 1 ''AAPL'') (demo_trade Sell 10 20) 1)
   in map lot_quantity (pos_lots (fst (apply_sell (\<lambda>x _. x) a (demo_trade Sell 5 20) 2))) = [- 5] \<and>
      pos_quantity (fst (apply_sell (\<lambda>x _. x) a (demo_trade Sell 5 20) 2)) = - 15"
proof -
  define a where "a = fst (apply_sell (\<lambda>x _. x) (empty_position 1 ''AAPL'') (demo_trade Sell 10 20) 1)"
  have a: "map lot_quantity (pos_lots a) = [- 10]" "pos_quantity a = - 10"
    by (simp_all add: a_def apply_sell_def fifo_order_def empty_position_def demo_trade_def
        dneg_def dsub_def Let_def exact_simps)
  have s: "\<forall>l\<in>set (pos_lots a). lot_quantity l < 0" using a(1) by auto
  have q: "0 < td_quantity (demo_trade Sell 5 20)" by (simp add: demo_trade_def)
  have "td_quantity (demo_trade Sell 5 20) = 5" by (simp add: demo_trade_def)
  then show ?thesis
    using sell_while_short_drops_lots[OF s q, of "\<lambda>x _. x" 2] a(2)
    unfolding Let_def a_def[symmetric] by (simp add: dsub_def exact_simps)
qed

end
