(* ===== verification/PositionStore.thy ===== *)
theory PositionStore
  imports Positions
begin

text \<open>
  The write side of the positions module: the event store
  (\<open>positions/core/event_store.py\<close>), the projection onto the read model
  (\<open>position_projector.py\<close>, \<open>repositories/current_position.py\<close>), the trade handler with
  its idempotency check and conflict retries (\<open>trade_handler.py\<close>), and the mark-to-market
  handler (\<open>mtm_handler.py\<close>).

  One fund's schema is a \<open>store\<close>.  An aggregate id, in the code the string
  \<open>portfolio:instrument\<close>, is the pair itself.  Event payloads are kept typed; the JSON strings
  of \<open>serialize\<close> and \<open>_deserialize\<close> are not modelled, except that a replayed event carries the
  row's \<open>created_at\<close> instead of its own timestamp.  Concurrent transactions are parameters:
  \<open>others k\<close> is what the rest of the system commits before attempt \<open>k\<close>, and \<open>conflict k\<close> says
  whether the database refuses attempt \<open>k\<close> with an integrity error and rolls it back.
\<close>

type_synonym aggregate_id = "uuid \<times> string"

record stored_event =
  se_aggregate :: aggregate_id
  se_sequence :: nat
  se_event :: trade_event
  se_key :: "string option"
  se_created :: timestamp

record current_position =
  cp_id :: aggregate_id
  cp_quantity :: dec
  cp_avg_cost :: dec
  cp_cost_basis :: dec
  cp_realized :: dec
  cp_market_price :: dec
  cp_market_value :: dec
  cp_unrealized :: dec
  cp_currency :: string

record store =
  st_events :: "stored_event list"
  st_positions :: "current_position list"
  st_lots :: "(aggregate_id \<times> lot_state) list"

section \<open>Event store\<close>

definition deserialize_row :: "stored_event \<Rightarrow> trade_event" where
  "deserialize_row r = (se_event r)\<lparr>ev_timestamp := se_created r\<rparr>"

definition get_by_aggregate :: "store \<Rightarrow> aggregate_id \<Rightarrow> timestamp option \<Rightarrow> trade_event list" where
  "get_by_aggregate st agg before =
     map deserialize_row (sort_key se_sequence
       (filter (\<lambda>r. se_aggregate r = agg \<and>
          (case before of None \<Rightarrow> True | Some t \<Rightarrow> se_created r \<le> t)) (st_events st)))"

definition has_idempotency_key :: "store \<Rightarrow> string \<Rightarrow> bool" where
  "has_idempotency_key st k \<longleftrightarrow> list_ex (\<lambda>r. se_key r = Some k) (st_events st)"

definition max_sequence :: "store \<Rightarrow> aggregate_id \<Rightarrow> nat" where
  "max_sequence st agg =
     fold max (map se_sequence (filter (\<lambda>r. se_aggregate r = agg) (st_events st))) 0"

definition append_event ::
  "aggregate_id \<Rightarrow> trade_event \<Rightarrow> string option \<Rightarrow> timestamp \<Rightarrow> store \<Rightarrow> store" where
  "append_event agg e k created st = st\<lparr>st_events := st_events st @
     [\<lparr>se_aggregate = agg, se_sequence = Suc (max_sequence st agg), se_event = e, se_key = k,
       se_created = created\<rparr>]\<rparr>"

section \<open>Projection\<close>

definition upsert_position :: "position \<Rightarrow> string \<Rightarrow> store \<Rightarrow> store" where
  "upsert_position a currency st =
     (let k = (pos_portfolio a, pos_instrument a)
      in if find_row cp_id k (st_positions st) = None
         then st\<lparr>st_positions := st_positions st @
                [\<lparr>cp_id = k, cp_quantity = pos_quantity a, cp_avg_cost = avg_cost a,
                  cp_cost_basis = pos_cost_basis a, cp_realized = pos_realized a,
                  cp_market_price = 0, cp_market_value = 0, cp_unrealized = 0,
                  cp_currency = currency\<rparr>]\<rparr>
         else st\<lparr>st_positions := update_rows cp_id k
                (\<lambda>r. r\<lparr>cp_quantity := pos_quantity a, cp_avg_cost := avg_cost a,
                       cp_cost_basis := pos_cost_basis a, cp_realized := pos_realized a\<rparr>)
                (st_positions st)\<rparr>)"

definition project_lots :: "position \<Rightarrow> store \<Rightarrow> store" where
  "project_lots a st =
     (let k = (pos_portfolio a, pos_instrument a)
      in st\<lparr>st_lots := filter (\<lambda>x. fst x \<noteq> k) (st_lots st) @ map (\<lambda>l. (k, l)) (pos_lots a)\<rparr>)"

definition project :: "position \<Rightarrow> string \<Rightarrow> store \<Rightarrow> store" where
  "project a currency st = project_lots a (upsert_position a currency st)"

definition rebuild :: "uuid5_fn \<Rightarrow> aggregate_id \<Rightarrow> store \<Rightarrow> store res" where
  "rebuild u agg st =
     bindE (from_events u (fst agg) (snd agg) (get_by_aggregate st agg None)) (\<lambda>a.
       Inr (project a ''USD'' st))"

section \<open>Trade handler\<close>

record env =
  en_uuid5 :: uuid5_fn
  en_now :: timestamp
  en_created :: timestamp
  en_others :: "nat \<Rightarrow> store \<Rightarrow> store"
  en_conflict :: "nat \<Rightarrow> bool"

definition truthy :: "string option \<Rightarrow> bool" where
  "truthy k \<longleftrightarrow> k \<noteq> None \<and> k \<noteq> Some ''''"

definition attempt ::
  "env \<Rightarrow> aggregate_id \<Rightarrow> trade_event \<Rightarrow> string option \<Rightarrow> string \<Rightarrow> store
     \<Rightarrow> (downstream_event list option \<times> store) res" where
  "attempt en agg e key currency st =
     (if truthy key \<and> has_idempotency_key st (the key) then Inr (None, st)
      else bindE (from_events (en_uuid5 en) (fst agg) (snd agg) (get_by_aggregate st agg None)) (\<lambda>a.
           bindE (apply_event (en_uuid5 en) a e) (\<lambda>(a', ds).
           Inr (Some ds, project a' currency
             (append_event agg e (if truthy key then key else None) (en_created en) st)))))"

fun retry ::
  "env \<Rightarrow> aggregate_id \<Rightarrow> trade_event \<Rightarrow> string option \<Rightarrow> string \<Rightarrow> nat \<Rightarrow> nat \<Rightarrow> store
     \<Rightarrow> store \<times> downstream_event list option res" where
  \<comment> \<open>\<open>n\<close> attempts are left, the next one is number \<open>k\<close>; the store is what is committed\<close>
  "retry en agg e key currency k 0 st = (st, Inl IntegrityError)"
| "retry en agg e key currency k (Suc n) st =
     (let st0 = en_others en k st
      in case attempt en agg e key currency st0 of
           Inl x \<Rightarrow> (st0, Inl x)
         | Inr (None, _) \<Rightarrow> (st0, Inr None)
         | Inr (Some ds, st1) \<Rightarrow>
             if en_conflict en k then retry en agg e key currency (Suc k) n st0
             else (st1, Inr (Some ds)))"

definition apply_trade ::
  "env \<Rightarrow> uuid \<Rightarrow> string \<Rightarrow> trade_side \<Rightarrow> dec \<Rightarrow> dec \<Rightarrow> string \<Rightarrow> uuid \<Rightarrow> string option \<Rightarrow> store
     \<Rightarrow> store \<times> downstream_event list option res" where
  "apply_trade en p i side q price currency trade_id key st =
     (let e = \<lparr>ev_type = (if side = Buy then TRADE_BUY else TRADE_SELL), ev_timestamp = en_now en,
               ev_data = TradeData \<lparr>td_portfolio = p, td_instrument = i, td_side = side,
                 td_quantity = q, td_price = price, td_trade_id = trade_id,
                 td_currency = currency\<rparr>\<rparr>
      in retry en (p, i) e key currency 1 3 st)"

text \<open>Messages on the bus: the decoded payloads of the topics the handler reads and writes.\<close>

record trade_msg =
  tm_portfolio :: uuid
  tm_instrument :: string
  tm_side :: string
  tm_quantity :: dec
  tm_price :: dec
  tm_trade_id :: "uuid option"
  tm_currency :: "string option"

record action_msg =
  am_portfolio :: uuid
  am_instrument :: string
  am_action_id :: "uuid option"
  am_currency :: "string option"
  am_quantity :: "dec option"

datatype bus_data = TradeMsg trade_msg | ActionMsg action_msg | DownMsg downstream_event

record bus_event =
  be_type :: string
  be_data :: bus_data
  be_actor :: "string option"
  be_fund :: "string option"

fun contains_str :: "string \<Rightarrow> string \<Rightarrow> bool" where
  "contains_str pat [] \<longleftrightarrow> pat = []"
| "contains_str pat (c # cs) \<longleftrightarrow> take (length pat) (c # cs) = pat \<or> contains_str pat cs"

definition corporate_event :: "env \<Rightarrow> string \<Rightarrow> action_msg \<Rightarrow> uuid \<Rightarrow> trade_event" where
  "corporate_event en ty d action_id =
     (let q = or_else (am_quantity d) 0;
          base = \<lparr>ca_portfolio = am_portfolio d, ca_instrument = am_instrument d,
                  ca_currency = or_else (am_currency d) ''USD'', ca_action_id = action_id,
                  ca_split_ratio = 1, ca_dividend_amount = 0\<rparr>
      in if contains_str ''split'' ty
         then \<lparr>ev_type = STOCK_SPLIT, ev_timestamp = en_now en,
               ev_data = CaData (base\<lparr>ca_split_ratio := (if 0 < q then q else 1)\<rparr>)\<rparr>
         else \<lparr>ev_type = DIVIDEND_PAID, ev_timestamp = en_now en,
               ev_data = CaData (base\<lparr>ca_dividend_amount := q\<rparr>)\<rparr>)"

definition apply_corporate_action ::
  "env \<Rightarrow> (uuid \<Rightarrow> uuid \<Rightarrow> string \<Rightarrow> string) \<Rightarrow> uuid \<Rightarrow> string \<Rightarrow> action_msg \<Rightarrow> store
     \<Rightarrow> store \<times> downstream_event list option res" where
  \<comment> \<open>\<open>ca_key\<close> renders the key \<open>ca-action-portfolio-instrument\<close>; \<open>fresh\<close> is the id drawn when none is sent\<close>
  "apply_corporate_action en ca_key fresh ty d st =
     (let aid = or_else (am_action_id d) fresh;
          key = ca_key aid (am_portfolio d) (am_instrument d)
      in retry en (am_portfolio d, am_instrument d) (corporate_event en ty d aid) (Some key)
           (or_else (am_currency d) ''USD'') 1 3 st)"

definition fund_topic :: "string \<Rightarrow> string \<Rightarrow> string" where
  "fund_topic slug base = ''fund-'' @ slug @ ''.'' @ base"

definition topic_for :: "string option \<Rightarrow> string \<Rightarrow> string" where
  "topic_for fund base = (if truthy fund then fund_topic (the fund) base else base)"

fun event_type_name :: "downstream_event \<Rightarrow> string" where
  "event_type_name (PositionChanged _) = ''position.changed''"
| "event_type_name (PnLRealized _) = ''pnl.realized''"
| "event_type_name (PnLMarkToMarket _) = ''pnl.mark_to_market''"

fun downstream_topic :: "downstream_event \<Rightarrow> string" where
  "downstream_topic (PositionChanged _) = ''positions.changed''"
| "downstream_topic (PnLRealized _) = ''pnl.updated''"
| "downstream_topic (PnLMarkToMarket _) = ''pnl.updated''"

definition publish_downstream ::
  "string option \<Rightarrow> string option \<Rightarrow> downstream_event list \<Rightarrow> (string \<times> bus_event) list" where
  "publish_downstream fund actor ds =
     map (\<lambda>e. (topic_for fund (downstream_topic e),
       \<lparr>be_type = event_type_name e, be_data = DownMsg e, be_actor = actor, be_fund = fund\<rparr>)) ds"

definition handle_trade ::
  "env \<Rightarrow> string option \<Rightarrow> string option \<Rightarrow> uuid \<Rightarrow> uuid \<Rightarrow> string \<Rightarrow> trade_side \<Rightarrow> dec \<Rightarrow> dec
     \<Rightarrow> string \<Rightarrow> string option \<Rightarrow> store \<Rightarrow> store \<times> (string \<times> bus_event) list res" where
  \<comment> \<open>\<open>trade_id\<close> is the identifier the handler draws for the trade\<close>
  "handle_trade en fund actor trade_id p i side q price currency key st =
     (case apply_trade en p i side q price currency trade_id key st of
        (st', Inl x) \<Rightarrow> (st', Inl x)
      | (st', Inr None) \<Rightarrow> (st', Inr [])
      | (st', Inr (Some ds)) \<Rightarrow>
          (st', Inr ((topic_for fund ''trades.executed'',
             \<lparr>be_type = (if side = Buy then ''trade.buy'' else ''trade.sell''),
              be_data = TradeMsg \<lparr>tm_portfolio = p, tm_instrument = i,
                tm_side = (if side = Buy then ''buy'' else ''sell''), tm_quantity = q, tm_price = price,
                tm_trade_id = Some trade_id, tm_currency = Some currency\<rparr>,
              be_actor = actor, be_fund = fund\<rparr>) # publish_downstream fund actor ds)))"

definition handle_trade_event ::
  "env \<Rightarrow> (uuid \<Rightarrow> string) \<Rightarrow> (uuid \<Rightarrow> uuid \<Rightarrow> string \<Rightarrow> string) \<Rightarrow> uuid \<Rightarrow> bus_event \<Rightarrow> store
     \<Rightarrow> store \<times> (string \<times> bus_event) list res" where
  \<comment> \<open>\<open>uuid_str\<close> renders an identifier; \<open>fresh\<close> is the identifier drawn when the message has none\<close>
  "handle_trade_event en uuid_str ca_key fresh ev st =
     (if \<not> truthy (be_fund ev) then (st, Inr [])
      else let r = (case be_data ev of
               ActionMsg d \<Rightarrow> apply_corporate_action en ca_key fresh (be_type ev) d st
             | TradeMsg d \<Rightarrow>
                 let tid = or_else (tm_trade_id d) fresh
                 in apply_trade en (tm_portfolio d) (tm_instrument d)
                      (if tm_side d = ''buy'' then Buy else Sell) (tm_quantity d) (tm_price d)
                      (or_else (tm_currency d) ''USD'') tid (Some (uuid_str tid)) st
             | DownMsg _ \<Rightarrow> (st, Inl KeyError))
           in (case r of
                 (st', Inl x) \<Rightarrow> (st', Inl x)
               | (st', Inr None) \<Rightarrow> (st', Inr [])
               | (st', Inr (Some ds)) \<Rightarrow> (st', Inr (publish_downstream (be_fund ev) (be_actor ev) ds))))"

section \<open>Mark to market\<close>

definition mtm_position ::
  "strategy \<Rightarrow> dec \<Rightarrow> current_position \<Rightarrow> current_position \<times> downstream_event option" where
  "mtm_position s price r =
     (let mv = market_value s (cp_quantity r) price no_args;
          ur = unrealized_pnl s (cp_quantity r) (cp_cost_basis r) price no_args;
          change = dsub ur (cp_unrealized r);
          threshold = dmul (dabs mv) (1 / 10000)
      in (r\<lparr>cp_market_price := price, cp_market_value := mv, cp_unrealized := ur\<rparr>,
          if threshold < dabs change
          then Some (PnLMarkToMarket \<lparr>pm_portfolio = fst (cp_id r), pm_instrument = snd (cp_id r),
                 pm_market_price = price, pm_market_value = mv, pm_unrealized_pnl = ur,
                 pm_pnl_change = change, pm_currency = cp_currency r\<rparr>)
          else None))"

definition update_positions_for_instrument ::
  "string \<Rightarrow> string \<Rightarrow> dec \<Rightarrow> strategy \<Rightarrow> store \<Rightarrow> store \<times> (string \<times> bus_event) list" where
  "update_positions_for_instrument slug i price s st =
     (let hit = (\<lambda>r. snd (cp_id r) = i)
      in (st\<lparr>st_positions := map (\<lambda>r. if hit r then fst (mtm_position s price r) else r) (st_positions st)\<rparr>,
          map (\<lambda>e. (fund_topic slug ''pnl.updated'',
                \<lparr>be_type = event_type_name e, be_data = DownMsg e, be_actor = Some ''system'',
                 be_fund = Some slug\<rparr>))
            (List.map_filter (\<lambda>r. snd (mtm_position s price r)) (filter hit (st_positions st)))))"

definition handle_price_update ::
  "(string \<Rightarrow> asset_class option) \<Rightarrow> string list \<Rightarrow> string \<Rightarrow> dec \<Rightarrow> (string \<Rightarrow> store)
     \<Rightarrow> (string \<Rightarrow> store) \<times> (string \<times> bus_event) list" where
  "handle_price_update get_class slugs i price db =
     (case get_class i of
        None \<Rightarrow> (db, [])
      | Some c \<Rightarrow> (case get_position_strategy c of
            Inl _ \<Rightarrow> (db, [])
          | Inr s \<Rightarrow> foldl (\<lambda>(db, out) slug.
              case update_positions_for_instrument slug i price s (db slug) of
                (st, evs) \<Rightarrow> (db(slug := st), out @ evs)) (db, []) slugs))"

section \<open>The event log\<close>

definition agg_rows :: "aggregate_id \<Rightarrow> store \<Rightarrow> stored_event list" where
  "agg_rows agg st = filter (\<lambda>r. se_aggregate r = agg) (st_events st)"

definition log_inv :: "store \<Rightarrow> bool" where
  \<comment> \<open>the events of every aggregate are numbered 1, 2, 3, ... in the order they were stored\<close>
  "log_inv st \<longleftrightarrow> (\<forall>agg. map se_sequence (agg_rows agg st) = [1..<Suc (length (agg_rows agg st))])"

lemma log_invD:
  "log_inv st \<Longrightarrow> map se_sequence (agg_rows agg st) = [1..<Suc (length (agg_rows agg st))]"
  unfolding log_inv_def by (rule spec)

lemma fold_max_upt: "fold max [1..<Suc n] (0::nat) = n"
  by (induction n) (simp_all del: upt_Suc add: upt_Suc_append)

lemma max_sequence_log: "log_inv st \<Longrightarrow> max_sequence st agg = length (agg_rows agg st)"
  unfolding max_sequence_def agg_rows_def[symmetric] by (simp only: log_invD fold_max_upt)

lemma agg_rows_append:
  "agg_rows agg' (append_event agg e k c st) =
     (if agg' = agg then agg_rows agg st @
        [\<lparr>se_aggregate = agg, se_sequence = Suc (max_sequence st agg), se_event = e, se_key = k,
          se_created = c\<rparr>]
      else agg_rows agg' st)"
  by (simp add: agg_rows_def append_event_def)

lemma log_inv_append: "log_inv st \<Longrightarrow> log_inv (append_event agg e k c st)"
  by (auto simp: log_inv_def agg_rows_append max_sequence_log upt_Suc_append simp del: upt_Suc)

lemma st_events_project [simp]: "st_events (project a cur st) = st_events st"
  by (simp add: project_def project_lots_def upsert_position_def Let_def)

lemma agg_rows_project [simp]: "agg_rows agg (project a cur st) = agg_rows agg st"
  by (simp add: agg_rows_def)

lemma log_inv_project [simp]: "log_inv (project a cur st) \<longleftrightarrow> log_inv st"
  by (simp add: log_inv_def)

lemma get_by_aggregate_log:
  assumes "log_inv st"
  shows "get_by_aggregate st agg None = map deserialize_row (agg_rows agg st)"
proof -
  have "sorted (map se_sequence (agg_rows agg st))"
    unfolding log_invD[OF assms] by (rule sorted_upt)
  then have "sort_key se_sequence (agg_rows agg st) = agg_rows agg st"
    by (rule sort_key_id_if_sorted)
  then show ?thesis by (simp add: get_by_aggregate_def agg_rows_def)
qed

text \<open>The outcome of one attempt.\<close>

lemma attempt_Some:
  assumes "attempt en agg e key cur st = Inr (Some ds, st')"
  obtains a a' where
    "from_events (en_uuid5 en) (fst agg) (snd agg) (get_by_aggregate st agg None) = Inr a"
    "apply_event (en_uuid5 en) a e = Inr (a', ds)"
    "st' = project a' cur (append_event agg e (if truthy key then key else None) (en_created en) st)"
    "\<not> (truthy key \<and> has_idempotency_key st (the key))"
  using assms by (auto simp: attempt_def bindE_Inr_iff split: if_splits)

lemma attempt_None: "attempt en agg e key cur st = Inr (None, st') \<Longrightarrow> st' = st"
  by (auto simp: attempt_def bindE_Inr_iff split: if_splits)

lemma attempt_log_inv:
  "attempt en agg e key cur st = Inr (r, st') \<Longrightarrow> log_inv st \<Longrightarrow> log_inv st'"
  by (cases r) (auto dest: attempt_None elim!: attempt_Some simp: log_inv_append)

lemma retry_invariant:
  assumes att: "\<And>s s' r. I s \<Longrightarrow> attempt en agg e key cur s = Inr (r, s') \<Longrightarrow> I s'"
    and oth: "\<And>k s. I s \<Longrightarrow> I (en_others en k s)" and "I st"
  shows "I (fst (retry en agg e key cur k n st))"
  using \<open>I st\<close>
proof (induction n arbitrary: k st)
  case (Suc n)
  have I0: "I (en_others en k st)" using Suc.prems by (rule oth)
  then show ?case
    using Suc.IH[OF I0] att[OF I0] by (auto simp: Let_def split: sum.splits option.splits)
qed simp

lemma retry_Some:
  "retry en agg e key cur k n st = (st', Inr (Some ds)) \<Longrightarrow>
     (\<And>k s. I s \<Longrightarrow> I (en_others en k s)) \<Longrightarrow> I st \<Longrightarrow>
     \<exists>st0. I st0 \<and> attempt en agg e key cur st0 = Inr (Some ds, st')"
proof (induction n arbitrary: k st)
  case (Suc n)
  have "I (en_others en k st)" using Suc.prems by blast
  with Suc show ?case
    by (auto simp: Let_def split: sum.splits option.splits if_splits prod.splits)
qed simp

lemma retry_quiet:
  assumes "\<And>k s. en_others en k s = s" and "retry en agg e key cur k n st = (st', r)"
    and "\<nexists>ds. r = Inr (Some ds)"
  shows "st' = st"
  using assms(2)
proof (induction n arbitrary: k)
  case (Suc n)
  then show ?case
    using assms(1,3) by (auto simp: Let_def split: sum.splits option.splits if_splits)
qed simp

text \<open>The time of an event only stamps the lot it opens.\<close>

definition same_figures :: "position \<Rightarrow> position \<Rightarrow> bool" where
  "same_figures a b \<longleftrightarrow> pos_portfolio a = pos_portfolio b \<and> pos_instrument a = pos_instrument b \<and>
     pos_quantity a = pos_quantity b \<and> pos_cost_basis a = pos_cost_basis b \<and>
     pos_realized a = pos_realized b \<and> pos_currency a = pos_currency b"

lemma same_figures_events:
  "same_figures a b \<Longrightarrow> position_changed_event a = position_changed_event b"
  "same_figures a b \<Longrightarrow> pnl_realized_event a x y = pnl_realized_event b x y"
  "same_figures a b \<Longrightarrow> avg_cost a = avg_cost b"
  by (simp_all add: same_figures_def position_changed_event_def pnl_realized_event_def avg_cost_def)

lemma apply_buy_timestamp:
  "same_figures (fst (apply_buy u a d t')) (fst (apply_buy u a d t)) \<and>
   snd (apply_buy u a d t') = snd (apply_buy u a d t)"
proof -
  have f: "same_figures (fst (apply_buy u a d t')) (fst (apply_buy u a d t))"
    by (simp add: same_figures_def apply_buy_def Let_def)
  have "snd (apply_buy u a d s) = [position_changed_event (fst (apply_buy u a d s))]" for s
    by (simp add: apply_buy_def Let_def)
  with f show ?thesis by (simp add: same_figures_events(1)[OF f] same_figures_events(2)[OF f])
qed

lemma apply_sell_timestamp:
  "same_figures (fst (apply_sell u a d t')) (fst (apply_sell u a d t)) \<and>
   snd (apply_sell u a d t') = snd (apply_sell u a d t)"
proof -
  obtain r g ws where w: "sell_loop (td_price d) (td_quantity d) 0 (fifo_order (pos_lots a)) (pos_lots a)
      = (r, g, ws)" by (metis prod_cases3)
  have f: "same_figures (fst (apply_sell u a d t')) (fst (apply_sell u a d t))"
    by (simp add: same_figures_def apply_sell_def w Let_def lots_cost_def)
  have "snd (apply_sell u a d s) = [position_changed_event (fst (apply_sell u a d s)),
      pnl_realized_event (fst (apply_sell u a d s)) g (td_price d)]" for s
    by (simp add: apply_sell_def w Let_def)
  with f show ?thesis by (simp add: same_figures_events(1)[OF f] same_figures_events(2)[OF f])
qed

lemma apply_event_timestamp:
  assumes "apply_event u a e = Inr (a1, ds)"
  obtains a2 where "apply_event u a (e\<lparr>ev_timestamp := t\<rparr>) = Inr (a2, ds)" "same_figures a2 a1"
proof (cases "\<exists>d. ev_data e = TradeData d \<and> (ev_type e = TRADE_BUY \<or> ev_type e = TRADE_SELL)")
  case True
  then obtain d where d: "ev_data e = TradeData d" and ty: "ev_type e = TRADE_BUY \<or> ev_type e = TRADE_SELL"
    by blast
  show thesis
  proof (cases "ev_type e = TRADE_BUY")
    case True
    then show thesis
      using that[of "fst (apply_buy u a d t)"] assms d apply_buy_timestamp[of u a d t "ev_timestamp e"]
      by (simp add: apply_event_def) (metis fst_conv prod.collapse snd_conv)
  next
    case False
    then have "ev_type e = TRADE_SELL" using ty by simp
    then show thesis
      using that[of "fst (apply_sell u a d t)"] assms d apply_sell_timestamp[of u a d t "ev_timestamp e"]
      by (simp add: apply_event_def) (metis fst_conv prod.collapse snd_conv)
  qed
next
  case False
  then have "apply_event u a (e\<lparr>ev_timestamp := t\<rparr>) = apply_event u a e"
    by (cases "ev_type e"; cases "ev_data e") (simp_all add: apply_event_def)
  with assms that show thesis by (simp add: same_figures_def)
qed

definition same_ids :: "position \<Rightarrow> position \<Rightarrow> bool" where
  "same_ids a b \<longleftrightarrow> pos_portfolio a = pos_portfolio b \<and> pos_instrument a = pos_instrument b"

lemma apply_trade_ids:
  "apply_buy u a d t = (a', ds) \<Longrightarrow> same_ids a' a"
  "apply_sell u a d t = (a', ds) \<Longrightarrow> same_ids a' a"
  by (auto simp: same_ids_def apply_buy_def apply_sell_def Let_def split: prod.splits)

lemma apply_action_ids:
  "apply_split a ed = Inr (a', ds) \<Longrightarrow> same_ids a' a"
  "apply_dividend a ed = Inr (a', ds) \<Longrightarrow> same_ids a' a"
  by (auto simp: same_ids_def apply_split_def apply_dividend_def Let_def bindE_Inr_iff
      split: event_data.splits)

lemma apply_event_ids:
  assumes "apply_event u a e = Inr (a', ds)"
  shows "pos_portfolio a' = pos_portfolio a \<and> pos_instrument a' = pos_instrument a"
proof -
  have "same_ids a' a"
    using assms
    by (cases "ev_type e"; cases "ev_data e")
      (auto simp: apply_event_def dest: apply_trade_ids apply_action_ids, simp_all add: same_ids_def)
  then show ?thesis by (simp add: same_ids_def)
qed

lemma replay_step_ids:
  "replay_step u p i a e = Inr a' \<Longrightarrow>
     pos_portfolio a' = pos_portfolio a \<and> pos_instrument a' = pos_instrument a"
  by (auto simp: replay_step_def bindE_Inr_iff dest: apply_event_ids split: if_splits)

lemma from_events_ids:
  assumes "from_events u p i es = Inr a"
  shows "pos_portfolio a = p \<and> pos_instrument a = i"
proof (rule foldE_invariant[where I = "\<lambda>a. pos_portfolio a = p \<and> pos_instrument a = i"])
  show "foldE (replay_step u p i) (empty_position p i) es = Inr a"
    using assms by (simp add: from_events_def)
qed (auto simp: empty_position_def dest: replay_step_ids)

lemma find_position_project:
  assumes "pos_portfolio a = p" "pos_instrument a = i"
  shows "\<exists>r. find_row cp_id (p, i) (st_positions (project a cur st)) = Some r \<and>
    cp_quantity r = pos_quantity a \<and> cp_cost_basis r = pos_cost_basis a \<and>
    cp_realized r = pos_realized a \<and> cp_avg_cost r = avg_cost a"
proof (cases "find_row cp_id (p, i) (st_positions st)")
  case None
  then show ?thesis
    using assms
    by (simp add: project_def project_lots_def upsert_position_def Let_def find_row_append)
next
  case (Some r)
  then show ?thesis
    using assms
    by (simp add: project_def project_lots_def upsert_position_def Let_def find_row_update)
qed

section \<open>Properties\<close>

text \<open>Whatever commits and conflicts other transactions cause, recording a trade keeps the
  event log well numbered: the events of each aggregate are 1, 2, 3, ... without gap or repeat.\<close>

theorem apply_trade_keeps_log:
  assumes "log_inv st" and "\<And>k s. log_inv s \<Longrightarrow> log_inv (en_others en k s)"
  shows "log_inv (fst (apply_trade en p i side q price cur tid key st))"
  unfolding apply_trade_def Let_def
  by (rule retry_invariant[where I = log_inv, OF attempt_log_inv[rotated] assms(2,1)])

definition quiet_env :: "uuid5_fn \<Rightarrow> timestamp \<Rightarrow> env" where
  "quiet_env u now = \<lparr>en_uuid5 = u, en_now = now, en_created = now, en_others = (\<lambda>k s. s),
     en_conflict = (\<lambda>k. False)\<rparr>"

definition empty_store :: store where
  "empty_store = \<lparr>st_events = [], st_positions = [], st_lots = []\<rparr>"

lemma log_inv_empty: "log_inv empty_store"
  by (simp add: log_inv_def agg_rows_def empty_store_def)

theorem apply_trade_keeps_log_witness:
  "log_inv (fst (apply_trade (quiet_env (\<lambda>x _. x) 5) 1 ''AAPL'' Buy 100 10 ''USD'' 3 None empty_store))"
  by (rule apply_trade_keeps_log[OF log_inv_empty]) (simp add: quiet_env_def)


text \<open>A buy on a quiet system, computed once for the witnesses.\<close>

lemma quiet_buy:
  assumes "from_events u p i (get_by_aggregate st (p, i) None) = Inr a"
    and "\<not> (truthy key \<and> has_idempotency_key st (the key))"
    and "d = \<lparr>td_portfolio = p, td_instrument = i, td_side = Buy, td_quantity = q, td_price = price,
        td_trade_id = tid, td_currency = cur\<rparr>"
  shows "apply_trade (quiet_env u now) p i Buy q price cur tid key st =
    (project (fst (apply_buy u a d now)) cur (append_event (p, i)
        \<lparr>ev_type = TRADE_BUY, ev_timestamp = now, ev_data = TradeData d\<rparr>
        (if truthy key then key else None) now st),
     Inr (Some (snd (apply_buy u a d now))))"
proof -
  let ?e = "\<lparr>ev_type = TRADE_BUY, ev_timestamp = now, ev_data = TradeData d\<rparr>"
  have "attempt (quiet_env u now) (p, i) ?e key cur st = Inr (Some (snd (apply_buy u a d now)),
      project (fst (apply_buy u a d now)) cur
        (append_event (p, i) ?e (if truthy key then key else None) now st))"
    using assms(1,2)
    by (auto simp: attempt_def quiet_env_def apply_event_def split: prod.splits)
  then show ?thesis
    by (simp add: apply_trade_def assms(3) Let_def numeral_3_eq_3) (simp add: quiet_env_def)
qed


text \<open>C5. Redelivering a trade message is harmless: once the log holds the key of the trade, the
  handler writes nothing and publishes nothing.\<close>

theorem redelivery_is_noop:
  assumes "be_data ev = TradeMsg d" "tm_trade_id d = Some tid" "uuid_str tid \<noteq> ''''"
    and "has_idempotency_key st (uuid_str tid)"
    and "\<And>k s. has_idempotency_key s (uuid_str tid) \<Longrightarrow> has_idempotency_key (en_others en k s) (uuid_str tid)"
  shows "handle_trade_event en uuid_str ca_key fresh ev st =
    (if truthy (be_fund ev) then en_others en 1 st else st, Inr [])"
proof -
  have "attempt en agg e (Some (uuid_str tid)) cur (en_others en k st) = Inr (None, en_others en k st)"
    for agg e cur k
    using assms(3) assms(5)[OF assms(4)] by (simp add: attempt_def truthy_def)
  then show ?thesis
    using assms(1,2)
    by (simp add: handle_trade_event_def apply_trade_def Let_def numeral_3_eq_3)
qed

theorem redelivery_is_noop_witness:
  "handle_trade_event (quiet_env (\<lambda>x _. x) 5) (\<lambda>n. ''t3'') (\<lambda>_ _ _. ''ca'') 0
     \<lparr>be_type = ''trade.buy'', be_data = TradeMsg \<lparr>tm_portfolio = 1, tm_instrument = ''AAPL'',
        tm_side = ''buy'', tm_quantity = 100, tm_price = 10, tm_trade_id = Some 3, tm_currency = None\<rparr>,
      be_actor = None, be_fund = Some ''alpha''\<rparr>
     (empty_store\<lparr>st_events := [\<lparr>se_aggregate = (1, ''AAPL''), se_sequence = 1,
        se_event = \<lparr>ev_type = TRADE_BUY, ev_timestamp = 4, ev_data = TradeData (demo_trade Buy 100 10)\<rparr>,
        se_key = Some ''t3'', se_created = 4\<rparr>]\<rparr>)
   = (empty_store\<lparr>st_events := [\<lparr>se_aggregate = (1, ''AAPL''), se_sequence = 1,
        se_event = \<lparr>ev_type = TRADE_BUY, ev_timestamp = 4, ev_data = TradeData (demo_trade Buy 100 10)\<rparr>,
        se_key = Some ''t3'', se_created = 4\<rparr>]\<rparr>, Inr [])"
  by (rule trans[OF redelivery_is_noop[where tid = 3]]) (simp, simp, simp_all add: has_idempotency_key_def quiet_env_def truthy_def)

text \<open>A trade that fails, is a duplicate, or loses all three races leaves the fund's store
  exactly as it was: nothing of it is written.\<close>

theorem failed_trade_writes_nothing:
  assumes "\<And>k s. en_others en k s = s"
    and "apply_trade en p i side q price cur tid key st = (st', r)" and "\<nexists>ds. r = Inr (Some ds)"
  shows "st' = st"
  using retry_quiet[OF assms(1) _ assms(3)] assms(2) unfolding apply_trade_def Let_def by blast

theorem failed_trade_writes_nothing_witness:
  "fst (apply_trade ((quiet_env (\<lambda>x _. x) 5)\<lparr>en_conflict := (\<lambda>k. True)\<rparr>) 1 ''AAPL'' Buy 100 10
     ''USD'' 3 None empty_store) = empty_store"
proof -
  let ?en = "(quiet_env (\<lambda>x _. x) 5)\<lparr>en_conflict := (\<lambda>k. True)\<rparr>"
  have o: "\<And>k s. en_others ?en k s = s" by (simp add: quiet_env_def)
  have "snd (apply_trade ?en 1 ''AAPL'' Buy 100 10 ''USD'' 3 None empty_store) = Inl IntegrityError"
    by (simp add: apply_trade_def Let_def numeral_3_eq_3 attempt_def truthy_def from_events_def
        get_by_aggregate_def empty_store_def quiet_env_def apply_event_def split: prod.splits)
  then have "\<nexists>ds. snd (apply_trade ?en 1 ''AAPL'' Buy 100 10 ''USD'' 3 None empty_store) = Inr (Some ds)"
    by simp
  from failed_trade_writes_nothing[OF o prod.collapse[symmetric] this] show ?thesis .
qed

text \<open>A trade booked through the direct path is applied twice.  \<open>handle_trade\<close> stores the
  trade under the caller's idempotency key and publishes \<open>trades.executed\<close>; the same component
  is subscribed to that topic and looks for the trade's own id, which the log does not hold, so it
  books the trade again: two events and twice the quantity.\<close>

theorem direct_trade_applied_twice:
  assumes "log_inv st" and "from_events u p i (get_by_aggregate st (p, i) None) = Inr a"
    and "\<not> (truthy key \<and> has_idempotency_key st (the key))" and "truthy fund"
    and "uuid_str tid \<noteq> ''''" "\<not> has_idempotency_key st (uuid_str tid)" "key \<noteq> Some (uuid_str tid)"
    and ht: "handle_trade (quiet_env u now) fund actor tid p i Buy q price cur key st = (st1, Inr ((topic, ev) # evs))"
    and he: "handle_trade_event (quiet_env u now) uuid_str ca_key fresh ev st1 = (st2, r)"
  shows "topic = topic_for fund ''trades.executed'' \<and>
    length (agg_rows (p, i) st2) = length (agg_rows (p, i) st) + 2 \<and>
    (\<exists>row. find_row cp_id (p, i) (st_positions st2) = Some row \<and>
       cp_quantity row = dadd (dadd (pos_quantity a) q) q)"
proof -
  define d where "d = \<lparr>td_portfolio = p, td_instrument = i, td_side = Buy, td_quantity = q,
    td_price = price, td_trade_id = tid, td_currency = cur\<rparr>"
  define e where "e = \<lparr>ev_type = TRADE_BUY, ev_timestamp = now, ev_data = TradeData d\<rparr>"
  define a1 where "a1 = fst (apply_buy u a d now)"
  define k where "k = (if truthy key then key else None)"
  have s1: "st1 = project a1 cur (append_event (p, i) e k now st)"
    and ev: "be_data ev = TradeMsg \<lparr>tm_portfolio = p, tm_instrument = i, tm_side = ''buy'',
      tm_quantity = q, tm_price = price, tm_trade_id = Some tid, tm_currency = Some cur\<rparr>"
    "be_fund ev = fund" and topic: "topic = topic_for fund ''trades.executed''"
    using ht quiet_buy[OF assms(2,3) d_def, of now]
    by (auto simp: handle_trade_def a1_def e_def k_def)
  have l1: "log_inv st1" using assms(1) by (simp add: s1 log_inv_append)
  have g1: "get_by_aggregate st1 (p, i) None = get_by_aggregate st (p, i) None @ [e]"
    using assms(1) by (simp add: get_by_aggregate_log[OF l1] get_by_aggregate_log[OF assms(1)])
      (simp add: s1 agg_rows_append deserialize_row_def e_def)
  have f1: "from_events u p i (get_by_aggregate st1 (p, i) None) = Inr a1"
    using assms(2) by (simp add: g1 from_events_def foldE_append replay_step_def e_def d_def
        apply_event_def a1_def split: prod.splits)
  have h1: "\<not> (truthy (Some (uuid_str tid)) \<and> has_idempotency_key st1 (the (Some (uuid_str tid))))"
    using assms(6,7) by (auto simp: s1 has_idempotency_key_def append_event_def k_def split: if_splits)
  note q2 = quiet_buy[OF f1 h1 d_def, of now]
  have s2: "st2 = project (fst (apply_buy u a1 d now)) cur (append_event (p, i) e
      (if truthy (Some (uuid_str tid)) then Some (uuid_str tid) else None) now st1)"
    using he assms(4) by (simp add: handle_trade_event_def ev q2 e_def)
  have len: "length (agg_rows (p, i) st2) = length (agg_rows (p, i) st) + 2"
    by (simp add: s2 agg_rows_append) (simp add: s1 agg_rows_append)
  have ids: "pos_portfolio (fst (apply_buy u a1 d now)) = p" "pos_instrument (fst (apply_buy u a1 d now)) = i"
    using from_events_ids[OF f1] by (simp_all add: apply_buy_def Let_def)
  have "pos_quantity (fst (apply_buy u a1 d now)) = dadd (dadd (pos_quantity a) q) q"
    by (simp add: apply_buy_def Let_def a1_def d_def)
  with find_position_project[OF ids] topic len show ?thesis unfolding s2 by metis
qed

theorem direct_trade_applied_twice_witness:
  "\<exists>row. find_row cp_id (1, ''AAPL'') (st_positions (fst (handle_trade_event (quiet_env (\<lambda>x _. x) 5)
      (\<lambda>n. ''t3'') (\<lambda>_ _ _. ''ca'') 0
      (snd (hd (projr (snd (handle_trade (quiet_env (\<lambda>x _. x) 5) (Some ''alpha'') None 3 1 ''AAPL'' Buy
         100 10 ''USD'' None empty_store)))))
      (fst (handle_trade (quiet_env (\<lambda>x _. x) 5) (Some ''alpha'') None 3 1 ''AAPL'' Buy
         100 10 ''USD'' None empty_store))))) = Some row \<and> cp_quantity row = 200"
proof -
  let ?en = "quiet_env (\<lambda>x _. x) 5"
  let ?h = "handle_trade ?en (Some ''alpha'') None 3 1 ''AAPL'' Buy 100 10 ''USD'' None empty_store"
  have f: "from_events (\<lambda>x _. x) 1 ''AAPL'' (get_by_aggregate empty_store (1, ''AAPL'') None)
      = Inr (empty_position 1 ''AAPL'')"
    by (simp add: from_events_def get_by_aggregate_def empty_store_def)
  have k: "\<not> (truthy None \<and> has_idempotency_key empty_store (the None))" by (simp add: truthy_def)
  have fu: "truthy (Some ''alpha'')" by (simp add: truthy_def)
  have n: "\<not> has_idempotency_key empty_store ''t3''"
    by (simp add: has_idempotency_key_def empty_store_def)
  obtain topic ev evs where h: "?h = (fst ?h, Inr ((topic, ev) # evs))"
    using quiet_buy[OF f k refl, where q = 100 and price = 10 and tid = 3 and cur = "''USD''" and now = 5]
    by (simp add: handle_trade_def)
  then have hd: "snd (hd (projr (snd ?h))) = ev" by (metis list.sel(1) snd_conv sum.sel(2))
  have "dadd (dadd (pos_quantity (empty_position 1 ''AAPL'')) 100) 100 = 200"
    by (simp add: dadd_def empty_position_def exact_simps)
  with direct_trade_applied_twice[OF log_inv_empty f k fu _ _ _ h prod.collapse[symmetric],
      of "\<lambda>n. ''t3''" "\<lambda>_ _ _. ''ca''" 0] n
  show ?thesis unfolding hd by simp
qed

text \<open>A price update revalues exactly the positions in that instrument: quantity, cost and
  realised profit never change, other instruments are untouched, and an update is published
  exactly for the positions whose unrealised profit moved by more than 0.01 percent of value.\<close>

theorem mtm_touches_only_valuation:
  "map (\<lambda>r. (cp_id r, cp_quantity r, cp_cost_basis r, cp_avg_cost r, cp_realized r, cp_currency r))
     (st_positions (fst (update_positions_for_instrument slug i price s st)))
   = map (\<lambda>r. (cp_id r, cp_quantity r, cp_cost_basis r, cp_avg_cost r, cp_realized r, cp_currency r))
     (st_positions st) \<and>
   filter (\<lambda>r. snd (cp_id r) \<noteq> i) (st_positions (fst (update_positions_for_instrument slug i price s st)))
   = filter (\<lambda>r. snd (cp_id r) \<noteq> i) (st_positions st) \<and>
   st_events (fst (update_positions_for_instrument slug i price s st)) = st_events st \<and>
   length (snd (update_positions_for_instrument slug i price s st))
   = length (filter (\<lambda>r. snd (cp_id r) = i \<and>
       dmul (dabs (market_value s (cp_quantity r) price no_args)) (1 / 10000)
         < dabs (dsub (unrealized_pnl s (cp_quantity r) (cp_cost_basis r) price no_args) (cp_unrealized r)))
       (st_positions st))"
proof -
  have ids: "cp_id (fst (mtm_position s price r)) = cp_id r" for r
    by (simp add: mtm_position_def Let_def)
  have keep: "filter (\<lambda>r. snd (cp_id r) \<noteq> i)
      (map (\<lambda>r. if snd (cp_id r) = i then fst (mtm_position s price r) else r) rows)
    = filter (\<lambda>r. snd (cp_id r) \<noteq> i) rows" for rows
    by (induction rows) (auto simp: ids)
  have pub: "length (List.map_filter (\<lambda>r. snd (mtm_position s price r)) (filter (\<lambda>r. snd (cp_id r) = i) rows))
    = length (filter (\<lambda>r. snd (cp_id r) = i \<and>
       dmul (dabs (market_value s (cp_quantity r) price no_args)) (1 / 10000)
         < dabs (dsub (unrealized_pnl s (cp_quantity r) (cp_cost_basis r) price no_args) (cp_unrealized r))) rows)"
    for rows
    by (induction rows) (auto simp: mtm_position_def Let_def List.map_filter_simps)
  show ?thesis
    using keep pub
    by (auto simp: update_positions_for_instrument_def Let_def mtm_position_def)
qed

text \<open>An equity position marked at the price its shares cost shows no unrealised profit, long
  or short.  The bond and the option valuations break this: \<open>unrealized_pnl\<close> of a bond expects a
  cost per unit of par, and that of an option a cost that already holds the contract multiplier,
  while the aggregate stores quantity times price for every asset class.\<close>

theorem mark_at_cost:
  "unrealized_pnl EquityStrategy q (dmul (dabs q) p) p no_args = 0 \<and>
   unrealized_pnl FixedIncomeStrategy 100 (dmul 100 99) 99 no_args = - 9801 \<and>
   unrealized_pnl OptionStrategy 10 (dmul 10 5) 5 no_args = 4950"
  by (simp add: no_args_def dec_defs exact_simps Let_def)

end
