(* ===== verification/OrderState.thy ===== *)
theory OrderState
  imports PyNum
begin

text \<open>
  The vocabulary of the orders module (\<open>app/modules/orders/interfaces/order.py\<close>) and its state
  machine (\<open>orders/core/state_machine.py\<close>): the table of valid transitions, the guarded
  transition and the state of a parent algo order derived from its children.
\<close>

datatype order_side = OBuy | OSell
datatype order_type = Market | Limit | Stop | StopLimit
datatype time_in_force = Day | Gtc | Ioc | Fok

datatype order_state =
    Draft
  | PendingCompliance
  | Approved
  | Rejected
  | Sent
  | Working
  | PartiallyFilled
  | Filled
  | Cancelled

datatype algo_type = Twap | Vwap | Iceberg

record algo_params =
  ap_duration :: int
  ap_num_slices :: int
  ap_visible :: "dec option"
  ap_profile :: "dec list option"

definition default_algo_params :: algo_params where
  "default_algo_params =
     \<lparr>ap_duration = 7200, ap_num_slices = 200, ap_visible = None, ap_profile = None\<rparr>"

section \<open>Transitions\<close>

fun valid_transitions :: "order_state \<Rightarrow> order_state list" where
  "valid_transitions Draft = [PendingCompliance, Cancelled]"
| "valid_transitions PendingCompliance = [Approved, Rejected]"
| "valid_transitions Approved = [Sent, Working, Cancelled]"
| "valid_transitions Rejected = []"
| "valid_transitions Working = [PartiallyFilled, Filled, Cancelled]"
| "valid_transitions Sent = [PartiallyFilled, Filled, Cancelled]"
| "valid_transitions PartiallyFilled = [PartiallyFilled, Filled, Cancelled]"
| "valid_transitions Filled = []"
| "valid_transitions Cancelled = []"

definition apply_transition :: "order_state \<Rightarrow> order_state \<Rightarrow> order_state res" where
  "apply_transition current target =
     (if target \<in> set (valid_transitions current) then Inr target else Inl InvalidTransitionError)"

definition derive_parent_state :: "order_state list \<Rightarrow> order_state" where
  "derive_parent_state cs =
     (if cs = [] then Working
      else if list_all (\<lambda>s. s = Filled) cs then Filled
      else if list_all (\<lambda>s. s = Cancelled) cs then Cancelled
      else if list_ex (\<lambda>s. s = Filled \<or> s = PartiallyFilled) cs then PartiallyFilled
      else Working)"

text \<open>The same machine as a relation, and the states an order can go through.\<close>

inductive order_step :: "order_state \<Rightarrow> order_state \<Rightarrow> bool" where
  submit: "order_step Draft PendingCompliance"
| cancel_draft: "order_step Draft Cancelled"
| approve: "order_step PendingCompliance Approved"
| reject: "order_step PendingCompliance Rejected"
| send: "order_step Approved Sent"
| work: "order_step Approved Working"
| cancel_approved: "order_step Approved Cancelled"
| fill: "s \<in> {Working, Sent, PartiallyFilled} \<Longrightarrow> t \<in> {PartiallyFilled, Filled, Cancelled} \<Longrightarrow>
    order_step s t"

inductive_cases order_step_from_Filled: "order_step Filled t"
inductive_cases order_step_from_Cancelled: "order_step Cancelled t"
inductive_cases order_step_from_Rejected: "order_step Rejected t"
inductive_simps order_step_simps: "order_step s t"

abbreviation order_path :: "order_state \<Rightarrow> order_state \<Rightarrow> bool" where
  "order_path \<equiv> order_step\<^sup>*\<^sup>*"

lemma apply_transition_Inr [simp]:
  "apply_transition s t = Inr u \<longleftrightarrow> u = t \<and> t \<in> set (valid_transitions s)"
  by (auto simp: apply_transition_def)

lemma apply_transition_Inl [simp]:
  "apply_transition s t = Inl e \<longleftrightarrow> e = InvalidTransitionError \<and> t \<notin> set (valid_transitions s)"
  by (auto simp: apply_transition_def)

lemma valid_iff_step: "t \<in> set (valid_transitions s) \<longleftrightarrow> order_step s t"
  by (cases s; cases t) (auto simp: order_step_simps)

lemma terminal_iff: "valid_transitions s = [] \<longleftrightarrow> s \<in> {Rejected, Filled, Cancelled}"
  by (cases s) auto

text \<open>A run of the machine: the states an order has been in, oldest first.\<close>

fun order_run :: "order_state list \<Rightarrow> bool" where
  "order_run [] \<longleftrightarrow> False"
| "order_run [s] \<longleftrightarrow> s = Draft"
| "order_run (t # s # ss) \<longleftrightarrow> t \<in> set (valid_transitions s) \<and> order_run (s # ss)"

text \<open>\<open>order_run\<close> takes the newest state first.\<close>

lemma order_run_past:
  "order_run (s # ss) \<Longrightarrow>
     (s \<notin> {Draft, Cancelled} \<longrightarrow> PendingCompliance \<in> set (s # ss)) \<and>
     (s \<in> {Sent, Working, PartiallyFilled, Filled} \<longrightarrow> Approved \<in> set (s # ss)) \<and>
     (s \<notin> {Rejected, Filled, Cancelled} \<longrightarrow> set (s # ss) \<inter> {Rejected, Filled, Cancelled} = {})"
proof (induction ss arbitrary: s)
  case (Cons r rs)
  then have v: "s \<in> set (valid_transitions r)" and ih: "order_run (r # rs)" by simp_all
  from Cons.IH[OF ih] v show ?case by (cases r) auto
qed simp

section \<open>Properties\<close>

text \<open>The transition function is exactly the step relation of the order life cycle, and the
  states it can never leave are exactly rejected, filled and cancelled.\<close>

theorem transition_is_step:
  "(apply_transition s t = Inr t \<longleftrightarrow> order_step s t) \<and>
   ((\<forall>t. \<not> order_step s t) \<longleftrightarrow> s \<in> {Rejected, Filled, Cancelled})"
proof -
  have "(\<forall>t. \<not> order_step s t) \<longleftrightarrow> valid_transitions s = []"
    by (simp add: valid_iff_step[symmetric])
  then show ?thesis by (simp add: valid_iff_step terminal_iff)
qed

text \<open>No order reaches a broker or a fill without passing compliance: in every run of the
  machine from draft, an order that is sent, working or filled has been pending and approved
  before, and no order that was rejected, filled or cancelled is ever live again.\<close>

theorem no_execution_without_approval:
  assumes "order_run (s # ss)" and "s \<in> {Sent, Working, PartiallyFilled, Filled}"
  shows "Approved \<in> set ss \<and> PendingCompliance \<in> set ss \<and> set ss \<inter> {Rejected, Filled, Cancelled} = {}"
proof (cases ss)
  case Nil
  with assms show ?thesis by simp
next
  case (Cons r rs)
  with assms(1) have v: "s \<in> set (valid_transitions r)" and run: "order_run (r # rs)" by simp_all
  have r: "r = Approved \<or> r = Sent \<or> r = Working \<or> r = PartiallyFilled"
    using v assms(2) by (cases r) auto
  have past: "PendingCompliance \<in> set ss" "set ss \<inter> {Rejected, Filled, Cancelled} = {}"
    using order_run_past[OF run] r unfolding Cons by blast+
  have "Approved \<in> set ss"
    using order_run_past[OF run] r unfolding Cons by (elim disjE) simp_all
  with past show ?thesis by blast
qed

theorem no_execution_without_approval_witness:
  "Approved \<in> set [Sent, Approved, PendingCompliance, Draft]"
  using no_execution_without_approval[of Filled "[Sent, Approved, PendingCompliance, Draft]"] by simp

end
