(* ===== verification/AlgoStrategies.thy ===== *)
theory AlgoStrategies
  imports OrderState
begin

text \<open>
  The slicing strategies of algo orders (\<open>app/modules/orders/core/algo_strategies.py\<close>).  Each
  returns the child slices in submission order, or the exception it raises (\<open>quantize\<close> may
  signal \<open>InvalidOperation\<close>).  Delays are floats: the interval is a true division of integers
  and each delay one float multiplication.

  The Iceberg loop \<open>while remaining > ZERO\<close> need not end: it is a \<open>partial_function\<close> whose value
  \<open>None\<close> means that the loop runs for ever.
\<close>

record child_slice =
  sl_quantity :: dec
  sl_delay :: rat
  sl_limit :: "dec option"

definition slice :: "dec \<Rightarrow> rat \<Rightarrow> child_slice" where
  "slice q d = \<lparr>sl_quantity = q, sl_delay = d, sl_limit = None\<rparr>"

definition slice_delay :: "rat \<Rightarrow> nat \<Rightarrow> rat" where
  "slice_delay interval i = fmul interval (fl64 (of_nat i))"

fun twap_loop :: "dec \<Rightarrow> dec \<Rightarrow> rat \<Rightarrow> nat \<Rightarrow> nat \<Rightarrow> dec \<Rightarrow> child_slice list" where
  \<comment> \<open>\<open>k\<close> iterations are left, the next has index \<open>i\<close>; the last takes what is not yet allocated\<close>
  "twap_loop tot base interval i 0 allocated = []"
| "twap_loop tot base interval i (Suc k) allocated =
     (let qty = (if k = 0 then dsub tot allocated else base)
      in slice qty (slice_delay interval i)
         # twap_loop tot base interval (Suc i) k (dadd allocated qty))"

definition twap_slices :: "dec \<Rightarrow> algo_params \<Rightarrow> child_slice list res" where
  "twap_slices tot p =
     (let n = max 1 (ap_num_slices p);
          interval = fdiv_int (ap_duration p) n
      in bindE (quantizeE 8 (ddiv tot (of_int n))) (\<lambda>base.
         Inr (twap_loop tot base interval 0 (nat n) 0)))"

fun vwap_loop ::
  "dec \<Rightarrow> dec \<Rightarrow> rat \<Rightarrow> nat \<Rightarrow> dec list \<Rightarrow> dec \<Rightarrow> child_slice list res" where
  "vwap_loop tot weight_sum interval i [] allocated = Inr []"
| "vwap_loop tot weight_sum interval i (w # ws) allocated =
     bindE (if ws = [] then Inr (dsub tot allocated)
            else quantizeE 8 (dmul tot (ddiv w weight_sum))) (\<lambda>qty.
     bindE (vwap_loop tot weight_sum interval (Suc i) ws (dadd allocated qty)) (\<lambda>rest.
     Inr (if 0 < qty then slice qty (slice_delay interval i) # rest else rest)))"

definition vwap_slices :: "dec \<Rightarrow> algo_params \<Rightarrow> child_slice list res" where
  "vwap_slices tot p =
     (case ap_profile p of
        None \<Rightarrow> twap_slices tot p
      | Some [] \<Rightarrow> twap_slices tot p
      | Some profile \<Rightarrow>
          let interval = fdiv_int (ap_duration p) (int (length profile));
              weight_sum = dsum profile
          in if weight_sum = 0 then twap_slices tot p
             else vwap_loop tot weight_sum interval 0 profile 0)"

partial_function (option) iceberg_loop ::
  "dec \<Rightarrow> dec \<Rightarrow> child_slice list \<Rightarrow> child_slice list option" where
  "iceberg_loop visible remaining acc =
     (if 0 < remaining
      then let qty = min visible remaining
           in iceberg_loop visible (dsub remaining qty) (acc @ [slice qty 0])
      else Some acc)"

definition iceberg_visible :: "dec \<Rightarrow> algo_params \<Rightarrow> dec res" where
  "iceberg_visible tot p =
     (case ap_visible p of
        Some v \<Rightarrow> if v \<le> 0 then quantizeE 8 (ddiv tot 10) else Inr v
      | None \<Rightarrow> quantizeE 8 (ddiv tot 10))"

definition iceberg_slices :: "dec \<Rightarrow> algo_params \<Rightarrow> child_slice list option res" where
  "iceberg_slices tot p =
     bindE (iceberg_visible tot p) (\<lambda>v. Inr (iceberg_loop v tot []))"

definition get_strategy :: "string \<Rightarrow> algo_type res" where
  "get_strategy name =
     (if name = ''twap'' then Inr Twap
      else if name = ''vwap'' then Inr Vwap
      else if name = ''iceberg'' then Inr Iceberg
      else Inl ValueError)"

definition compute_slices :: "algo_type \<Rightarrow> dec \<Rightarrow> algo_params \<Rightarrow> child_slice list option res" where
  "compute_slices a tot p = (case a of
      Twap \<Rightarrow> bindE (twap_slices tot p) (\<lambda>s. Inr (Some s))
    | Vwap \<Rightarrow> bindE (vwap_slices tot p) (\<lambda>s. Inr (Some s))
    | Iceberg \<Rightarrow> iceberg_slices tot p)"

definition slice_total :: "child_slice list \<Rightarrow> rat" where
  "slice_total sls = sum_list (map sl_quantity sls)"

lemma slice_total_simps [simp]:
  "slice_total [] = 0" "slice_total (s # sls) = sl_quantity s + slice_total sls"
  "slice_total (xs @ ys) = slice_total xs + slice_total ys"
  "sl_quantity (slice q d) = q" "sl_delay (slice q d) = d"
  by (simp_all add: slice_total_def slice_def)

section \<open>TWAP\<close>

lemma twap_loop_length [simp]: "length (twap_loop tot base interval i k a) = k"
  by (induction k arbitrary: i a) (simp_all add: Let_def)

lemma twap_loop_base:
  "j + 1 < k \<Longrightarrow> sl_quantity (twap_loop tot base interval i k a ! j) = base"
  by (induction k arbitrary: i a j) (auto simp: Let_def nth_Cons split: nat.splits)

lemma grid8_exact:
  assumes "on_grid 8 x" "\<bar>x\<bar> \<le> 10 ^ 20"
  shows "fix28 x = x"
proof (rule fix28_exact[OF assms(1)])
  have "\<bar>x\<bar> * 10 ^ 8 \<le> 10 ^ 20 * 10 ^ 8" using assms(2) by (rule mult_right_mono) simp
  then show "\<bar>x\<bar> * 10 ^ 8 \<le> 10 ^ 28" by simp
qed

text \<open>The allocations add up while they stay on the grid; the last slice closes the gap.\<close>

lemma twap_loop_total:
  assumes g: "on_grid 8 tot" "on_grid 8 base" and b: "0 \<le> base"
  shows "\<lbrakk>on_grid 8 a; 0 \<le> a; a + of_nat (Suc k) * base \<le> 10 ^ 20; \<bar>tot\<bar> \<le> 10 ^ 19; a + of_nat k * base \<le> 10 ^ 19\<rbrakk>
    \<Longrightarrow> slice_total (twap_loop tot base interval i (Suc k) a) = tot - a"
proof (induction k arbitrary: i a)
  case 0
  have "fix28 (tot - a) = tot - a"
    by (rule grid8_exact) (use 0 g in auto)
  then show ?case by (simp add: dsub_def)
next
  case (Suc k)
  have k: "0 \<le> of_nat k * base" and sk: "of_nat (Suc k) * base = base + of_nat k * base"
    using b by (simp_all add: algebra_simps)
  have le: "a + base \<le> 10 ^ 20" using Suc.prems(5) b k power_increasing[of 19 20 "10::rat"] unfolding sk by linarith
  have e: "fix28 (a + base) = a + base"
    by (rule grid8_exact) (use Suc.prems(1,2) g b le in auto)
  have "slice_total (twap_loop tot base interval (Suc i) (Suc k) (a + base)) = tot - (a + base)"
    by (rule Suc.IH) (use Suc.prems g b in \<open>auto simp: algebra_simps\<close>)
  moreover have "twap_loop tot base interval i (Suc (Suc k)) a =
      slice base (slice_delay interval i) # twap_loop tot base interval (Suc i) (Suc k) (a + base)"
    by (simp add: Let_def dadd_def e)
  ultimately show ?case by (simp del: twap_loop.simps)
qed

section \<open>Iceberg\<close>

lemma iceberg_loop_done:
  assumes v: "on_grid 8 visible" "0 < visible"
  shows "\<lbrakk>on_grid 8 r; r \<le> 10 ^ 19; r \<le> of_nat n * visible\<rbrakk> \<Longrightarrow>
    \<exists>out. iceberg_loop visible r acc = Some (acc @ out) \<and> slice_total out = max 0 r \<and>
      (\<forall>s\<in>set out. 0 < sl_quantity s \<and> sl_quantity s \<le> visible)"
proof (induction n arbitrary: r acc)
  case 0
  then have "\<not> 0 < r" by simp
  then show ?case by (intro exI[of _ "[]"]) (simp add: iceberg_loop.simps)
next
  case (Suc n)
  show ?case
  proof (cases "0 < r")
    case False
    then show ?thesis by (intro exI[of _ "[]"]) (simp add: iceberg_loop.simps)
  next
    case True
    define q where "q = min visible r"
    have q: "0 < q" "q \<le> visible" "q \<le> r" "on_grid 8 q"
      using True v Suc.prems by (auto simp: q_def min_def)
    have e: "dsub r q = r - q"
      unfolding dsub_def by (rule grid8_exact) (use q Suc.prems True in auto)
    have "r - q \<le> of_nat n * visible"
    proof (cases "visible \<le> r")
      case True
      then have "q = visible" by (simp add: q_def)
      then show ?thesis using Suc.prems(3) by (simp add: algebra_simps)
    next
      case False
      then have "q = r" by (simp add: q_def)
      then show ?thesis using v by simp
    qed
    then obtain out where out: "iceberg_loop visible (r - q) (acc @ [slice q 0]) = Some ((acc @ [slice q 0]) @ out)"
      "slice_total out = max 0 (r - q)" "\<forall>s\<in>set out. 0 < sl_quantity s \<and> sl_quantity s \<le> visible"
      using Suc.IH[of "r - q" "acc @ [slice q 0]"] q Suc.prems by auto
    have "iceberg_loop visible r acc = Some (acc @ (slice q 0 # out))"
      using True out(1) by (subst iceberg_loop.simps) (simp add: Let_def q_def[symmetric] e)
    then show ?thesis
      using out q True by (intro exI[of _ "slice q 0 # out"]) auto
  qed
qed

text \<open>With nothing visible the loop never gets anywhere.\<close>

lemma iceberg_loop_stuck:
  assumes "iceberg_loop 0 r acc = Some out" "0 < r" "fix28 r = r"
  shows False
proof -
  have "v = 0 \<longrightarrow> 0 < r \<longrightarrow> fix28 r = r \<longrightarrow> False" if "iceberg_loop v r acc = Some out" for v r acc out
  proof (rule iceberg_loop.raw_induct[where P = "\<lambda>v r acc out. v = 0 \<longrightarrow> 0 < r \<longrightarrow> fix28 r = r \<longrightarrow> False", OF _ that])
    fix f v r acc out
    assume ih: "\<And>v r acc out. f v r acc = Some out \<Longrightarrow> v = 0 \<longrightarrow> 0 < r \<longrightarrow> fix28 r = r \<longrightarrow> False"
      and eq: "(if 0 < r then let qty = min v r in f v (dsub r qty) (acc @ [slice qty 0]) else Some acc) = Some out"
    show "v = 0 \<longrightarrow> 0 < r \<longrightarrow> fix28 r = r \<longrightarrow> False"
    proof (intro impI)
      assume "v = 0" "0 < r" "fix28 r = r"
      then have "f 0 r (acc @ [slice 0 0]) = Some out"
        using eq by (simp add: Let_def min_def dsub_def)
      from ih[OF this] \<open>0 < r\<close> \<open>fix28 r = r\<close> show False by simp
    qed
  qed
  with assms show False by blast
qed


lemma grid8_le:
  "on_grid 8 x \<Longrightarrow> 0 \<le> x \<Longrightarrow> x \<le> 10 ^ 19 \<Longrightarrow> fix28 x = x"
  by (rule grid8_exact) auto

lemma quantize8_le:
  assumes q: "quantizeE 8 x = Inr q" and t: "on_grid 8 t" "x \<le> t"
  shows "q \<le> t"
proof -
  from t(1) obtain m where m: "t = of_int m / 10 ^ 8" by (elim on_gridE)
  have "round_even (x * 10 ^ 8) \<le> round_even (of_int m)"
    by (rule round_even_mono) (use t m in \<open>simp add: field_simps\<close>)
  then have "round_even (x * 10 ^ 8) \<le> m" by simp
  moreover from q have "q = of_int (round_even (x * 10 ^ 8)) / 10 ^ 8"
    by (auto simp: quantizeE_def Let_def split: if_splits)
  ultimately show ?thesis by (simp add: m divide_right_mono)
qed

lemma twap_loop_delay:
  "j < k \<Longrightarrow> sl_delay (twap_loop tot base interval i k a ! j) = slice_delay interval (i + j)"
  by (induction k arbitrary: i a j) (auto simp: Let_def nth_Cons split: nat.splits)

section \<open>VWAP\<close>

text \<open>What the loop has allocated, slices that were dropped included, never falls short.\<close>

lemma vwap_loop_props:
  assumes tot: "on_grid 8 tot" "0 \<le> tot" "tot \<le> 10 ^ 12" and W: "0 < W"
  shows "\<lbrakk>vwap_loop tot W iv i ws a = Inr sls; ws \<noteq> []; \<forall>w\<in>set ws. 0 \<le> w \<and> w \<le> W;
      on_grid 8 a; 0 \<le> a; a \<le> of_nat i * tot; i + length ws \<le> 10 ^ 6\<rbrakk>
    \<Longrightarrow> tot - a \<le> slice_total sls \<and> (\<forall>s\<in>set sls. 0 < sl_quantity s) \<and>
        length sls \<le> length ws"
proof (induction ws arbitrary: i a sls)
  case (Cons w ws)
  have "of_nat i * tot \<le> 10 ^ 6 * 10 ^ 12"
    by (rule mult_mono) (use tot Cons.prems(7) in \<open>auto simp flip: of_nat_le_iff\<close>)
  then have a18: "a \<le> 10 ^ 18" using Cons.prems(6) by simp
  show ?case
  proof (cases "ws = []")
    case True
    have "dsub tot a = tot - a" unfolding dsub_def
      by (rule grid8_exact) (use tot Cons.prems(4,5) a18 in auto)
    with Cons.prems(1) True show ?thesis by (auto split: if_splits)
  next
    case False
    with Cons.prems(1) obtain q rest where q: "quantizeE 8 (dmul tot (ddiv w W)) = Inr q"
      and rest: "vwap_loop tot W iv (Suc i) ws (dadd a q) = Inr rest"
      and sls: "sls = (if 0 < q then slice q (slice_delay iv i) # rest else rest)"
      by (auto simp: bindE_Inr_iff)
    have w: "0 \<le> w" "w \<le> W" using Cons.prems(3) by auto
    have pct: "0 \<le> ddiv w W" "ddiv w W \<le> 1"
      using w W fix28_mono[of "w / W" 1] fix28_exact[of 0 1] by (simp_all add: ddiv_def)
    have "tot * ddiv w W \<le> tot" using mult_left_mono[OF pct(2) tot(2)] by simp
    then have "dmul tot (ddiv w W) \<le> fix28 tot" unfolding dmul_def by (rule fix28_mono)
    moreover have ft: "fix28 tot = tot" by (rule grid8_le) (use tot in auto)
    ultimately have "dmul tot (ddiv w W) \<le> tot" by simp
    from quantize8_le[OF q tot(1) this] have qt: "q \<le> tot" .
    have q0: "0 \<le> q" by (rule quantizeE_Inr(3)[OF q]) (use pct tot in \<open>simp add: dmul_def\<close>)
    have qg: "on_grid 8 q" by (rule quantizeE_Inr(1)[OF q])
    have e: "dadd a q = a + q" unfolding dadd_def
      by (rule grid8_le) (use Cons.prems(4,5) a18 q0 qt qg tot(3) in auto)
    have "a + q \<le> of_nat (Suc i) * tot" using Cons.prems(6) qt by (simp add: algebra_simps)
    then have "tot - (a + q) \<le> slice_total rest \<and> (\<forall>s\<in>set rest. 0 < sl_quantity s) \<and>
        length rest \<le> length ws"
      using rest False Cons.prems q0 qg unfolding e by (intro Cons.IH) auto
    then show ?thesis using sls q0 by auto
  qed
qed simp

section \<open>Properties\<close>



text \<open>A VWAP order is never under-allocated: with a profile of non-negative weights on the
  grid, every slice submitted is positive, there is at most one per bucket, and together they
  cover at least the parent quantity.\<close>

theorem vwap_covers_parent:
  assumes "on_grid 8 tot" and "0 \<le> tot" and "tot \<le> 10 ^ 12"
    and "ap_profile p = Some ws" and "length ws \<le> 10 ^ 6"
    and "\<forall>w\<in>set ws. 0 \<le> w \<and> w \<le> 10 ^ 12 \<and> on_grid 8 w" and "dsum ws \<noteq> 0"
    and "vwap_slices tot p = Inr sls"
  shows "tot \<le> slice_total sls \<and> (\<forall>s\<in>set sls. 0 < sl_quantity s) \<and> length sls \<le> length ws"
proof -
  have "sum_list (map abs ws) \<le> of_nat (length ws) * 10 ^ 12"
    using assms(6) by (induction ws) (auto simp: algebra_simps)
  also have "\<dots> \<le> 10 ^ 6 * 10 ^ 12"
    by (rule mult_right_mono) (use assms(5) in \<open>simp_all flip: of_nat_le_iff\<close>)
  finally have sum: "dsum ws = sum_list ws"
    by (intro dsum_exact[of _ 8]) (use assms(6) in auto)
  have le: "w \<le> sum_list ws" if "w \<in> set ws" for w
    using that assms(6) by (intro member_le_sum_list) auto
  have nn: "0 \<le> sum_list ws" by (rule sum_list_nonneg) (use assms(6) in auto)
  from assms(4,7,8) have "ws \<noteq> []"
    and "vwap_loop tot (dsum ws) (fdiv_int (ap_duration p) (int (length ws))) 0 ws 0 = Inr sls"
    by (auto simp: vwap_slices_def Let_def split: list.splits)
  from vwap_loop_props[OF assms(1-3) _ this(2,1)] show ?thesis
    using assms(5,6,7) le nn unfolding sum by auto
qed

theorem vwap_covers_parent_witness:
  "slice_total [slice 2 (slice_delay (fdiv_int 60 2) 0), slice 6 (slice_delay (fdiv_int 60 2) 1)] = 8 \<and>
   (8::dec) \<le> slice_total [slice 2 (slice_delay (fdiv_int 60 2) 0), slice 6 (slice_delay (fdiv_int 60 2) 1)]"
proof -
  define p where "p = default_algo_params\<lparr>ap_profile := Some [1, 3], ap_duration := 60\<rparr>"
  have w: "dsum [1, 3] = 4" by (simp add: dsum_def dec_defs exact_simps)
  have "vwap_slices 8 p =
    Inr [slice 2 (slice_delay (fdiv_int 60 2) 0), slice 6 (slice_delay (fdiv_int 60 2) 1)]"
    by (simp add: vwap_slices_def p_def default_algo_params_def w dec_defs exact_simps quantizeE_def Let_def)
  from vwap_covers_parent[OF _ _ _ _ _ _ _ this, of "[1, 3]"] show ?thesis
    by (simp add: p_def w)
qed

text \<open>An Iceberg order is sliced completely and never shows more than it should: for a
  positive quantity on the grid whose visible size is positive, the loop ends, the slices add up
  to the parent quantity, each is positive and at most the visible size.\<close>

theorem iceberg_terminates_and_conserves:
  assumes "on_grid 8 tot" and "0 < tot" and "tot \<le> 10 ^ 19"
    and "iceberg_visible tot p = Inr v" and "0 < v" and "on_grid 8 v"
  shows "\<exists>sls. iceberg_slices tot p = Inr (Some sls) \<and> slice_total sls = tot \<and>
    (\<forall>s\<in>set sls. 0 < sl_quantity s \<and> sl_quantity s \<le> v)"
proof -
  define n where "n = nat \<lceil>tot / v\<rceil>"
  have "tot / v \<le> of_nat n" unfolding n_def by (rule of_nat_ceiling)
  then have "tot \<le> of_nat n * v" using assms(5) by (simp add: field_simps)
  from iceberg_loop_done[OF assms(6,5,1,3) this, of "[]"] show ?thesis
    using assms(2,4) by (auto simp: iceberg_slices_def max_def)
qed

theorem iceberg_terminates_and_conserves_witness:
  "\<exists>sls. iceberg_slices 25 default_algo_params = Inr (Some sls) \<and> slice_total sls = 25"
proof -
  have "iceberg_visible 25 default_algo_params = Inr (5 / 2)"
    by (simp add: iceberg_visible_def default_algo_params_def dec_defs exact_simps quantizeE_def
        round_even_def Let_def)
  moreover have "on_grid 8 (5 / 2)" by (rule on_gridI[of _ _ 250000000]) simp
  ultimately show ?thesis
    using iceberg_terminates_and_conserves[of 25 default_algo_params "5 / 2"] by auto
qed

text \<open>An Iceberg order for a dust quantity never returns: a tenth of five units in the last
  place rounds to zero, nothing is ever shown, and the loop does not end.\<close>

theorem iceberg_dust_diverges:
  "iceberg_slices (5 / 10 ^ 8) default_algo_params = Inr None"
proof -
  have "iceberg_visible (5 / 10 ^ 8) default_algo_params = Inr 0"
    by (simp add: iceberg_visible_def default_algo_params_def dec_defs exact_simps quantizeE_def
        round_even_def Let_def)
  moreover have "fix28 (5 / 10 ^ 8) = 5 / 10 ^ 8"
    using grid8_exact[of "5 / 10 ^ 8"] on_grid_of_int_div[of 8 5] by simp
  moreover have "iceberg_loop 0 (5 / 10 ^ 8) [] = None"
    using iceberg_loop_stuck[of "5 / 10 ^ 8" "[]"] \<open>fix28 _ = _\<close>
    by (cases "iceberg_loop 0 (5 / 10 ^ 8) []") auto
  ultimately show ?thesis by (simp add: iceberg_slices_def)
qed

end
