(* ===== verification/Effects.thy ===== *)
theory Effects
  imports Prelude
begin

text \<open>
  Services that read and write shared state and may raise: a computation takes the state and
  returns the state it leaves together with a result or an exception.  State written before an
  exception stays written, as commits do.  \<open>Hang\<close> is not an exception but a computation that
  never returns; no handler catches it.

  \<open>triple P m Q E\<close> is the specification used throughout: from a state with \<open>P\<close> the computation
  either returns \<open>x\<close> in a state with \<open>Q x\<close> or raises in a state with \<open>E\<close>.  The locale
  \<open>command_system\<close> lifts an invariant from single commands to every sequence of commands.
\<close>

type_synonym ('s, 'a) sm = "'s \<Rightarrow> 's \<times> 'a res"

definition retS :: "'a \<Rightarrow> ('s, 'a) sm" where
  "retS x = (\<lambda>s. (s, Inr x))"

definition raiseS :: "exn \<Rightarrow> ('s, 'a) sm" where
  "raiseS e = (\<lambda>s. (s, Inl e))"

definition bindS :: "('s, 'a) sm \<Rightarrow> ('a \<Rightarrow> ('s, 'b) sm) \<Rightarrow> ('s, 'b) sm" where
  "bindS m f = (\<lambda>s. case m s of (s', Inl e) \<Rightarrow> (s', Inl e) | (s', Inr x) \<Rightarrow> f x s')"

definition thenS :: "('s, 'a) sm \<Rightarrow> ('s, 'b) sm \<Rightarrow> ('s, 'b) sm" where
  "thenS m n = bindS m (\<lambda>_. n)"

definition getS :: "('s \<Rightarrow> 'a) \<Rightarrow> ('s, 'a) sm" where
  "getS f = (\<lambda>s. (s, Inr (f s)))"

definition modifyS :: "('s \<Rightarrow> 's) \<Rightarrow> ('s, unit) sm" where
  "modifyS f = (\<lambda>s. (f s, Inr ()))"

definition liftS :: "'a res \<Rightarrow> ('s, 'a) sm" where
  "liftS r = (\<lambda>s. (s, r))"

definition whenS :: "bool \<Rightarrow> ('s, unit) sm \<Rightarrow> ('s, unit) sm" where
  "whenS b m = (if b then m else retS ())"

definition tryS :: "('s, 'a) sm \<Rightarrow> (exn \<Rightarrow> ('s, 'a) sm) \<Rightarrow> ('s, 'a) sm" where
  "tryS m h = (\<lambda>s. case m s of
     (s', Inl e) \<Rightarrow> if e = Hang then (s', Inl e) else h e s'
   | (s', Inr x) \<Rightarrow> (s', Inr x))"

fun forS :: "('a \<Rightarrow> ('s, unit) sm) \<Rightarrow> 'a list \<Rightarrow> ('s, unit) sm" where
  "forS f [] = retS ()"
| "forS f (x # xs) = thenS (f x) (forS f xs)"

fun mapS :: "('a \<Rightarrow> ('s, 'b) sm) \<Rightarrow> 'a list \<Rightarrow> ('s, 'b list) sm" where
  "mapS f [] = retS []"
| "mapS f (x # xs) = bindS (f x) (\<lambda>y. bindS (mapS f xs) (\<lambda>ys. retS (y # ys)))"

lemma sm_simps [simp]:
  "retS x s = (s, Inr x)"
  "raiseS e s = (s, Inl e)"
  "getS f s = (s, Inr (f s))"
  "modifyS h s = (h s, Inr ())"
  "liftS r s = (s, r)"
  by (simp_all add: retS_def raiseS_def getS_def modifyS_def liftS_def)

lemma bindS_eval:
  "m s = (s', Inr x) \<Longrightarrow> bindS m f s = f x s'"
  "m s = (s', Inl e) \<Longrightarrow> bindS m f s = (s', Inl e)"
  "m s = (s', Inr x) \<Longrightarrow> thenS m n s = n s'"
  "m s = (s', Inl e) \<Longrightarrow> thenS m n s = (s', Inl e)"
  by (simp_all add: bindS_def thenS_def)

lemma bindS_simps [simp]:
  "bindS (retS x) f = f x"
  "bindS (raiseS e) f = raiseS e"
  "bindS (getS g) f s = f (g s) s"
  "bindS (modifyS h) k s = k () (h s)"
  "thenS (retS x) n = n"
  "thenS (raiseS e) n = raiseS e"
  "thenS (modifyS h) n s = n (h s)"
  "whenS True m = m"
  "whenS False m = retS ()"
  by (simp_all add: bindS_def thenS_def whenS_def fun_eq_iff)

lemma bindS_InrE:
  assumes "bindS m g s = (s', Inr y)"
  obtains t x where "m s = (t, Inr x)" "g x t = (s', Inr y)"
  using assms by (auto simp: bindS_def split: prod.splits sum.splits)

lemma thenS_InrE:
  assumes "thenS m n s = (s', Inr y)"
  obtains t where "n t = (s', Inr y)" "t = fst (m s)"
  using assms by (auto simp: thenS_def bindS_def split: prod.splits sum.splits)

section \<open>Specifications\<close>

definition triple ::
  "('s \<Rightarrow> bool) \<Rightarrow> ('s, 'a) sm \<Rightarrow> ('a \<Rightarrow> 's \<Rightarrow> bool) \<Rightarrow> ('s \<Rightarrow> bool) \<Rightarrow> bool" where
  "triple P m Q E \<longleftrightarrow>
     (\<forall>s. P s \<longrightarrow> (case m s of (s', Inr x) \<Rightarrow> Q x s' | (s', Inl e) \<Rightarrow> E s'))"

abbreviation keeps :: "('s \<Rightarrow> bool) \<Rightarrow> ('s, 'a) sm \<Rightarrow> bool" where
  "keeps I m \<equiv> triple I m (\<lambda>_. I) I"

named_theorems triple_rules \<open>structural rules of the specifications\<close>

lemma tripleI:
  assumes "\<And>s s' x. P s \<Longrightarrow> m s = (s', Inr x) \<Longrightarrow> Q x s'"
    and "\<And>s s' e. P s \<Longrightarrow> m s = (s', Inl e) \<Longrightarrow> E s'"
  shows "triple P m Q E"
  using assms by (fastforce simp: triple_def split: prod.split sum.split)

lemma tripleD:
  assumes "triple P m Q E" "P s"
  shows "m s = (s', Inr x) \<Longrightarrow> Q x s'" and "m s = (s', Inl e) \<Longrightarrow> E s'"
  using assms by (force simp: triple_def split: prod.splits sum.splits)+

lemma keeps_fst:
  assumes "keeps I m" "I s"
  shows "I (fst (m s))"
proof (cases "m s")
  case (Pair s' r)
  with assms tripleD[of I m "\<lambda>_. I" I s s'] show ?thesis by (cases r) auto
qed

lemma triple_conseq:
  assumes "triple P m Q E" "\<And>s. P' s \<Longrightarrow> P s" "\<And>x s. Q x s \<Longrightarrow> Q' x s" "\<And>s. E s \<Longrightarrow> E' s"
  shows "triple P' m Q' E'"
proof (rule tripleI)
  show "Q' x s'" if "P' s" "m s = (s', Inr x)" for s s' x
    using assms(2)[OF that(1)] that(2) by (rule assms(3)[OF tripleD(1)[OF assms(1)]])
  show "E' s'" if "P' s" "m s = (s', Inl e)" for s s' e
    using assms(2)[OF that(1)] that(2) by (rule assms(4)[OF tripleD(2)[OF assms(1)]])
qed

lemma triple_pre: "triple P m Q E \<Longrightarrow> (\<And>s. P' s \<Longrightarrow> P s) \<Longrightarrow> triple P' m Q E"
  by (rule triple_conseq[of P m Q E])

lemma triple_post: "triple P m Q E \<Longrightarrow> (\<And>x s. Q x s \<Longrightarrow> Q' x s) \<Longrightarrow> triple P m Q' E"
  by (rule triple_conseq[of P m Q E])

lemma triple_ret [triple_rules]: "(\<And>s. P s \<Longrightarrow> Q x s) \<Longrightarrow> triple P (retS x) Q E"
  by (auto simp: triple_def)

lemma triple_raise [triple_rules]: "(\<And>s. P s \<Longrightarrow> E s) \<Longrightarrow> triple P (raiseS e) Q E"
  by (auto simp: triple_def)

lemma triple_get [triple_rules]: "(\<And>s. P s \<Longrightarrow> Q (f s) s) \<Longrightarrow> triple P (getS f) Q E"
  by (auto simp: triple_def)

lemma triple_modify [triple_rules]: "(\<And>s. P s \<Longrightarrow> Q () (f s)) \<Longrightarrow> triple P (modifyS f) Q E"
  by (auto simp: triple_def)

lemma triple_lift [triple_rules]:
  assumes "\<And>s x. P s \<Longrightarrow> r = Inr x \<Longrightarrow> Q x s" "\<And>s e. P s \<Longrightarrow> r = Inl e \<Longrightarrow> E s"
  shows "triple P (liftS r) Q E"
  using assms by (cases r) (auto simp: triple_def)

lemma triple_bind:
  assumes "triple P m R E" "\<And>x. triple (R x) (f x) Q E"
  shows "triple P (bindS m f) Q E"
proof (rule tripleI)
  fix s s' x assume "P s" "bindS m f s = (s', Inr x)"
  then obtain t y where "m s = (t, Inr y)" "f y t = (s', Inr x)"
    by (auto simp: bindS_def split: prod.splits sum.splits)
  with assms \<open>P s\<close> show "Q x s'" by (metis tripleD(1))
next
  fix s s' e assume "P s" "bindS m f s = (s', Inl e)"
  then have "m s = (s', Inl e) \<or> (\<exists>t y. m s = (t, Inr y) \<and> f y t = (s', Inl e))"
    by (auto simp: bindS_def split: prod.splits sum.splits)
  with assms \<open>P s\<close> show "E s'" by (metis tripleD)
qed

lemma triple_bind_fact:
  assumes "triple P m (\<lambda>x s. R x s \<and> F x) E" "\<And>x. F x \<Longrightarrow> triple (R x) (f x) Q E"
  shows "triple P (bindS m f) Q E"
proof (rule triple_bind[OF assms(1)])
  fix x show "triple (\<lambda>s. R x s \<and> F x) (f x) Q E"
    using assms(2)[of x] by (cases "F x") (auto simp: triple_def)
qed

lemma triple_then: "triple P m (\<lambda>_. R) E \<Longrightarrow> triple R n Q E \<Longrightarrow> triple P (thenS m n) Q E"
  unfolding thenS_def by (rule triple_bind)

lemma triple_if [triple_rules]:
  "(b \<Longrightarrow> triple P m Q E) \<Longrightarrow> (\<not> b \<Longrightarrow> triple P n Q E) \<Longrightarrow> triple P (if b then m else n) Q E"
  by simp

lemma triple_option [triple_rules]:
  assumes "r = None \<Longrightarrow> triple P m Q E" "\<And>x. r = Some x \<Longrightarrow> triple P (f x) Q E"
  shows "triple P (case r of None \<Rightarrow> m | Some x \<Rightarrow> f x) Q E"
  using assms by (cases r) auto

lemma triple_when:
  "(b \<Longrightarrow> triple P m (\<lambda>_. Q) E) \<Longrightarrow> (\<not> b \<Longrightarrow> (\<And>s. P s \<Longrightarrow> Q s)) \<Longrightarrow>
     triple P (whenS b m) (\<lambda>_. Q) E"
  by (auto simp: whenS_def triple_def)

lemma triple_try:
  assumes m: "triple P m Q R" and h: "\<And>e. triple R (h e) Q E" and R: "\<And>s. R s \<Longrightarrow> E s"
  shows "triple P (tryS m h) Q E"
proof (rule tripleI)
  fix s s' x assume P: "P s" and eq: "tryS m h s = (s', Inr x)"
  then consider "m s = (s', Inr x)" | t e where "m s = (t, Inl e)" "h e t = (s', Inr x)"
    by (auto simp: tryS_def split: prod.splits sum.splits if_splits)
  then show "Q x s'" by cases (use m h P in \<open>metis tripleD\<close>)+
next
  fix s s' e assume P: "P s" and eq: "tryS m h s = (s', Inl e)"
  then consider "m s = (s', Inl e)" | t e' where "m s = (t, Inl e')" "h e' t = (s', Inl e)"
    by (auto simp: tryS_def split: prod.splits sum.splits if_splits)
  then show "E s'" by cases (use m h P R in \<open>metis tripleD\<close>)+
qed

lemma keeps_for:
  "(\<And>x. x \<in> set xs \<Longrightarrow> keeps I (f x)) \<Longrightarrow> keeps I (forS f xs)"
  by (induction xs) (auto intro: triple_ret triple_then)

text \<open>Invariants alone: no intermediate assertion has to be found.\<close>

named_theorems keeps_rules \<open>operations that keep an invariant\<close>

lemma keeps_then [keeps_rules]: "keeps I m \<Longrightarrow> keeps I n \<Longrightarrow> keeps I (thenS m n)"
  by (rule triple_then)

lemma keeps_bind [keeps_rules]: "keeps I m \<Longrightarrow> (\<And>x. keeps I (f x)) \<Longrightarrow> keeps I (bindS m f)"
  by (rule triple_bind)

lemma keeps_basic [keeps_rules]:
  "keeps I (retS x)" "keeps I (raiseS e)" "keeps I (getS g)" "keeps I (liftS r)"
  by (auto intro: triple_rules)

lemma keeps_when [keeps_rules]: "(b \<Longrightarrow> keeps I m) \<Longrightarrow> keeps I (whenS b m)"
  by (rule triple_when)

lemma keeps_if [keeps_rules]:
  "(b \<Longrightarrow> keeps I m) \<Longrightarrow> (\<not> b \<Longrightarrow> keeps I n) \<Longrightarrow> keeps I (if b then m else n)"
  by simp

lemma keeps_option [keeps_rules]:
  "keeps I m \<Longrightarrow> (\<And>x. r = Some x \<Longrightarrow> keeps I (f x)) \<Longrightarrow> keeps I (case r of None \<Rightarrow> m | Some x \<Rightarrow> f x)"
  by (cases r) auto

lemma keeps_try [keeps_rules]: "keeps I m \<Longrightarrow> (\<And>e. keeps I (h e)) \<Longrightarrow> keeps I (tryS m h)"
  by (rule triple_try)

lemma keeps_map: "(\<And>x. x \<in> set xs \<Longrightarrow> keeps I (f x)) \<Longrightarrow> keeps I (mapS f xs)"
  by (induction xs) (auto intro!: keeps_bind keeps_basic)

lemma keeps_modify: "(\<And>s. I s \<Longrightarrow> I (f s)) \<Longrightarrow> keeps I (modifyS f)"
  by (rule triple_modify)

text \<open>A fact fixed before the computation can be used in its proof.\<close>

lemma triple_fact: "(\<And>s. P s \<Longrightarrow> C) \<Longrightarrow> (C \<Longrightarrow> triple P m Q E) \<Longrightarrow> triple P m Q E"
  by (auto simp: triple_def)

section \<open>Sequences of commands\<close>

text \<open>A service as seen from outside: commands from an admissible set, each leaving a state.\<close>

locale command_system =
  fixes exec :: "'c \<Rightarrow> 's \<Rightarrow> 's" and legal :: "'c \<Rightarrow> bool" and inv :: "'s \<Rightarrow> bool"
  assumes exec_keeps: "legal c \<Longrightarrow> inv s \<Longrightarrow> inv (exec c s)"
begin

lemma run_keeps:
  "\<forall>c\<in>set cs. legal c \<Longrightarrow> inv s \<Longrightarrow> inv (fold exec cs s)"
  by (induction cs arbitrary: s) (auto intro: exec_keeps)

text \<open>Every intermediate state too: what an observer between two commands sees.\<close>

lemma run_keeps_prefix:
  "\<forall>c\<in>set cs. legal c \<Longrightarrow> inv s \<Longrightarrow> inv (fold exec (take n cs) s)"
  by (rule run_keeps) (auto dest: in_set_takeD)

end

text \<open>A system whose commands also never lose what a monotone observation has recorded.\<close>

locale logged_system = command_system exec legal inv
  for exec :: "'c \<Rightarrow> 's \<Rightarrow> 's" and legal inv +
  fixes trail :: "'s \<Rightarrow> 'e list"
  assumes trail_grows: "legal c \<Longrightarrow> inv s \<Longrightarrow> \<exists>new. trail (exec c s) = trail s @ new"
begin

lemma run_grows:
  assumes "\<forall>c\<in>set cs. legal c" "inv s"
  shows "\<exists>new. trail (fold exec cs s) = trail s @ new"
  using assms
proof (induction cs arbitrary: s)
  case (Cons c cs)
  from Cons.prems obtain n1 where "trail (exec c s) = trail s @ n1"
    using trail_grows[of c s] by auto
  moreover obtain n2 where "trail (fold exec cs (exec c s)) = trail (exec c s) @ n2"
    using Cons.IH[of "exec c s"] Cons.prems exec_keeps[of c s] by auto
  ultimately show ?case by auto
qed simp

end

end
