(* ===== verification/ComplianceTypes.thy ===== *)
theory ComplianceTypes
  imports Positions OrderState
begin

text \<open>
  The public vocabulary of the compliance module (\<open>compliance/interfaces/compliance.py\<close>), shared
  by the rule engine and the order service.  The parameters of a rule, a JSON object in the code,
  are the fields the evaluators read; a limit is kept as the outcome of \<open>Decimal(str(value))\<close>,
  which raises on malformed text.  Messages are kept structured: the subject (the text before
  \<open>is\<close>), the value and the limit of a breach, or the names listed; their formatting is not
  modelled.
\<close>

datatype rule_type =
    ConcentrationLimit
  | SectorLimit
  | CountryLimit
  | RestrictedList
  | ShortSelling
  | AggregateExposure
  | AssetClassLimit
  | LeverageLimit

datatype severity = Block | Warning | Breach
datatype breach_type = Active | Passive
datatype resolution_type = Manual | Auto | Waived

datatype eval_message =
    Note string
  | Over string dec dec
  | Listed string "string list"

record evaluation_result =
  er_rule :: uuid
  er_name :: string
  er_passed :: bool
  er_severity :: severity
  er_message :: eval_message
  er_current :: "dec option"
  er_limit :: "dec option"

record rule_params =
  rp_max_pct :: "dec res option"
  rp_max_leverage :: "dec res option"
  rp_sector :: string
  rp_country :: string
  rp_restricted :: "string list"
  rp_allow_short :: bool
  rp_group_by :: string
  rp_entity :: string
  rp_asset_class :: string

record rule_definition =
  rd_id :: uuid
  rd_name :: string
  rd_type :: rule_type
  rd_severity :: severity
  rd_params :: rule_params
  rd_active :: bool
  rd_grace_hours :: "int option"

record trade_check =
  tc_portfolio :: uuid
  tc_instrument :: string
  tc_side :: order_side
  tc_quantity :: dec
  tc_price :: dec

record decision =
  dc_approved :: bool
  dc_results :: "evaluation_result list"
  dc_blocked :: "string list"

record violation =
  vi_id :: uuid
  vi_portfolio :: uuid
  vi_rule :: uuid
  vi_name :: string
  vi_severity :: severity
  vi_message :: eval_message
  vi_current :: "dec option"
  vi_limit :: "dec option"
  vi_breach :: breach_type
  vi_detected :: timestamp
  vi_deadline :: "timestamp option"
  vi_resolved :: "(timestamp \<times> string \<times> resolution_type) option"

end
