(* ===== verification/Orders.thy ===== *)
theory Orders
  imports PositionStore AlgoStrategies Effects ComplianceTypes
begin

text \<open>
  The order life cycle (\<open>orders/services/order.py\<close>) with its collaborators: the order and fill
  tables (\<open>orders/repositories\<close>), the compliance orchestrator, the broker gateway, the event
  publisher and the registration side of the algo engine (\<open>orders/core\<close>).

  The world holds, per fund schema, the order and fill rows, and the logs of everything the
  service does to its surroundings: events published, audit rows, orders submitted to brokers,
  scorecard and transaction-cost requests.  What lies outside is the environment \<open>oenv\<close>: fresh
  identifiers, market data, the compliance gate, routing, brokers, the event bus and the audit
  table, each of which may raise, and the conversion of a decimal to a \<open>Numeric(18, 8)\<close> column.
  Writes are visible at once and survive a later exception, because every repository method
  commits.  A JSON column that cannot encode the algo parameters is part of the environment too.
\<close>

record compliance_row =
  cr_rule :: uuid
  cr_name :: string
  cr_passed :: bool
  cr_severity :: severity
  cr_message :: eval_message

record order =
  od_id :: uuid
  od_portfolio :: uuid
  od_instrument :: string
  od_side :: order_side
  od_type :: order_type
  od_quantity :: dec
  od_filled :: dec
  od_limit :: "dec option"
  od_stop :: "dec option"
  od_avg :: "dec option"
  od_state :: order_state
  od_reason :: "string option"
  od_compliance :: "compliance_row list option"
  od_tif :: time_in_force
  od_fund :: string
  od_parent :: "uuid option"
  od_algo :: "algo_type option"
  od_params :: "algo_params option"
  od_is_parent :: bool
  od_broker :: "string option"
  od_arrival :: "(dec \<times> dec \<times> timestamp) option"

record fill =
  fl_id :: uuid
  fl_order :: uuid
  fl_quantity :: dec
  fl_price :: dec
  fl_broker :: "string option"
  fl_at :: timestamp

record order_request =
  rq_portfolio :: uuid
  rq_instrument :: string
  rq_side :: order_side
  rq_type :: order_type
  rq_quantity :: dec
  rq_limit :: "dec option"
  rq_stop :: "dec option"
  rq_tif :: time_in_force

record algo_request =
  aq_portfolio :: uuid
  aq_instrument :: string
  aq_side :: order_side
  aq_type :: order_type
  aq_quantity :: dec
  aq_limit :: "dec option"
  aq_tif :: time_in_force
  aq_algo :: algo_type
  aq_params :: algo_params

text \<open>Brokers: what is submitted, acknowledged and reported.\<close>

record submission =
  sb_broker :: "string option"
  sb_order :: uuid
  sb_instrument :: string
  sb_side :: order_side
  sb_quantity :: dec
  sb_type :: order_type
  sb_limit :: "dec option"

record ack =
  ak_exchange_id :: string
  ak_status :: string

record status_report =
  sr_filled :: dec
  sr_avg :: "dec option"

record broker =
  bk_submit :: "nat \<Rightarrow> submission \<Rightarrow> ack res"
  bk_status :: "string \<Rightarrow> status_report res"

text \<open>Published and audited events.\<close>

datatype order_payload =
    OrderCreated uuid uuid string order_side order_type dec order_state
  | OrderFilled uuid uuid string order_side dec dec order_state
  | TradeExecuted trade_msg

record order_event =
  oe_type :: string
  oe_payload :: order_payload
  oe_fund :: string

datatype audit_extra =
    NoExtra
  | RejectedExtra string "compliance_row list"
  | FilledExtra dec dec "compliance_row list" "string option"
  | ReportExtra dec dec
  | AlgoExtra algo_type algo_params "compliance_row list"

record audit_row =
  au_type :: string
  au_actor :: string
  au_fund :: string
  au_order :: uuid
  au_state :: order_state
  au_extra :: audit_extra

text \<open>A runner of the algo engine.\<close>

record runner =
  rn_parent :: uuid
  rn_fund :: string
  rn_slices :: "child_slice list"
  rn_fill_driven :: bool
  rn_cancelled :: bool
  rn_index :: nat
  rn_pending :: bool
  rn_active :: bool

record world =
  w_orders :: "string \<Rightarrow> order list"
  w_fills :: "string \<Rightarrow> fill list"
  w_bus :: "(string \<times> order_event) list"
  w_audit :: "audit_row list"
  w_sent :: "submission list"
  w_scores :: "(string \<times> string) list"
  w_tca :: "uuid list"
  w_runners :: "runner list"
  w_draws :: nat

record oenv =
  en_uuid :: "nat \<Rightarrow> uuid"
  en_time :: timestamp
  en_col :: "dec \<Rightarrow> dec"
  en_json_ok :: "algo_params option \<Rightarrow> bool"
  en_price :: "string \<Rightarrow> (dec \<times> dec \<times> dec \<times> timestamp) option"
  en_check :: "trade_check \<Rightarrow> decision res"
  en_route :: "(uuid \<Rightarrow> order_request \<Rightarrow> string \<Rightarrow> string list res) option"
  en_broker :: broker
  en_registry :: "(string \<Rightarrow> broker option) option"
  en_publish :: "string \<Rightarrow> order_event \<Rightarrow> exn option"
  en_audit :: "(audit_row \<Rightarrow> exn option) option"
  en_has_bus :: bool
  en_has_scores :: bool
  en_has_tca :: bool
  en_has_algo :: bool
  en_slugs :: "string list"

type_synonym 'a om = "(world, 'a) sm"

section \<open>Tables\<close>

definition put_orders :: "string \<Rightarrow> (order list \<Rightarrow> order list) \<Rightarrow> world \<Rightarrow> world" where
  "put_orders fund f w = w\<lparr>w_orders := (w_orders w)(fund := f (w_orders w fund))\<rparr>"

definition put_fills :: "string \<Rightarrow> (fill list \<Rightarrow> fill list) \<Rightarrow> world \<Rightarrow> world" where
  "put_fills fund f w = w\<lparr>w_fills := (w_fills w)(fund := f (w_fills w fund))\<rparr>"

definition col_order :: "oenv \<Rightarrow> order \<Rightarrow> order" where
  \<comment> \<open>what the numeric columns keep of a row\<close>
  "col_order en od = od\<lparr>od_quantity := en_col en (od_quantity od), od_filled := en_col en (od_filled od),
     od_limit := map_option (en_col en) (od_limit od), od_stop := map_option (en_col en) (od_stop od),
     od_avg := map_option (en_col en) (od_avg od),
     od_arrival := map_option (\<lambda>(m, s, t). (en_col en m, en_col en s, t)) (od_arrival od)\<rparr>"

definition draw_uuid :: "oenv \<Rightarrow> uuid om" where
  "draw_uuid en = bindS (getS w_draws) (\<lambda>n.
     thenS (modifyS (\<lambda>w. w\<lparr>w_draws := Suc n\<rparr>)) (retS (en_uuid en n)))"

definition insert_order :: "oenv \<Rightarrow> string \<Rightarrow> order \<Rightarrow> order om" where
  "insert_order en fund od =
     (if \<not> en_json_ok en (od_params od) then raiseS TypeError
      else bindS (getS (\<lambda>w. find_row od_id (od_id od) (w_orders w fund))) (\<lambda>old.
        if old \<noteq> None then raiseS IntegrityError
        else thenS (modifyS (put_orders fund (\<lambda>rows. rows @ [col_order en od])))
               (retS (col_order en od))))"

definition get_by_id :: "string \<Rightarrow> uuid \<Rightarrow> order option om" where
  "get_by_id fund i = getS (\<lambda>w. find_row od_id i (w_orders w fund))"

record state_update =
  su_reason :: "string option"
  su_compliance :: "compliance_row list option"
  su_filled :: "dec option"
  su_avg :: "dec option"
  su_broker :: "string option"

definition no_update :: state_update where
  "no_update = \<lparr>su_reason = None, su_compliance = None, su_filled = None, su_avg = None, su_broker = None\<rparr>"

definition set_state :: "oenv \<Rightarrow> order_state \<Rightarrow> state_update \<Rightarrow> order \<Rightarrow> order" where
  "set_state en s u od = od\<lparr>od_state := s,
     od_reason := (if su_reason u \<noteq> None then su_reason u else od_reason od),
     od_compliance := (if su_compliance u \<noteq> None then su_compliance u else od_compliance od),
     od_filled := (case su_filled u of Some q \<Rightarrow> en_col en q | None \<Rightarrow> od_filled od),
     od_avg := (case su_avg u of Some a \<Rightarrow> Some (en_col en a) | None \<Rightarrow> od_avg od),
     od_broker := (if su_broker u \<noteq> None then su_broker u else od_broker od)\<rparr>"

definition update_state :: "oenv \<Rightarrow> string \<Rightarrow> uuid \<Rightarrow> order_state \<Rightarrow> state_update \<Rightarrow> order om" where
  "update_state en fund i s u =
     thenS (modifyS (put_orders fund (update_rows od_id i (set_state en s u))))
       (bindS (get_by_id fund i) (\<lambda>r. case r of None \<Rightarrow> raiseS RuntimeError | Some od \<Rightarrow> retS od))"

definition children_of :: "uuid \<Rightarrow> order list \<Rightarrow> order list" where
  "children_of p rows = filter (\<lambda>od. od_parent od = Some p) rows"

definition active_states :: "order_state list" where
  "active_states = [Draft, PendingCompliance, Approved, Sent, Working, PartiallyFilled]"

definition get_children :: "string \<Rightarrow> uuid \<Rightarrow> order list om" where
  "get_children fund p = getS (\<lambda>w. children_of p (w_orders w fund))"

definition get_active_children :: "string \<Rightarrow> uuid \<Rightarrow> order list om" where
  "get_active_children fund p =
     getS (\<lambda>w. filter (\<lambda>od. od_state od \<in> set active_states) (children_of p (w_orders w fund)))"

definition get_working_parents :: "string \<Rightarrow> order list om" where
  "get_working_parents fund =
     getS (\<lambda>w. filter (\<lambda>od. od_is_parent od \<and> od_state od = Working) (w_orders w fund))"

definition get_by_portfolio :: "string \<Rightarrow> uuid \<Rightarrow> order_state option \<Rightarrow> order list om" where
  "get_by_portfolio fund p st =
     getS (\<lambda>w. rev (filter (\<lambda>od. od_portfolio od = p \<and>
       (case st of None \<Rightarrow> True | Some s \<Rightarrow> od_state od = s)) (w_orders w fund)))"

definition get_open_orders :: "string \<Rightarrow> order list om" where
  "get_open_orders fund =
     getS (\<lambda>w. rev (filter (\<lambda>od. od_fund od = fund \<and> od_state od \<in> set active_states) (w_orders w fund)))"

definition insert_fill :: "oenv \<Rightarrow> string \<Rightarrow> fill \<Rightarrow> unit om" where
  "insert_fill en fund f =
     modifyS (put_fills fund (\<lambda>rows. rows @
       [f\<lparr>fl_quantity := en_col en (fl_quantity f), fl_price := en_col en (fl_price f)\<rparr>]))"

definition get_fills :: "string \<Rightarrow> uuid \<Rightarrow> fill list om" where
  "get_fills fund i =
     getS (\<lambda>w. sort_key fl_at (filter (\<lambda>f. fl_order f = i) (w_fills w fund)))"

section \<open>Collaborators\<close>

definition dec_or :: "dec option \<Rightarrow> dec \<Rightarrow> dec" where
  \<comment> \<open>\<open>x or d\<close>: a missing price and a zero price are both falsy\<close>
  "dec_or x d = (case x of Some v \<Rightarrow> if v = 0 then d else v | None \<Rightarrow> d)"

fun join_with :: "string \<Rightarrow> string list \<Rightarrow> string" where
  "join_with sep [] = ''''"
| "join_with sep [x] = x"
| "join_with sep (x # y # ys) = x @ sep @ join_with sep (y # ys)"

fun side_str :: "order_side \<Rightarrow> string" where
  "side_str OBuy = ''buy''"
| "side_str OSell = ''sell''"

definition result_row :: "evaluation_result \<Rightarrow> compliance_row" where
  "result_row r = \<lparr>cr_rule = er_rule r, cr_name = er_name r, cr_passed = er_passed r,
     cr_severity = er_severity r, cr_message = er_message r\<rparr>"

definition pre_check :: "oenv \<Rightarrow> order_request \<Rightarrow> (decision \<times> compliance_row list) om" where
  "pre_check en rq = bindS (liftS (en_check en
       \<lparr>tc_portfolio = rq_portfolio rq, tc_instrument = rq_instrument rq, tc_side = rq_side rq,
        tc_quantity = rq_quantity rq, tc_price = dec_or (rq_limit rq) 100\<rparr>))
     (\<lambda>d. retS (d, map result_row (dc_results d)))"

definition resolve :: "oenv \<Rightarrow> string option \<Rightarrow> broker" where
  "resolve en bid = (case (bid, en_registry en) of
      (Some b, Some reg) \<Rightarrow> (case reg b of Some bk \<Rightarrow> bk | None \<Rightarrow> en_broker en)
    | _ \<Rightarrow> en_broker en)"

definition submit :: "oenv \<Rightarrow> submission \<Rightarrow> ack om" where
  "submit en sb = bindS (getS (\<lambda>w. length (w_sent w))) (\<lambda>n.
     thenS (modifyS (\<lambda>w. w\<lparr>w_sent := w_sent w @ [sb]\<rparr>))
       (liftS (bk_submit (resolve en (sb_broker sb)) n sb)))"

definition poll_status :: "oenv \<Rightarrow> string \<Rightarrow> string option \<Rightarrow> status_report om" where
  "poll_status en xid bid = liftS (bk_status (resolve en bid) xid)"

definition publish :: "oenv \<Rightarrow> string \<Rightarrow> string \<Rightarrow> order_event \<Rightarrow> unit om" where
  "publish en fund base ev =
     (if \<not> en_has_bus en then retS ()
      else case en_publish en (fund_topic fund base) ev of
          Some x \<Rightarrow> raiseS x
        | None \<Rightarrow> modifyS (\<lambda>w. w\<lparr>w_bus := w_bus w @ [(fund_topic fund base, ev)]\<rparr>))"

definition publish_created :: "oenv \<Rightarrow> order \<Rightarrow> string \<Rightarrow> string \<Rightarrow> unit om" where
  "publish_created en od ty fund = publish en fund ''orders.created''
     \<lparr>oe_type = ty, oe_payload = OrderCreated (od_id od) (od_portfolio od) (od_instrument od)
        (od_side od) (od_type od) (od_quantity od) (od_state od), oe_fund = fund\<rparr>"

definition trade_payload :: "order \<Rightarrow> dec \<Rightarrow> dec \<Rightarrow> uuid \<Rightarrow> order_payload" where
  "trade_payload od q p tid = TradeExecuted
     \<lparr>tm_portfolio = od_portfolio od, tm_instrument = od_instrument od, tm_side = side_str (od_side od),
      tm_quantity = q, tm_price = p, tm_trade_id = Some tid, tm_currency = Some ''USD''\<rparr>"

definition publish_trade_decision :: "oenv \<Rightarrow> order \<Rightarrow> string \<Rightarrow> string \<Rightarrow> unit om" where
  "publish_trade_decision en od ty fund = publish en fund
     (if ty = ''trade.approved'' then ''trades.approved'' else ''trades.rejected'')
     \<lparr>oe_type = ty, oe_payload = trade_payload od (od_quantity od) (dec_or (od_limit od) 0) (od_id od),
      oe_fund = fund\<rparr>"

definition publish_trade_executed ::
  "oenv \<Rightarrow> order \<Rightarrow> uuid \<Rightarrow> dec \<Rightarrow> dec \<Rightarrow> string \<Rightarrow> unit om" where
  "publish_trade_executed en od tid q p fund = publish en fund ''trades.executed''
     \<lparr>oe_type = (if od_side od = OBuy then ''trade.buy'' else ''trade.sell''),
      oe_payload = trade_payload od q p tid, oe_fund = fund\<rparr>"

definition publish_filled :: "oenv \<Rightarrow> order \<Rightarrow> dec \<Rightarrow> dec \<Rightarrow> string \<Rightarrow> unit om" where
  "publish_filled en od q p fund = publish en fund ''orders.filled''
     \<lparr>oe_type = ''order.filled'', oe_payload = OrderFilled (od_id od) (od_portfolio od)
        (od_instrument od) (od_side od) q p (od_state od), oe_fund = fund\<rparr>"

definition audit_event ::
  "oenv \<Rightarrow> string \<Rightarrow> string \<Rightarrow> string \<Rightarrow> order \<Rightarrow> audit_extra \<Rightarrow> unit om" where
  "audit_event en ty actor fund od extra =
     (case en_audit en of
        None \<Rightarrow> retS ()
      | Some fails \<Rightarrow>
          let row = \<lparr>au_type = ty, au_actor = actor, au_fund = fund, au_order = od_id od,
                     au_state = od_state od, au_extra = extra\<rparr>
          in (case fails row of
                Some x \<Rightarrow> raiseS x
              | None \<Rightarrow> modifyS (\<lambda>w. w\<lparr>w_audit := w_audit w @ [row]\<rparr>)))"

section \<open>Algo engine: registration of runners\<close>

definition put_runner :: "runner \<Rightarrow> runner list \<Rightarrow> runner list" where
  "put_runner r rs = filter (\<lambda>q. rn_parent q \<noteq> rn_parent r) rs @ [r]"

definition new_runner :: "uuid \<Rightarrow> string \<Rightarrow> child_slice list \<Rightarrow> algo_type \<Rightarrow> runner" where
  "new_runner p fund sls a = \<lparr>rn_parent = p, rn_fund = fund, rn_slices = sls,
     rn_fill_driven = (a = Iceberg), rn_cancelled = False, rn_index = 0, rn_pending = False,
     rn_active = False\<rparr>"

definition runner_start :: "nat \<Rightarrow> runner \<Rightarrow> runner" where
  "runner_start from r = r\<lparr>rn_index := from, rn_active := True\<rparr>"

definition runner_cancel :: "runner \<Rightarrow> runner" where
  "runner_cancel r = r\<lparr>rn_cancelled := True, rn_pending := True, rn_active := False\<rparr>"

definition runner_on_child_filled :: "runner \<Rightarrow> runner" where
  "runner_on_child_filled r = (if rn_fill_driven r then r\<lparr>rn_pending := True\<rparr> else r)"

definition start_algo :: "order \<Rightarrow> string \<Rightarrow> unit om" where
  "start_algo parent fund =
     (case od_algo parent of
        None \<Rightarrow> raiseS ValueError
      | Some a \<Rightarrow>
          bindS (liftS (compute_slices a (od_quantity parent)
                   (or_else (od_params parent) default_algo_params))) (\<lambda>r.
          case r of
            None \<Rightarrow> raiseS Hang
          | Some sls \<Rightarrow> modifyS (\<lambda>w. w\<lparr>w_runners :=
              put_runner (runner_start 0 (new_runner (od_id parent) fund sls a)) (w_runners w)\<rparr>)))"

definition cancel_algo :: "uuid \<Rightarrow> unit om" where
  \<comment> \<open>a cancelled runner leaves the table through its completion callback, any other by the \<open>pop\<close>\<close>
  "cancel_algo p = modifyS (\<lambda>w. w\<lparr>w_runners := filter (\<lambda>r. rn_parent r \<noteq> p) (w_runners w)\<rparr>)"

definition engine_on_child_filled :: "order \<Rightarrow> unit om" where
  "engine_on_child_filled child =
     (case od_parent child of
        None \<Rightarrow> retS ()
      | Some p \<Rightarrow> modifyS (\<lambda>w. w\<lparr>w_runners := map (\<lambda>r.
          if rn_parent r = p \<and> rn_active r then runner_on_child_filled r else r) (w_runners w)\<rparr>))"

section \<open>Fills\<close>

definition record_scorecard :: "oenv \<Rightarrow> string option \<Rightarrow> string \<Rightarrow> unit om" where
  \<comment> \<open>the request to the scorecard service, whose errors are swallowed\<close>
  "record_scorecard en bid fund =
     (if en_has_scores en \<and> truthy bid
      then modifyS (\<lambda>w. w\<lparr>w_scores := w_scores w @ [(the bid, fund)]\<rparr>) else retS ())"

definition child_cost :: "order \<Rightarrow> dec list" where
  "child_cost c = (case od_avg c of
     Some a \<Rightarrow> if 0 < od_filled c then [dmul (od_filled c) a] else []
   | None \<Rightarrow> [])"

definition parent_fill :: "order list \<Rightarrow> dec \<times> dec option" where
  "parent_fill cs =
     (let total = dsum (map od_filled cs);
          cost = dsum (concat (map child_cost cs))
      in (total, if 0 < total then Some (ddiv cost total) else None))"

definition update_parent_from_children :: "oenv \<Rightarrow> uuid \<Rightarrow> string \<Rightarrow> unit om" where
  "update_parent_from_children en p fund =
     bindS (get_by_id fund p) (\<lambda>r. case r of
       None \<Rightarrow> retS ()
     | Some parent \<Rightarrow>
         bindS (get_children fund p) (\<lambda>cs.
         if cs = [] then retS ()
         else let new = derive_parent_state (map od_state cs);
                  cur = od_state parent
              in if new \<noteq> cur \<and> \<not> is_ok (apply_transition cur new) then retS ()
                 else thenS (update_state en fund p new
                        (no_update\<lparr>su_filled := Some (fst (parent_fill cs)), su_avg := snd (parent_fill cs)\<rparr>))
                      (retS ())))"

definition new_avg_price :: "order \<Rightarrow> dec \<Rightarrow> dec \<Rightarrow> dec res" where
  "new_avg_price od price qty =
     (case od_avg od of
        Some a \<Rightarrow> if 0 < od_filled od
          then ddivE (dadd (dmul a (od_filled od)) (dmul price qty)) (dadd (od_filled od) qty)
          else Inr price
      | None \<Rightarrow> Inr price)"

definition after_fill :: "oenv \<Rightarrow> order \<Rightarrow> uuid \<Rightarrow> dec \<Rightarrow> dec \<Rightarrow> string \<Rightarrow> order_state \<Rightarrow> order om" where
  \<comment> \<open>events and hooks that follow the update of the order row\<close>
  "after_fill en od tid price qty fund target =
     thenS (publish_trade_executed en od tid qty price fund)
    (thenS (publish_filled en od qty price fund)
    (thenS (whenS (target = Filled \<and> en_has_tca en)
              (modifyS (\<lambda>w. w\<lparr>w_tca := w_tca w @ [od_id od]\<rparr>)))
    (thenS (case od_parent od of
              None \<Rightarrow> retS ()
            | Some p \<Rightarrow> thenS (update_parent_from_children en p fund)
                (whenS (en_has_algo en) (engine_on_child_filled od)))
           (retS od))))"

definition process_fill ::
  "oenv \<Rightarrow> order \<Rightarrow> dec \<Rightarrow> dec \<Rightarrow> string \<Rightarrow> string option \<Rightarrow> timestamp option \<Rightarrow> order om" where
  "process_fill en od price qty fund bid filled_at =
     (if dsub (od_quantity od) (od_filled od) < qty then raiseS ValueError
      else bindS (draw_uuid en) (\<lambda>tid.
        let eff = (if truthy bid then bid else od_broker od) in
        thenS (insert_fill en fund \<lparr>fl_id = tid, fl_order = od_id od, fl_quantity = qty,
                 fl_price = price, fl_broker = eff, fl_at = or_else filled_at (en_time en)\<rparr>)
       (thenS (record_scorecard en eff fund)
       (let new = dadd (od_filled od) qty;
            target = (if od_quantity od \<le> new then Filled else PartiallyFilled)
        in bindS (liftS (new_avg_price od price qty)) (\<lambda>avg.
           bindS (liftS (apply_transition (od_state od) target)) (\<lambda>_.
           bindS (update_state en fund (od_id od) target
                    (no_update\<lparr>su_filled := Some new, su_avg := Some avg\<rparr>)) (\<lambda>od'.
           after_fill en od' tid price qty fund target)))))))"

section \<open>Creation\<close>

definition capture_arrival_price :: "oenv \<Rightarrow> string \<Rightarrow> order \<Rightarrow> order" where
  "capture_arrival_price en i od =
     (case en_price en i of
        None \<Rightarrow> od
      | Some (bid, ask, mid, t) \<Rightarrow> od\<lparr>od_arrival := Some (mid, dsub ask bid, t)\<rparr>)"

definition base_request :: "algo_request \<Rightarrow> order_request" where
  "base_request a = \<lparr>rq_portfolio = aq_portfolio a, rq_instrument = aq_instrument a, rq_side = aq_side a,
     rq_type = aq_type a, rq_quantity = aq_quantity a, rq_limit = aq_limit a, rq_stop = None,
     rq_tif = aq_tif a\<rparr>"

definition draft_order :: "uuid \<Rightarrow> order_request \<Rightarrow> string \<Rightarrow> order" where
  "draft_order i rq fund = \<lparr>od_id = i, od_portfolio = rq_portfolio rq, od_instrument = rq_instrument rq,
     od_side = rq_side rq, od_type = rq_type rq, od_quantity = rq_quantity rq, od_filled = 0,
     od_limit = rq_limit rq, od_stop = rq_stop rq, od_avg = None, od_state = Draft, od_reason = None,
     od_compliance = None, od_tif = rq_tif rq, od_fund = fund, od_parent = None, od_algo = None,
     od_params = None, od_is_parent = False, od_broker = None, od_arrival = None\<rparr>"

definition persist_new_order ::
  "oenv \<Rightarrow> order_request \<Rightarrow> string \<Rightarrow> (algo_type \<times> algo_params) option \<Rightarrow> order om" where
  "persist_new_order en rq fund algo = bindS (draw_uuid en) (\<lambda>i.
     insert_order en fund (capture_arrival_price en (rq_instrument rq)
       ((draft_order i rq fund)\<lparr>od_is_parent := (algo \<noteq> None), od_algo := map_option fst algo,
          od_params := map_option snd algo\<rparr>)))"

definition transition_to ::
  "oenv \<Rightarrow> string \<Rightarrow> order \<Rightarrow> order_state \<Rightarrow> state_update \<Rightarrow> order om" where
  \<comment> \<open>the guarded transition and the write that always follows it\<close>
  "transition_to en fund od s u =
     bindS (liftS (apply_transition (od_state od) s)) (\<lambda>_. update_state en fund (od_id od) s u)"

definition run_compliance_gate ::
  "oenv \<Rightarrow> order \<Rightarrow> order_request \<Rightarrow> string \<Rightarrow> string \<Rightarrow> (order \<times> compliance_row list \<times> bool) om" where
  "run_compliance_gate en od rq fund actor =
     bindS (transition_to en fund od PendingCompliance no_update) (\<lambda>od.
     bindS (pre_check en rq) (\<lambda>(d, rows).
     if \<not> dc_approved d
     then let reason = join_with ''; '' (dc_blocked d) in
          bindS (transition_to en fund od Rejected
                   (no_update\<lparr>su_reason := Some reason, su_compliance := Some rows\<rparr>)) (\<lambda>od.
          thenS (publish_created en od ''order.created'' fund)
         (thenS (publish_trade_decision en od ''trade.rejected'' fund)
         (thenS (audit_event en ''order.rejected'' actor fund od (RejectedExtra reason rows))
                (retS (od, rows, False)))))
     else bindS (transition_to en fund od Approved (no_update\<lparr>su_compliance := Some rows\<rparr>)) (\<lambda>od.
          thenS (publish_created en od ''order.created'' fund)
         (thenS (publish_trade_decision en od ''trade.approved'' fund)
                (retS (od, rows, True))))))"

definition resolve_broker_id :: "oenv \<Rightarrow> order_request \<Rightarrow> uuid \<Rightarrow> string \<Rightarrow> string option om" where
  "resolve_broker_id en rq i fund =
     (case (en_route en, en_registry en) of
        (Some route, Some _) \<Rightarrow> bindS (liftS (route i rq fund)) (\<lambda>bids.
           retS (case bids of [b] \<Rightarrow> Some b | _ \<Rightarrow> None))
      | _ \<Rightarrow> retS None)"

section \<open>The service\<close>

definition transition_to_sent :: "oenv \<Rightarrow> string \<Rightarrow> order \<Rightarrow> string option \<Rightarrow> order om" where
  "transition_to_sent en fund od bid = transition_to en fund od Sent (no_update\<lparr>su_broker := bid\<rparr>)"

definition handle_broker_ack ::
  "oenv \<Rightarrow> order \<Rightarrow> ack \<Rightarrow> string \<Rightarrow> string \<Rightarrow> compliance_row list \<Rightarrow> string option \<Rightarrow> order om" where
  "handle_broker_ack en od a fund actor rows bid =
     (if ak_status a = ''filled'' then
        bindS (poll_status en (ak_exchange_id a) bid) (\<lambda>rep.
        let price = dec_or (sr_avg rep) 0; qty = sr_filled rep in
        bindS (process_fill en od price qty fund bid None) (\<lambda>od.
        thenS (audit_event en ''order.filled'' actor fund od (FilledExtra price qty rows bid))
              (retS od)))
      else if ak_status a = ''rejected'' then
        transition_to en fund od Cancelled (no_update\<lparr>su_reason := Some ''Broker rejected: rejected''\<rparr>)
      else retS od)"

definition order_submission :: "uuid \<Rightarrow> order_request \<Rightarrow> string option \<Rightarrow> submission" where
  "order_submission i rq bid = \<lparr>sb_broker = bid, sb_order = i, sb_instrument = rq_instrument rq,
     sb_side = rq_side rq, sb_quantity = rq_quantity rq, sb_type = rq_type rq, sb_limit = rq_limit rq\<rparr>"

definition create_order :: "oenv \<Rightarrow> order_request \<Rightarrow> string \<Rightarrow> string \<Rightarrow> order om" where
  "create_order en rq fund actor =
     bindS (persist_new_order en rq fund None) (\<lambda>od.
     bindS (run_compliance_gate en od rq fund actor) (\<lambda>(od, rows, approved).
     if \<not> approved then retS od
     else bindS (resolve_broker_id en rq (od_id od) fund) (\<lambda>bid.
          bindS (transition_to_sent en fund od bid) (\<lambda>od.
          bindS (submit en (order_submission (od_id od) rq bid)) (\<lambda>a.
          handle_broker_ack en od a fund actor rows bid)))))"

definition create_algo_order :: "oenv \<Rightarrow> algo_request \<Rightarrow> string \<Rightarrow> string \<Rightarrow> order om" where
  "create_algo_order en rq fund actor =
     (if \<not> en_has_algo en then raiseS RuntimeError
      else bindS (persist_new_order en (base_request rq) fund (Some (aq_algo rq, aq_params rq))) (\<lambda>od.
        bindS (run_compliance_gate en od (base_request rq) fund actor) (\<lambda>(od, rows, approved).
        if \<not> approved then retS od
        else bindS (transition_to en fund od Working no_update) (\<lambda>od.
          thenS (start_algo od fund)
         (thenS (audit_event en ''order.created'' actor fund od (AlgoExtra (aq_algo rq) (aq_params rq) rows))
                (retS od))))))"

definition limit_or :: "dec option \<Rightarrow> dec option \<Rightarrow> dec option" where
  "limit_or a b = (case a of Some x \<Rightarrow> if x = 0 then b else a | None \<Rightarrow> b)"

definition child_draft :: "uuid \<Rightarrow> order \<Rightarrow> dec \<Rightarrow> string \<Rightarrow> dec option \<Rightarrow> order" where
  "child_draft i parent qty fund limit = \<lparr>od_id = i, od_portfolio = od_portfolio parent,
     od_instrument = od_instrument parent, od_side = od_side parent, od_type = od_type parent,
     od_quantity = qty, od_filled = 0, od_limit = limit_or limit (od_limit parent), od_stop = None,
     od_avg = None, od_state = Draft, od_reason = None, od_compliance = None, od_tif = od_tif parent,
     od_fund = fund, od_parent = Some (od_id parent), od_algo = None, od_params = None,
     od_is_parent = False, od_broker = None, od_arrival = None\<rparr>"

definition create_child_order ::
  "oenv \<Rightarrow> uuid \<Rightarrow> dec \<Rightarrow> string \<Rightarrow> dec option \<Rightarrow> order om" where
  "create_child_order en p qty fund limit =
     bindS (get_by_id fund p) (\<lambda>r. case r of
       None \<Rightarrow> raiseS LookupError
     | Some parent \<Rightarrow>
         bindS (draw_uuid en) (\<lambda>i.
         bindS (insert_order en fund (child_draft i parent qty fund limit)) (\<lambda>c.
         bindS (liftS (apply_transition (od_state c) PendingCompliance)) (\<lambda>_.
         bindS (liftS (apply_transition PendingCompliance Approved)) (\<lambda>_.
         bindS (update_state en fund (od_id c) Approved no_update) (\<lambda>c.
         bindS (transition_to en fund c Sent no_update) (\<lambda>c.
         bindS (submit en \<lparr>sb_broker = None, sb_order = od_id c, sb_instrument = od_instrument parent,
                 sb_side = od_side parent, sb_quantity = qty, sb_type = od_type parent,
                 sb_limit = limit_or limit (od_limit parent)\<rparr>) (\<lambda>a.
         if ak_status a = ''filled''
         then bindS (poll_status en (ak_exchange_id a) None) (\<lambda>rep.
              process_fill en c (dec_or (sr_avg rep) 0) (sr_filled rep) fund None None)
         else retS c))))))))"

fun first_found :: "uuid \<Rightarrow> string list \<Rightarrow> world \<Rightarrow> (order \<times> string) option" where
  "first_found i [] w = None"
| "first_found i (slug # slugs) w =
     (case find_row od_id i (w_orders w slug) of
        Some od \<Rightarrow> Some (od, slug)
      | None \<Rightarrow> first_found i slugs w)"

fun locate_order :: "oenv \<Rightarrow> nat \<Rightarrow> uuid \<Rightarrow> (order \<times> string) option om" where
  \<comment> \<open>\<open>k\<close> passes over the funds are left, with a pause after each that finds nothing\<close>
  "locate_order en 0 i = retS None"
| "locate_order en (Suc k) i =
     bindS (getS (first_found i (en_slugs en))) (\<lambda>r.
       case r of Some x \<Rightarrow> retS (Some x) | None \<Rightarrow> locate_order en k i)"

definition process_execution_report ::
  "oenv \<Rightarrow> uuid \<Rightarrow> dec \<Rightarrow> dec \<Rightarrow> timestamp option \<Rightarrow> string option \<Rightarrow> unit om" where
  "process_execution_report en i price qty filled_at bid =
     bindS (locate_order en 3 i) (\<lambda>r. case r of
       None \<Rightarrow> retS ()
     | Some (od, fund) \<Rightarrow>
         if od_state od \<noteq> Sent \<and> od_state od \<noteq> PartiallyFilled then retS ()
         else bindS (process_fill en od price qty fund bid filled_at) (\<lambda>od.
              audit_event en ''order.filled'' ''broker'' fund od (ReportExtra price qty)))"

definition cancel_child :: "oenv \<Rightarrow> string \<Rightarrow> order \<Rightarrow> unit om" where
  "cancel_child en fund c =
     tryS (thenS (transition_to en fund c Cancelled no_update) (retS ())) (\<lambda>_. retS ())"

definition cancel_order :: "oenv \<Rightarrow> uuid \<Rightarrow> string \<Rightarrow> string \<Rightarrow> order om" where
  "cancel_order en i fund actor =
     bindS (get_by_id fund i) (\<lambda>r. case r of
       None \<Rightarrow> raiseS LookupError
     | Some od \<Rightarrow>
         thenS (whenS (od_is_parent od \<and> en_has_algo en)
             (thenS (cancel_algo i)
               (bindS (get_active_children fund i) (forS (cancel_child en fund)))))
        (bindS (transition_to en fund od Cancelled no_update) (\<lambda>od.
         thenS (audit_event en ''order.cancelled'' actor (od_fund od) od NoExtra) (retS od))))"

record order_summary =
  os_id :: uuid
  os_portfolio :: uuid
  os_instrument :: string
  os_side :: order_side
  os_type :: order_type
  os_quantity :: dec
  os_filled :: dec
  os_limit :: "dec option"
  os_stop :: "dec option"
  os_avg :: "dec option"
  os_state :: order_state
  os_reason :: "string option"
  os_compliance :: "compliance_row list option"
  os_tif :: time_in_force
  os_algo :: "algo_type option"
  os_params :: "algo_params option"
  os_is_parent :: bool
  os_parent :: "uuid option"
  os_broker :: "string option"

definition to_summary :: "order \<Rightarrow> order_summary" where
  "to_summary r = \<lparr>os_id = od_id r, os_portfolio = od_portfolio r, os_instrument = od_instrument r,
     os_side = od_side r, os_type = od_type r, os_quantity = od_quantity r, os_filled = od_filled r,
     os_limit = od_limit r, os_stop = od_stop r, os_avg = od_avg r, os_state = od_state r,
     os_reason = od_reason r, os_compliance = od_compliance r, os_tif = od_tif r, os_algo = od_algo r,
     os_params = od_params r, os_is_parent = od_is_parent r, os_parent = od_parent r,
     os_broker = od_broker r\<rparr>"

definition get_order :: "string \<Rightarrow> uuid \<Rightarrow> order_summary om" where
  "get_order fund i = bindS (get_by_id fund i) (\<lambda>r. case r of
     None \<Rightarrow> raiseS LookupError | Some od \<Rightarrow> retS (to_summary od))"

definition get_orders :: "string \<Rightarrow> uuid \<Rightarrow> order_state option \<Rightarrow> order_summary list om" where
  "get_orders fund p st = bindS (get_by_portfolio fund p st) (\<lambda>rs. retS (map to_summary rs))"

end
