(* ===== verification/OrderInv.thy ===== *)
theory OrderInv
  imports Orders
begin

text \<open>
  What the order service promises.  \<open>order_inv\<close> holds of every world the service can reach:
  identifiers are unique; an order without children has been filled by exactly the quantities in
  the fill table, never more than ordered, and its state agrees with that; and nothing was ever
  submitted to a broker for an order of its own (one without a parent) that compliance had not
  approved.  Every public operation keeps it, whether it returns or raises, and the locale
  \<open>command_system\<close> lifts this to every sequence of operations.
\<close>

definition col_ok :: "oenv \<Rightarrow> bool" where
  "col_ok en \<longleftrightarrow> (\<forall>x. on_grid 8 x \<longrightarrow> \<bar>x\<bar> \<le> 10 ^ 10 \<longrightarrow> en_col en x = x)"

definition good_qty :: "dec \<Rightarrow> bool" where
  "good_qty q \<longleftrightarrow> on_grid 8 q \<and> 0 \<le> q \<and> q \<le> 10 ^ 10"

definition fills_of :: "uuid \<Rightarrow> fill list \<Rightarrow> rat" where
  "fills_of i fs = sum_list (map fl_quantity (filter (\<lambda>f. fl_order f = i) fs))"

definition childless :: "order list \<Rightarrow> order \<Rightarrow> bool" where
  "childless os od \<longleftrightarrow> children_of (od_id od) os = []"

definition books_ok :: "fill list \<Rightarrow> order \<Rightarrow> bool" where
  "books_ok fs od \<longleftrightarrow> good_qty (od_quantity od) \<and> good_qty (od_filled od) \<and>
     od_filled od = fills_of (od_id od) fs \<and> od_filled od \<le> od_quantity od \<and>
     (od_state od = Filled \<longrightarrow> od_filled od = od_quantity od) \<and>
     (od_state od \<notin> {PartiallyFilled, Filled, Cancelled} \<longrightarrow> od_filled od = 0)"

definition check_of :: "order \<Rightarrow> trade_check" where
  "check_of od = \<lparr>tc_portfolio = od_portfolio od, tc_instrument = od_instrument od,
     tc_side = od_side od, tc_quantity = od_quantity od, tc_price = dec_or (od_limit od) 100\<rparr>"

definition cleared :: "oenv \<Rightarrow> order \<Rightarrow> bool" where
  "cleared en od \<longleftrightarrow> (\<exists>d. en_check en (check_of od) = Inr d \<and> dc_approved d \<and>
     od_compliance od = Some (map result_row (dc_results d)))"

definition row_ok :: "oenv \<Rightarrow> order \<Rightarrow> bool" where
  "row_ok en od \<longleftrightarrow> (od_parent od = None \<and>
     od_state od \<notin> {Draft, PendingCompliance, Rejected, Cancelled} \<longrightarrow> cleared en od)"

definition table_ok :: "oenv \<Rightarrow> order list \<Rightarrow> fill list \<Rightarrow> bool" where
  "table_ok en os fs \<longleftrightarrow> distinct (map od_id os) \<and> fl_order ` set fs \<subseteq> od_id ` set os \<and>
     (\<forall>od\<in>set os. row_ok en od \<and> (childless os od \<longrightarrow> books_ok fs od))"

definition backs :: "oenv \<Rightarrow> submission \<Rightarrow> order \<Rightarrow> bool" where
  \<comment> \<open>the order row that justifies a submission\<close>
  "backs en sb od \<longleftrightarrow> od_id od = sb_order sb \<and> od_quantity od = sb_quantity sb \<and>
     od_instrument od = sb_instrument sb \<and> od_side od = sb_side sb \<and>
     od_state od \<in> {Sent, PartiallyFilled, Filled, Cancelled} \<and>
     (od_parent od = None \<longrightarrow> cleared en od)"

definition order_inv :: "oenv \<Rightarrow> world \<Rightarrow> bool" where
  "order_inv en w \<longleftrightarrow> (\<forall>f. table_ok en (w_orders w f) (w_fills w f)) \<and>
     (\<forall>sb\<in>set (w_sent w). \<exists>f. \<exists>od\<in>set (w_orders w f). backs en sb od)"

definition current :: "string \<Rightarrow> order \<Rightarrow> world \<Rightarrow> bool" where
  "current fund od w \<longleftrightarrow> find_row od_id (od_id od) (w_orders w fund) = Some od"

section \<open>Changing one row\<close>

lemma set_state_simps [simp]:
  "od_id (set_state en s u od) = od_id od" "od_parent (set_state en s u od) = od_parent od"
  "od_quantity (set_state en s u od) = od_quantity od" "od_state (set_state en s u od) = s"
  "od_portfolio (set_state en s u od) = od_portfolio od" "od_side (set_state en s u od) = od_side od"
  "od_instrument (set_state en s u od) = od_instrument od" "od_limit (set_state en s u od) = od_limit od"
  "od_is_parent (set_state en s u od) = od_is_parent od"
  "check_of (set_state en s u od) = check_of od"
  by (simp_all add: set_state_def check_of_def)

lemma set_state_filled:
  "od_filled (set_state en s u od) = (case su_filled u of Some q \<Rightarrow> en_col en q | None \<Rightarrow> od_filled od)"
  "od_compliance (set_state en s u od) =
     (if su_compliance u \<noteq> None then su_compliance u else od_compliance od)"
  by (simp_all add: set_state_def)

lemma update_rows_unique:
  assumes "distinct (map key rows)" "find_row key k rows = Some r"
  shows "set (update_rows key k f rows) = {f r} \<union> {q \<in> set rows. key q \<noteq> k}"
proof (intro equalityI subsetI)
  have r: "r \<in> set rows" "key r = k" using find_row_Some[OF assms(2)] by auto
  {
    fix x assume "x \<in> set (update_rows key k f rows)"
    then obtain q where q: "q \<in> set rows" "x = (if key q = k then f q else q)"
      by (auto simp: update_rows_def)
    show "x \<in> {f r} \<union> {q \<in> set rows. key q \<noteq> k}"
    proof (cases "key q = k")
      case True
      with q(1) r assms(1) have "q = r" by (auto simp: distinct_map dest: inj_onD)
      with q True show ?thesis by simp
    qed (use q in simp)
  next
    fix x assume "x \<in> {f r} \<union> {q \<in> set rows. key q \<noteq> k}"
    with r show "x \<in> set (update_rows key k f rows)"
      unfolding update_rows_def by (auto simp: image_iff intro: bexI[of _ r])
  }
qed

lemma children_update:
  "(\<And>q. od_parent (f q) = od_parent q) \<Longrightarrow>
     children_of p (update_rows od_id i f rows) = [] \<longleftrightarrow> children_of p rows = []"
  by (induction rows) (auto simp: children_of_def update_rows_def)

lemma childless_update:
  "(\<And>q. od_parent (f q) = od_parent q) \<Longrightarrow>
     childless (update_rows od_id i f rows) od = childless rows od"
  by (simp add: childless_def children_update)

text \<open>One row changes state: the table stays in order when the new row is.\<close>

lemma table_ok_update:
  assumes t: "table_ok en os fs" and c: "find_row od_id (od_id od) os = Some od"
    and r: "row_ok en (set_state en s u od)"
    and b: "childless os od \<Longrightarrow> books_ok fs' (set_state en s u od)"
    and fs: "\<And>i. i \<noteq> od_id od \<Longrightarrow> fills_of i fs' = fills_of i fs"
    and sub: "fl_order ` set fs' \<subseteq> od_id ` set os"
  shows "table_ok en (update_rows od_id (od_id od) (set_state en s u) os) fs'"
proof -
  let ?os = "update_rows od_id (od_id od) (set_state en s u) os"
  have d: "distinct (map od_id os)" using t by (simp add: table_ok_def)
  have set_eq: "set ?os = {set_state en s u od} \<union> {q \<in> set os. od_id q \<noteq> od_id od}"
    by (rule update_rows_unique[OF d c])
  have ids: "map od_id ?os = map od_id os" by (rule keys_update_rows) simp
  have cl: "childless ?os q = childless os q" for q by (rule childless_update) simp
  have cl2: "childless os (set_state en s u od) = childless os od" by (simp add: childless_def)
  have old: "row_ok en q \<and> (childless os q \<longrightarrow> books_ok fs' q)" if "q \<in> set os" "od_id q \<noteq> od_id od" for q
    using t that fs[OF that(2)] by (auto simp: table_ok_def books_ok_def)
  have "od_id ` set ?os = od_id ` set os" using ids by (metis list.set_map)
  with sub r b old show ?thesis unfolding table_ok_def set_eq cl ids using d cl2 by auto
qed

lemma backs_set_state:
  assumes "backs en sb od" "su_compliance u = None" "s \<in> {Sent, PartiallyFilled, Filled, Cancelled}"
  shows "backs en sb (set_state en s u od)"
  using assms by (auto simp: backs_def cleared_def set_state_filled)

lemma world_simps [simp]:
  "w_orders (put_orders f g w) = (w_orders w)(f := g (w_orders w f))"
  "w_fills (put_orders f g w) = w_fills w"
  "w_sent (put_orders f g w) = w_sent w"
  "w_orders (put_fills f h w) = w_orders w"
  "w_fills (put_fills f h w) = (w_fills w)(f := h (w_fills w f))"
  "w_sent (put_fills f h w) = w_sent w"
  by (simp_all add: put_orders_def put_fills_def)

abbreviation put_row :: "oenv \<Rightarrow> string \<Rightarrow> order \<Rightarrow> order_state \<Rightarrow> state_update \<Rightarrow> world \<Rightarrow> world" where
  "put_row en fund od s u \<equiv> put_orders fund (update_rows od_id (od_id od) (set_state en s u))"

lemma order_inv_cong:
  "w_orders w' = w_orders w \<Longrightarrow> w_fills w' = w_fills w \<Longrightarrow> w_sent w' = w_sent w \<Longrightarrow>
     order_inv en w' = order_inv en w"
  by (simp add: order_inv_def)

lemma current_cong: "w_orders w' = w_orders w \<Longrightarrow> current fund od w' = current fund od w"
  by (simp add: current_def)

lemma order_invD:
  "order_inv en w \<Longrightarrow> table_ok en (w_orders w f) (w_fills w f)"
  "order_inv en w \<Longrightarrow> sb \<in> set (w_sent w) \<Longrightarrow> \<exists>f. \<exists>od\<in>set (w_orders w f). backs en sb od"
  by (simp_all add: order_inv_def)

lemma current_in: "current fund od w \<Longrightarrow> od \<in> set (w_orders w fund)"
  using find_row_Some by (force simp: current_def)

lemma current_row_ok:
  assumes "order_inv en w" "current fund od w"
  shows "row_ok en od" and "childless (w_orders w fund) od \<Longrightarrow> books_ok (w_fills w fund) od"
  using order_invD(1)[OF assms(1), of fund] current_in[OF assms(2)] by (auto simp: table_ok_def)

lemma order_inv_put:
  assumes inv: "order_inv en w"
    and w': "w_orders w' = (w_orders w)(fund := os)" "w_fills w' = (w_fills w)(fund := fs)"
      "w_sent w' = w_sent w"
    and t: "table_ok en os fs"
    and b: "\<And>sb od. od \<in> set (w_orders w fund) \<Longrightarrow> backs en sb od \<Longrightarrow> \<exists>od'\<in>set os. backs en sb od'"
  shows "order_inv en w'"
  unfolding order_inv_def w'
proof (intro conjI allI ballI)
  fix f show "table_ok en (((w_orders w)(fund := os)) f) (((w_fills w)(fund := fs)) f)"
    using t order_invD(1)[OF inv, of f] by simp
next
  fix sb assume "sb \<in> set (w_sent w)"
  then obtain f od where od: "od \<in> set (w_orders w f)" "backs en sb od"
    using order_invD(2)[OF inv] by blast
  show "\<exists>f. \<exists>od\<in>set (((w_orders w)(fund := os)) f). backs en sb od"
  proof (cases "f = fund")
    case True
    with b[of od sb] od show ?thesis by (auto intro!: exI[of _ fund])
  next
    case False
    with od show ?thesis by (auto intro!: exI[of _ f])
  qed
qed

lemma backs_put_row:
  assumes t: "table_ok en os fs" and c: "find_row od_id (od_id od) os = Some od"
    and b: "\<And>sb. backs en sb od \<Longrightarrow> backs en sb (set_state en s u od)"
    and q: "q \<in> set os" "backs en sb q"
  shows "\<exists>q'\<in>set (update_rows od_id (od_id od) (set_state en s u) os). backs en sb q'"
proof -
  have d: "distinct (map od_id os)" using t by (simp add: table_ok_def)
  note set_eq = update_rows_unique[OF d c, of "set_state en s u"]
  show ?thesis
  proof (cases "od_id q = od_id od")
    case True
    with q(1) find_row_Some[OF c] d have "q = od" by (auto simp: distinct_map dest: inj_onD)
    with q(2) b show ?thesis unfolding set_eq by auto
  qed (use q set_eq in auto)
qed

lemma order_inv_put_row:
  assumes inv: "order_inv en w" and c: "current fund od w"
    and r: "row_ok en (set_state en s u od)"
    and b: "childless (w_orders w fund) od \<Longrightarrow> books_ok (w_fills w fund) (set_state en s u od)"
    and s: "\<And>sb. backs en sb od \<Longrightarrow> backs en sb (set_state en s u od)"
  shows "order_inv en (put_row en fund od s u w)"
proof (rule order_inv_put[OF inv])
  note t = order_invD(1)[OF inv, of fund]
  have c': "find_row od_id (od_id od) (w_orders w fund) = Some od" using c by (simp add: current_def)
  show "table_ok en (update_rows od_id (od_id od) (set_state en s u) (w_orders w fund)) (w_fills w fund)"
    by (rule table_ok_update[OF t c' r b]) (use t in \<open>auto simp: table_ok_def\<close>)
  show "\<exists>q'\<in>set (update_rows od_id (od_id od) (set_state en s u) (w_orders w fund)). backs en sb q'"
    if "q \<in> set (w_orders w fund)" "backs en sb q" for sb q
    by (rule backs_put_row[OF t c' s that])
qed simp_all

lemma update_state_eval:
  assumes "current fund od w"
  shows "update_state en fund (od_id od) s u w = (put_row en fund od s u w, Inr (set_state en s u od))"
    and "current fund (set_state en s u od) (put_row en fund od s u w)"
  using assms
  by (simp_all add: update_state_def thenS_def bindS_def get_by_id_def current_def find_row_update)

section \<open>Every operation keeps the invariant\<close>

lemma transition_to_triple:
  assumes "s \<notin> {PartiallyFilled, Filled}" and "su_filled u = None"
    and "su_compliance u = None \<or> od_state od = PendingCompliance"
    and "od_parent od = None \<Longrightarrow> s = Approved \<Longrightarrow> cleared en (set_state en s u od)"
  shows "triple (\<lambda>w. order_inv en w \<and> current fund od w) (transition_to en fund od s u)
           (\<lambda>od' w. order_inv en w \<and> current fund od' w \<and> od' = set_state en s u od) (order_inv en)"
proof (rule tripleI)
  fix w w' x
  assume pre: "order_inv en w \<and> current fund od w" and ok: "transition_to en fund od s u w = (w', Inr x)"
  then have step: "s \<in> set (valid_transitions (od_state od))"
    and w': "w' = put_row en fund od s u w" "x = set_state en s u od"
    using update_state_eval(1)[of fund od w en s u]
    by (auto simp: transition_to_def bindS_def split: sum.splits prod.splits)
  from pre have inv: "order_inv en w" and c: "current fund od w" by auto
  have row: "row_ok en (set_state en s u od)"
    using current_row_ok(1)[OF inv c] step assms
    by (cases "od_state od") (auto simp: row_ok_def cleared_def set_state_filled)
  have books: "books_ok (w_fills w fund) (set_state en s u od)" if "childless (w_orders w fund) od"
    using current_row_ok(2)[OF inv c that] step assms(1,2)
    by (cases "od_state od") (auto simp: books_ok_def set_state_filled)
  have sent: "backs en sb (set_state en s u od)" if "backs en sb od" for sb
    using that step assms by (intro backs_set_state) (auto simp: backs_def)
  show "order_inv en w' \<and> current fund x w' \<and> x = set_state en s u od"
    using order_inv_put_row[OF inv c row books sent] update_state_eval(2)[OF c] w' by simp
next
  fix w w' e
  assume pre: "order_inv en w \<and> current fund od w" and err: "transition_to en fund od s u w = (w', Inl e)"
  then show "order_inv en w'"
    using update_state_eval(1)[of fund od w en s u]
    by (auto simp: transition_to_def bindS_def split: sum.splits prod.splits)
qed

text \<open>A helper for computations that leave the tables and the submissions alone.\<close>

definition side_only :: "'a om \<Rightarrow> bool" where
  "side_only m \<longleftrightarrow> (\<forall>w. w_orders (fst (m w)) = w_orders w \<and> w_fills (fst (m w)) = w_fills w \<and>
     w_sent (fst (m w)) = w_sent w)"

lemma side_only_triple:
  assumes "side_only m"
  shows "triple (\<lambda>w. order_inv en w \<and> current fund od w) m
           (\<lambda>_ w. order_inv en w \<and> current fund od w) (order_inv en)"
    and "keeps (order_inv en) m"
proof -
  have same: "order_inv en w' = order_inv en w \<and> current fund od w' = current fund od w"
    if "m w = (w', r)" for w w' r
  proof -
    from assms have "w_orders w' = w_orders w \<and> w_fills w' = w_fills w \<and> w_sent w' = w_sent w"
      unfolding side_only_def using that by (metis fst_conv)
    then show ?thesis using order_inv_cong current_cong by blast
  qed
  show "triple (\<lambda>w. order_inv en w \<and> current fund od w) m
           (\<lambda>_ w. order_inv en w \<and> current fund od w) (order_inv en)"
    by (rule tripleI) (use same in blast)+
  show "keeps (order_inv en) m" by (rule tripleI) (use same in blast)+
qed

lemma side_only_intros:
  "side_only (retS x)" "side_only (raiseS e)" "side_only (liftS r)" "side_only (getS g)"
  "side_only (draw_uuid en)" "side_only (publish en f b ev)" "side_only (audit_event en ty a f od ex)"
  "side_only (record_scorecard en bid f)" "side_only (start_algo od f)" "side_only (cancel_algo i)"
  "side_only (engine_on_child_filled od)" "side_only (publish_created en od ty f)"
  "side_only (publish_trade_decision en od ty f)" "side_only (publish_trade_executed en od tid q p f)"
  "side_only (publish_filled en od q p f)" "side_only (pre_check en rq)"
  "side_only (resolve_broker_id en rq i f)" "side_only (poll_status en xid bid)"
  by (auto simp: side_only_def draw_uuid_def publish_def audit_event_def record_scorecard_def
      start_algo_def cancel_algo_def engine_on_child_filled_def publish_created_def
      publish_trade_decision_def publish_trade_executed_def publish_filled_def pre_check_def
      resolve_broker_id_def poll_status_def bindS_def thenS_def Let_def
      split: option.splits sum.splits)

lemmas side_only_keeps [keeps_rules] = side_only_intros[THEN side_only_triple(2)]

lemma update_parent_keeps: "keeps (order_inv en) (update_parent_from_children en p fund)"
proof -
  have upd: "order_inv en (put_row en fund par new u w)"
    if inv: "order_inv en w" and c: "current fund par w"
      and cs: "children_of (od_id par) (w_orders w fund) = cs" "cs \<noteq> []"
      and new: "new = derive_parent_state (map od_state cs)"
      and tr: "new = od_state par \<or> new \<in> set (valid_transitions (od_state par))"
      and u: "su_compliance u = None"
    for w par cs new u
  proof (rule order_inv_put_row[OF inv c])
    have new_in: "new \<in> {Working, Filled, Cancelled, PartiallyFilled}"
      by (auto simp: new derive_parent_state_def)
    show "row_ok en (set_state en new u par)"
      using current_row_ok(1)[OF inv c] tr new_in u
      by (cases "od_state par") (auto simp: row_ok_def cleared_def set_state_filled)
    show "books_ok (w_fills w fund) (set_state en new u par)" if "childless (w_orders w fund) par"
      using that cs by (simp add: childless_def)
    show "backs en sb (set_state en new u par)" if "backs en sb par" for sb
      using that tr new_in u by (intro backs_set_state) (auto simp: backs_def)
  qed
  show ?thesis
  proof (rule tripleI)
    fix w w' x assume inv: "order_inv en w" and run: "update_parent_from_children en p fund w = (w', Inr x)"
    show "order_inv en w'"
    proof (cases "find_row od_id p (w_orders w fund)")
      case None
      with run inv show ?thesis by (simp add: update_parent_from_children_def get_by_id_def)
    next
      case (Some par)
      then have c: "current fund par w" "od_id par = p" using find_row_Some[OF Some] by (auto simp: current_def)
      with run Some inv upd[OF inv c(1) refl] update_state_eval[OF c(1)] show ?thesis
        by (auto simp: update_parent_from_children_def get_by_id_def get_children_def Let_def thenS_def
            bindS_def no_update_def is_ok_iff split: if_splits)
    qed
  next
    fix w w' e assume inv: "order_inv en w" and run: "update_parent_from_children en p fund w = (w', Inl e)"
    then show "order_inv en w'"
    proof (cases "find_row od_id p (w_orders w fund)")
      case (Some par)
      then have c: "current fund par w" "od_id par = p" using find_row_Some[OF Some] by (auto simp: current_def)
      with run Some inv update_state_eval[OF c(1)] show ?thesis
        by (auto simp: update_parent_from_children_def get_by_id_def get_children_def Let_def thenS_def
            bindS_def split: if_splits)
    qed (simp add: update_parent_from_children_def get_by_id_def)
  qed
qed

lemma after_fill_keeps: "keeps (order_inv en) (after_fill en od tid price qty fund target)"
  unfolding after_fill_def
  by (intro keeps_rules update_parent_keeps keeps_modify) (simp add: order_inv_def)

lemma good_qty_col: "col_ok en \<Longrightarrow> good_qty q \<Longrightarrow> en_col en q = q"
  by (auto simp: col_ok_def good_qty_def)

lemma good_qty_0 [simp]: "good_qty 0"
  by (simp add: good_qty_def)

lemma good_qty_fix28: "on_grid 8 x \<Longrightarrow> \<bar>x\<bar> \<le> 2 * 10 ^ 10 \<Longrightarrow> fix28 x = x"
  by (rule grid8_exact) auto

lemma fills_of_append [simp]: "fills_of i (fs @ gs) = fills_of i fs + fills_of i gs"
  by (simp add: fills_of_def)

lemma fills_of_one [simp]: "fills_of i [f] = (if fl_order f = i then fl_quantity f else 0)"
  by (simp add: fills_of_def)

lemma fills_of_none: "i \<notin> fl_order ` set fs \<Longrightarrow> fills_of i fs = 0"
  by (induction fs) (auto simp: fills_of_def)

text \<open>A new draft is a new row; an older row may only have become a parent.\<close>

lemma insert_order_triple:
  assumes col: "col_ok en" and od: "od_state od = Draft" "od_filled od = 0" "good_qty (od_quantity od)"
  shows "triple (order_inv en) (insert_order en fund od)
    (\<lambda>x w. order_inv en w \<and> current fund x w \<and> x = col_order en od) (order_inv en)"
proof (rule tripleI)
  fix w w' x assume inv: "order_inv en w" and run: "insert_order en fund od w = (w', Inr x)"
  let ?o = "col_order en od"
  from run have new: "find_row od_id (od_id od) (w_orders w fund) = None"
    and w': "w' = put_orders fund (\<lambda>rows. rows @ [?o]) w" "x = ?o"
    by (auto simp: insert_order_def bindS_def split: if_splits)
  note t = order_invD(1)[OF inv, of fund]
  have o: "od_id ?o = od_id od" "od_state ?o = Draft" "od_filled ?o = 0" "od_quantity ?o = od_quantity od"
    using od good_qty_col[OF col, of 0] good_qty_col[OF col od(3)] by (simp_all add: col_order_def)
  have fresh: "od_id od \<notin> od_id ` set (w_orders w fund)" using new by (auto simp: find_row_None)
  with t have "fills_of (od_id od) (w_fills w fund) = 0"
    by (intro fills_of_none) (auto simp: table_ok_def)
  then have "books_ok (w_fills w fund) ?o"
    using o od(3) by (simp add: books_ok_def) (simp add: good_qty_def)
  moreover have "childless (w_orders w fund @ [?o]) q \<Longrightarrow> childless (w_orders w fund) q" for q
    by (simp add: childless_def children_of_def)
  ultimately have "table_ok en (w_orders w fund @ [?o]) (w_fills w fund)"
    using t fresh o by (auto simp: table_ok_def row_ok_def)
  then have "order_inv en w'"
    unfolding w' by (intro order_inv_put[OF inv]) auto
  moreover have "current fund ?o w'"
    using new o by (simp add: current_def w' find_row_append)
  ultimately show "order_inv en w' \<and> current fund x w' \<and> x = ?o" using w' by simp
next
  fix w w' e assume "order_inv en w" and "insert_order en fund od w = (w', Inl e)"
  then show "order_inv en w'" by (auto simp: insert_order_def bindS_def thenS_def split: if_splits)
qed

text \<open>A fill is booked: the row and the fill table move together.\<close>

lemma fill_step:
  assumes col: "col_ok en" and inv: "order_inv en w" and c: "current fund od w"
    and st: "od_state od \<in> {Sent, PartiallyFilled}" and q: "good_qty (fl_quantity f)"
    and le: "fl_quantity f \<le> dsub (od_quantity od) (od_filled od)" and f: "fl_order f = od_id od"
    and tgt: "tgt = (if od_quantity od \<le> dadd (od_filled od) (fl_quantity f) then Filled else PartiallyFilled)"
    and u: "su_filled u = Some (dadd (od_filled od) (fl_quantity f))" "su_compliance u = None"
  shows "order_inv en (put_row en fund od tgt u (put_fills fund (\<lambda>fs. fs @ [f]) w))"
proof -
  let ?os = "update_rows od_id (od_id od) (set_state en tgt u) (w_orders w fund)"
  let ?fs = "w_fills w fund @ [f]"
  note t = order_invD(1)[OF inv, of fund]
  have c': "find_row od_id (od_id od) (w_orders w fund) = Some od" using c by (simp add: current_def)
  have ts: "tgt \<in> {PartiallyFilled, Filled}" using tgt by simp
  have row: "row_ok en (set_state en tgt u od)"
    using current_row_ok(1)[OF inv c] st u by (auto simp: row_ok_def cleared_def set_state_filled)
  have books: "books_ok ?fs (set_state en tgt u od)" if "childless (w_orders w fund) od"
  proof -
    from current_row_ok(2)[OF inv c that] have b: "good_qty (od_quantity od)" "good_qty (od_filled od)"
      "od_filled od = fills_of (od_id od) (w_fills w fund)" "od_filled od \<le> od_quantity od"
      by (auto simp: books_ok_def)
    have sub: "dsub (od_quantity od) (od_filled od) = od_quantity od - od_filled od"
      unfolding dsub_def by (rule good_qty_fix28) (use b in \<open>auto simp: good_qty_def\<close>)
    have add: "dadd (od_filled od) (fl_quantity f) = od_filled od + fl_quantity f"
      unfolding dadd_def by (rule good_qty_fix28) (use b q in \<open>auto simp: good_qty_def\<close>)
    have new: "good_qty (od_filled od + fl_quantity f)"
      using b q le unfolding sub by (auto simp: good_qty_def)
    have nf: "od_filled (set_state en tgt u od) = od_filled od + fl_quantity f"
      using good_qty_col[OF col new] by (simp add: set_state_filled u(1) add)
    have "od_filled od + fl_quantity f \<le> od_quantity od" using le unfolding sub by simp
    moreover have "od_quantity od \<le> od_filled od + fl_quantity f" if "tgt = Filled"
      using that tgt unfolding add by (auto split: if_splits)
    ultimately show ?thesis
      unfolding books_ok_def nf using b(1,3) new ts by (auto simp: f)
  qed
  have "table_ok en ?os ?fs"
    by (rule table_ok_update[OF t c' row books])
      (use t f current_in[OF c] in \<open>auto simp: table_ok_def\<close>)
  then show ?thesis
  proof (intro order_inv_put[OF inv])
    show "\<exists>q'\<in>set ?os. backs en sb q'" if "p \<in> set (w_orders w fund)" "backs en sb p" for sb p
      by (rule backs_put_row[OF t c' _ that]) (use ts u in \<open>auto intro: backs_set_state\<close>)
  qed auto
qed

lemma new_avg_price_ok:
  assumes "0 \<le> qty"
  shows "\<exists>a. new_avg_price od price qty = Inr a"
proof -
  have "dadd (od_filled od) qty \<noteq> 0" if "0 < od_filled od"
    using that assms fix28_pos[of "od_filled od + qty"] by (simp add: dadd_def)
  then show ?thesis by (auto simp: new_avg_price_def ddivE_def split: option.splits)
qed

definition fill_target :: "order \<Rightarrow> dec \<Rightarrow> order_state" where
  "fill_target od qty = (if od_quantity od \<le> dadd (od_filled od) qty then Filled else PartiallyFilled)"

definition fill_update :: "order \<Rightarrow> dec \<Rightarrow> dec \<Rightarrow> state_update" where
  "fill_update od qty avg = no_update\<lparr>su_filled := Some (dadd (od_filled od) qty), su_avg := Some avg\<rparr>"

definition fill_row :: "oenv \<Rightarrow> uuid \<Rightarrow> order \<Rightarrow> dec \<Rightarrow> dec \<Rightarrow> string option \<Rightarrow> timestamp option \<Rightarrow> fill" where
  "fill_row en tid od price qty bid filled_at = \<lparr>fl_id = tid, fl_order = od_id od,
     fl_quantity = en_col en qty, fl_price = en_col en price,
     fl_broker = (if truthy bid then bid else od_broker od), fl_at = or_else filled_at (en_time en)\<rparr>"

lemma fill_row_simps [simp]:
  "fl_order (fill_row en tid od price qty bid t) = od_id od"
  "fl_quantity (fill_row en tid od price qty bid t) = en_col en qty"
  "fl_price (fill_row en tid od price qty bid t) = en_col en price"
  "fl_id (fill_row en tid od price qty bid t) = tid"
  by (simp_all add: fill_row_def)

lemma process_fill_overfill:
  "dsub (od_quantity od) (od_filled od) < qty \<Longrightarrow>
     process_fill en od price qty fund bid t w = (w, Inl ValueError)"
  by (simp add: process_fill_def)

lemma process_fill_eval:
  assumes c: "current fund od w" and st: "od_state od \<in> {Sent, PartiallyFilled}"
    and q: "0 \<le> qty" and le: "\<not> dsub (od_quantity od) (od_filled od) < qty"
  shows "\<exists>avg w1. new_avg_price od price qty = Inr avg \<and>
    process_fill en od price qty fund bid t w =
      after_fill en (set_state en (fill_target od qty) (fill_update od qty avg) od)
        (en_uuid en (w_draws w)) price qty fund (fill_target od qty)
        (put_row en fund od (fill_target od qty) (fill_update od qty avg)
          (put_fills fund (\<lambda>fs. fs @ [fill_row en (en_uuid en (w_draws w)) od price qty bid t]) w1)) \<and>
    w_orders w1 = w_orders w \<and> w_fills w1 = w_fills w \<and> w_sent w1 = w_sent w \<and> w_bus w1 = w_bus w"
proof -
  obtain avg where avg: "new_avg_price od price qty = Inr avg" using new_avg_price_ok[OF q] by blast
  let ?tid = "en_uuid en (w_draws w)"
  let ?eff = "if truthy bid then bid else od_broker od"
  let ?row = "fill_row en ?tid od price qty bid t"
  define w1 where "w1 = fst (record_scorecard en ?eff fund (w\<lparr>w_draws := Suc (w_draws w)\<rparr>))"
  have w1: "w_orders w1 = w_orders w" "w_fills w1 = w_fills w" "w_sent w1 = w_sent w" "w_bus w1 = w_bus w"
    by (auto simp: w1_def record_scorecard_def)
  have score: "record_scorecard en ?eff fund
      (put_fills fund (\<lambda>fs. fs @ [?row]) (w\<lparr>w_draws := Suc (w_draws w)\<rparr>)) =
    (put_fills fund (\<lambda>fs. fs @ [?row]) w1, Inr ())"
    by (simp add: w1_def record_scorecard_def put_fills_def)
  have tr: "apply_transition (od_state od) (fill_target od qty) = Inr (fill_target od qty)"
    using st by (auto simp: fill_target_def)
  have c1: "current fund od (put_fills fund (\<lambda>fs. fs @ [?row]) w1)"
    using c w1 by (simp add: current_def)
  have ins: "insert_fill en fund \<lparr>fl_id = ?tid, fl_order = od_id od, fl_quantity = qty, fl_price = price,
      fl_broker = ?eff, fl_at = or_else t (en_time en)\<rparr> v = (put_fills fund (\<lambda>fs. fs @ [?row]) v, Inr ())" for v
    by (simp add: insert_fill_def fill_row_def)
  have "process_fill en od price qty fund bid t w =
      after_fill en (set_state en (fill_target od qty) (fill_update od qty avg) od) ?tid price qty fund
        (fill_target od qty) (put_row en fund od (fill_target od qty) (fill_update od qty avg)
          (put_fills fund (\<lambda>fs. fs @ [?row]) w1))"
    unfolding process_fill_def Let_def fill_target_def[symmetric] fill_update_def[symmetric]
    using le by (simp add: draw_uuid_def bindS_def thenS_def avg tr ins score update_state_eval(1)[OF c1])
  with avg w1 show ?thesis by blast
qed

lemma process_fill_triple:
  assumes col: "col_ok en" and st: "od_state od \<in> {Sent, PartiallyFilled}" and q: "good_qty qty"
  shows "triple (\<lambda>w. order_inv en w \<and> current fund od w) (process_fill en od price qty fund bid t)
           (\<lambda>_. order_inv en) (order_inv en)"
proof -
  have "order_inv en (fst (process_fill en od price qty fund bid t w))"
    if inv: "order_inv en w" and c: "current fund od w" for w
  proof (cases "dsub (od_quantity od) (od_filled od) < qty")
    case True
    with inv show ?thesis by (simp add: process_fill_overfill)
  next
    case False
    have q0: "0 \<le> qty" "en_col en qty = qty" using q good_qty_col[OF col q] by (auto simp: good_qty_def)
    obtain avg w1 where run: "process_fill en od price qty fund bid t w =
      after_fill en (set_state en (fill_target od qty) (fill_update od qty avg) od)
        (en_uuid en (w_draws w)) price qty fund (fill_target od qty)
        (put_row en fund od (fill_target od qty) (fill_update od qty avg)
          (put_fills fund (\<lambda>fs. fs @ [fill_row en (en_uuid en (w_draws w)) od price qty bid t]) w1))"
      and w1: "w_orders w1 = w_orders w" "w_fills w1 = w_fills w" "w_sent w1 = w_sent w"
      using process_fill_eval[OF c st q0(1) False] by blast
    have inv1: "order_inv en w1" "current fund od w1"
      using inv c order_inv_cong[OF w1] current_cong[OF w1(1)] by auto
    show ?thesis unfolding run
      by (rule keeps_fst[OF after_fill_keeps], rule fill_step[OF col inv1 st])
        (use False q q0 in \<open>auto simp: fill_target_def fill_update_def no_update_def\<close>)
  qed
  then show ?thesis by (intro tripleI) (metis fst_conv)+
qed

definition env_ok :: "oenv \<Rightarrow> bool" where
  "env_ok en \<longleftrightarrow> col_ok en \<and>
     (\<forall>bid xid rep. bk_status (resolve en bid) xid = Inr rep \<longrightarrow> good_qty (sr_filled rep))"

definition legal_request :: "order_request \<Rightarrow> bool" where
  "legal_request rq \<longleftrightarrow> good_qty (rq_quantity rq) \<and>
     (\<forall>p. rq_limit rq = Some p \<longrightarrow> on_grid 8 p \<and> \<bar>p\<bar> \<le> 10 ^ 10)"

definition check_rq :: "order_request \<Rightarrow> trade_check" where
  "check_rq rq = \<lparr>tc_portfolio = rq_portfolio rq, tc_instrument = rq_instrument rq,
     tc_side = rq_side rq, tc_quantity = rq_quantity rq, tc_price = dec_or (rq_limit rq) 100\<rparr>"

text \<open>An order of its own (no parent) that carries a request.\<close>

definition carries :: "order \<Rightarrow> order_request \<Rightarrow> bool" where
  "carries od rq \<longleftrightarrow> od_parent od = None \<and> check_of od = check_rq rq"

lemma carries_set_state [simp]: "carries (set_state en s u od) rq = carries od rq"
  by (simp add: carries_def)

lemma carriesD:
  "carries od rq \<Longrightarrow> od_quantity od = rq_quantity rq"
  "carries od rq \<Longrightarrow> od_instrument od = rq_instrument rq"
  "carries od rq \<Longrightarrow> od_side od = rq_side rq"
  by (auto simp: carries_def check_of_def check_rq_def)

abbreviation holds :: "oenv \<Rightarrow> string \<Rightarrow> order \<Rightarrow> world \<Rightarrow> bool" where
  "holds en fund od w \<equiv> order_inv en w \<and> current fund od w"

lemma capture_arrival_simps [simp]:
  "od_id (capture_arrival_price en i od) = od_id od"
  "od_parent (capture_arrival_price en i od) = od_parent od"
  "od_state (capture_arrival_price en i od) = od_state od"
  "od_filled (capture_arrival_price en i od) = od_filled od"
  "od_quantity (capture_arrival_price en i od) = od_quantity od"
  "od_limit (capture_arrival_price en i od) = od_limit od"
  "check_of (capture_arrival_price en i od) = check_of od"
  by (simp_all add: capture_arrival_price_def check_of_def split: option.splits)

lemma persist_new_order_triple:
  assumes en: "env_ok en" and rq: "legal_request rq"
  shows "triple (order_inv en) (persist_new_order en rq fund algo)
    (\<lambda>od w. holds en fund od w \<and> carries od rq \<and> od_state od = Draft) (order_inv en)"
proof -
  have col: "col_ok en" using en by (simp add: env_ok_def)
  let ?od = "\<lambda>i. capture_arrival_price en (rq_instrument rq)
       ((draft_order i rq fund)\<lparr>od_is_parent := (algo \<noteq> None), od_algo := map_option fst algo,
          od_params := map_option snd algo\<rparr>)"
  have "carries (col_order en (?od i)) rq" for i
  proof -
    have "map_option (en_col en) (rq_limit rq) = rq_limit rq"
      using rq col by (cases "rq_limit rq") (auto simp: legal_request_def col_ok_def)
    moreover have "en_col en (rq_quantity rq) = rq_quantity rq"
      using rq col good_qty_col by (auto simp: legal_request_def)
    moreover have "check_of (col_order en od) = (check_of od)\<lparr>tc_quantity := en_col en (od_quantity od),
        tc_price := dec_or (map_option (en_col en) (od_limit od)) 100\<rparr>"
      and "od_parent (col_order en od) = od_parent od" for od
      by (simp_all add: check_of_def col_order_def)
    ultimately show ?thesis by (simp add: carries_def check_rq_def) (simp add: check_of_def draft_order_def)
  qed
  moreover have "od_state (col_order en (?od i)) = Draft" for i
    by (simp add: col_order_def) (simp add: draft_order_def)
  ultimately have "triple (order_inv en) (insert_order en fund (?od i))
      (\<lambda>od w. holds en fund od w \<and> carries od rq \<and> od_state od = Draft) (order_inv en)" for i
    by (intro triple_post[OF insert_order_triple[OF col]])
      (use rq in \<open>auto simp: draft_order_def legal_request_def\<close>)
  then show ?thesis
    unfolding persist_new_order_def
    by (rule triple_bind[OF side_only_triple(2)[OF side_only_intros(5)]])
qed

text \<open>A transition whose outcome is only read through what it carries.\<close>

lemma transition_carry:
  assumes "s \<notin> {PartiallyFilled, Filled}" "su_filled u = None"
    and "su_compliance u = None \<or> od_state od = PendingCompliance"
    and "od_parent od = None \<Longrightarrow> s = Approved \<Longrightarrow> cleared en (set_state en s u od)"
    and "C (set_state en s u od)"
  shows "triple (holds en fund od) (transition_to en fund od s u)
           (\<lambda>od' w. holds en fund od' w \<and> (od_state od' = s \<and> C od')) (order_inv en)"
  by (rule triple_post[OF transition_to_triple[OF assms(1-4)]]) (use assms(5) in auto)

lemma keeps_holds: "keeps (order_inv en) m \<Longrightarrow> triple (holds en fund od) m (\<lambda>_. order_inv en) (order_inv en)"
  by (rule triple_pre[of "order_inv en"]) auto

lemma run_compliance_gate_triple:
  assumes "carries od rq"
  shows "triple (holds en fund od) (run_compliance_gate en od rq fund actor)
    (\<lambda>(od', rows, ok) w. holds en fund od' w \<and> carries od' rq \<and>
        (ok \<longrightarrow> od_state od' = Approved \<and> cleared en od')) (order_inv en)"
proof -
  let ?Q = "\<lambda>(od', rows, ok) w. holds en fund od' w \<and> carries od' rq \<and>
        (ok \<longrightarrow> od_state od' = Approved \<and> cleared en od')"
  have pub: "triple (holds en fund x) (publish_created en x ty fund) (\<lambda>_. holds en fund x) (order_inv en)"
    "triple (holds en fund x) (publish_trade_decision en x ty fund) (\<lambda>_. holds en fund x) (order_inv en)"
    "triple (holds en fund x) (audit_event en ty actor fund x ex) (\<lambda>_. holds en fund x) (order_inv en)"
    for x ty ex by (rule side_only_triple(1) side_only_intros)+
  have rejected: "triple (holds en fund x) (bindS (transition_to en fund x Rejected
         (no_update\<lparr>su_reason := Some r, su_compliance := Some rows\<rparr>)) (\<lambda>od.
          thenS (publish_created en od ''order.created'' fund)
         (thenS (publish_trade_decision en od ''trade.rejected'' fund)
         (thenS (audit_event en ''order.rejected'' actor fund od (RejectedExtra r rows))
                (retS (od, rows, False)))))) ?Q (order_inv en)"
    if x: "od_state x = PendingCompliance" "carries x rq" for x r rows
    by (rule triple_bind_fact[OF transition_carry[where C = "\<lambda>y. carries y rq"]])
      (use x in \<open>auto simp: no_update_def
         intro!: triple_then[OF pub(1) triple_then[OF pub(2) triple_then[OF pub(3) triple_ret]]]\<close>)
  have approved: "triple (holds en fund x) (bindS (transition_to en fund x Approved
         (no_update\<lparr>su_compliance := Some (map result_row (dc_results d))\<rparr>)) (\<lambda>od.
          thenS (publish_created en od ''order.created'' fund)
         (thenS (publish_trade_decision en od ''trade.approved'' fund)
                (retS (od, map result_row (dc_results d), True))))) ?Q (order_inv en)"
    if x: "od_state x = PendingCompliance" "carries x rq"
      and d: "en_check en (check_rq rq) = Inr d" "dc_approved d" for x d
  proof (rule triple_bind_fact[OF transition_carry[where C = "\<lambda>y. carries y rq \<and> cleared en y"]])
    show "cleared en (set_state en Approved (no_update\<lparr>su_compliance := Some (map result_row (dc_results d))\<rparr>) x)"
      using x d by (auto simp: cleared_def carries_def set_state_filled)
    with x show "carries (set_state en Approved (no_update\<lparr>su_compliance := Some (map result_row (dc_results d))\<rparr>) x) rq \<and>
        cleared en (set_state en Approved (no_update\<lparr>su_compliance := Some (map result_row (dc_results d))\<rparr>) x)" by simp
  qed (use x in \<open>auto simp: no_update_def intro!: triple_then[OF pub(1) triple_then[OF pub(2) triple_ret]]\<close>)
  show ?thesis
    unfolding run_compliance_gate_def
  proof (rule triple_bind_fact[OF transition_carry[where C = "\<lambda>y. carries y rq"]])
    fix x assume x: "od_state x = PendingCompliance \<and> carries x rq"
    have "triple (holds en fund x) (pre_check en rq)
       (\<lambda>p w. holds en fund x w \<and> (en_check en (check_rq rq) = Inr (fst p) \<and> snd p = map result_row (dc_results (fst p))))
       (order_inv en)"
      by (rule tripleI) (auto simp: pre_check_def bindS_def check_rq_def split: sum.splits)
    then show "triple (holds en fund x) (bindS (pre_check en rq) (\<lambda>(d, rows).
     if \<not> dc_approved d
     then let reason = join_with ''; '' (dc_blocked d) in
          bindS (transition_to en fund x Rejected
                   (no_update\<lparr>su_reason := Some reason, su_compliance := Some rows\<rparr>)) (\<lambda>od.
          thenS (publish_created en od ''order.created'' fund)
         (thenS (publish_trade_decision en od ''trade.rejected'' fund)
         (thenS (audit_event en ''order.rejected'' actor fund od (RejectedExtra reason rows))
                (retS (od, rows, False)))))
     else bindS (transition_to en fund x Approved (no_update\<lparr>su_compliance := Some rows\<rparr>)) (\<lambda>od.
          thenS (publish_created en od ''order.created'' fund)
         (thenS (publish_trade_decision en od ''trade.approved'' fund)
                (retS (od, rows, True)))))) ?Q (order_inv en)"
      by (rule triple_bind_fact) (use x rejected[of x] approved[of x] in \<open>auto simp: Let_def\<close>)
  qed (use assms in \<open>auto simp: no_update_def\<close>)
qed

lemma submit_triple:
  assumes b: "backs en sb od"
  shows "triple (holds en fund od) (submit en sb) (\<lambda>_. holds en fund od) (order_inv en)"
proof -
  have inv: "order_inv en (w\<lparr>w_sent := w_sent w @ [sb]\<rparr>)" if "holds en fund od w" for w
    using that b current_in[of fund od w] by (auto simp: order_inv_def intro!: exI[of _ fund])
  show ?thesis
    by (rule tripleI)
      (use inv in \<open>auto simp: submit_def bindS_def thenS_def current_def split: sum.splits\<close>)
qed

lemma poll_triple:
  assumes "env_ok en"
  shows "triple (holds en fund od) (poll_status en xid bid)
      (\<lambda>rep w. holds en fund od w \<and> good_qty (sr_filled rep)) (order_inv en)"
  using assms by (intro tripleI) (auto simp: poll_status_def env_ok_def)

lemma poll_fill_triple:
  assumes en: "env_ok en" and st: "od_state od \<in> {Sent, PartiallyFilled}"
    and k: "\<And>rep x. keeps (order_inv en) (k rep x)"
  shows "triple (holds en fund od) (bindS (poll_status en xid bid) (\<lambda>rep.
      bindS (process_fill en od (dec_or (sr_avg rep) 0) (sr_filled rep) fund b t) (k rep)))
    (\<lambda>_. order_inv en) (order_inv en)"
  by (rule triple_bind_fact[OF poll_triple[OF en]])
    (rule triple_bind[OF process_fill_triple[OF _ st] k], use en in \<open>auto simp: env_ok_def\<close>)

lemma handle_broker_ack_triple:
  assumes en: "env_ok en" and st: "od_state od = Sent"
  shows "triple (holds en fund od) (handle_broker_ack en od a fund actor rows bid)
    (\<lambda>_. order_inv en) (order_inv en)"
  unfolding handle_broker_ack_def Let_def
proof (intro triple_if)
  show "triple (holds en fund od) (bindS (poll_status en (ak_exchange_id a) bid) (\<lambda>rep.
      bindS (process_fill en od (dec_or (sr_avg rep) 0) (sr_filled rep) fund bid None) (\<lambda>od.
        thenS (audit_event en ''order.filled'' actor fund od
          (FilledExtra (dec_or (sr_avg rep) 0) (sr_filled rep) rows bid)) (retS od))))
      (\<lambda>_. order_inv en) (order_inv en)"
    by (rule poll_fill_triple[OF en]) (use st in \<open>auto intro!: keeps_rules\<close>)
  show "triple (holds en fund od) (transition_to en fund od Cancelled
      (no_update\<lparr>su_reason := Some ''Broker rejected: rejected''\<rparr>)) (\<lambda>_. order_inv en) (order_inv en)"
    by (rule triple_post[OF transition_carry[where C = "\<lambda>_. True"]]) (auto simp: no_update_def)
  show "triple (holds en fund od) (retS od) (\<lambda>_. order_inv en) (order_inv en)"
    by (rule triple_ret) simp
qed

lemma create_order_keeps:
  assumes en: "env_ok en" and rq: "legal_request rq"
  shows "keeps (order_inv en) (create_order en rq fund actor)"
  unfolding create_order_def
proof (rule triple_bind_fact[OF triple_post[OF persist_new_order_triple[OF en rq]]])
  fix od assume od: "carries od rq \<and> od_state od = Draft"
  have sent: "triple (holds en fund x) (bindS (transition_to_sent en fund x bid) (\<lambda>od.
      bindS (submit en (order_submission (od_id od) rq bid)) (\<lambda>a.
        handle_broker_ack en od a fund actor rows bid))) (\<lambda>_. order_inv en) (order_inv en)"
    if x: "carries x rq" "od_state x = Approved" "cleared en x" for x bid rows
    unfolding transition_to_sent_def
  proof (rule triple_bind_fact[OF transition_carry[where C = "\<lambda>y. carries y rq \<and> cleared en y"]])
    show "carries (set_state en Sent (no_update\<lparr>su_broker := bid\<rparr>) x) rq \<and>
        cleared en (set_state en Sent (no_update\<lparr>su_broker := bid\<rparr>) x)"
      using x by (auto simp: cleared_def set_state_filled no_update_def)
    fix y assume y: "od_state y = Sent \<and> carries y rq \<and> cleared en y"
    then have "backs en (order_submission (od_id y) rq bid) y"
      using carriesD[of y rq] by (auto simp: backs_def order_submission_def)
    then show "triple (holds en fund y) (bindS (submit en (order_submission (od_id y) rq bid))
        (\<lambda>a. handle_broker_ack en y a fund actor rows bid)) (\<lambda>_. order_inv en) (order_inv en)"
      by (rule triple_bind[OF submit_triple handle_broker_ack_triple[OF en]]) (use y in simp)
  qed (simp_all add: no_update_def)
  have routed: "triple (holds en fund x) (bindS (resolve_broker_id en rq (od_id x) fund) (\<lambda>bid.
      bindS (transition_to_sent en fund x bid) (\<lambda>od.
      bindS (submit en (order_submission (od_id od) rq bid)) (\<lambda>a.
        handle_broker_ack en od a fund actor rows bid)))) (\<lambda>_. order_inv en) (order_inv en)"
    if x: "carries x rq" "od_state x = Approved" "cleared en x" for x rows
    by (rule triple_bind[OF side_only_triple(1)[OF side_only_intros(17)] sent[OF x]])
  show "triple (holds en fund od) (bindS (run_compliance_gate en od rq fund actor) (\<lambda>(od, rows, approved).
     if \<not> approved then retS od
     else bindS (resolve_broker_id en rq (od_id od) fund) (\<lambda>bid.
          bindS (transition_to_sent en fund od bid) (\<lambda>od.
          bindS (submit en (order_submission (od_id od) rq bid)) (\<lambda>a.
          handle_broker_ack en od a fund actor rows bid))))) (\<lambda>_. order_inv en) (order_inv en)"
  proof (rule triple_bind_fact[where R = "\<lambda>p. holds en fund (fst p)"
          and F = "\<lambda>(x, rows, ok). carries x rq \<and> (ok \<longrightarrow> od_state x = Approved \<and> cleared en x)"])
    show "triple (holds en fund od) (run_compliance_gate en od rq fund actor)
      (\<lambda>p w. holds en fund (fst p) w \<and>
        (case p of (x, rows, ok) \<Rightarrow> carries x rq \<and> (ok \<longrightarrow> od_state x = Approved \<and> cleared en x)))
      (order_inv en)"
      by (rule triple_post[OF run_compliance_gate_triple]) (use od in auto)
  qed (use routed in \<open>auto intro!: triple_ret split: prod.splits\<close>)
qed auto

lemma create_algo_order_keeps:
  assumes en: "env_ok en" and rq: "legal_request (base_request rq)"
  shows "keeps (order_inv en) (create_algo_order en rq fund actor)"
  unfolding create_algo_order_def
proof (intro keeps_if keeps_basic)
  have working: "triple (holds en fund x) (bindS (transition_to en fund x Working no_update) (\<lambda>od.
          thenS (start_algo od fund)
         (thenS (audit_event en ''order.created'' actor fund od (AlgoExtra (aq_algo rq) (aq_params rq) rows))
                (retS od)))) (\<lambda>_. order_inv en) (order_inv en)" for x rows
    by (rule triple_bind_fact[OF transition_carry[where C = "\<lambda>_. True"]])
      (auto simp: no_update_def intro!: keeps_holds keeps_rules)
  show "keeps (order_inv en)
    (bindS (persist_new_order en (base_request rq) fund (Some (aq_algo rq, aq_params rq))) (\<lambda>od.
        bindS (run_compliance_gate en od (base_request rq) fund actor) (\<lambda>(od, rows, approved).
        if \<not> approved then retS od
        else bindS (transition_to en fund od Working no_update) (\<lambda>od.
          thenS (start_algo od fund)
         (thenS (audit_event en ''order.created'' actor fund od (AlgoExtra (aq_algo rq) (aq_params rq) rows))
                (retS od))))))"
  proof (rule triple_bind_fact[OF triple_post[OF persist_new_order_triple[OF en rq]]])
    fix od assume od: "carries od (base_request rq) \<and> od_state od = Draft"
    have gate: "triple (holds en fund od) (run_compliance_gate en od (base_request rq) fund actor)
        (\<lambda>p w. holds en fund (fst p) w \<and> True) (order_inv en)"
      by (rule triple_post[OF run_compliance_gate_triple]) (use od in auto)
    show "triple (holds en fund od) (bindS (run_compliance_gate en od (base_request rq) fund actor)
       (\<lambda>(od, rows, approved). if \<not> approved then retS od
        else bindS (transition_to en fund od Working no_update) (\<lambda>od.
          thenS (start_algo od fund)
         (thenS (audit_event en ''order.created'' actor fund od (AlgoExtra (aq_algo rq) (aq_params rq) rows))
                (retS od))))) (\<lambda>_. order_inv en) (order_inv en)"
      by (rule triple_bind_fact[OF gate]) (use working in \<open>auto intro!: triple_ret split: prod.splits\<close>)
  qed auto
qed

text \<open>Children skip the gate: they go from draft to sent under the parent's approval.\<close>

lemma child_approve_triple:
  assumes x: "od_state x = Draft" "od_parent x \<noteq> None" and C: "C (set_state en Approved no_update x)"
  shows "triple (holds en fund x) (update_state en fund (od_id x) Approved no_update)
    (\<lambda>y w. holds en fund y w \<and> (od_state y = Approved \<and> od_parent y \<noteq> None \<and> C y)) (order_inv en)"
proof -
  have "order_inv en (put_row en fund x Approved no_update w)" if h: "holds en fund x w" for w
  proof (rule order_inv_put_row)
    show "row_ok en (set_state en Approved no_update x)" using x by (auto simp: row_ok_def)
    show "books_ok (w_fills w fund) (set_state en Approved no_update x)"
      if "childless (w_orders w fund) x"
      using current_row_ok(2)[of en w fund x] h that x
      unfolding books_ok_def set_state_filled no_update_def by auto
    show "backs en sb (set_state en Approved no_update x)" if "backs en sb x" for sb
      using that x by (simp add: backs_def)
  qed (use h in auto)
  then show ?thesis
    by (intro tripleI) (use update_state_eval[of fund x _ en Approved no_update] x C in auto)
qed

lemma create_child_order_keeps:
  assumes en: "env_ok en" and q: "good_qty qty"
  shows "keeps (order_inv en) (create_child_order en p qty fund limit)"
  unfolding create_child_order_def
proof (rule keeps_bind, unfold get_by_id_def, rule keeps_basic, rule keeps_option, rule keeps_basic,
    rule keeps_bind, rule side_only_keeps, goal_cases)
  case (1 r parent i)
  let ?C = "\<lambda>c :: order. od_quantity c = qty \<and> od_instrument c = od_instrument parent \<and> od_side c = od_side parent"
  have col: "col_ok en" using en by (simp add: env_ok_def)
  have ins: "triple (order_inv en) (insert_order en fund (child_draft i parent qty fund limit))
    (\<lambda>c w. holds en fund c w \<and> (od_state c = Draft \<and> od_parent c \<noteq> None \<and> ?C c)) (order_inv en)"
    by (rule triple_post[OF insert_order_triple[OF col]])
      (use q good_qty_col[OF col q] in \<open>auto simp: child_draft_def col_order_def\<close>)
  let ?sb = "\<lambda>c. \<lparr>sb_broker = None, sb_order = od_id c, sb_instrument = od_instrument parent,
      sb_side = od_side parent, sb_quantity = qty, sb_type = od_type parent,
      sb_limit = limit_or limit (od_limit parent)\<rparr>"
  have last: "triple (holds en fund c) (bindS (submit en (?sb c)) (\<lambda>a.
      if ak_status a = ''filled''
      then bindS (poll_status en (ak_exchange_id a) None) (\<lambda>rep.
           process_fill en c (dec_or (sr_avg rep) 0) (sr_filled rep) fund None None)
      else retS c)) (\<lambda>_. order_inv en) (order_inv en)"
    if c: "od_state c = Sent" "od_parent c \<noteq> None" "?C c" for c
  proof (rule triple_bind[OF submit_triple triple_if])
    show "backs en (?sb c) c" using c by (auto simp: backs_def)
    show "triple (holds en fund c) (bindS (poll_status en xid None) (\<lambda>rep.
           process_fill en c (dec_or (sr_avg rep) 0) (sr_filled rep) fund None None))
        (\<lambda>_. order_inv en) (order_inv en)" for xid
      by (rule triple_bind_fact[OF poll_triple[OF en] process_fill_triple]) (use c col in simp_all)
    show "triple (holds en fund c) (retS c) (\<lambda>_. order_inv en) (order_inv en)"
      by (rule triple_ret) simp
  qed
  have sent: "triple (holds en fund c) (transition_to en fund c Sent no_update)
     (\<lambda>y w. holds en fund y w \<and> (od_state y = Sent \<and> od_parent y \<noteq> None \<and> ?C y)) (order_inv en)"
    if c: "od_state c = Approved" "od_parent c \<noteq> None" "?C c" for c
    by (rule transition_carry) (use c in \<open>auto simp: no_update_def\<close>)
  show ?case
  proof (rule triple_bind_fact[OF ins])
    fix c assume c: "od_state c = Draft \<and> od_parent c \<noteq> None \<and> ?C c"
    have trans: "liftS (apply_transition Draft PendingCompliance) = retS PendingCompliance"
      "liftS (apply_transition PendingCompliance Approved) = retS Approved"
      by (simp_all add: liftS_def retS_def apply_transition_def)
    note app = child_approve_triple[where x = c and C = ?C and fund = fund]
    show "triple (holds en fund c)
     (bindS (liftS (apply_transition (od_state c) PendingCompliance)) (\<lambda>_.
         bindS (liftS (apply_transition PendingCompliance Approved)) (\<lambda>_.
         bindS (update_state en fund (od_id c) Approved no_update) (\<lambda>c.
         bindS (transition_to en fund c Sent no_update) (\<lambda>c.
         bindS (submit en (?sb c)) (\<lambda>a. if ak_status a = ''filled''
           then bindS (poll_status en (ak_exchange_id a) None) (\<lambda>rep.
              process_fill en c (dec_or (sr_avg rep) 0) (sr_filled rep) fund None None)
           else retS c)))))) (\<lambda>_. order_inv en) (order_inv en)"
      unfolding conjunct1[OF c] trans bindS_simps(1)
      by (rule triple_bind_fact[OF app triple_bind_fact[OF sent last]]) (use c in auto)
  qed
qed

lemma process_execution_report_keeps:
  assumes en: "env_ok en" and q: "good_qty qty"
  shows "keeps (order_inv en) (process_execution_report en i price qty t bid)"
proof -
  have col: "col_ok en" using en by (simp add: env_ok_def)
  have first: "current f od w" if "first_found i slugs w = Some (od, f)" for slugs od f w
    using that find_row_Some[of od_id i _ od]
    by (induction slugs) (auto simp: current_def split: option.splits)
  have loc: "triple (order_inv en) (locate_order en k i)
      (\<lambda>r w. order_inv en w \<and> (\<forall>od f. r = Some (od, f) \<longrightarrow> current f od w)) (order_inv en)" for k
  proof (induction k)
    case 0
    show ?case unfolding locate_order.simps by (rule triple_ret) simp
  next
    case (Suc k)
    show ?case unfolding locate_order.simps
    proof (rule triple_bind)
      show "triple (order_inv en) (getS (first_found i (en_slugs en)))
        (\<lambda>r w. order_inv en w \<and> (\<forall>od f. r = Some (od, f) \<longrightarrow> current f od w)) (order_inv en)"
        by (rule triple_get) (use first in blast)
      fix r
      show "triple (\<lambda>w. order_inv en w \<and> (\<forall>od f. r = Some (od, f) \<longrightarrow> current f od w))
        (case r of None \<Rightarrow> locate_order en k i | Some x \<Rightarrow> retS (Some x))
        (\<lambda>r w. order_inv en w \<and> (\<forall>od f. r = Some (od, f) \<longrightarrow> current f od w)) (order_inv en)"
        by (rule triple_option[OF triple_pre[OF Suc.IH] triple_ret]) auto
    qed
  qed
  have fill: "triple (holds en f od) (bindS (process_fill en od price qty f bid t) (\<lambda>od.
      audit_event en ''order.filled'' ''broker'' f od (ReportExtra price qty))) (\<lambda>_. order_inv en) (order_inv en)"
    if "od_state od \<in> {Sent, PartiallyFilled}" for od f
    by (rule triple_bind[OF process_fill_triple[OF col that q] side_only_keeps(7)])
  show ?thesis
    unfolding process_execution_report_def
  proof (rule triple_bind[OF loc], rule triple_option)
    fix r :: "(order \<times> string) option" and x assume r: "r = Some x"
    obtain od f where x: "x = (od, f)" by (cases x)
    show "triple (\<lambda>w. order_inv en w \<and> (\<forall>od f. r = Some (od, f) \<longrightarrow> current f od w))
      (case x of (od, fund) \<Rightarrow>
         if od_state od \<noteq> Sent \<and> od_state od \<noteq> PartiallyFilled then retS ()
         else bindS (process_fill en od price qty fund bid t) (\<lambda>od.
              audit_event en ''order.filled'' ''broker'' fund od (ReportExtra price qty)))
      (\<lambda>_. order_inv en) (order_inv en)"
      unfolding x prod.case
      by (intro triple_if triple_ret triple_pre[OF fill]) (use r x in auto)
  qed (auto intro: triple_ret)
qed

text \<open>Cancelling is always safe, even through a stale copy of the order.\<close>

lemma cancel_keeps:
  assumes "su_filled u = None" "su_compliance u = None"
  shows "keeps (order_inv en) (transition_to en fund od Cancelled u)"
proof -
  have "keeps (order_inv en) (update_state en fund i Cancelled u)" for i
  proof -
    have inv: "order_inv en (fst (update_state en fund i Cancelled u w))" if h: "order_inv en w" for w
    proof (cases "find_row od_id i (w_orders w fund)")
      case None
      then have same: "update_rows od_id i (set_state en Cancelled u) (w_orders w fund) = w_orders w fund"
        by (intro update_rows_fixed) (auto simp: find_row_None)
      then have "put_orders fund (update_rows od_id i (set_state en Cancelled u)) w = w"
        by (simp add: put_orders_def)
      with h None same show ?thesis
        by (simp add: update_state_def thenS_def bindS_def get_by_id_def)
    next
      case (Some r)
      then have c: "current fund r w" and i: "od_id r = i"
        using find_row_Some[OF Some] by (auto simp: current_def)
      have "order_inv en (put_row en fund r Cancelled u w)"
      proof (rule order_inv_put_row[OF h c])
        show "row_ok en (set_state en Cancelled u r)" by (simp add: row_ok_def)
        show "books_ok (w_fills w fund) (set_state en Cancelled u r)" if "childless (w_orders w fund) r"
          using current_row_ok(2)[OF h c that] assms
          unfolding books_ok_def set_state_filled by auto
        show "backs en sb (set_state en Cancelled u r)" if "backs en sb r" for sb
          using that assms by (intro backs_set_state) auto
      qed
      then show ?thesis using update_state_eval(1)[OF c, of en Cancelled u] i by simp
    qed
    show ?thesis by (rule tripleI) (use inv in \<open>metis fst_conv\<close>)+
  qed
  then show ?thesis unfolding transition_to_def by (intro keeps_rules)
qed

lemma cancel_order_keeps: "keeps (order_inv en) (cancel_order en i fund actor)"
  unfolding cancel_order_def cancel_child_def get_by_id_def get_active_children_def
  by (intro keeps_rules keeps_for cancel_keeps) (simp_all add: no_update_def)

section \<open>The service as a system of commands\<close>

datatype order_cmd =
    CreateOrder order_request string string
  | CreateAlgo algo_request string string
  | CreateChild uuid dec string "dec option"
  | ExecReport uuid dec dec "timestamp option" "string option"
  | CancelOrder uuid string string

fun exec_cmd :: "oenv \<Rightarrow> order_cmd \<Rightarrow> world \<Rightarrow> world" where
  "exec_cmd en (CreateOrder rq f a) w = fst (create_order en rq f a w)"
| "exec_cmd en (CreateAlgo rq f a) w = fst (create_algo_order en rq f a w)"
| "exec_cmd en (CreateChild p q f l) w = fst (create_child_order en p q f l w)"
| "exec_cmd en (ExecReport i p q t b) w = fst (process_execution_report en i p q t b w)"
| "exec_cmd en (CancelOrder i f a) w = fst (cancel_order en i f a w)"

fun legal_cmd :: "order_cmd \<Rightarrow> bool" where
  "legal_cmd (CreateOrder rq f a) = legal_request rq"
| "legal_cmd (CreateAlgo rq f a) = legal_request (base_request rq)"
| "legal_cmd (CreateChild p q f l) = good_qty q"
| "legal_cmd (ExecReport i p q t b) = good_qty q"
| "legal_cmd (CancelOrder i f a) = True"

definition empty_world :: world where
  "empty_world = \<lparr>w_orders = (\<lambda>_. []), w_fills = (\<lambda>_. []), w_bus = [], w_audit = [], w_sent = [],
     w_scores = [], w_tca = [], w_runners = [], w_draws = 0\<rparr>"

lemma empty_world_inv [simp]: "order_inv en empty_world"
  by (simp add: order_inv_def empty_world_def table_ok_def)

text \<open>No operation takes back a submission.\<close>

definition sent_from :: "world \<Rightarrow> world \<Rightarrow> bool" where
  "sent_from w0 w \<longleftrightarrow> (\<exists>new. w_sent w = w_sent w0 @ new)"

lemma sent_modify: "(\<And>w. w_sent (f w) = w_sent w) \<Longrightarrow> keeps (sent_from w0) (modifyS f)"
  by (rule keeps_modify) (simp add: sent_from_def)

lemma sent_side: "side_only m \<Longrightarrow> keeps (sent_from w0) m"
  by (intro tripleI) (metis fst_conv sent_from_def side_only_def)+

lemmas sent_sides = side_only_intros[THEN sent_side]

lemma sent_basic:
  "keeps (sent_from w0) (update_state en f i s u)"
  "keeps (sent_from w0) (insert_order en f od)"
  "keeps (sent_from w0) (insert_fill en f fl)"
  unfolding update_state_def insert_order_def insert_fill_def get_by_id_def
  by (intro keeps_rules sent_modify; simp)+

lemma sent_submit: "keeps (sent_from w0) (submit en sb)"
  unfolding submit_def by (intro keeps_rules keeps_modify) (auto simp: sent_from_def)

lemma sent_fill: "keeps (sent_from w0) (process_fill en od price qty fund bid t)"
  unfolding process_fill_def after_fill_def update_parent_from_children_def get_by_id_def get_children_def
    Let_def
  by (intro keeps_rules sent_sides sent_basic sent_modify) simp

lemma keeps_prod: "(\<And>a b. p = (a, b) \<Longrightarrow> keeps I (f a b)) \<Longrightarrow> keeps I (case p of (a, b) \<Rightarrow> f a b)"
  by (cases p) simp

lemma sent_gate:
  "keeps (sent_from w0) (persist_new_order en rq fund algo)"
  "keeps (sent_from w0) (run_compliance_gate en od rq fund actor)"
  "keeps (sent_from w0) (handle_broker_ack en od a fund actor rows bid)"
  unfolding persist_new_order_def run_compliance_gate_def handle_broker_ack_def transition_to_def Let_def
  by (intro keeps_rules keeps_prod sent_sides sent_basic sent_fill)+

lemma sent_locate: "keeps (sent_from w0) (locate_order en k i)"
proof (induction k)
  case (Suc k)
  show ?case unfolding locate_order.simps by (intro keeps_rules Suc)
qed (unfold locate_order.simps, rule keeps_basic)

lemma submissions_grow: "sent_from w (exec_cmd en c w)"
proof -
  have refl: "sent_from w w" by (simp add: sent_from_def)
  have "keeps (sent_from w) (create_order en rq f a)"
    "keeps (sent_from w) (create_algo_order en arq f a)"
    "keeps (sent_from w) (create_child_order en p q f l)"
    "keeps (sent_from w) (process_execution_report en i p' q t b)"
    "keeps (sent_from w) (cancel_order en i f a)" for rq f a arq p q l i p' t b
    unfolding create_order_def create_algo_order_def create_child_order_def process_execution_report_def
      cancel_order_def cancel_child_def transition_to_sent_def transition_to_def get_by_id_def
      get_active_children_def
    by (intro keeps_rules keeps_prod keeps_for sent_gate sent_sides sent_basic sent_submit sent_fill sent_locate)+
  then show ?thesis by (cases c) (simp_all add: keeps_fst refl)
qed

text \<open>The service is an instance of the interfaces of \<open>Effects\<close>.\<close>

interpretation orders: logged_system "exec_cmd en" "\<lambda>c. env_ok en \<and> legal_cmd c" "order_inv en" w_sent
  for en
proof
  fix c w assume legal: "env_ok en \<and> legal_cmd c" and inv: "order_inv en w"
  show "order_inv en (exec_cmd en c w)"
    using legal
    by (cases c) (auto intro!: keeps_fst inv create_order_keeps create_algo_order_keeps
        create_child_order_keeps process_execution_report_keeps cancel_order_keeps)
  show "\<exists>new. w_sent (exec_cmd en c w) = w_sent w @ new"
    using submissions_grow by (simp add: sent_from_def)
qed

lemma locate_order_eval: "locate_order en (Suc k) i w = (w, Inr (first_found i (en_slugs en) w))"
proof (induction k)
  case 0
  show ?case by (simp add: bindS_def split: option.splits)
next
  case (Suc k)
  show ?case
    by (subst locate_order.simps) (simp add: bindS_def Suc del: locate_order.simps split: option.splits)
qed

section \<open>Properties\<close>

text \<open>C1. The books of the order service always balance: after any sequence of legal operations
  from empty tables, whatever brokers, compliance, routing, bus and audit table do, every order
  without children has been filled by exactly the quantities of its fill rows, never beyond the
  ordered quantity; a filled order is filled completely, and an order that is not partially
  filled, filled or cancelled has no fill at all.\<close>

theorem order_books_balance:
  assumes "env_ok en" and "\<forall>c\<in>set cs. legal_cmd c"
    and "od \<in> set (w_orders (fold (exec_cmd en) cs empty_world) fund)"
    and "children_of (od_id od) (w_orders (fold (exec_cmd en) cs empty_world) fund) = []"
  shows "od_filled od = fills_of (od_id od) (w_fills (fold (exec_cmd en) cs empty_world) fund) \<and>
    0 \<le> od_filled od \<and> od_filled od \<le> od_quantity od \<and>
    (od_state od = Filled \<longrightarrow> od_filled od = od_quantity od) \<and>
    (od_state od \<notin> {PartiallyFilled, Filled, Cancelled} \<longrightarrow> od_filled od = 0)"
proof -
  have "order_inv en (fold (exec_cmd en) cs empty_world)"
    by (rule orders.run_keeps) (use assms(1,2) in auto)
  from order_invD(1)[OF this, of fund] assms(3,4) show ?thesis
    by (auto simp: table_ok_def childless_def books_ok_def good_qty_def)
qed

definition demo_request :: order_request where
  "demo_request = \<lparr>rq_portfolio = 1, rq_instrument = ''AAPL'', rq_side = OBuy, rq_type = Market,
     rq_quantity = 10, rq_limit = Some 50, rq_stop = None, rq_tif = Day\<rparr>"

definition demo_oenv :: "string \<Rightarrow> bool \<Rightarrow> oenv" where
  \<comment> \<open>a broker that answers with a status and reports six filled at 50; a gate that says yes or no\<close>
  "demo_oenv status yes = \<lparr>en_uuid = int, en_time = 0, en_col = (\<lambda>x. x), en_json_ok = (\<lambda>_. True),
     en_price = (\<lambda>_. None),
     en_check = (\<lambda>_. Inr \<lparr>dc_approved = yes, dc_results = [], dc_blocked = []\<rparr>),
     en_route = None,
     en_broker = \<lparr>bk_submit = (\<lambda>_ _. Inr \<lparr>ak_exchange_id = ''X'', ak_status = status\<rparr>),
                  bk_status = (\<lambda>_. Inr \<lparr>sr_filled = 6, sr_avg = Some 50\<rparr>)\<rparr>,
     en_registry = None, en_publish = (\<lambda>_ _. None), en_audit = None, en_has_bus = True,
     en_has_scores = False, en_has_tca = False, en_has_algo = True, en_slugs = [''f'']\<rparr>"

lemma demo_env_ok: "env_ok (demo_oenv status yes)"
  by (auto simp: env_ok_def col_ok_def demo_oenv_def resolve_def good_qty_def split: option.splits)

lemma demo_request_ok: "legal_request demo_request"
  by (simp add: legal_request_def demo_request_def good_qty_def)

lemma demo_run:
  "map (\<lambda>od. (od_id od, od_parent od, od_quantity od, od_filled od, od_state od))
     (w_orders (exec_cmd (demo_oenv ''filled'' True) (CreateOrder demo_request ''f'' ''a'') empty_world) ''f'')
   = [(0, None, 10, 6, PartiallyFilled)]"
  by code_simp

definition demo_order :: order where
  "demo_order = hd (w_orders (exec_cmd (demo_oenv ''filled'' True)
     (CreateOrder demo_request ''f'' ''a'') empty_world) ''f'')"

lemma demo_rows:
  "w_orders (exec_cmd (demo_oenv ''filled'' True) (CreateOrder demo_request ''f'' ''a'') empty_world) ''f''
     = [demo_order]"
  "od_id demo_order = 0" "od_parent demo_order = None" "od_quantity demo_order = 10"
  "od_filled demo_order = 6" "od_state demo_order = PartiallyFilled"
  using demo_run unfolding demo_order_def
  by (cases "w_orders (exec_cmd (demo_oenv ''filled'' True)
     (CreateOrder demo_request ''f'' ''a'') empty_world) ''f''"; simp)+

theorem order_books_balance_witness:
  "fills_of 0 (w_fills (fold (exec_cmd (demo_oenv ''filled'' True))
     [CreateOrder demo_request ''f'' ''a''] empty_world) ''f'') = 6"
  using order_books_balance[of "demo_oenv ''filled'' True" "[CreateOrder demo_request ''f'' ''a'']"
      demo_order "''f''"]
  by (simp add: demo_env_ok demo_request_ok demo_rows children_of_def del: exec_cmd.simps)

text \<open>C2. Nothing reaches a broker without compliance: after any sequence of legal operations,
  every submission ever made belongs to an order row with the same quantity that has left the
  approval states, and if that order has no parent, the compliance gate approved exactly the
  trade the order describes and its results are stored on the row.\<close>

theorem no_unapproved_submission:
  assumes "env_ok en" and "\<forall>c\<in>set cs. legal_cmd c"
    and "sb \<in> set (w_sent (fold (exec_cmd en) cs empty_world))"
  shows "\<exists>fund. \<exists>od\<in>set (w_orders (fold (exec_cmd en) cs empty_world) fund).
    od_id od = sb_order sb \<and> od_quantity od = sb_quantity sb \<and>
    od_state od \<in> {Sent, PartiallyFilled, Filled, Cancelled} \<and>
    (od_parent od = None \<longrightarrow>
       (\<exists>d. en_check en (check_of od) = Inr d \<and> dc_approved d \<and> od_compliance od = Some (map result_row (dc_results d))))"
proof -
  have "order_inv en (fold (exec_cmd en) cs empty_world)"
    by (rule orders.run_keeps) (use assms(1,2) in auto)
  from order_invD(2)[OF this assms(3)] obtain f od
    where "od \<in> set (w_orders (fold (exec_cmd en) cs empty_world) f)" "backs en sb od" by blast
  then show ?thesis
    unfolding backs_def cleared_def by (intro exI[of _ f] bexI[of _ od]) auto
qed

theorem no_unapproved_submission_witness:
  "w_sent (exec_cmd (demo_oenv ''filled'' True) (CreateOrder demo_request ''f'' ''a'') empty_world) \<noteq> [] \<and>
   (\<exists>fund. \<exists>od\<in>set (w_orders (exec_cmd (demo_oenv ''filled'' True)
      (CreateOrder demo_request ''f'' ''a'') empty_world) fund). od_id od = 0)"
proof -
  let ?w = "exec_cmd (demo_oenv ''filled'' True) (CreateOrder demo_request ''f'' ''a'') empty_world"
  have sent: "map sb_order (w_sent ?w) = [0]" by code_simp
  then obtain sb where sb: "w_sent ?w = [sb]" "sb_order sb = 0" by (cases "w_sent ?w") auto
  with no_unapproved_submission[of "demo_oenv ''filled'' True" "[CreateOrder demo_request ''f'' ''a'']" sb]
  show ?thesis by (auto simp: demo_env_ok demo_request_ok)
qed

text \<open>A report that cannot be booked changes nothing at all: for an unknown order or one that
  is not waiting for fills it is dropped, and one for more than the remaining quantity raises
  without writing an order row, a fill, an event or an audit row.\<close>

theorem unbookable_report_is_dropped:
  "case first_found i (en_slugs en) w of
     None \<Rightarrow> process_execution_report en i price qty t bid w = (w, Inr ())
   | Some (od, fund) \<Rightarrow>
       (od_state od \<notin> {Sent, PartiallyFilled} \<longrightarrow>
          process_execution_report en i price qty t bid w = (w, Inr ())) \<and>
       (od_state od \<in> {Sent, PartiallyFilled} \<and> dsub (od_quantity od) (od_filled od) < qty \<longrightarrow>
          process_execution_report en i price qty t bid w = (w, Inl ValueError))"
  using locate_order_eval[of en 2 i w]
  by (auto simp: process_execution_report_def bindS_def numeral_3_eq_3 numeral_2_eq_2
      process_fill_overfill simp del: locate_order.simps split: option.splits)

theorem unbookable_report_is_dropped_witness:
  "process_execution_report (demo_oenv ''filled'' True) 0 50 5 None None
     (exec_cmd (demo_oenv ''filled'' True) (CreateOrder demo_request ''f'' ''a'') empty_world)
   = (exec_cmd (demo_oenv ''filled'' True) (CreateOrder demo_request ''f'' ''a'') empty_world, Inl ValueError)"
proof -
  let ?w = "exec_cmd (demo_oenv ''filled'' True) (CreateOrder demo_request ''f'' ''a'') empty_world"
  have "first_found 0 (en_slugs (demo_oenv ''filled'' True)) ?w = Some (demo_order, ''f'')"
    by (simp add: demo_oenv_def[of "''filled''" True] demo_rows[unfolded demo_oenv_def] del: exec_cmd.simps)
  moreover have "dsub 10 6 = 4" by (simp add: dec_defs exact_simps)
  ultimately show ?thesis
    using unbookable_report_is_dropped[where i = 0 and en = "demo_oenv ''filled'' True" and w = ?w
        and price = 50 and qty = 5 and t = None and bid = None]
    by (simp add: demo_rows del: exec_cmd.simps)
qed

end
