(* ===== verification/AlgoEngine.thy ===== *)
theory AlgoEngine
  imports OrderInv "HOL-Library.Sublist"
begin

text \<open>
  The algo runner (\<open>orders/core/algo_runner.py\<close>) and the recovery of runners after a restart
  (\<open>algo_engine.py\<close>).  A runner's task is a loop over its slices; how each wait ends (the delay
  elapsed or the previous child filled, the wait timed out, the runner was told to stop, its task
  was cancelled) is decided by the rest of the system and is a parameter, one outcome per slice.
  Submitting a child is \<open>create_child_order\<close>; its errors are logged and the loop goes on.
\<close>

datatype wake = Proceed | TimedOut | FlagSet | TaskCancelled

definition set_runner :: "uuid \<Rightarrow> (runner \<Rightarrow> runner) \<Rightarrow> unit om" where
  "set_runner p f = modifyS (\<lambda>w. w\<lparr>w_runners := update_rows rn_parent p f (w_runners w)\<rparr>)"

definition submit_slice :: "oenv \<Rightarrow> uuid \<Rightarrow> string \<Rightarrow> child_slice \<Rightarrow> unit om" where
  "submit_slice en p fund sl =
     tryS (thenS (create_child_order en p (sl_quantity sl) fund (sl_limit sl)) (retS ())) (\<lambda>_. retS ())"

fun run_slices ::
  "oenv \<Rightarrow> runner \<Rightarrow> (nat \<Rightarrow> wake) \<Rightarrow> nat \<Rightarrow> child_slice list \<Rightarrow> unit om" where
  \<comment> \<open>the slices left, the first of which has index \<open>i\<close>; the flag is read before and after each wait\<close>
  "run_slices en r wakes i [] = retS ()"
| "run_slices en r wakes i (sl # sls) =
     (if rn_cancelled r then retS ()
      else case wakes i of
          TaskCancelled \<Rightarrow> retS ()
        | FlagSet \<Rightarrow> retS ()
        | w \<Rightarrow> if w = TimedOut \<and> rn_fill_driven r \<and> 0 < i then retS ()
            else thenS (submit_slice en (rn_parent r) (rn_fund r) sl)
                (thenS (set_runner (rn_parent r) (\<lambda>q. q\<lparr>rn_index := Suc i\<rparr>))
                   (run_slices en r wakes (Suc i) sls)))"

definition on_runner_complete :: "uuid \<Rightarrow> unit om" where
  "on_runner_complete p =
     modifyS (\<lambda>w. w\<lparr>w_runners := filter (\<lambda>r. rn_parent r \<noteq> p) (w_runners w)\<rparr>)"

definition run_runner :: "oenv \<Rightarrow> runner \<Rightarrow> (nat \<Rightarrow> wake) \<Rightarrow> unit om" where
  "run_runner en r wakes =
     thenS (run_slices en r wakes (rn_index r) (drop (rn_index r) (rn_slices r)))
       (on_runner_complete (rn_parent r))"

text \<open>
  Recovery.  The task that \<open>start_algo\<close> has just created is cancelled before it first runs, so
  its completion callback does not run either and the runner stays in the table.
\<close>

definition recover_parent :: "order \<Rightarrow> unit om" where
  "recover_parent parent =
     bindS (get_children (od_fund parent) (od_id parent)) (\<lambda>cs.
     thenS (start_algo parent (od_fund parent))
       (set_runner (od_id parent) (\<lambda>r. runner_start (length cs) (runner_cancel r))))"

definition recover_fund :: "string \<Rightarrow> unit om" where
  "recover_fund slug =
     tryS (bindS (get_working_parents slug) (forS recover_parent)) (\<lambda>_. retS ())"

definition recover_active_algos :: "string list \<Rightarrow> unit om" where
  "recover_active_algos slugs = forS recover_fund slugs"

section \<open>A runner never orders more than its slices\<close>

definition child_quantities :: "string \<Rightarrow> uuid \<Rightarrow> world \<Rightarrow> dec list" where
  "child_quantities fund p w = map od_quantity (children_of p (w_orders w fund))"

abbreviation same_children :: "string \<Rightarrow> uuid \<Rightarrow> dec list \<Rightarrow> world \<Rightarrow> bool" where
  "same_children fund p qs \<equiv> \<lambda>w. child_quantities fund p w = qs"

lemma children_quantity_update:
  "(\<And>q. od_parent (f q) = od_parent q \<and> od_quantity (f q) = od_quantity q) \<Longrightarrow>
     map od_quantity (children_of p (update_rows od_id i f rows)) = map od_quantity (children_of p rows)"
  by (induction rows) (auto simp: children_of_def update_rows_def)

lemma same_children_side: "side_only m \<Longrightarrow> keeps (same_children fund p qs) m"
  by (intro tripleI) (metis child_quantities_def fst_conv side_only_def)+

lemmas same_children_sides = side_only_intros[THEN same_children_side]

lemma same_children_basic:
  "keeps (same_children fund p qs) (update_state en f i s u)"
  "keeps (same_children fund p qs) (insert_fill en f fl)"
  "keeps (same_children fund p qs) (submit en sb)"
  unfolding update_state_def insert_fill_def get_by_id_def submit_def
  by (intro keeps_rules keeps_modify;
      auto simp: child_quantities_def put_orders_def put_fills_def children_quantity_update)+

lemma same_children_fill: "keeps (same_children fund p qs) (process_fill en od price qty f bid t)"
  unfolding process_fill_def after_fill_def update_parent_from_children_def get_by_id_def get_children_def
    Let_def
  by (intro keeps_rules same_children_sides same_children_basic keeps_modify)
    (simp add: child_quantities_def)

text \<open>One submission adds at most one child, of the quantity asked for.\<close>

lemma create_child_adds:
  "triple (same_children fund p qs) (create_child_order en p q fund l)
     (\<lambda>_ w. child_quantities fund p w \<in> {qs, qs @ [en_col en q]})
     (\<lambda>w. child_quantities fund p w \<in> {qs, qs @ [en_col en q]})"
proof -
  let ?I = "\<lambda>w. child_quantities fund p w \<in> {qs, qs @ [en_col en q]}"
  have I: "keeps ?I m" if "\<And>qs. keeps (same_children fund p qs) m" for m :: "'a om"
    by (rule tripleI) (use that[THEN tripleD(1)] that[THEN tripleD(2)] in blast)+
  have get: "triple (same_children fund p qs) (get_by_id fund p)
    (\<lambda>r w. same_children fund p qs w \<and> (\<forall>x. r = Some x \<longrightarrow> od_id x = p)) ?I"
    unfolding get_by_id_def by (rule triple_get) (auto dest: find_row_Some)
  have draw: "triple (same_children fund p qs) (draw_uuid en) (\<lambda>_. same_children fund p qs) ?I"
    by (rule triple_conseq[OF same_children_sides(5)]) auto
  have ins: "triple (same_children fund p qs) (insert_order en fund (child_draft i parent q fund l))
      (\<lambda>_. ?I) ?I" if "od_id parent = p" for i parent
  proof (rule tripleI)
    fix w w' x assume "same_children fund p qs w"
      and "insert_order en fund (child_draft i parent q fund l) w = (w', Inr x)"
    then show "?I w'" using that
      by (auto simp: insert_order_def bindS_def child_quantities_def children_of_def child_draft_def
          col_order_def split: if_splits)
  next
    fix w w' x assume "same_children fund p qs w"
      and "insert_order en fund (child_draft i parent q fund l) w = (w', Inl x)"
    then show "?I w'" by (auto simp: insert_order_def bindS_def thenS_def split: if_splits)
  qed
  show ?thesis
    unfolding create_child_order_def transition_to_def
  proof (rule triple_bind_fact[OF get], rule triple_option)
    show "triple (same_children fund p qs) (raiseS LookupError) (\<lambda>_. ?I) ?I"
      by (rule triple_raise) simp
  qed (rule triple_bind[OF draw], rule triple_bind[OF ins], simp,
      intro keeps_rules I same_children_sides same_children_basic same_children_fill)
qed

lemma submit_slice_adds:
  "triple (same_children fund p qs) (submit_slice en p fund sl)
     (\<lambda>_ w. child_quantities fund p w \<in> {qs, qs @ [en_col en (sl_quantity sl)]})
     (\<lambda>w. child_quantities fund p w \<in> {qs, qs @ [en_col en (sl_quantity sl)]})"
  unfolding submit_slice_def
  by (rule triple_try[OF triple_then[OF create_child_adds triple_ret] triple_ret])

lemma run_slices_adds:
  assumes "rn_parent r = p" "rn_fund r = fund"
  shows "child_quantities fund p w = qs \<Longrightarrow>
    \<exists>add. subseq add (map (\<lambda>sl. en_col en (sl_quantity sl)) sls) \<and>
      child_quantities fund p (fst (run_slices en r wakes i sls w)) = qs @ add"
proof (induction sls arbitrary: i w qs)
  case (Cons sl sls)
  let ?stop = "child_quantities fund p (fst (run_slices en r wakes i (sl # sls) w)) = qs @ []"
  show ?case
  proof (cases "fst (run_slices en r wakes i (sl # sls) w) = w")
    case True
    with Cons.prems show ?thesis by (intro exI[of _ "[]"]) simp
  next
    case False
    let ?m = "submit_slice en p fund sl"
    obtain w1 res where m: "?m w = (w1, res)" by (cases "?m w")
    let ?w2 = "w1\<lparr>w_runners := update_rows rn_parent p (\<lambda>q. q\<lparr>rn_index := Suc i\<rparr>) (w_runners w1)\<rparr>"
    obtain new where new: "new \<in> {[], [en_col en (sl_quantity sl)]}" "child_quantities fund p w1 = qs @ new"
      using tripleD[OF submit_slice_adds Cons.prems, of en sl w1] m by (cases res) auto
    have run: "fst (run_slices en r wakes i (sl # sls) w) = w1 \<and> res \<noteq> Inr () \<or>
        fst (run_slices en r wakes i (sl # sls) w) = fst (run_slices en r wakes (Suc i) sls ?w2)"
      using False m assms
      by (cases res) (auto simp: thenS_def bindS_def set_runner_def split: wake.splits if_splits)
    from Cons.IH[of ?w2 "qs @ new" "Suc i"] new(2)
    obtain add where add: "subseq add (map (\<lambda>sl. en_col en (sl_quantity sl)) sls)"
      "child_quantities fund p (fst (run_slices en r wakes (Suc i) sls ?w2)) = qs @ new @ add"
      by (auto simp: child_quantities_def)
    from run show ?thesis
    proof
      assume "fst (run_slices en r wakes i (sl # sls) w) = w1 \<and> res \<noteq> Inr ()"
      with new show ?thesis by (intro exI[of _ new]) auto
    next
      assume "fst (run_slices en r wakes i (sl # sls) w) = fst (run_slices en r wakes (Suc i) sls ?w2)"
      with new(1) add show ?thesis by (intro exI[of _ "new @ add"]) auto
    qed
  qed
qed simp

lemma subseq_sum_le:
  fixes xs :: "rat list"
  shows "subseq xs ys \<Longrightarrow> (\<And>y. y \<in> set ys \<Longrightarrow> 0 \<le> y) \<Longrightarrow> sum_list xs \<le> sum_list ys"
  by (induction rule: list_emb.induct) (auto intro: add_increasing sum_list_nonneg)

section \<open>Cancelling a parent\<close>

definition cancelled_row :: "oenv \<Rightarrow> uuid set \<Rightarrow> order \<Rightarrow> order" where
  "cancelled_row en ids r = (if od_id r \<in> ids then set_state en Cancelled no_update r else r)"

lemma cancelled_row_simps [simp]:
  "od_id (cancelled_row en ids r) = od_id r" "od_parent (cancelled_row en ids r) = od_parent r"
  by (simp_all add: cancelled_row_def)

lemma set_cancelled_idem [simp]:
  "set_state en Cancelled no_update (set_state en Cancelled no_update r) = set_state en Cancelled no_update r"
  by (simp add: set_state_def no_update_def)

lemma update_cancelled:
  "update_rows od_id i (set_state en Cancelled no_update) (map (cancelled_row en ids) rows)
     = map (cancelled_row en (insert i ids)) rows"
  by (simp add: update_rows_def cancelled_row_def)

lemma update_state_rows:
  "w_orders (fst (update_state en fund i s u w)) fund = update_rows od_id i (set_state en s u) (w_orders w fund)"
  "w_runners (fst (update_state en fund i s u w)) = w_runners w"
  by (simp_all add: update_state_def thenS_def bindS_def get_by_id_def put_orders_def split: option.splits)

lemma cancel_child_rows:
  "w_orders (fst (cancel_child en fund c w)) fund =
     (if Cancelled \<in> set (valid_transitions (od_state c))
      then update_rows od_id (od_id c) (set_state en Cancelled no_update) (w_orders w fund)
      else w_orders w fund)"
  "w_runners (fst (cancel_child en fund c w)) = w_runners w"
  "\<exists>r. cancel_child en fund c w = (fst (cancel_child en fund c w), r) \<and> (r = Inr () \<or> r = Inl Hang)"
proof -
  obtain w1 r where u: "update_state en fund (od_id c) Cancelled no_update w = (w1, r)"
    by (cases "update_state en fund (od_id c) Cancelled no_update w")
  then have w1: "w_orders w1 fund = update_rows od_id (od_id c) (set_state en Cancelled no_update) (w_orders w fund)"
    "w_runners w1 = w_runners w"
    using update_state_rows[of en fund "od_id c" Cancelled no_update w] by auto
  have c: "cancel_child en fund c w =
    (if Cancelled \<in> set (valid_transitions (od_state c))
     then (w1, case r of Inl e \<Rightarrow> if e = Hang then Inl Hang else Inr () | Inr _ \<Rightarrow> Inr ()) else (w, Inr ()))"
    by (cases r) (auto simp: cancel_child_def tryS_def transition_to_def bindS_def thenS_def
        apply_transition_def u)
  show "w_orders (fst (cancel_child en fund c w)) fund =
     (if Cancelled \<in> set (valid_transitions (od_state c))
      then update_rows od_id (od_id c) (set_state en Cancelled no_update) (w_orders w fund)
      else w_orders w fund)"
    and "w_runners (fst (cancel_child en fund c w)) = w_runners w"
    and "\<exists>r. cancel_child en fund c w = (fst (cancel_child en fund c w), r) \<and> (r = Inr () \<or> r = Inl Hang)"
    by (auto simp: c w1 split: sum.splits)
qed

lemma cancel_children_rows:
  "forS (cancel_child en fund) cs w = (w', Inr ()) \<Longrightarrow> w_orders w fund = map (cancelled_row en ids) rows \<Longrightarrow>
     w_orders w' fund = map (cancelled_row en (ids \<union> od_id ` {c \<in> set cs.
        Cancelled \<in> set (valid_transitions (od_state c))})) rows \<and> w_runners w' = w_runners w"
proof (induction cs arbitrary: w ids)
  case (Cons c cs)
  obtain r where r: "cancel_child en fund c w = (fst (cancel_child en fund c w), r)" "r = Inr () \<or> r = Inl Hang"
    using cancel_child_rows(3) by blast
  let ?w = "fst (cancel_child en fund c w)"
  let ?ids = "if Cancelled \<in> set (valid_transitions (od_state c)) then insert (od_id c) ids else ids"
  have "forS (cancel_child en fund) cs ?w = (w', Inr ())"
    using Cons.prems(1) r by (auto simp: thenS_def bindS_def split: prod.splits sum.splits)
  moreover have "w_orders ?w fund = map (cancelled_row en ?ids) rows"
    using Cons.prems(2) by (simp add: cancel_child_rows update_cancelled)
  ultimately have "w_orders w' fund = map (cancelled_row en (?ids \<union> od_id ` {c \<in> set cs.
      Cancelled \<in> set (valid_transitions (od_state c))})) rows \<and> w_runners w' = w_runners ?w"
    by (rule Cons.IH)
  moreover have "?ids \<union> od_id ` {c \<in> set cs. Cancelled \<in> set (valid_transitions (od_state c))} =
    ids \<union> od_id ` {d \<in> set (c # cs). Cancelled \<in> set (valid_transitions (od_state d))}"
    by auto
  ultimately show ?case by (simp only: cancel_child_rows(2))
qed simp

lemma audit_orders [simp]:
  "w_orders (fst (audit_event en ty a f od ex w)) = w_orders w"
  "w_runners (fst (audit_event en ty a f od ex w)) = w_runners w"
  by (auto simp: audit_event_def Let_def split: option.splits)

section \<open>Properties\<close>

text \<open>A runner never orders more than its slices: however its waits end and whichever
  submissions fail, the child orders it adds for its parent are a subsequence of its slices from
  the current index on, so with non-negative slices their quantities never exceed the slice
  total.\<close>

theorem runner_orders_at_most_slices:
  assumes "col_ok en" and "\<forall>sl\<in>set (rn_slices r). good_qty (sl_quantity sl)"
    and "child_quantities (rn_fund r) (rn_parent r) w = []"
  shows "subseq (child_quantities (rn_fund r) (rn_parent r) (fst (run_runner en r wakes w)))
      (map sl_quantity (drop (rn_index r) (rn_slices r))) \<and>
    sum_list (child_quantities (rn_fund r) (rn_parent r) (fst (run_runner en r wakes w)))
      \<le> slice_total (rn_slices r)"
proof -
  let ?sls = "drop (rn_index r) (rn_slices r)"
  let ?w = "fst (run_slices en r wakes (rn_index r) ?sls w)"
  obtain add where add: "subseq add (map (\<lambda>sl. en_col en (sl_quantity sl)) ?sls)"
    "child_quantities (rn_fund r) (rn_parent r) ?w = [] @ add"
    using run_slices_adds[OF refl refl assms(3)] by blast
  have "map (\<lambda>sl. en_col en (sl_quantity sl)) ?sls = map sl_quantity ?sls"
    using assms(1,2) good_qty_col by (auto dest: in_set_dropD)
  with add(1) have sub: "subseq add (map sl_quantity ?sls)" by simp
  have all: "subseq add (map sl_quantity (rn_slices r))"
    by (rule subseq_order.trans[OF sub]) (simp add: drop_map[symmetric] suffix_imp_subseq suffix_drop)
  have "sum_list add \<le> slice_total (rn_slices r)" unfolding slice_total_def
    by (rule subseq_sum_le[OF all]) (use assms(2) in \<open>auto simp: good_qty_def\<close>)
  moreover have "child_quantities (rn_fund r) (rn_parent r) (fst (run_runner en r wakes w)) = add"
    using add(2) by (cases "run_slices en r wakes (rn_index r) ?sls w", cases "snd (run_slices en r wakes (rn_index r) ?sls w)")
      (simp_all add: run_runner_def thenS_def bindS_def on_runner_complete_def child_quantities_def)
  ultimately show ?thesis using sub by simp
qed

definition demo_runner :: runner where
  "demo_runner = \<lparr>rn_parent = 0, rn_fund = ''f'', rn_slices = [slice 4 0, slice 6 0],
     rn_fill_driven = False, rn_cancelled = False, rn_index = 0, rn_pending = False, rn_active = True\<rparr>"

theorem runner_orders_at_most_slices_witness:
  "sum_list (child_quantities ''f'' 0 (fst (run_runner (demo_oenv ''sent'' True) demo_runner (\<lambda>_. Proceed)
      (exec_cmd (demo_oenv ''sent'' True) (CreateOrder demo_request ''f'' ''a'') empty_world)))) \<le> 10"
proof -
  let ?w = "exec_cmd (demo_oenv ''sent'' True) (CreateOrder demo_request ''f'' ''a'') empty_world"
  have "child_quantities ''f'' 0 ?w = []" by code_simp
  then show ?thesis
    using runner_orders_at_most_slices[of "demo_oenv ''sent'' True" demo_runner ?w "\<lambda>_. Proceed"]
    by (simp add: demo_runner_def demo_env_ok[unfolded env_ok_def] good_qty_def)
qed

text \<open>C10. A cancelled algo order is dead: when cancelling a parent succeeds, its runner is gone,
  the parent is cancelled, and no child that could still be cancelled is left in an active state.\<close>

theorem cancel_stops_algo:
  assumes "cancel_order en i fund actor w = (w', Inr od)"
    and "find_row od_id i (w_orders w fund) = Some par" and "od_is_parent par" and "en_has_algo en"
  shows "od_state od = Cancelled \<and> (\<forall>r\<in>set (w_runners w'). rn_parent r \<noteq> i) \<and>
    (\<forall>c\<in>set (children_of i (w_orders w' fund)). od_state c \<notin> {Draft, Approved, Sent, Working, PartiallyFilled})"
proof -
  let ?rows = "w_orders w fund"
  let ?cs = "filter (\<lambda>od. od_state od \<in> set active_states) (children_of i ?rows)"
  let ?w0 = "w\<lparr>w_runners := filter (\<lambda>r. rn_parent r \<noteq> i) (w_runners w)\<rparr>"
  have i: "od_id par = i" using find_row_Some[OF assms(2)] by simp
  have run: "thenS (forS (cancel_child en fund) ?cs) (bindS (transition_to en fund par Cancelled no_update)
      (\<lambda>od. thenS (audit_event en ''order.cancelled'' actor (od_fund od) od NoExtra) (retS od))) ?w0 = (w', Inr od)"
    using assms unfolding cancel_order_def get_by_id_def get_active_children_def cancel_algo_def
    by (simp add: whenS_def thenS_def bindS_def)
  then obtain w1 where w1: "forS (cancel_child en fund) ?cs ?w0 = (w1, Inr ())"
    and rest: "bindS (transition_to en fund par Cancelled no_update)
      (\<lambda>od. thenS (audit_event en ''order.cancelled'' actor (od_fund od) od NoExtra) (retS od)) w1 = (w', Inr od)"
    by (auto simp: thenS_def[of "forS _ _"] bindS_def[of "forS _ _"] split: prod.splits sum.splits)
  let ?ids = "od_id ` {c \<in> set ?cs. Cancelled \<in> set (valid_transitions (od_state c))}"
  have rows1: "w_orders w1 fund = map (cancelled_row en ?ids) ?rows" "w_runners w1 = w_runners ?w0"
    using cancel_children_rows[OF w1, of "{}" ?rows] by (simp_all add: cancelled_row_def[abs_def])
  obtain w2 where w2: "update_state en fund i Cancelled no_update w1 = (w2, Inr od)"
    and fin: "w' = fst (audit_event en ''order.cancelled'' actor (od_fund od) od NoExtra w2)"
    using rest i
    by (auto simp: transition_to_def bindS_def thenS_def split: prod.splits sum.splits)
  have rows: "w_orders w' fund = map (cancelled_row en (insert i ?ids)) ?rows" "w_runners w' = w_runners ?w0"
    using update_state_rows[of en fund i Cancelled no_update w1] w2 fin rows1 by (simp_all add: update_cancelled)
  have "od_state od = Cancelled"
  proof -
    have "od \<in> set (w_orders w2 fund)" "od_id od = i"
      using w2 find_row_Some[of od_id i "w_orders w2 fund" od]
      by (auto simp: update_state_def thenS_def bindS_def get_by_id_def split: option.splits)
    moreover have "w_orders w2 fund = update_rows od_id i (set_state en Cancelled no_update) (w_orders w1 fund)"
      using update_state_rows(1)[of en fund i Cancelled no_update w1] w2 by simp
    ultimately obtain q where "od = (if od_id q = i then set_state en Cancelled no_update q else q)" "od_id od = i"
      using set_update_rows by metis
    then show ?thesis by (cases "od_id q = i") simp_all
  qed
  moreover have "od_state c \<notin> {Draft, Approved, Sent, Working, PartiallyFilled}"
    if c: "c \<in> set (children_of i (w_orders w' fund))" for c
  proof -
    from c obtain q where q: "q \<in> set ?rows" "od_parent q = Some i" "c = cancelled_row en (insert i ?ids) q"
      by (auto simp: rows children_of_def)
    show ?thesis
    proof (cases "od_id q \<in> insert i ?ids")
      case True
      with q show ?thesis by (simp add: cancelled_row_def)
    next
      case False
      then have cq: "c = q" using q(3) by (simp add: cancelled_row_def)
      have "q \<notin> {c \<in> set ?cs. Cancelled \<in> set (valid_transitions (od_state c))}" using False by blast
      moreover have "q \<in> set (children_of i ?rows)" using q by (simp add: children_of_def)
      moreover have "od_state q \<in> set active_states \<and> Cancelled \<in> set (valid_transitions (od_state q))"
        if "od_state q \<in> {Draft, Approved, Sent, Working, PartiallyFilled}"
        using that by (elim insertE) (simp_all add: active_states_def)
      ultimately show ?thesis unfolding cq set_filter by blast
    qed
  qed
  ultimately show ?thesis using rows(2) by auto
qed

definition demo_algo_request :: algo_request where
  "demo_algo_request = \<lparr>aq_portfolio = 1, aq_instrument = ''AAPL'', aq_side = OBuy, aq_type = Limit,
     aq_quantity = 10, aq_limit = Some 50, aq_tif = Day, aq_algo = Twap,
     aq_params = default_algo_params\<lparr>ap_num_slices := 2, ap_duration := 2\<rparr>\<rparr>"

definition demo_algo_world :: world where
  \<comment> \<open>a TWAP parent that is working, with one child of five sent to the broker\<close>
  "demo_algo_world =
     (let w = put_orders ''f'' (\<lambda>_. [(draft_order 0 (base_request demo_algo_request) ''f'')
                \<lparr>od_is_parent := True, od_algo := Some Twap, od_state := Working,
                 od_params := Some (aq_params demo_algo_request)\<rparr>]) (empty_world\<lparr>w_draws := 1\<rparr>)
      in exec_cmd (demo_oenv ''sent'' True) (CreateChild 0 5 ''f'' None) w)"

lemma demo_algo_rows:
  "map (\<lambda>od. (od_id od, od_parent od, od_quantity od, od_state od, od_is_parent od))
     (w_orders demo_algo_world ''f'')
   = [(0, None, 10, Working, True), (1, Some 0, 5, Sent, False)]"
  by code_simp

theorem cancel_stops_algo_witness:
  "\<exists>w' od. cancel_order (demo_oenv ''sent'' True) 0 ''f'' ''a'' demo_algo_world = (w', Inr od) \<and>
     od_state od = Cancelled \<and>
     (\<forall>c\<in>set (children_of 0 (w_orders w' ''f'')). od_state c \<notin> {Draft, Approved, Sent, Working, PartiallyFilled})"
proof -
  let ?r = "cancel_order (demo_oenv ''sent'' True) 0 ''f'' ''a'' demo_algo_world"
  have "is_ok (snd ?r)" by code_simp
  then obtain w' od where r: "?r = (w', Inr od)" by (cases ?r) (auto simp: is_ok_iff)
  obtain par c where rows: "w_orders demo_algo_world ''f'' = [par, c]" "od_id par = 0" "od_is_parent par"
    using demo_algo_rows by (cases "w_orders demo_algo_world ''f''"; cases "tl (w_orders demo_algo_world ''f'')") auto
  have "en_has_algo (demo_oenv ''sent'' True)" by (simp add: demo_oenv_def)
  with cancel_stops_algo[OF r, of par] rows r show ?thesis by auto
qed

text \<open>A working parent is closed by its first filled child: the parent's state is derived from
  the children that exist so far, so as soon as the only child is filled the parent becomes filled
  although most of its quantity has not been ordered yet, and every later update of the parent
  from children that are not all filled is skipped.\<close>

theorem parent_closed_by_first_child:
  assumes "current fund par w" and "od_state par = Working"
    and "children_of (od_id par) (w_orders w fund) = [c]" and "od_state c = Filled"
    and "od_parent par \<noteq> Some (od_id par)"
  shows "\<exists>w' par'. update_parent_from_children en (od_id par) fund w = (w', Inr ()) \<and>
     current fund par' w' \<and> od_id par' = od_id par \<and> od_state par' = Filled \<and>
     od_quantity par' = od_quantity par \<and>
     (\<forall>v. current fund par' v \<and> (\<exists>d\<in>set (children_of (od_id par) (w_orders v fund)). od_state d \<noteq> Filled) \<longrightarrow>
        update_parent_from_children en (od_id par) fund v = (v, Inr ()))"
proof -
  define u where "u = no_update\<lparr>su_filled := Some (fst (parent_fill [c])), su_avg := snd (parent_fill [c])\<rparr>"
  let ?p = "set_state en Filled u par"
  have d: "derive_parent_state [Filled] = Filled" by (simp add: derive_parent_state_def)
  have tr: "apply_transition Working Filled = Inr Filled" by (simp add: apply_transition_def)
  have "update_parent_from_children en (od_id par) fund w = (put_row en fund par Filled u w, Inr ())"
    using assms update_state_eval(1)[OF assms(1), of en Filled u]
    by (simp add: update_parent_from_children_def get_by_id_def get_children_def current_def bindS_def
        thenS_def Let_def d tr u_def)
  moreover have "update_parent_from_children en (od_id par) fund v = (v, Inr ())"
    if v: "current fund ?p v" "e \<in> set (children_of (od_id par) (w_orders v fund))" "od_state e \<noteq> Filled" for v e
  proof -
    let ?cs = "children_of (od_id par) (w_orders v fund)"
    have "\<not> list_all (\<lambda>s. s = Filled) (map od_state ?cs)" using v(2,3) by (auto simp: list_all_iff)
    then have "derive_parent_state (map od_state ?cs) \<noteq> Filled" by (simp add: derive_parent_state_def)
    moreover have "?cs \<noteq> []" using v(2) by auto
    ultimately show ?thesis
      using v(1) by (simp add: update_parent_from_children_def get_by_id_def get_children_def current_def
          bindS_def Let_def apply_transition_def)
  qed
  ultimately show ?thesis
    using update_state_eval(2)[OF assms(1), of en Filled u]
    by (intro exI[of _ "put_row en fund par Filled u w"] exI[of _ ?p]) auto
qed

definition demo_parent :: order where
  "demo_parent = (draft_order 0 (base_request demo_algo_request) ''f'')
     \<lparr>od_is_parent := True, od_algo := Some Twap, od_state := Working\<rparr>"

definition demo_child :: order where
  "demo_child = (child_draft 1 demo_parent 5 ''f'' None)\<lparr>od_state := Filled, od_filled := 5, od_avg := Some 50\<rparr>"

theorem parent_closed_by_first_child_witness:
  "\<exists>w' par'. update_parent_from_children (demo_oenv ''sent'' True) 0 ''f''
      (put_orders ''f'' (\<lambda>_. [demo_parent, demo_child]) empty_world) = (w', Inr ()) \<and>
     current ''f'' par' w' \<and> od_state par' = Filled \<and> od_quantity par' = 10"
proof -
  have p: "od_id demo_parent = 0" "od_parent demo_parent = None" "od_state demo_parent = Working"
    "od_quantity demo_parent = 10" "od_id demo_child = 1" "od_parent demo_child = Some 0" "od_state demo_child = Filled"
    by (simp_all add: demo_parent_def demo_child_def draft_order_def child_draft_def base_request_def
        demo_algo_request_def)
  show ?thesis
    using parent_closed_by_first_child[of "''f''" demo_parent
        "put_orders ''f'' (\<lambda>_. [demo_parent, demo_child]) empty_world" demo_child "demo_oenv ''sent'' True"]
    by (auto simp: p current_def children_of_def)
qed

text \<open>A recovered algo order is dead: recovery cancels the runner it has just started before
  starting it again, and the flag is never reset, so the recovered runner submits nothing; its
  task only takes it out of the table.\<close>

theorem recovered_runner_submits_nothing:
  assumes "recover_parent parent w = (w', Inr ())" and "r \<in> set (w_runners w')" and "rn_parent r = od_id parent"
  shows "run_runner en r wakes v =
    (v\<lparr>w_runners := filter (\<lambda>q. rn_parent q \<noteq> od_id parent) (w_runners v)\<rparr>, Inr ())"
proof -
  have "rn_cancelled r"
    using assms(1-3)
    by (auto simp: recover_parent_def start_algo_def set_runner_def bindS_def thenS_def get_children_def
        update_rows_def runner_start_def runner_cancel_def
        split: option.splits sum.splits if_splits)
  then have "run_slices en r wakes i sls v = (v, Inr ())" for i sls by (cases sls) auto
  then show ?thesis by (simp add: run_runner_def thenS_def bindS_def on_runner_complete_def assms(3))
qed

lemma demo_recovery:
  "map (\<lambda>r. (rn_parent r, rn_index r, map sl_quantity (rn_slices r)))
     (w_runners (fst (recover_parent (hd (w_orders demo_algo_world ''f'')) demo_algo_world)))
   = [(0, 1, [5, 5])]"
  "snd (recover_parent (hd (w_orders demo_algo_world ''f'')) demo_algo_world) = Inr ()"
  "od_id (hd (w_orders demo_algo_world ''f'')) = 0"
  by code_simp+

theorem recovered_runner_submits_nothing_witness:
  "\<exists>w' r. recover_parent (hd (w_orders demo_algo_world ''f'')) demo_algo_world = (w', Inr ()) \<and>
     r \<in> set (w_runners w') \<and> map sl_quantity (drop (rn_index r) (rn_slices r)) = [5] \<and>
     w_sent (fst (run_runner (demo_oenv ''sent'' True) r (\<lambda>_. Proceed) w')) = w_sent w'"
proof -
  let ?p = "hd (w_orders demo_algo_world ''f'')"
  let ?w = "fst (recover_parent ?p demo_algo_world)"
  have run: "recover_parent ?p demo_algo_world = (?w, Inr ())"
    using demo_recovery(2) by (metis prod.collapse)
  obtain r where r: "w_runners ?w = [r]" "rn_parent r = 0" "rn_index r = 1" "map sl_quantity (rn_slices r) = [5, 5]"
    using demo_recovery(1) by (cases "w_runners ?w") auto
  have "map sl_quantity (drop (rn_index r) (rn_slices r)) = [5]" using r by (simp add: drop_map[symmetric])
  then show ?thesis
    using recovered_runner_submits_nothing[OF run, of r "demo_oenv ''sent'' True" "\<lambda>_. Proceed" ?w] run r demo_recovery(3)
    by (intro exI[of _ ?w] exI[of _ r]) simp
qed

end
