(* ===== verification/Compliance.thy ===== *)
theory Compliance
  imports ComplianceTypes Effects
begin

text \<open>
  The compliance module: the rule evaluators (\<open>compliance/core/engine.py\<close>), the fail-closed
  pre-trade gate (\<open>core/pre_trade.py\<close>), the post-trade monitor with its violation table
  (\<open>core/post_trade.py\<close>, \<open>repositories/violation.py\<close>) and the remediation advice
  (\<open>services/compliance.py\<close>).

  Python dictionaries are association lists in insertion order.  Upper-casing is that of ASCII
  letters.  \<open>AggregateExposure\<close> groups by one of the string attributes of a position; grouping by
  a numeric attribute is outside the model.  The rule table, the position service, the security
  master and the cash balances are the fields of \<open>gate_env\<close>; the first two and the last may raise.
\<close>

record position_info =
  pi_instrument :: string
  pi_quantity :: dec
  pi_mv :: dec
  pi_asset_class :: string
  pi_sector :: string
  pi_country :: string

record portfolio_state =
  ps_portfolio :: uuid
  ps_positions :: "(string \<times> position_info) list"
  ps_nav :: dec
  ps_restricted :: "string list"

definition state_positions :: "portfolio_state \<Rightarrow> position_info list" where
  "state_positions st = map snd (ps_positions st)"

section \<open>Evaluators\<close>

definition upper_char :: "char \<Rightarrow> char" where
  "upper_char c = (let n = (of_char c :: int) in if 97 \<le> n \<and> n \<le> 122 then char_of (n - 32) else c)"

definition upper :: "string \<Rightarrow> string" where
  "upper s = map upper_char s"

definition param_limit :: "dec res option \<Rightarrow> dec \<Rightarrow> dec res" where
  "param_limit p dflt = (case p of None \<Rightarrow> Inr dflt | Some r \<Rightarrow> r)"

definition result_of ::
  "rule_definition \<Rightarrow> bool \<Rightarrow> eval_message \<Rightarrow> dec option \<Rightarrow> dec option \<Rightarrow> evaluation_result" where
  "result_of r passed msg cur lmt = \<lparr>er_rule = rd_id r, er_name = rd_name r, er_passed = passed,
     er_severity = rd_severity r, er_message = msg, er_current = cur, er_limit = lmt\<rparr>"

definition share :: "dec \<Rightarrow> dec \<Rightarrow> dec" where
  \<comment> \<open>an amount as a percentage of NAV\<close>
  "share nav amount = dmul (ddiv amount nav) 100"

fun bump :: "string \<Rightarrow> dec \<Rightarrow> (string \<times> dec) list \<Rightarrow> (string \<times> dec) list" where
  "bump k v [] = [(k, dadd 0 v)]"
| "bump k v ((j, t) # rest) = (if j = k then (j, dadd t v) # rest else (j, t) # bump k v rest)"

definition group_totals :: "(position_info \<Rightarrow> string) \<Rightarrow> position_info list \<Rightarrow> (string \<times> dec) list" where
  "group_totals key ps = foldl (\<lambda>acc p. bump (key p) (dabs (pi_mv p)) acc) [] ps"

definition worst_share :: "dec \<Rightarrow> (string \<times> dec) list \<Rightarrow> string \<times> dec" where
  "worst_share nav xs = foldl (\<lambda>(n, w) (k, t).
     let q = share nav t in if w < q then (k, q) else (n, w)) ('''', 0) xs"

definition check_worst ::
  "rule_definition \<Rightarrow> dec \<Rightarrow> dec \<Rightarrow> (string \<Rightarrow> string) \<Rightarrow> (string \<times> dec) list \<Rightarrow> evaluation_result" where
  "check_worst r mx nav subject xs =
     (let (name, w) = worst_share nav xs
      in result_of r (w \<le> mx) (if w \<le> mx then Note ''within limit'' else Over (subject name) w mx)
           (Some w) (Some mx))"

definition zero_nav :: "rule_definition \<Rightarrow> evaluation_result" where
  "zero_nav r = result_of r True (Note ''NAV is zero'') None None"

definition eval_concentration :: "portfolio_state \<Rightarrow> rule_definition \<Rightarrow> evaluation_result res" where
  "eval_concentration st r = bindE (param_limit (rp_max_pct (rd_params r)) 100) (\<lambda>mx.
     if ps_nav st \<le> 0 then Inr (zero_nav r)
     else Inr (check_worst r mx (ps_nav st) id
       (map (\<lambda>p. (pi_instrument p, dabs (pi_mv p))) (state_positions st))))"

definition or_unknown :: "string \<Rightarrow> string" where
  "or_unknown s = (if s = '''' then ''Unknown'' else s)"

definition targeted :: "string \<Rightarrow> (string \<times> dec) list \<Rightarrow> (string \<times> dec) list" where
  \<comment> \<open>the one group a rule names, or every group\<close>
  "targeted t totals = (if t \<noteq> '''' then [(t, or_else (map_of totals t) 0)] else totals)"

definition eval_group ::
  "(position_info \<Rightarrow> string) \<Rightarrow> string \<Rightarrow> (string \<Rightarrow> string) \<Rightarrow> portfolio_state \<Rightarrow> rule_definition
     \<Rightarrow> evaluation_result res" where
  "eval_group key t subject st r = bindE (param_limit (rp_max_pct (rd_params r)) 100) (\<lambda>mx.
     if ps_nav st \<le> 0 then Inr (zero_nav r)
     else Inr (check_worst r mx (ps_nav st) subject (targeted t (group_totals key (state_positions st)))))"

definition quoted :: "string \<Rightarrow> string" where
  "quoted n = [CHR 0x27] @ n @ [CHR 0x27]"

definition sector_key :: "position_info \<Rightarrow> string" where "sector_key p = or_unknown (pi_sector p)"
definition country_key :: "position_info \<Rightarrow> string" where "country_key p = or_unknown (pi_country p)"
definition class_key :: "position_info \<Rightarrow> string" where "class_key p = or_unknown (pi_asset_class p)"

definition entity_key :: "string \<Rightarrow> position_info \<Rightarrow> string" where
  "entity_key g p = or_unknown
     (if g = ''asset_class'' then pi_asset_class p
      else if g = ''sector'' then pi_sector p
      else if g = ''country'' then pi_country p
      else pi_instrument p)"

definition eval_sector :: "portfolio_state \<Rightarrow> rule_definition \<Rightarrow> evaluation_result res" where
  "eval_sector st r = eval_group sector_key (rp_sector (rd_params r)) (\<lambda>n. ''Sector '' @ quoted n) st r"

definition eval_country :: "portfolio_state \<Rightarrow> rule_definition \<Rightarrow> evaluation_result res" where
  "eval_country st r = eval_group country_key (rp_country (rd_params r)) (\<lambda>n. ''Country '' @ quoted n) st r"

definition eval_aggregate :: "portfolio_state \<Rightarrow> rule_definition \<Rightarrow> evaluation_result res" where
  "eval_aggregate st r = eval_group (entity_key (rp_group_by (rd_params r))) (rp_entity (rd_params r))
     (\<lambda>n. ''Aggregate exposure to '' @ quoted n) st r"

definition eval_asset_class :: "portfolio_state \<Rightarrow> rule_definition \<Rightarrow> evaluation_result res" where
  "eval_asset_class st r = eval_group class_key (rp_asset_class (rd_params r))
     (\<lambda>n. ''Asset class '' @ quoted n) st r"

definition eval_restricted :: "portfolio_state \<Rightarrow> rule_definition \<Rightarrow> evaluation_result res" where
  "eval_restricted st r =
     (let banned = map upper (rp_restricted (rd_params r)) @ map upper (ps_restricted st);
          held = filter (\<lambda>i. upper i \<in> set banned) (map fst (ps_positions st))
      in Inr (result_of r (held = [])
           (if held = [] then Note ''No restricted instruments held.''
            else Listed ''Restricted instruments held'' held) None None))"

definition eval_short :: "portfolio_state \<Rightarrow> rule_definition \<Rightarrow> evaluation_result res" where
  "eval_short st r =
     (if rp_allow_short (rd_params r) then Inr (result_of r True (Note ''Short selling is permitted.'') None None)
      else let shorts = map pi_instrument (filter (\<lambda>p. pi_quantity p < 0) (state_positions st))
           in Inr (result_of r (shorts = [])
                (if shorts = [] then Note ''No short positions.''
                 else Listed ''Short positions found'' shorts) None None))"

definition eval_leverage :: "portfolio_state \<Rightarrow> rule_definition \<Rightarrow> evaluation_result res" where
  "eval_leverage st r = bindE (param_limit (rp_max_leverage (rd_params r)) 1) (\<lambda>mx.
     if ps_nav st \<le> 0 then Inr (zero_nav r)
     else let lev = ddiv (dsum (map (\<lambda>p. dabs (pi_mv p)) (state_positions st))) (ps_nav st)
          in Inr (result_of r (lev \<le> mx)
               (if lev \<le> mx then Note ''within limit'' else Over ''Leverage'' lev mx)
               (Some lev) (Some mx)))"

definition evaluate :: "portfolio_state \<Rightarrow> rule_definition \<Rightarrow> evaluation_result res" where
  "evaluate st r = (case rd_type r of
       ConcentrationLimit \<Rightarrow> eval_concentration st r
     | SectorLimit \<Rightarrow> eval_sector st r
     | CountryLimit \<Rightarrow> eval_country st r
     | RestrictedList \<Rightarrow> eval_restricted st r
     | ShortSelling \<Rightarrow> eval_short st r
     | AggregateExposure \<Rightarrow> eval_aggregate st r
     | AssetClassLimit \<Rightarrow> eval_asset_class st r
     | LeverageLimit \<Rightarrow> eval_leverage st r)"

section \<open>The pre-trade gate\<close>

record position_view =
  pv_instrument :: string
  pv_quantity :: dec
  pv_mv :: dec
  pv_price :: dec

record gate_env =
  ge_rules :: "rule_definition list res"
  ge_positions :: "uuid \<Rightarrow> position_view list res"
  ge_metadata :: "string \<Rightarrow> string \<times> string \<times> string"
  ge_cash :: "(uuid \<Rightarrow> dec list res) option"

fun dict_put :: "string \<Rightarrow> 'a \<Rightarrow> (string \<times> 'a) list \<Rightarrow> (string \<times> 'a) list" where
  "dict_put k v [] = [(k, v)]"
| "dict_put k v ((j, x) # rest) = (if j = k then (k, v) # rest else (j, x) # dict_put k v rest)"

definition position_of :: "gate_env \<Rightarrow> string \<Rightarrow> dec \<Rightarrow> dec \<Rightarrow> position_info" where
  "position_of ge i q mv = (case ge_metadata ge i of (ac, sec, ctry) \<Rightarrow>
     \<lparr>pi_instrument = i, pi_quantity = q, pi_mv = mv, pi_asset_class = ac, pi_sector = sec,
      pi_country = ctry\<rparr>)"

definition held_positions :: "gate_env \<Rightarrow> position_view list \<Rightarrow> (string \<times> position_info) list" where
  "held_positions ge vs =
     foldl (\<lambda>d v. dict_put (pv_instrument v) (position_of ge (pv_instrument v) (pv_quantity v) (pv_mv v)) d) [] vs"

definition apply_proposal ::
  "gate_env \<Rightarrow> trade_check \<Rightarrow> (string \<times> position_info) list \<Rightarrow> (string \<times> position_info) list" where
  "apply_proposal ge tc ps =
     (let value = dmul (tc_quantity tc) (tc_price tc);
          i = upper (tc_instrument tc);
          buy = (tc_side tc = OBuy)
      in case map_of ps i of
           Some p \<Rightarrow> dict_put i (p\<lparr>pi_instrument := i,
             pi_quantity := (if buy then dadd else dsub) (pi_quantity p) (tc_quantity tc),
             pi_mv := (if buy then dadd else dsub) (pi_mv p) value\<rparr>) ps
         | None \<Rightarrow> (let sign = (if buy then 1 else -1)
             in dict_put i (position_of ge i (dmul sign (tc_quantity tc)) (dmul sign value)) ps))"

definition available_cash :: "gate_env \<Rightarrow> uuid \<Rightarrow> dec res" where
  "available_cash ge p = (case ge_cash ge of
     None \<Rightarrow> Inr 0
   | Some f \<Rightarrow> bindE (f p) (\<lambda>bs. Inr (dsum bs)))"

definition build_state :: "gate_env \<Rightarrow> uuid \<Rightarrow> (string \<times> position_info) list \<Rightarrow> portfolio_state res" where
  "build_state ge p ps = bindE (available_cash ge p) (\<lambda>cash.
     Inr \<lparr>ps_portfolio = p, ps_positions = ps,
          ps_nav = dadd (dsum (map (\<lambda>x. dabs (pi_mv (snd x))) ps)) cash, ps_restricted = []\<rparr>)"

definition build_hypothetical_state ::
  "gate_env \<Rightarrow> trade_check \<Rightarrow> position_view list \<Rightarrow> portfolio_state res" where
  "build_hypothetical_state ge tc vs =
     build_state ge (tc_portfolio tc) (apply_proposal ge tc (held_positions ge vs))"

definition gate_evaluate :: "gate_env \<Rightarrow> trade_check \<Rightarrow> decision res" where
  "gate_evaluate ge tc = bindE (ge_rules ge) (\<lambda>rules.
     if rules = [] then Inr \<lparr>dc_approved = True, dc_results = [], dc_blocked = []\<rparr>
     else bindE (ge_positions ge (tc_portfolio tc)) (\<lambda>vs.
          bindE (build_hypothetical_state ge tc vs) (\<lambda>st.
          bindE (mapE (evaluate st) rules) (\<lambda>results.
          let blocked = map (rd_name \<circ> fst) (filter (\<lambda>(rule, res). \<not> er_passed res \<and> er_severity res = Block)
                          (zip rules results))
          in Inr \<lparr>dc_approved = (blocked = []), dc_results = results, dc_blocked = blocked\<rparr>))))"

definition system_block :: decision where
  "system_block = \<lparr>dc_approved = False,
     dc_results = [\<lparr>er_rule = 0, er_name = ''SYSTEM'', er_passed = False, er_severity = Block,
       er_message = Note ''Compliance check error'', er_current = None, er_limit = None\<rparr>],
     dc_blocked = [''SYSTEM'']\<rparr>"

definition check_trade :: "gate_env \<Rightarrow> trade_check \<Rightarrow> decision" where
  "check_trade ge tc = (case gate_evaluate ge tc of Inl _ \<Rightarrow> system_block | Inr d \<Rightarrow> d)"

section \<open>What a rule demands\<close>

definition group_sum :: "(position_info \<Rightarrow> string) \<Rightarrow> position_info list \<Rightarrow> string \<Rightarrow> dec" where
  "group_sum key ps k = dsum (map (\<lambda>p. dabs (pi_mv p)) (filter (\<lambda>p. key p = k) ps))"

text \<open>The declarative reading of a limit: no group exceeds its share of a positive NAV.\<close>

definition groups_within :: "portfolio_state \<Rightarrow> dec \<Rightarrow> (position_info \<Rightarrow> string) \<Rightarrow> string \<Rightarrow> bool" where
  "groups_within st mx key t \<longleftrightarrow> ps_nav st \<le> 0 \<or> (0 \<le> mx \<and>
     (\<forall>k. (if t = '''' then k \<in> key ` set (state_positions st) else k = t) \<longrightarrow>
        share (ps_nav st) (group_sum key (state_positions st) k) \<le> mx))"

fun compliant_with :: "portfolio_state \<Rightarrow> rule_params \<Rightarrow> rule_type \<Rightarrow> dec \<Rightarrow> bool" where
  "compliant_with st p ConcentrationLimit mx \<longleftrightarrow> ps_nav st \<le> 0 \<or> (0 \<le> mx \<and>
     (\<forall>q\<in>set (state_positions st). share (ps_nav st) (dabs (pi_mv q)) \<le> mx))"
| "compliant_with st p SectorLimit mx \<longleftrightarrow> groups_within st mx sector_key (rp_sector p)"
| "compliant_with st p CountryLimit mx \<longleftrightarrow> groups_within st mx country_key (rp_country p)"
| "compliant_with st p AggregateExposure mx \<longleftrightarrow>
     groups_within st mx (entity_key (rp_group_by p)) (rp_entity p)"
| "compliant_with st p AssetClassLimit mx \<longleftrightarrow> groups_within st mx class_key (rp_asset_class p)"
| "compliant_with st p LeverageLimit mx \<longleftrightarrow> ps_nav st \<le> 0 \<or>
     ddiv (dsum (map (\<lambda>q. dabs (pi_mv q)) (state_positions st))) (ps_nav st) \<le> mx"
| "compliant_with st p ShortSelling mx \<longleftrightarrow>
     rp_allow_short p \<or> (\<forall>q\<in>set (state_positions st). 0 \<le> pi_quantity q)"
| "compliant_with st p RestrictedList mx \<longleftrightarrow> (\<forall>i\<in>set (map fst (ps_positions st)).
     upper i \<notin> set (map upper (rp_restricted p)) \<union> set (map upper (ps_restricted st)))"

definition rule_limit :: "rule_definition \<Rightarrow> dec res" where
  "rule_limit r = (case rd_type r of
       LeverageLimit \<Rightarrow> param_limit (rp_max_leverage (rd_params r)) 1
     | RestrictedList \<Rightarrow> Inr 0
     | ShortSelling \<Rightarrow> Inr 0
     | _ \<Rightarrow> param_limit (rp_max_pct (rd_params r)) 100)"

lemma bump_keys:
  "distinct (map fst acc) \<Longrightarrow> distinct (map fst (bump k v acc)) \<and>
     set (map fst (bump k v acc)) = insert k (set (map fst acc))"
  by (induction k v acc rule: bump.induct) auto

lemma bump_lookup:
  "map_of (bump k v acc) j = (if j = k then Some (dadd (or_else (map_of acc k) 0) v) else map_of acc j)"
  by (induction k v acc rule: bump.induct) auto

lemma group_totals_props:
  "distinct (map fst (group_totals key ps)) \<and>
   set (map fst (group_totals key ps)) = key ` set ps \<and>
   (\<forall>k\<in>key ` set ps. map_of (group_totals key ps) k = Some (group_sum key ps k))"
proof (induction ps rule: rev_induct)
  case Nil
  show ?case by (simp add: group_totals_def)
next
  case (snoc p ps)
  let ?acc = "group_totals key ps"
  have step: "group_totals key (ps @ [p]) = bump (key p) (dabs (pi_mv p)) ?acc"
    by (simp add: group_totals_def)
  have gs: "group_sum key (ps @ [p]) k =
      (if key p = k then dadd (group_sum key ps k) (dabs (pi_mv p)) else group_sum key ps k)" for k
    by (simp add: group_sum_def dsum_snoc)
  have none: "map_of ?acc k = None" "group_sum key ps k = 0" if "k \<notin> key ` set ps" for k
  proof -
    show "map_of ?acc k = None" using snoc that by (simp add: map_of_eq_None_iff)
    have "filter (\<lambda>p. key p = k) ps = []" using that by (auto simp: filter_empty_conv)
    then show "group_sum key ps k = 0" by (simp add: group_sum_def)
  qed
  have keys: "distinct (map fst (bump (key p) (dabs (pi_mv p)) ?acc))"
    "set (map fst (bump (key p) (dabs (pi_mv p)) ?acc)) = insert (key p) (key ` set ps)"
    using bump_keys[of ?acc "key p" "dabs (pi_mv p)"] snoc by auto
  have "map_of (bump (key p) (dabs (pi_mv p)) ?acc) k = Some (group_sum key (ps @ [p]) k)"
    if "k \<in> insert (key p) (key ` set ps)" for k
    using snoc that none[of k] by (cases "k \<in> key ` set ps") (auto simp: bump_lookup gs)
  with keys show ?case unfolding step by simp
qed

lemma worst_share_le:
  "snd (worst_share nav xs) \<le> m \<longleftrightarrow> 0 \<le> m \<and> (\<forall>(k, t)\<in>set xs. share nav t \<le> m)"
proof -
  have "snd (foldl (\<lambda>(n, w) (k, t). let q = share nav t in if w < q then (k, q) else (n, w)) (n, w) xs) \<le> m
      \<longleftrightarrow> w \<le> m \<and> (\<forall>(k, t)\<in>set xs. share nav t \<le> m)" for n w
    by (induction xs arbitrary: n w) (auto simp: Let_def split: if_splits)
  then show ?thesis by (simp add: worst_share_def)
qed

lemma check_worst_passed [simp]:
  "er_passed (check_worst r mx nav subject xs) \<longleftrightarrow> 0 \<le> mx \<and> (\<forall>(k, t)\<in>set xs. share nav t \<le> mx)"
  using worst_share_le[of nav xs mx]
  by (cases "worst_share nav xs") (simp add: check_worst_def result_of_def)

lemma zero_nav_passed [simp]: "er_passed (zero_nav r)"
  by (simp add: zero_nav_def result_of_def)

lemma targeted_totals:
  "(\<forall>(k, t)\<in>set (targeted g (group_totals key ps)). share nav t \<le> mx) \<longleftrightarrow>
   (\<forall>k. (if g = '''' then k \<in> key ` set ps else k = g) \<longrightarrow> share nav (group_sum key ps k) \<le> mx)"
proof (cases "g = ''''")
  case True
  note P = group_totals_props[of key ps]
  have "set (group_totals key ps) = (\<lambda>k. (k, group_sum key ps k)) ` (key ` set ps)"
  proof (intro equalityI subsetI)
    fix x assume x: "x \<in> set (group_totals key ps)"
    then have "map_of (group_totals key ps) (fst x) = Some (snd x)"
      using P map_of_is_SomeI[of "group_totals key ps" "fst x" "snd x"] by simp
    moreover have k: "fst x \<in> key ` set ps"
      using conjunct1[OF conjunct2[OF P]] imageI[OF x, of fst] by simp
    ultimately have "x = (fst x, group_sum key ps (fst x))"
      using conjunct2[OF conjunct2[OF P]] by (metis option.inject prod.collapse)
    then show "x \<in> (\<lambda>k. (k, group_sum key ps k)) ` (key ` set ps)" using k by (rule image_eqI)
  next
    fix x assume "x \<in> (\<lambda>k. (k, group_sum key ps k)) ` (key ` set ps)"
    then obtain k where "k \<in> key ` set ps" "x = (k, group_sum key ps k)" by blast
    moreover from this have "map_of (group_totals key ps) k = Some (group_sum key ps k)"
      using conjunct2[OF conjunct2[OF P]] by blast
    ultimately show "x \<in> set (group_totals key ps)" using map_of_SomeD by fastforce
  qed
  with True show ?thesis by (auto simp: targeted_def)
next
  case False
  have "or_else (map_of (group_totals key ps) g) 0 = group_sum key ps g"
  proof (cases "g \<in> key ` set ps")
    case True
    then have "map_of (group_totals key ps) g = Some (group_sum key ps g)"
      using group_totals_props[of key ps] by blast
    then show ?thesis by simp
  next
    case g: False
    then have "map_of (group_totals key ps) g = None"
      using group_totals_props[of key ps] by (simp add: map_of_eq_None_iff)
    moreover have "filter (\<lambda>p. key p = g) ps = []" using g by (auto simp: filter_empty_conv)
    ultimately show ?thesis by (simp add: group_sum_def)
  qed
  with False show ?thesis by (simp add: targeted_def)
qed

lemma eval_group_passed:
  assumes "eval_group key t subject st r = Inr res"
  shows "\<exists>mx. param_limit (rp_max_pct (rd_params r)) 100 = Inr mx \<and>
    (er_passed res \<longleftrightarrow> groups_within st mx key t)"
  using assms targeted_totals[of t key "state_positions st"]
  by (cases "ps_nav st \<le> 0") (auto simp: eval_group_def groups_within_def bindE_Inr_iff)

lemma evaluate_passed:
  assumes "evaluate st r = Inr res"
  shows "\<exists>mx. rule_limit r = Inr mx \<and> (er_passed res \<longleftrightarrow> compliant_with st (rd_params r) (rd_type r) mx)"
proof (cases "rd_type r")
  case ConcentrationLimit
  with assms show ?thesis
    by (cases "ps_nav st \<le> 0") (auto simp: evaluate_def eval_concentration_def rule_limit_def bindE_Inr_iff)
next
  case LeverageLimit
  with assms show ?thesis
    by (cases "ps_nav st \<le> 0")
      (auto simp: evaluate_def eval_leverage_def rule_limit_def bindE_Inr_iff result_of_def Let_def)
next
  case ShortSelling
  with assms show ?thesis
    by (auto simp: evaluate_def eval_short_def rule_limit_def result_of_def Let_def filter_empty_conv not_less
        split: if_splits)
next
  case RestrictedList
  with assms have "er_passed res \<longleftrightarrow> filter (\<lambda>i. upper i \<in> set (map upper (rp_restricted (rd_params r)) @
      map upper (ps_restricted st))) (map fst (ps_positions st)) = []"
    by (auto simp: evaluate_def eval_restricted_def result_of_def Let_def)
  with RestrictedList show ?thesis by (simp add: rule_limit_def filter_empty_conv)
next
  case SectorLimit
  with assms eval_group_passed show ?thesis by (fastforce simp: evaluate_def eval_sector_def rule_limit_def)
next
  case CountryLimit
  with assms eval_group_passed show ?thesis by (fastforce simp: evaluate_def eval_country_def rule_limit_def)
next
  case AggregateExposure
  with assms eval_group_passed show ?thesis by (fastforce simp: evaluate_def eval_aggregate_def rule_limit_def)
next
  case AssetClassLimit
  with assms eval_group_passed show ?thesis by (fastforce simp: evaluate_def eval_asset_class_def rule_limit_def)
qed

lemma evaluate_keeps_severity: "evaluate st r = Inr res \<Longrightarrow> er_severity res = rd_severity r \<and> er_rule res = rd_id r"
  by (cases "rd_type r")
    (auto simp: evaluate_def eval_concentration_def eval_leverage_def eval_short_def eval_restricted_def
      eval_sector_def eval_country_def eval_aggregate_def eval_asset_class_def eval_group_def bindE_Inr_iff
      result_of_def zero_nav_def check_worst_def Let_def split: if_splits prod.splits)

lemma evaluate_total: "rule_limit r = Inr mx \<Longrightarrow> \<exists>res. evaluate st r = Inr res"
  by (cases "rd_type r")
    (auto simp: rule_limit_def evaluate_def eval_concentration_def eval_leverage_def eval_short_def
      eval_restricted_def eval_sector_def eval_country_def eval_aggregate_def eval_asset_class_def
      eval_group_def Let_def)

lemma gate_approved:
  assumes "gate_evaluate ge tc = Inr d" "dc_approved d" "ge_rules ge = Inr rules" "r \<in> set rules"
    and "rd_severity r = Block"
  shows "\<exists>vs st res. ge_positions ge (tc_portfolio tc) = Inr vs \<and>
    build_hypothetical_state ge tc vs = Inr st \<and> evaluate st r = Inr res \<and> er_passed res"
proof -
  from assms obtain vs st results where vs: "ge_positions ge (tc_portfolio tc) = Inr vs"
    and st: "build_hypothetical_state ge tc vs = Inr st" and res: "mapE (evaluate st) rules = Inr results"
    and none: "filter (\<lambda>(rule, res). \<not> er_passed res \<and> er_severity res = Block) (zip rules results) = []"
    by (auto simp: gate_evaluate_def bindE_Inr_iff Let_def split: if_splits)
  from assms(4) obtain i where i: "i < length rules" "rules ! i = r" by (auto simp: in_set_conv_nth)
  then have ev: "evaluate st r = Inr (results ! i)" using mapE_Inr_nth[OF res] by blast
  have "(r, results ! i) \<in> set (zip rules results)"
    using i mapE_Inr_length[OF res] by (auto simp: in_set_zip)
  then have "er_passed (results ! i)"
    using none evaluate_keeps_severity[OF ev] assms(5) by (fastforce simp: filter_empty_conv)
  with vs st ev show ?thesis by blast
qed

section \<open>The post-trade monitor\<close>

datatype violation_event = ViolationRaised uuid violation | ViolationResolved uuid violation

record monitor =
  mo_violations :: "violation list"
  mo_events :: "(string \<times> violation_event) list"
  mo_draws :: nat

record monitor_env =
  me_gate :: gate_env
  me_uuid :: "nat \<Rightarrow> uuid"
  me_now :: timestamp
  me_col :: "dec \<Rightarrow> dec res"
  me_publish :: "(violation_event \<Rightarrow> exn option) option"

type_synonym 'a mon = "(monitor, 'a) sm"

definition list_active_by_portfolio :: "uuid \<Rightarrow> violation list \<Rightarrow> violation list" where
  "list_active_by_portfolio p vs =
     rev (sort_key vi_detected (filter (\<lambda>v. vi_portfolio v = p \<and> vi_resolved v = None) vs))"

definition store_value :: "(dec \<Rightarrow> dec res) \<Rightarrow> dec option \<Rightarrow> dec option res" where
  \<comment> \<open>what a nullable numeric column keeps of a value\<close>
  "store_value col v = (case v of None \<Rightarrow> Inr None | Some x \<Rightarrow> bindE (col x) (\<lambda>y. Inr (Some y)))"

lemma store_value_exact [simp]: "store_value Inr v = Inr v"
  by (cases v) (simp_all add: store_value_def)

definition insert_violation :: "monitor_env \<Rightarrow> violation \<Rightarrow> violation mon" where
  "insert_violation me v = bindS (getS mo_draws) (\<lambda>n. bindS (getS mo_violations) (\<lambda>vs.
     bindS (liftS (store_value (me_col me) (vi_current v))) (\<lambda>cur.
     bindS (liftS (store_value (me_col me) (vi_limit v))) (\<lambda>lmt.
     let v' = v\<lparr>vi_id := me_uuid me n, vi_detected := me_now me, vi_current := cur, vi_limit := lmt\<rparr>
     in if find_row vi_id (vi_id v') vs \<noteq> None then raiseS IntegrityError
        else thenS (modifyS (\<lambda>m. m\<lparr>mo_violations := mo_violations m @ [v'], mo_draws := Suc n\<rparr>))
               (retS v')))))"

definition resolve_violation ::
  "monitor_env \<Rightarrow> uuid \<Rightarrow> string \<Rightarrow> resolution_type \<Rightarrow> violation option mon" where
  "resolve_violation me i who how =
     thenS (modifyS (\<lambda>m. m\<lparr>mo_violations := update_rows vi_id i
              (\<lambda>v. v\<lparr>vi_resolved := Some (me_now me, who, how)\<rparr>) (mo_violations m)\<rparr>))
       (getS (\<lambda>m. find_row vi_id i (mo_violations m)))"

definition publish_violation :: "monitor_env \<Rightarrow> string \<Rightarrow> violation_event \<Rightarrow> unit mon" where
  "publish_violation me fund ev = (case me_publish me of
     None \<Rightarrow> retS ()
   | Some fails \<Rightarrow> (case fails ev of
       Some x \<Rightarrow> raiseS x
     | None \<Rightarrow> modifyS (\<lambda>m. m\<lparr>mo_events := mo_events m @ [(''compliance.violations'', ev)]\<rparr>)))"

definition new_violation ::
  "monitor_env \<Rightarrow> uuid \<Rightarrow> bool \<Rightarrow> rule_definition \<Rightarrow> evaluation_result \<Rightarrow> violation" where
  "new_violation me p passive r res = \<lparr>vi_id = 0, vi_portfolio = p, vi_rule = rd_id r,
     vi_name = rd_name r, vi_severity = rd_severity r, vi_message = er_message res,
     vi_current = er_current res, vi_limit = er_limit res,
     vi_breach = (if passive then Passive else Active), vi_detected = 0,
     vi_deadline = (case rd_grace_hours r of
        Some h \<Rightarrow> if h \<noteq> 0 \<and> passive then Some (me_now me + 3600 * h) else None
      | None \<Rightarrow> None),
     vi_resolved = None\<rparr>"

definition monitor_rule ::
  "monitor_env \<Rightarrow> uuid \<Rightarrow> string \<Rightarrow> bool \<Rightarrow> (uuid \<rightharpoonup> violation) \<Rightarrow> portfolio_state \<Rightarrow> rule_definition
     \<Rightarrow> unit mon" where
  "monitor_rule me p fund passive existing st r =
     bindS (liftS (evaluate st r)) (\<lambda>res.
     case existing (rd_id r) of
       None \<Rightarrow> whenS (\<not> er_passed res)
         (bindS (insert_violation me (new_violation me p passive r res)) (\<lambda>v.
            publish_violation me fund (ViolationRaised p v)))
     | Some v \<Rightarrow> whenS (er_passed res)
         (thenS (resolve_violation me (vi_id v) ''system'' Auto)
            (publish_violation me fund (ViolationResolved p v))))"

definition evaluate_portfolio :: "monitor_env \<Rightarrow> uuid \<Rightarrow> string \<Rightarrow> bool \<Rightarrow> unit mon" where
  "evaluate_portfolio me p fund passive =
     bindS (liftS (ge_rules (me_gate me))) (\<lambda>rules.
     if rules = [] then retS ()
     else bindS (liftS (ge_positions (me_gate me) p)) (\<lambda>vs.
     if vs = [] then retS ()
     else bindS (liftS (build_state (me_gate me) p (held_positions (me_gate me) vs))) (\<lambda>st.
          bindS (getS (\<lambda>m. list_active_by_portfolio p (mo_violations m))) (\<lambda>active.
          let existing = map_of (rev (map (\<lambda>v. (vi_rule v, v)) active))
          in forS (monitor_rule me p fund passive existing st) rules))))"

definition handle_change :: "monitor_env \<Rightarrow> uuid option \<Rightarrow> string option \<Rightarrow> bool \<Rightarrow> unit mon" where
  \<comment> \<open>the handlers of \<open>positions.changed\<close> and \<open>pnl.updated\<close>; the flag tells them apart\<close>
  "handle_change me p fund passive =
     tryS (case (p, fund) of
         (Some q, Some f) \<Rightarrow> if f = '''' then retS () else evaluate_portfolio me q f passive
       | _ \<Rightarrow> retS ()) (\<lambda>_. retS ())"

section \<open>Remediation\<close>

record suggestion =
  sg_violation :: uuid
  sg_rule :: string
  sg_instrument :: string
  sg_side :: order_side
  sg_quantity :: dec
  sg_current_pct :: dec
  sg_target_pct :: dec
  sg_limit_pct :: dec

fun before_is :: "string \<Rightarrow> string" where
  \<comment> \<open>the text in front of the first \<open>is\<close> between blanks\<close>
  "before_is [] = []"
| "before_is (c # cs) = (if take 4 (c # cs) = '' is '' then [] else c # before_is cs)"

fun message_subject :: "eval_message \<Rightarrow> string option" where
  "message_subject (Over n v l) =
     (let s = before_is (n @ '' is '') in if s = '''' then None else Some s)"
| "message_subject (Note n) = None"
| "message_subject (Listed n xs) = None"

definition suggest_for :: "dec \<Rightarrow> (string \<rightharpoonup> position_view) \<Rightarrow> violation \<Rightarrow> suggestion option res" where
  "suggest_for nav pos v =
     (case (vi_limit v, vi_current v, message_subject (vi_message v)) of
        (Some limit_pct, Some _, Some i) \<Rightarrow> (case pos i of
           None \<Rightarrow> Inr None
         | Some q \<Rightarrow>
             let mv = dabs (pv_mv q);
                 cur = share nav mv;
                 target = (let t = dsub limit_pct (1/2) in if t < 0 then 0 else t);
                 excess = dsub mv (dmul (ddiv target 100) nav)
             in if excess \<le> 0 then Inr None
                else let price = (if pv_price q \<noteq> 0 then Some (pv_price q)
                                  else if pv_quantity q \<noteq> 0 then Some (ddiv mv (dabs (pv_quantity q)))
                                  else None)
                in (case price of
                      None \<Rightarrow> Inr None
                    | Some pr \<Rightarrow> if pr \<le> 0 then Inr None
                        else bindE (quantizeE 0 (ddiv excess pr)) (\<lambda>n.
                          if n \<le> 0 then Inr None
                          else bindE (quantizeE 2 cur) (\<lambda>c.
                            Inr (Some \<lparr>sg_violation = vi_id v, sg_rule = vi_name v, sg_instrument = i,
                              sg_side = OSell, sg_quantity = n, sg_current_pct = c,
                              sg_target_pct = target, sg_limit_pct = limit_pct\<rparr>)))))
      | _ \<Rightarrow> Inr None)"

definition suggest_remediation :: "violation list \<Rightarrow> position_view list \<Rightarrow> suggestion list res" where
  "suggest_remediation violations ps =
     (if violations = [] \<or> ps = [] then Inr []
      else let pos = map_of (rev (map (\<lambda>q. (pv_instrument q, q)) ps));
               nav = dsum (map (\<lambda>q. dabs (pv_mv q)) ps)
           in if nav \<le> 0 then Inr []
              else bindE (mapE (suggest_for nav pos) violations) (\<lambda>xs. Inr (List.map_filter id xs)))"

section \<open>The violation table follows the rules\<close>

definition active_for :: "uuid \<Rightarrow> uuid \<Rightarrow> violation list \<Rightarrow> violation list" where
  "active_for p rid vs = filter (\<lambda>v. vi_portfolio v = p \<and> vi_rule v = rid \<and> vi_resolved v = None) vs"

definition table_inv :: "uuid \<Rightarrow> violation list \<Rightarrow> bool" where
  "table_inv p vs \<longleftrightarrow> distinct (map vi_id vs) \<and> (\<forall>rid. length (active_for p rid vs) \<le> 1)"

lemma active_for_append [simp]: "active_for p rid (vs @ ws) = active_for p rid vs @ active_for p rid ws"
  by (simp add: active_for_def)

lemma active_resolve:
  assumes d: "distinct (map vi_id vs)" and v: "active_for p rid vs = [v]"
  shows "active_for p rid' (update_rows vi_id (vi_id v) (\<lambda>q. q\<lparr>vi_resolved := Some x\<rparr>) vs) =
    (if rid' = rid then [] else active_for p rid' vs)"
proof -
  have v_in: "v \<in> set vs" "vi_portfolio v = p" "vi_rule v = rid" "vi_resolved v = None"
    using v list.set_intros(1)[of v "[]"] unfolding v[symmetric] by (simp_all add: active_for_def)
  have same: "vi_id q = vi_id v \<longleftrightarrow> q = v" if "q \<in> set vs" for q
    using d that v_in(1) by (auto simp: distinct_map dest: inj_onD)
  obtain a b c where x: "x = (a, b, c)" by (cases x)
  have "active_for p rid' (update_rows vi_id (vi_id v) (\<lambda>q. q\<lparr>vi_resolved := Some x\<rparr>) ws) =
      filter (\<lambda>q. q \<noteq> v) (active_for p rid' ws)" if "set ws \<subseteq> set vs" for ws
    using that by (induction ws) (auto simp: update_rows_def active_for_def same x)
  then have *: "active_for p rid' (update_rows vi_id (vi_id v) (\<lambda>q. q\<lparr>vi_resolved := Some x\<rparr>) vs) =
      filter (\<lambda>q. q \<noteq> v) (active_for p rid' vs)" by blast
  show ?thesis
  proof (cases "rid' = rid")
    case True
    with * v show ?thesis by simp
  next
    case False
    then have "filter (\<lambda>q. q \<noteq> v) (active_for p rid' vs) = active_for p rid' vs"
      using v_in(3) by (intro filter_True) (auto simp: active_for_def)
    with * False show ?thesis by simp
  qed
qed

lemma existing_lookup:
  assumes "length (active_for p rid vs) \<le> 1"
  shows "map_of (rev (map (\<lambda>v. (vi_rule v, v)) (list_active_by_portfolio p vs))) rid =
    (case active_for p rid vs of [] \<Rightarrow> None | v # _ \<Rightarrow> Some v)"
proof -
  let ?ps = "map (\<lambda>v. (vi_rule v, v)) (sort_key vi_detected
      (filter (\<lambda>v. vi_portfolio v = p \<and> vi_resolved v = None) vs))"
  have eq: "rev (map (\<lambda>v. (vi_rule v, v)) (list_active_by_portfolio p vs)) = ?ps"
    by (simp add: list_active_by_portfolio_def rev_map[symmetric])
  have mem: "(rid, v) \<in> set ?ps \<longleftrightarrow> v \<in> set (active_for p rid vs)" for v
    by (auto simp: active_for_def)
  show ?thesis
  proof (cases "active_for p rid vs")
    case Nil
    then have "rid \<notin> fst ` set ?ps" using mem by fastforce
    then have "map_of ?ps rid = None" by (rule map_of_eq_None_iff[THEN iffD2])
    with Nil show ?thesis unfolding eq by simp
  next
    case (Cons v rest)
    with assms have only: "active_for p rid vs = [v]" by simp
    then have "(rid, v) \<in> set ?ps" using mem[of v] by simp
    then obtain u where u: "map_of ?ps rid = Some u" using weak_map_of_SomeI[of rid v ?ps] by blast
    then have "u = v" using mem[of u] only map_of_SomeD[OF u] by simp
    with u only show ?thesis unfolding eq by simp
  qed
qed

lemma insert_violation_row:
  assumes "insert_violation me v m = (m1, Inr v')"
  shows "find_row vi_id (vi_id v') (mo_violations m) = None \<and> mo_violations m1 = mo_violations m @ [v'] \<and>
    vi_portfolio v' = vi_portfolio v \<and> vi_rule v' = vi_rule v \<and> vi_resolved v' = vi_resolved v"
  using assms by (auto simp: insert_violation_def bindS_def Let_def split: sum.splits if_splits)

lemma monitor_rule_step:
  assumes inv: "table_inv p (mo_violations m)"
    and ex: "existing (rd_id r) = (case active_for p (rd_id r) (mo_violations m) of [] \<Rightarrow> None | v # _ \<Rightarrow> Some v)"
    and run: "monitor_rule me p fund passive existing st r m = (m', Inr ())"
  shows "table_inv p (mo_violations m') \<and>
    (\<forall>rid. rid \<noteq> rd_id r \<longrightarrow> active_for p rid (mo_violations m') = active_for p rid (mo_violations m)) \<and>
    (\<exists>res. evaluate st r = Inr res \<and> (active_for p (rd_id r) (mo_violations m') \<noteq> [] \<longleftrightarrow> \<not> er_passed res))"
proof -
  let ?vs = "mo_violations m"
  have d: "distinct (map vi_id ?vs)" using inv by (simp add: table_inv_def)
  have pub: "mo_violations (fst (publish_violation me fund ev n)) = mo_violations n" for ev n
    by (simp add: publish_violation_def split: option.splits)
  from run obtain res where res: "evaluate st r = Inr res"
    by (auto simp: monitor_rule_def bindS_def split: sum.splits)
  show ?thesis
  proof (cases "active_for p (rd_id r) ?vs")
    case Nil
    then have none: "existing (rd_id r) = None" using ex by simp
    show ?thesis
    proof (cases "er_passed res")
      case True
      with run res none have "m' = m" by (simp add: monitor_rule_def bindS_def)
      with inv res True Nil show ?thesis by auto
    next
      case False
      from run res none False obtain m1 v where
        ins: "insert_violation me (new_violation me p passive r res) m = (m1, Inr v)" and
        "publish_violation me fund (ViolationRaised p v) m1 = (m', Inr ())"
        by (auto simp: monitor_rule_def bindS_def split: prod.splits sum.splits)
      with pub[of "ViolationRaised p v" m1] have m1: "mo_violations m' = mo_violations m1" by simp
      have v: "vi_portfolio v = p" "vi_rule v = rd_id r" "vi_resolved v = None"
        and fresh: "find_row vi_id (vi_id v) ?vs = None" and vs': "mo_violations m' = ?vs @ [v]"
        using insert_violation_row[OF ins] m1 by (auto simp: new_violation_def)
      have act: "active_for p rid (mo_violations m') =
          (if rid = rd_id r then [v] else active_for p rid ?vs)" for rid
        using v Nil by (auto simp: vs' active_for_def)
      have "distinct (map vi_id (mo_violations m'))" using d fresh by (auto simp: vs' find_row_None)
      with inv act res False show ?thesis by (auto simp: table_inv_def)
    qed
  next
    case (Cons v rest)
    then have only: "active_for p (rd_id r) ?vs = [v]"
      using inv by (auto simp: table_inv_def dest: spec[where x = "rd_id r"])
    have some: "existing (rd_id r) = Some v" using ex Cons by simp
    show ?thesis
    proof (cases "er_passed res")
      case False
      with run res some have "m' = m" by (simp add: monitor_rule_def bindS_def)
      with inv res False only show ?thesis by auto
    next
      case True
      let ?new = "update_rows vi_id (vi_id v) (\<lambda>q. q\<lparr>vi_resolved := Some (me_now me, ''system'', Auto)\<rparr>) ?vs"
      have vs': "mo_violations m' = ?new"
        using run res some True pub[of "ViolationResolved p v" "m\<lparr>mo_violations := ?new\<rparr>"]
        by (auto simp: monitor_rule_def bindS_def thenS_def resolve_violation_def)
      have "map vi_id ?new = map vi_id ?vs" by (rule keys_update_rows) simp
      moreover have "active_for p rid ?new = (if rid = rd_id r then [] else active_for p rid ?vs)" for rid
        by (rule active_resolve[OF d only])
      ultimately show ?thesis using inv res True by (auto simp: table_inv_def vs')
    qed
  qed
qed

lemma monitor_loop:
  assumes "distinct (map rd_id rules)" and "table_inv p (mo_violations m)"
    and "\<forall>r\<in>set rules. existing (rd_id r) =
      (case active_for p (rd_id r) (mo_violations m) of [] \<Rightarrow> None | v # _ \<Rightarrow> Some v)"
    and "forS (monitor_rule me p fund passive existing st) rules m = (m', Inr ())"
  shows "table_inv p (mo_violations m') \<and>
    (\<forall>rid. rid \<notin> set (map rd_id rules) \<longrightarrow>
       active_for p rid (mo_violations m') = active_for p rid (mo_violations m)) \<and>
    (\<forall>r\<in>set rules. \<exists>res. evaluate st r = Inr res \<and>
       (active_for p (rd_id r) (mo_violations m') \<noteq> [] \<longleftrightarrow> \<not> er_passed res))"
  using assms
proof (induction rules arbitrary: m)
  case (Cons r rules)
  from Cons.prems(4) obtain m1 where m1: "monitor_rule me p fund passive existing st r m = (m1, Inr ())"
    and rest: "forS (monitor_rule me p fund passive existing st) rules m1 = (m', Inr ())"
    by (auto simp: thenS_def bindS_def split: prod.splits sum.splits)
  have s: "table_inv p (mo_violations m1)"
    "\<forall>rid. rid \<noteq> rd_id r \<longrightarrow> active_for p rid (mo_violations m1) = active_for p rid (mo_violations m)"
    "\<exists>res. evaluate st r = Inr res \<and> (active_for p (rd_id r) (mo_violations m1) \<noteq> [] \<longleftrightarrow> \<not> er_passed res)"
    using monitor_rule_step[OF Cons.prems(2) _ m1] Cons.prems(3) by auto
  have ih: "table_inv p (mo_violations m')"
    "\<forall>rid. rid \<notin> set (map rd_id rules) \<longrightarrow> active_for p rid (mo_violations m') = active_for p rid (mo_violations m1)"
    "\<forall>r\<in>set rules. \<exists>res. evaluate st r = Inr res \<and>
       (active_for p (rd_id r) (mo_violations m') \<noteq> [] \<longleftrightarrow> \<not> er_passed res)"
  proof -
    have "\<forall>q\<in>set rules. existing (rd_id q) =
      (case active_for p (rd_id q) (mo_violations m1) of [] \<Rightarrow> None | v # _ \<Rightarrow> Some v)"
    proof
      fix q assume q: "q \<in> set rules"
      then have "rd_id q \<in> rd_id ` set rules" by (rule imageI)
      then have "rd_id q \<noteq> rd_id r" using Cons.prems(1) by auto
      with s(2) Cons.prems(3) q show "existing (rd_id q) =
        (case active_for p (rd_id q) (mo_violations m1) of [] \<Rightarrow> None | v # _ \<Rightarrow> Some v)" by simp
    qed
    from Cons.IH[OF _ s(1) this rest] Cons.prems(1) show "table_inv p (mo_violations m')"
      "\<forall>rid. rid \<notin> set (map rd_id rules) \<longrightarrow> active_for p rid (mo_violations m') = active_for p rid (mo_violations m1)"
      "\<forall>r\<in>set rules. \<exists>res. evaluate st r = Inr res \<and>
         (active_for p (rd_id r) (mo_violations m') \<noteq> [] \<longleftrightarrow> \<not> er_passed res)" by auto
  qed
  have "rd_id r \<notin> set (map rd_id rules)" using Cons.prems(1) by simp
  with ih s show ?case by auto
qed simp

section \<open>Properties\<close>

text \<open>C39. Each evaluator decides its rule: whenever a rule can be evaluated, the result says passed
  exactly if the portfolio satisfies the declarative reading of the rule, that is, no position and
  no sector, country, asset class or entity total above its share of a positive NAV, leverage
  within the limit, nothing short, nothing restricted; and a rule fails to evaluate only when its
  limit does not parse.\<close>

theorem evaluators_decide_rules:
  "case evaluate st r of
     Inr res \<Rightarrow> \<exists>mx. rule_limit r = Inr mx \<and>
       (er_passed res \<longleftrightarrow> compliant_with st (rd_params r) (rd_type r) mx)
   | Inl e \<Rightarrow> \<exists>e'. rule_limit r = Inl e'"
proof (cases "evaluate st r")
  case (Inl e)
  then show ?thesis using evaluate_total[of r _ st] by (cases "rule_limit r") auto
next
  case (Inr res)
  then show ?thesis using evaluate_passed[OF Inr] by simp
qed


definition demo_params :: rule_params where
  "demo_params = \<lparr>rp_max_pct = Some (Inr 60), rp_max_leverage = None, rp_sector = '''', rp_country = '''',
     rp_restricted = [], rp_allow_short = False, rp_group_by = '''', rp_entity = '''', rp_asset_class = ''''\<rparr>"

definition demo_rule :: "rule_type \<Rightarrow> rule_definition" where
  "demo_rule t = \<lparr>rd_id = 7, rd_name = ''R'', rd_type = t, rd_severity = Block, rd_params = demo_params,
     rd_active = True, rd_grace_hours = None\<rparr>"

definition demo_gate :: "rule_type \<Rightarrow> dec \<Rightarrow> gate_env" where
  "demo_gate t cash = \<lparr>ge_rules = Inr [demo_rule t],
     ge_positions = (\<lambda>_. Inr [\<lparr>pv_instrument = ''IBM'', pv_quantity = 1, pv_mv = 100, pv_price = 100\<rparr>]),
     ge_metadata = (\<lambda>_. ('''', '''', '''')), ge_cash = Some (\<lambda>_. Inr [cash])\<rparr>"

definition demo_check :: trade_check where
  "demo_check = \<lparr>tc_portfolio = 1, tc_instrument = ''AAPL'', tc_side = OBuy, tc_quantity = 2, tc_price = 50\<rparr>"

lemma upper_demo: "upper ''AAPL'' = ''AAPL''"
  by code_simp


text \<open>The leverage rule cannot fail with a limit of one or more and cash that is not negative:
  NAV is computed as gross position value plus cash, so the ratio of gross value to NAV never
  exceeds one, however leveraged the trade makes the fund; the cash a purchase costs is not
  taken off.\<close>

theorem leverage_limit_never_binds:
  assumes "build_state ge p ps = Inr st" and "available_cash ge p = Inr cash" and "0 \<le> cash"
    and "rd_type r = LeverageLimit" and "rule_limit r = Inr mx" and "1 \<le> mx"
  shows "\<exists>res. evaluate st r = Inr res \<and> er_passed res"
proof -
  define gross where "gross = dsum (map (\<lambda>q. dabs (pi_mv q)) (state_positions st))"
  have st: "ps_nav st = dadd gross cash"
    using assms(1,2) by (auto simp: build_state_def gross_def state_positions_def comp_def)
  have g: "fix28 gross = gross"
  proof (cases "state_positions st" rule: rev_cases)
    case Nil
    then show ?thesis by (simp add: gross_def)
  next
    case (snoc ys y)
    then show ?thesis by (simp add: gross_def dsum_snoc dadd_def)
  qed
  have g0: "0 \<le> gross" unfolding gross_def by (rule dsum_nonneg) (auto simp: dabs_def)
  have le: "gross \<le> ps_nav st" using fix28_mono[of gross "gross + cash"] assms(3) g by (simp add: st dadd_def)
  have "ddiv gross (ps_nav st) \<le> mx" if "0 < ps_nav st"
  proof -
    have "gross / ps_nav st \<le> 1" using le that by simp
    then have "ddiv gross (ps_nav st) \<le> 1"
      using fix28_mono[of _ 1] fix28_exact[of 0 1] by (simp add: ddiv_def)
    with assms(6) show ?thesis by simp
  qed
  then show ?thesis
    using assms(4,5) by (cases "ps_nav st \<le> 0")
      (auto simp: evaluate_def eval_leverage_def rule_limit_def gross_def result_of_def Let_def)
qed

theorem leverage_limit_never_binds_witness:
  "\<exists>st res. build_state (demo_gate LeverageLimit 5) 1
      [(''X'', position_of (demo_gate LeverageLimit 5) ''X'' 1000 1000)] = Inr st \<and>
     evaluate st (demo_rule LeverageLimit) = Inr res \<and> er_passed res"
proof -
  let ?ge = "demo_gate LeverageLimit 5"
  have cash: "available_cash ?ge 1 = Inr 5"
    by (simp add: available_cash_def demo_gate_def dsum_def dec_defs exact_simps)
  then obtain st where st: "build_state ?ge 1 [(''X'', position_of ?ge ''X'' 1000 1000)] = Inr st"
    by (simp add: build_state_def)
  from leverage_limit_never_binds[OF st cash, of "demo_rule LeverageLimit" 1] st show ?thesis
    by (auto simp: demo_rule_def rule_limit_def param_limit_def demo_params_def)
qed

text \<open>C7. The violation table follows the rules: when an evaluation of a portfolio with positions
  runs to its end, every active rule has an unresolved violation exactly if the rule does not
  hold of the actual portfolio, there is at most one, and the violations of other rules are
  untouched.\<close>

theorem violations_track_rules:
  assumes "evaluate_portfolio me p fund passive m = (m', Inr ())"
    and "ge_rules (me_gate me) = Inr rules" and "rules \<noteq> []" and "distinct (map rd_id rules)"
    and "ge_positions (me_gate me) p = Inr vs" and "vs \<noteq> []"
    and "table_inv p (mo_violations m)"
  shows "table_inv p (mo_violations m') \<and>
    (\<exists>st. build_state (me_gate me) p (held_positions (me_gate me) vs) = Inr st \<and>
      (\<forall>r\<in>set rules. \<exists>mx. rule_limit r = Inr mx \<and>
        (active_for p (rd_id r) (mo_violations m') = [] \<longleftrightarrow>
           compliant_with st (rd_params r) (rd_type r) mx))) \<and>
    (\<forall>rid. rid \<notin> set (map rd_id rules) \<longrightarrow>
       active_for p rid (mo_violations m') = active_for p rid (mo_violations m))"
proof -
  let ?ex = "map_of (rev (map (\<lambda>v. (vi_rule v, v)) (list_active_by_portfolio p (mo_violations m))))"
  from assms(1-3,5,6) obtain st where st: "build_state (me_gate me) p (held_positions (me_gate me) vs) = Inr st"
    and run: "forS (monitor_rule me p fund passive ?ex st) rules m = (m', Inr ())"
    by (auto simp: evaluate_portfolio_def bindS_def Let_def split: sum.splits)
  have ex: "\<forall>r\<in>set rules. ?ex (rd_id r) =
      (case active_for p (rd_id r) (mo_violations m) of [] \<Rightarrow> None | v # _ \<Rightarrow> Some v)"
    by (intro ballI existing_lookup) (use assms(7) in \<open>simp add: table_inv_def\<close>)
  note L = monitor_loop[OF assms(4,7) ex run]
  have "\<exists>mx. rule_limit r = Inr mx \<and> (active_for p (rd_id r) (mo_violations m') = [] \<longleftrightarrow>
           compliant_with st (rd_params r) (rd_type r) mx)" if "r \<in> set rules" for r
    using L that evaluate_passed by blast
  with L st show ?thesis by blast
qed

definition demo_monitor_env :: monitor_env where
  "demo_monitor_env = \<lparr>me_gate = demo_gate ConcentrationLimit 0, me_uuid = int, me_now = 0,
     me_col = Inr, me_publish = Some (\<lambda>_. None)\<rparr>"

theorem violations_track_rules_witness:
  "\<exists>m'. evaluate_portfolio demo_monitor_env 1 ''f'' False
      \<lparr>mo_violations = [], mo_events = [], mo_draws = 0\<rparr> = (m', Inr ()) \<and> active_for 1 7 (mo_violations m') \<noteq> []"
proof -
  let ?m = "\<lparr>mo_violations = [], mo_events = [], mo_draws = 0\<rparr>"
  let ?v = "\<lparr>pv_instrument = ''IBM'', pv_quantity = 1, pv_mv = 100, pv_price = 100\<rparr>"
  let ?ge = "demo_gate ConcentrationLimit 0"
  have pos: "ge_positions (me_gate demo_monitor_env) 1 = Inr [?v]"
    and rules: "ge_rules (me_gate demo_monitor_env) = Inr [demo_rule ConcentrationLimit]"
    and pub: "me_publish demo_monitor_env = Some (\<lambda>_. None)" and col: "me_col demo_monitor_env = Inr"
    by (simp_all add: demo_monitor_env_def demo_gate_def)
  define st where "st = \<lparr>ps_portfolio = 1, ps_positions = [(''IBM'', position_of ?ge ''IBM'' 1 100)],
    ps_nav = 100, ps_restricted = []\<rparr>"
  have st: "build_state (me_gate demo_monitor_env) 1 (held_positions (me_gate demo_monitor_env) [?v]) = Inr st"
    by (simp add: st_def demo_monitor_env_def build_state_def held_positions_def available_cash_def
        demo_gate_def position_of_def dsum_def dec_defs exact_simps)
  have mv: "pi_mv (position_of ?ge ''IBM'' 1 100) = 100" by (simp add: position_of_def demo_gate_def)
  have lim: "rule_limit (demo_rule ConcentrationLimit) = Inr 60"
    by (simp add: demo_rule_def rule_limit_def param_limit_def demo_params_def)
  have bad: "\<not> compliant_with st demo_params ConcentrationLimit 60"
    by (simp add: st_def state_positions_def mv share_def dec_defs exact_simps)
  obtain res where res: "evaluate st (demo_rule ConcentrationLimit) = Inr res"
    using evaluate_total[OF lim] by blast
  then have "\<not> er_passed res" using evaluate_passed[OF res] lim bad by (auto simp: demo_rule_def)
  then obtain m' where m': "evaluate_portfolio demo_monitor_env 1 ''f'' False ?m = (m', Inr ())"
    using res by (simp add: evaluate_portfolio_def rules pos st bindS_def Let_def list_active_by_portfolio_def
        thenS_def monitor_rule_def insert_violation_def publish_violation_def pub col)
  have "table_inv 1 []" by (simp add: table_inv_def active_for_def)
  with violations_track_rules[OF m' rules _ _ pos] st lim bad m' show ?thesis
    by (auto simp: demo_rule_def)
qed

text \<open>The remediation advice is wrong for shorts: whatever the sign of the position, the advice
  for a concentration breach is to sell, so for a short position the advised trade makes the
  breach worse.\<close>

theorem remediation_only_sells:
  assumes "suggest_for nav pos v = Inr (Some s)"
  shows "sg_side s = OSell \<and> 0 < sg_quantity s \<and>
    (\<exists>q. pos (sg_instrument s) = Some q \<and>
       (pv_quantity q < 0 \<longrightarrow> \<bar>pv_quantity q - sg_quantity s\<bar> > \<bar>pv_quantity q\<bar>))"
proof -
  from assms obtain lmt c i q where "vi_limit v = Some lmt" "vi_current v = Some c"
    "message_subject (vi_message v) = Some i" and q: "pos i = Some q"
    by (auto simp: suggest_for_def split: option.splits)
  with assms have "sg_side s = OSell \<and> 0 < sg_quantity s \<and> sg_instrument s = i"
    by (auto simp: suggest_for_def Let_def bindE_Inr_iff not_le split: if_splits)
  with q show ?thesis by auto
qed

definition demo_violation :: violation where
  "demo_violation = \<lparr>vi_id = 3, vi_portfolio = 1, vi_rule = 7, vi_name = ''R'', vi_severity = Block,
     vi_message = Over ''IBM'' 100 60, vi_current = Some 100, vi_limit = Some (121 / 2), vi_breach = Active,
     vi_detected = 0, vi_deadline = None, vi_resolved = None\<rparr>"

theorem remediation_only_sells_witness:
  "\<exists>s. suggest_for 100 [''IBM'' \<mapsto> \<lparr>pv_instrument = ''IBM'', pv_quantity = -10, pv_mv = -100, pv_price = 10\<rparr>]
      demo_violation = Inr (Some s) \<and> \<bar>-10 - sg_quantity s\<bar> > 10"
proof -
  let ?p = "[''IBM'' \<mapsto> \<lparr>pv_instrument = ''IBM'', pv_quantity = -10, pv_mv = -100, pv_price = 10\<rparr>]"
  obtain s where s: "suggest_for 100 ?p demo_violation = Inr (Some s)" "sg_instrument s = ''IBM''"
    by (simp add: suggest_for_def demo_violation_def Let_def share_def dec_defs exact_simps quantizeE_def)
  from remediation_only_sells[OF s(1)] s show ?thesis by auto
qed

end
