(* ===== verification/PyDate.thy ===== *)
theory PyDate
  imports Prelude
begin

text \<open>
  Calendar dates as the application uses Python's \<open>datetime.date\<close>.  A date is its proleptic
  Gregorian ordinal (\<open>date.toordinal()\<close>), so that comparison and the addition of a
  \<open>timedelta\<close> are those of the integers; \<open>date_of\<close> is the constructor, \<open>year_of\<close>, \<open>month_of\<close>
  and \<open>day_of\<close> are the attributes and \<open>weekday\<close> counts from Monday.  Dates outside the years 1
  to 9999 raise, as in Python.
\<close>

type_synonym date = int

definition leap :: "int \<Rightarrow> bool" where
  "leap y \<longleftrightarrow> y mod 4 = 0 \<and> (y mod 100 \<noteq> 0 \<or> y mod 400 = 0)"

definition month_days :: "int \<Rightarrow> int \<Rightarrow> int" where
  \<comment> \<open>\<open>calendar.monthrange(year, month)[1]\<close>\<close>
  "month_days y m =
     (if m = 2 then if leap y then 29 else 28
      else if m = 4 \<or> m = 6 \<or> m = 9 \<or> m = 11 then 30 else 31)"

definition year_start :: "int \<Rightarrow> int" where
  \<comment> \<open>the ordinal of the last day before the year\<close>
  "year_start y = 365 * (y - 1) + (y - 1) div 4 - (y - 1) div 100 + (y - 1) div 400"

definition before_month :: "int \<Rightarrow> int \<Rightarrow> int" where
  "before_month y m =
     [0, 31, 59, 90, 120, 151, 181, 212, 243, 273, 304, 334] ! nat (m - 1) +
     (if 2 < m \<and> leap y then 1 else 0)"

definition first_of :: "int \<Rightarrow> int \<Rightarrow> date" where
  "first_of y m = year_start y + before_month y m + 1"

definition date_of :: "int \<Rightarrow> int \<Rightarrow> int \<Rightarrow> date res" where
  "date_of y m d =
     (if 1 \<le> y \<and> y \<le> 9999 \<and> 1 \<le> m \<and> m \<le> 12 \<and> 1 \<le> d \<and> d \<le> month_days y m
      then Inr (first_of y m + d - 1) else Inl ValueError)"

definition max_date :: date where "max_date = 3652059"

definition add_days :: "date \<Rightarrow> int \<Rightarrow> date res" where
  "add_days d k = (if 1 \<le> d + k \<and> d + k \<le> max_date then Inr (d + k) else Inl OverflowError)"

definition weekday :: "date \<Rightarrow> int" where
  \<comment> \<open>Monday is 0, Sunday 6\<close>
  "weekday d = (d + 6) mod 7"

definition year_of :: "date \<Rightarrow> int" where
  "year_of n =
     (let r0 = (n - 1) mod 146097; r1 = r0 mod 36524; r2 = r1 mod 1461;
          c = r0 div 36524; e = r2 div 365;
          y = 400 * ((n - 1) div 146097) + 100 * c + 4 * (r1 div 1461) + e
      in if c = 4 \<or> e = 4 then y else y + 1)"

definition month_of :: "date \<Rightarrow> int" where
  "month_of n = int (length (filter (\<lambda>m. first_of (year_of n) m \<le> n) [1..12]))"

definition day_of :: "date \<Rightarrow> int" where
  "day_of n = n - first_of (year_of n) (month_of n) + 1"

section \<open>The calendar\<close>

lemma div_step:
  assumes "0 < (k::int)"
  shows "y div k = (y - 1) div k + (if y mod k = 0 then 1 else 0)"
proof (cases "y mod k = 0")
  case True
  then have "k * (y div k) = y" by auto
  then have "y - 1 = k * (y div k - 1) + (k - 1)" by (simp add: right_diff_distrib)
  from int_div_pos_eq[OF this] assms True show ?thesis by simp
next
  case False
  have "0 \<le> y mod k" "y mod k < k" using assms by simp_all
  moreover have "y - 1 = k * (y div k) + (y mod k - 1)" by simp
  ultimately show ?thesis using int_div_pos_eq[of "y - 1" k "y div k" "y mod k - 1"] False by simp
qed

lemma year_start_next: "year_start (y + 1) = year_start y + (if leap y then 366 else 365)"
proof -
  have m100: "y mod 4 = 0" if "y mod 100 = 0" using that mod_mod_cancel[of 4 100 y] by simp
  have m400: "y mod 100 = 0" if "y mod 400 = 0" using that mod_mod_cancel[of 100 400 y] by simp
  obtain A B C where abc: "(y - 1) div 4 = A" "(y - 1) div 100 = B" "(y - 1) div 400 = C" by simp
  note steps = div_step[of 4 y, OF zero_less_numeral, unfolded abc] div_step[of 100 y, OF zero_less_numeral, unfolded abc] div_step[of 400 y, OF zero_less_numeral, unfolded abc]
  have start: "year_start (y + 1) = 365 * y + y div 4 - y div 100 + y div 400"
    by (simp add: year_start_def)
  consider "y mod 400 = 0" "y mod 100 = 0" "y mod 4 = 0" | "y mod 400 \<noteq> 0" "y mod 100 = 0" "y mod 4 = 0"
    | "y mod 400 \<noteq> 0" "y mod 100 \<noteq> 0" "y mod 4 = 0" | "y mod 400 \<noteq> 0" "y mod 100 \<noteq> 0" "y mod 4 \<noteq> 0"
    using m100 m400 by argo
  then show ?thesis
    unfolding start unfolding leap_def year_start_def abc steps
    by cases (simp_all only: simp_thms if_True if_False, simp_all)
qed

lemma month_range: "1 \<le> m \<Longrightarrow> m \<le> (12::int) \<Longrightarrow>
    m = 1 \<or> m = 2 \<or> m = 3 \<or> m = 4 \<or> m = 5 \<or> m = 6 \<or> m = 7 \<or> m = 8 \<or> m = 9 \<or> m = 10 \<or> m = 11 \<or> m = 12"
proof -
  assume "1 \<le> m" "m \<le> 12"
  then have "m = 1 \<or> m = 2 \<or> m = 3 \<or> m = 4 \<or> 5 \<le> m" by linarith
  moreover have "5 \<le> m \<Longrightarrow> m = 5 \<or> m = 6 \<or> m = 7 \<or> m = 8 \<or> 9 \<le> m" by linarith
  moreover have "9 \<le> m \<Longrightarrow> m = 9 \<or> m = 10 \<or> m = 11 \<or> m = 12" using \<open>m \<le> 12\<close> by linarith
  ultimately show ?thesis by argo
qed

lemma first_next:
  assumes "1 \<le> m" "m \<le> 12"
  shows "first_of (if m = 12 then y + 1 else y) (if m = 12 then 1 else m + 1) = first_of y m + month_days y m"
  using month_range[OF assms]
  by (elim disjE) (simp_all add: first_of_def before_month_def month_days_def year_start_next)

lemma month_days_bounds: "28 \<le> month_days y m" "month_days y m \<le> 31"
  by (simp_all add: month_days_def)

lemma year_of_bounds:
  assumes "1 \<le> n"
  shows "year_start (year_of n) < n" and "n \<le> year_start (year_of n + 1)" and "1 \<le> year_of n"
proof -
  define a r0 where ar: "a = (n - 1) div 146097" "r0 = (n - 1) mod 146097"
  define c r1 where cr: "c = r0 div 36524" "r1 = r0 mod 36524"
  define f r2 where fr: "f = r1 div 1461" "r2 = r1 mod 1461"
  define e s where es: "e = r2 div 365" "s = r2 mod 365"
  have r0: "n - 1 = 146097 * a + r0" "0 \<le> r0" "r0 < 146097" "0 \<le> a"
    using assms by (auto simp: ar pos_imp_zdiv_nonneg_iff)
  have r1: "r0 = 36524 * c + r1" "0 \<le> r1" "r1 < 36524" "0 \<le> c"
    using r0 by (auto simp: cr pos_imp_zdiv_nonneg_iff)
  have r2: "r1 = 1461 * f + r2" "0 \<le> r2" "r2 < 1461" "0 \<le> f"
    using r1 by (auto simp: fr pos_imp_zdiv_nonneg_iff)
  have s: "r2 = 365 * e + s" "0 \<le> s" "s < 365" "0 \<le> e"
    using r2 by (auto simp: es pos_imp_zdiv_nonneg_iff)
  have y: "year_of n = (if c = 4 \<or> e = 4 then 400 * a + 100 * c + 4 * f + e
      else 400 * a + 100 * c + 4 * f + e + 1)"
    by (simp add: year_of_def Let_def ar cr fr es)
  have start: "year_start (400 * a + 100 * c + 4 * f + e + 1) = 146097 * a + 36524 * c + 1461 * f + 365 * e"
    if "c < 4" "e < 4" "f < 25"
  proof -
    have "(400 * a + 100 * c + 4 * f + e) div 4 = 100 * a + 25 * c + f"
      by (rule int_div_pos_eq[of _ _ _ e]) (use that s in auto)
    moreover have "(400 * a + 100 * c + 4 * f + e) div 100 = 4 * a + c"
      by (rule int_div_pos_eq[of _ _ _ "4 * f + e"]) (use that s r2 in auto)
    moreover have "(400 * a + 100 * c + 4 * f + e) div 400 = a"
      by (rule int_div_pos_eq[of _ _ _ "100 * c + 4 * f + e"]) (use that s r2 r1 in auto)
    ultimately show ?thesis by (simp add: year_start_def)
  qed
  have "year_start (year_of n) < n \<and> n \<le> year_start (year_of n + 1) \<and> 1 \<le> year_of n"
  proof (cases "c < 4")
    case True
    have f: "f < 25" using r1 r2 by linarith
    show ?thesis
    proof (cases "e < 4")
      case e: True
      then have "year_of n = 400 * a + 100 * c + 4 * f + e + 1" using True by (simp add: y)
      then show ?thesis using start[OF True e f] r0 r1 r2 s year_start_next[of "year_of n"] by (auto split: if_splits)
    next
      case False
      then have e: "e = 4" "s = 0" using r2 s by linarith+
      have yr: "year_of n = 400 * a + 100 * c + 4 * f + 3 + 1" using e by (simp add: y)
      have "f < 24" using r1 r2 s e by linarith
      have f4: "(400 * a + 100 * c + 4 * f + 3) div 4 = 100 * a + 25 * c + f"
        by (rule int_div_pos_eq[of _ _ _ 3]) auto
      have f100: "(400 * a + 100 * c + 4 * f + 3) div 100 = 4 * a + c"
        by (rule int_div_pos_eq[of _ _ _ "4 * f + 3"]) (use f r2 in auto)
      have f400: "(400 * a + 100 * c + 4 * f + 3) div 400 = a"
        by (rule int_div_pos_eq[of _ _ _ "100 * c + 4 * f + 3"]) (use True \<open>f < 24\<close> r2 r1 in linarith)+
      have st: "year_start (year_of n) = 146097 * a + 36524 * c + 1461 * f + 1095"
        unfolding year_start_def yr add_diff_cancel_right' f4 f100 f400 by simp
      have "year_of n = 4 * (100 * a + 25 * c + f + 1)" unfolding yr by simp
      then have "(year_of n) mod 4 = 0" by (metis mod_mult_self1_is_0)
      moreover have "(year_of n) mod 100 = 4 * f + 4"
        unfolding yr by (rule int_mod_pos_eq[of _ _ "4 * a + c"]) (use \<open>f < 24\<close> r2 in auto)
      ultimately have "leap (year_of n)" using r2 by (simp add: leap_def)
      then show ?thesis using st r0 r1 r2 s e yr year_start_next[of "year_of n"] by simp
    qed
  next
    case False
    then have c: "c = 4" "r1 = 0" using r0 r1 by linarith+
    then have z: "f = 0" "e = 0" "s = 0" using r2 s by linarith+
    have yr: "year_of n = 400 * a + 399 + 1" using c z by (simp add: y)
    have f4: "(400 * a + 399) div 4 = 100 * a + 99" by (rule int_div_pos_eq[of _ _ _ 3]) auto
    have f100: "(400 * a + 399) div 100 = 4 * a + 3" by (rule int_div_pos_eq[of _ _ _ 99]) auto
    have f400: "(400 * a + 399) div 400 = a" by (rule int_div_pos_eq[of _ _ _ 399]) auto
    have st: "year_start (year_of n) = 146097 * a + 145731"
      unfolding year_start_def yr add_diff_cancel_right' f4 f100 f400 by simp
    have "year_of n = 400 * (a + 1)" "year_of n = 4 * (100 * a + 100)" unfolding yr by simp_all
    then have "(year_of n) mod 400 = 0" "(year_of n) mod 4 = 0" by (metis mod_mult_self1_is_0)+
    then have "leap (year_of n)" by (simp add: leap_def)
    then show ?thesis using st r0 r1 c z yr year_start_next[of "year_of n"] by simp
  qed
  then show "year_start (year_of n) < n" "n \<le> year_start (year_of n + 1)" "1 \<le> year_of n" by auto
qed

lemma year_start_mono: "x \<le> y \<Longrightarrow> year_start x \<le> year_start y"
proof -
  assume "x \<le> y"
  then have "y = x + int (nat (y - x))" by simp
  moreover have "year_start x \<le> year_start (x + int k)" for k
  proof (induction k)
    case (Suc k)
    have "year_start (x + int (Suc k)) = year_start ((x + int k) + 1)" by (simp add: add.commute add.left_commute)
    then show ?case using Suc unfolding year_start_next by (simp split: if_splits)
  qed simp
  ultimately show ?thesis by metis
qed

lemma month_exists:
  assumes "year_start y < n" "n \<le> year_start (y + 1)"
  obtains m where "1 \<le> m" "m \<le> 12" "first_of y m \<le> n" "n < first_of y m + month_days y m"
proof -
  let ?P = "\<lambda>m. first_of y m \<le> n"
  have "?P 1" using assms by (simp add: first_of_def before_month_def)
  then have "1 \<in> {m \<in> {1..12}. ?P m}" by simp
  then have fin: "finite {m \<in> {1..12}. ?P m}" "{m \<in> {1..12}. ?P m} \<noteq> {}"
    by (rule_tac [2] notI) (simp_all only: finite_Collect_conjI finite_atLeastAtMost_int disjI1 empty_iff Collect_conj_eq Collect_mem_eq finite_Int simp_thms)
  define m where "m = Max {m \<in> {1..12}. ?P m}"
  have m: "1 \<le> m" "m \<le> 12" "?P m" using Max_in[OF fin] by (auto simp: m_def)
  have "n < first_of y m + month_days y m"
  proof (cases "m = 12")
    case True
    with assms(2) show ?thesis
      by (simp add: first_of_def before_month_def month_days_def year_start_next split: if_splits)
  next
    case False
    then have "\<not> ?P (m + 1)" using Max_ge[OF fin(1), of "m + 1"] m by (auto simp: m_def)
    with False show ?thesis using first_next[OF m(1,2), of y] by simp
  qed
  with m that show ?thesis by blast
qed

lemma first_of_mono:
  assumes "1 \<le> i" "i < j" "j \<le> 12"
  shows "first_of y i + month_days y i \<le> first_of y j"
proof -
  have "i = 1 \<or> i = 2 \<or> i = 3 \<or> i = 4 \<or> i = 5 \<or> i = 6 \<or> i = 7 \<or> i = 8 \<or> i = 9 \<or> i = 10 \<or> i = 11"
    using month_range[of i] assms by auto
  moreover have "j = 1 \<or> j = 2 \<or> j = 3 \<or> j = 4 \<or> j = 5 \<or> j = 6 \<or> j = 7 \<or> j = 8 \<or> j = 9 \<or> j = 10 \<or> j = 11 \<or> j = 12"
    by (rule month_range) (use assms in auto)
  ultimately show ?thesis using assms(2)
    by (elim disjE) (simp_all add: first_of_def before_month_def month_days_def)
qed

lemma month_of_eqI:
  assumes "year_of n = y" "1 \<le> m" "m \<le> 12" "first_of y m \<le> n" "n < first_of y m + month_days y m"
  shows "month_of n = m"
proof -
  have le: "first_of y i \<le> n \<longleftrightarrow> i \<le> m" if "1 \<le> i" "i \<le> 12" for i
    using first_of_mono[of i m y] first_of_mono[of m i y] month_days_bounds(1)[of y i] assms that
    by (cases i m rule: linorder_cases) auto
  have "filter (\<lambda>i. first_of y i \<le> n) [1..12] = filter (\<lambda>i. i \<le> m) [1..12]"
    by (rule filter_cong) (use le in auto)
  also have "\<dots> = [1..m]"
  proof -
    have "[1..12] = [1..m] @ [m + 1..12]" using assms(2,3) by (intro upto_split2) auto
    then show ?thesis by (auto simp: filter_empty_conv filter_id_conv)
  qed
  finally show ?thesis using assms(1,2) by (simp add: month_of_def)
qed

lemma month_of_bounds:
  assumes "1 \<le> n"
  shows "1 \<le> month_of n" "month_of n \<le> 12" "first_of (year_of n) (month_of n) \<le> n"
    "n < first_of (year_of n) (month_of n) + month_days (year_of n) (month_of n)"
proof -
  obtain m where "1 \<le> m" "m \<le> 12" "first_of (year_of n) m \<le> n"
    "n < first_of (year_of n) m + month_days (year_of n) m"
    using month_exists[OF year_of_bounds(1,2)[OF assms]] .
  moreover from this have "month_of n = m" by (intro month_of_eqI) auto
  ultimately show "1 \<le> month_of n" "month_of n \<le> 12" "first_of (year_of n) (month_of n) \<le> n"
    "n < first_of (year_of n) (month_of n) + month_days (year_of n) (month_of n)" by auto
qed

text \<open>The constructor and the attributes are inverse to each other.\<close>

lemma date_of_attributes:
  assumes "1 \<le> n" "n \<le> max_date"
  shows "date_of (year_of n) (month_of n) (day_of n) = Inr n"
proof -
  have "year_of n \<le> 9999"
  proof (rule ccontr)
    assume "\<not> year_of n \<le> 9999"
    then have "year_start 10000 \<le> year_start (year_of n)" by (intro year_start_mono) simp
    moreover have "year_start 10000 = max_date" by (simp add: year_start_def max_date_def)
    ultimately show False using year_of_bounds(1)[OF assms(1)] assms(2) by simp
  qed
  then show ?thesis
    using month_of_bounds[OF assms(1)] year_of_bounds(3)[OF assms(1)] by (simp add: date_of_def day_of_def)
qed

lemma year_of_eqI:
  assumes "year_start y < n" "n \<le> year_start (y + 1)" "1 \<le> n"
  shows "year_of n = y"
proof (rule ccontr)
  assume "year_of n \<noteq> y"
  then consider "year_of n + 1 \<le> y" | "y + 1 \<le> year_of n" by linarith
  then show False
    using year_start_mono[of "year_of n + 1" y] year_start_mono[of "y + 1" "year_of n"]
      year_of_bounds[OF assms(3)] assms by cases auto
qed

lemma year_month_of_date:
  assumes "date_of y m d = Inr n"
  shows "year_of n = y \<and> month_of n = m \<and> day_of n = d \<and> 1 \<le> n \<and> n \<le> max_date"
proof -
  from assms have v: "1 \<le> y" "y \<le> 9999" "1 \<le> m" "m \<le> 12" "1 \<le> d" "d \<le> month_days y m"
    and n: "n = first_of y m + d - 1"
    by (auto simp: date_of_def split: if_splits)
  have lo: "year_start y + 1 \<le> first_of y m"
    using month_range[OF v(3,4)] by (elim disjE) (simp_all add: first_of_def before_month_def)
  have hi: "first_of y m + month_days y m \<le> year_start (y + 1) + 1"
    using month_range[OF v(3,4)] unfolding year_start_next
    by (elim disjE) (simp_all add: first_of_def before_month_def month_days_def)
  have "year_start 1 \<le> year_start y" "year_start (y + 1) \<le> year_start 10000"
    using v by (auto intro: year_start_mono)
  moreover have "year_start 1 = 0" "year_start 10000 = max_date" by (simp_all add: year_start_def max_date_def)
  ultimately have bounds: "1 \<le> n" "n \<le> max_date" using lo hi n v by linarith+
  have yr: "year_of n = y" by (rule year_of_eqI) (use lo hi n v bounds in auto)
  moreover have "month_of n = m" by (rule month_of_eqI[OF yr v(3,4)]) (use n v in auto)
  ultimately show ?thesis using bounds n by (simp add: day_of_def)
qed

lemma add_days_Inr [simp]: "add_days d k = Inr e \<longleftrightarrow> e = d + k \<and> 1 \<le> d + k \<and> d + k \<le> max_date"
  by (auto simp: add_days_def)

lemma weekday_range [simp]: "0 \<le> weekday d" "weekday d < 7"
  by (simp_all add: weekday_def)

lemma weekday_add: "weekday (d + k) = (weekday d + k) mod 7"
  by (simp add: weekday_def mod_simps algebra_simps)

end
