(* ===== verification/BusinessDays.thy ===== *)
theory BusinessDays
  imports PyDate
begin

text \<open>
  Business days and settlement dates (\<open>app/modules/cash_management/core\<close>: \<open>settlement_calendar\<close> and
  \<open>holiday_calendar\<close>): the settlement cycle of a country, the loops that count business days or look
  for the next one, and the public holidays of four countries.
\<close>

section \<open>Business days\<close>

definition settlement_days :: "string \<Rightarrow> nat" where
  "settlement_days c = or_else (map_of [(''US'', 1), (''CA'', 1), (''GB'', 1), (''DE'', 2), (''FR'', 2),
     (''CH'', 2), (''JP'', 2), (''KR'', 2), (''AU'', 2)] c) 2"

definition weekend_free :: "date \<Rightarrow> bool" where
  "weekend_free d \<longleftrightarrow> weekday d < 5"

function add_business_days :: "(date \<Rightarrow> bool) \<Rightarrow> date \<Rightarrow> nat \<Rightarrow> date res" where
  \<comment> \<open>the loop that adds one day at a time; the last argument is \<open>days - added\<close>\<close>
  "add_business_days bd cur k =
     (if k = 0 then Inr cur
      else case add_days cur 1 of
             Inl e \<Rightarrow> Inl e
           | Inr d \<Rightarrow> add_business_days bd d (if bd d then k - 1 else k))"
  by pat_completeness auto
termination
  by (relation "measure (\<lambda>(bd, cur, k). nat (max_date - cur))") (auto simp: max_date_def)

declare add_business_days.simps [simp del]

definition calculate_settlement_date :: "date \<Rightarrow> string \<Rightarrow> date res" where
  "calculate_settlement_date d country = add_business_days weekend_free d (settlement_days country)"

definition snap_to_business_day :: "date \<Rightarrow> date res" where
  "snap_to_business_day d =
     (if weekday d = 5 then add_days d 2 else if weekday d = 6 then add_days d 1 else Inr d)"

definition nth_weekday :: "int \<Rightarrow> int \<Rightarrow> int \<Rightarrow> int \<Rightarrow> date res" where
  "nth_weekday y m wd n = bindE (date_of y m 1) (\<lambda>first.
     bindE (add_days first ((wd - weekday first) mod 7)) (\<lambda>d. add_days d (7 * (n - 1))))"

definition last_weekday :: "int \<Rightarrow> int \<Rightarrow> int \<Rightarrow> date res" where
  "last_weekday y m wd =
     bindE (if m = 12 then date_of (y + 1) 1 1 else date_of y (m + 1) 1) (\<lambda>nxt.
     bindE (add_days nxt (- 1)) (\<lambda>l. add_days l (- ((weekday l - wd) mod 7))))"

definition easter :: "int \<Rightarrow> date res" where
  "easter y =
     (let a = y mod 19; b = y div 100; c = y mod 100; d = b div 4; e = b mod 4;
          f = (b + 8) div 25; g = (b - f + 1) div 3;
          h = (19 * a + b - d - g + 15) mod 30; i = c div 4; k = c mod 4;
          l = (32 + 2 * e + 2 * i - h - k) mod 7; m = (a + 11 * h + 22 * l) div 451;
          q = h + l - 7 * m + 114
      in date_of y (q div 31) (q mod 31 + 1))"

definition us_holidays :: "int \<Rightarrow> date list res" where
  "us_holidays y = mapE id [date_of y 1 1, nth_weekday y 1 0 3, nth_weekday y 2 0 3,
     last_weekday y 5 0, date_of y 7 4, nth_weekday y 9 0 1, nth_weekday y 11 3 4, date_of y 12 25]"

definition gb_holidays :: "int \<Rightarrow> date list res" where
  "gb_holidays y = bindE (easter y) (\<lambda>e. mapE id [date_of y 1 1, add_days e (- 2), add_days e 1,
     nth_weekday y 5 0 1, last_weekday y 5 0, last_weekday y 8 0, date_of y 12 25, date_of y 12 26])"

definition jp_holidays :: "int \<Rightarrow> date list res" where
  "jp_holidays y = mapE id [date_of y 1 1, date_of y 1 2, date_of y 1 3, nth_weekday y 1 0 2,
     date_of y 2 11, date_of y 3 20, date_of y 4 29, date_of y 5 3, date_of y 5 4, date_of y 5 5,
     nth_weekday y 7 0 3, date_of y 8 11, nth_weekday y 9 0 3, date_of y 9 23, nth_weekday y 10 0 2,
     date_of y 11 3, date_of y 11 23]"

definition de_holidays :: "int \<Rightarrow> date list res" where
  "de_holidays y = bindE (easter y) (\<lambda>e. mapE id [date_of y 1 1, add_days e (- 2), add_days e 1,
     date_of y 5 1, add_days e 39, add_days e 50, date_of y 10 3, date_of y 12 25, date_of y 12 26])"

definition build_calendar :: "(string \<times> date list) list res" where
  "build_calendar = mapE (\<lambda>(code, builder). bindE (mapE builder [2024..2030]) (\<lambda>ds. Inr (code, concat ds)))
     [(''US'', us_holidays), (''GB'', gb_holidays), (''JP'', jp_holidays), (''DE'', de_holidays)]"

definition is_holiday :: "(string \<times> date list) list \<Rightarrow> date \<Rightarrow> string \<Rightarrow> bool" where
  \<comment> \<open>the country code is already in upper case here\<close>
  "is_holiday cal d country = (case map_of cal country of None \<Rightarrow> False | Some ds \<Rightarrow> d \<in> set ds)"

definition calendar_business_day :: "(string \<times> date list) list \<Rightarrow> string \<Rightarrow> date \<Rightarrow> bool" where
  "calendar_business_day cal country d \<longleftrightarrow> \<not> 5 \<le> weekday d \<and> \<not> is_holiday cal d country"

function next_business_day :: "(date \<Rightarrow> bool) \<Rightarrow> date \<Rightarrow> date res" where
  "next_business_day bd d =
     (if bd d then Inr d
      else case add_days d 1 of Inl e \<Rightarrow> Inl e | Inr d' \<Rightarrow> next_business_day bd d')"
  by pat_completeness auto
termination
  by (relation "measure (\<lambda>(bd, d). nat (max_date - d))") (auto simp: max_date_def)

declare next_business_day.simps [simp del]

section \<open>Business days are counted right\<close>

lemma add_business_days_spec:
  assumes "d \<le> max_date" "0 \<le> d"
  shows "case add_business_days bd d n of
      Inr r \<Rightarrow> d \<le> r \<and> r \<le> max_date \<and> (0 < n \<longrightarrow> bd r) \<and> card {x. d < x \<and> x \<le> r \<and> bd x} = n
    | Inl e \<Rightarrow> e = OverflowError \<and> card {x. d < x \<and> x \<le> max_date \<and> bd x} < n"
  using assms
proof (induction bd d n rule: add_business_days.induct)
  case (1 bd cur k)
  show ?case
  proof (cases "k = 0 \<or> cur = max_date")
    case True
    have none: "card {x. r < x \<and> x \<le> r \<and> bd x} = 0" for r
    proof -
      have "{x. r < x \<and> x \<le> r \<and> bd x} = {}" by auto
      then show ?thesis by (metis card.empty)
    qed
    from True 1(2) none[of cur] none[of max_date] show ?thesis
      by (subst add_business_days.simps) (auto simp: add_days_def)
  next
    case False
    let ?k = "if bd (cur + 1) then k - 1 else k"
    have step: "add_days cur 1 = Inr (cur + 1)" using False 1(2,3) by simp
    have run: "add_business_days bd cur k = add_business_days bd (cur + 1) ?k"
      using False step by (subst add_business_days.simps) (simp add: add_days_def)
    have split: "{x. cur < x \<and> x \<le> r \<and> bd x} =
        (if bd (cur + 1) then insert (cur + 1) {x. cur + 1 < x \<and> x \<le> r \<and> bd x}
         else {x. cur + 1 < x \<and> x \<le> r \<and> bd x})" if "cur + 1 \<le> r" for r
    proof -
      have "cur < x \<longleftrightarrow> x = cur + 1 \<or> cur + 1 < x" for x by linarith
      with that show ?thesis by auto
    qed
    have fin: "finite {x. cur + 1 < x \<and> x \<le> r \<and> bd x}" for r
      by (rule finite_subset[of _ "{cur + 1..r}"]) auto
    have card: "card {x. cur < x \<and> x \<le> r \<and> bd x} =
        (if bd (cur + 1) then 1 else 0) + card {x. cur + 1 < x \<and> x \<le> r \<and> bd x}" if "cur + 1 \<le> r" for r
      using fin by (simp add: split[OF that])
    have "\<not> k = 0" using False by simp
    from 1(1)[OF this step] False 1(2,3)
    have ih: "case add_business_days bd (cur + 1) ?k of
        Inr r \<Rightarrow> cur + 1 \<le> r \<and> r \<le> max_date \<and> (0 < ?k \<longrightarrow> bd r) \<and> card {x. cur + 1 < x \<and> x \<le> r \<and> bd x} = ?k
      | Inl e \<Rightarrow> e = OverflowError \<and> card {x. cur + 1 < x \<and> x \<le> max_date \<and> bd x} < ?k"
      by simp
    show ?thesis
    proof (cases "add_business_days bd (cur + 1) ?k")
      case (Inl e)
      have "cur + 1 \<le> max_date" using False 1(2) by simp
      with ih Inl run show ?thesis by (auto simp: card split: if_splits)
    next
      case (Inr r)
      have "bd r" if "?k = 0"
      proof -
        from that Inr have "r = cur + 1" by (subst (asm) add_business_days.simps) simp
        with that \<open>\<not> k = 0\<close> show ?thesis by (auto split: if_splits)
      qed
      with ih Inr run \<open>\<not> k = 0\<close> show ?thesis by (auto simp: card split: if_splits)
    qed
  qed
qed

lemma next_business_day_spec:
  assumes "next_business_day bd d = Inr r"
  shows "bd r \<and> d \<le> r \<and> (\<forall>x. d \<le> x \<and> x < r \<longrightarrow> \<not> bd x)"
  using assms
proof (induction bd d rule: next_business_day.induct)
  case (1 bd d)
  show ?case
  proof (cases "bd d")
    case True
    with 1(2) show ?thesis by (subst (asm) next_business_day.simps) auto
  next
    case False
    with 1(2) obtain d' where d': "add_days d 1 = Inr d'" "next_business_day bd d' = Inr r"
      by (subst (asm) next_business_day.simps) (auto split: sum.splits)
    have "x = d \<or> d' \<le> x" if "d \<le> x" for x using that d'(1) by auto
    with 1(1)[OF False d'(1) d'(2)] d'(1) False show ?thesis by fastforce
  qed
qed

lemma snap_is_next:
  assumes "snap_to_business_day d = Inr r"
  shows "weekend_free r \<and> d \<le> r \<and> r \<le> d + 2"
proof -
  have "weekday d < 5 \<or> weekday d = 5 \<or> weekday d = 6"
    using weekday_range(2)[of d] by linarith
  with assms show ?thesis
    by (auto simp: snap_to_business_day_def weekend_free_def weekday_add split: if_splits)
qed

text \<open>C38. A trade settles on the n-th weekday after it, n being the settlement cycle of the country: the
  date is a weekday and exactly n weekdays lie after the trade date up to it.  The computation
  fails only where fewer than n weekdays are left in the calendar.
\<close>

theorem settlement_is_nth_business_day:
  assumes "0 \<le> d" "d \<le> max_date"
  shows "case calculate_settlement_date d country of
      Inr r \<Rightarrow> d < r \<and> weekend_free r \<and>
        card {x. d < x \<and> x \<le> r \<and> weekend_free x} = settlement_days country
    | Inl e \<Rightarrow> e = OverflowError \<and> card {x. d < x \<and> x \<le> max_date \<and> weekend_free x} < settlement_days country"
proof -
  have pos: "0 < settlement_days country" by (simp add: settlement_days_def or_else_def)
  have spec: "case calculate_settlement_date d country of
      Inr r \<Rightarrow> d \<le> r \<and> r \<le> max_date \<and> (0 < settlement_days country \<longrightarrow> weekend_free r) \<and>
        card {x. d < x \<and> x \<le> r \<and> weekend_free x} = settlement_days country
    | Inl e \<Rightarrow> e = OverflowError \<and> card {x. d < x \<and> x \<le> max_date \<and> weekend_free x} < settlement_days country"
    unfolding calculate_settlement_date_def by (rule add_business_days_spec[OF assms(2,1)])
  have none: "card {x. d < x \<and> x \<le> d \<and> weekend_free x} = 0" by (simp add: card_eq_0_iff)
  show ?thesis
  proof (cases "calculate_settlement_date d country")
    case (Inr r)
    with spec pos have "r \<noteq> d" using none by auto
    with Inr spec pos show ?thesis by auto
  qed (use spec in auto)
qed

theorem settlement_is_nth_business_day_witness:
  "\<exists>r. calculate_settlement_date 738886 ''DE'' = Inr r \<and> weekend_free r \<and>
     card {x. 738886 < x \<and> x \<le> r \<and> weekend_free x} = 2"
proof (cases "calculate_settlement_date 738886 ''DE''")
  case (Inr r)
  with settlement_is_nth_business_day[of 738886 "''DE''"] show ?thesis
    by (simp add: max_date_def settlement_days_def or_else_def)
next
  case (Inl e)
  have "card {738887::int, 738888} \<le> card {x. 738886 < x \<and> x \<le> max_date \<and> weekend_free x}"
    by (rule card_mono) (auto simp: max_date_def weekend_free_def weekday_def
        intro: finite_subset[of _ "{738886..max_date}"])
  with Inl settlement_is_nth_business_day[of 738886 "''DE''"] show ?thesis
    by (simp add: max_date_def settlement_days_def or_else_def)
qed

end
