(* ===== verification/Ledger.thy ===== *)
theory Ledger
  imports PositionStore PyDate Effects "HOL-Library.Multiset" "HOL-Library.List_Lexorder"
    "HOL-Library.Char_ord"
begin

text \<open>
  What the services on a fund's cash, capital and investor tables share: the database session, the
  columns, the event bus and the clock.

  A session (\<open>app/shared/database.py\<close>, \<open>app/shared/repository.py\<close>) sees \<open>ss_work\<close>, the tables with
  its own uncommitted writes, while \<open>ss_disk\<close> is what has been committed.  \<open>session.commit()\<close> makes
  the one the other, and \<open>get_db\<close> closes the session at the end of a request without committing:
  \<open>request\<close> runs an operation and throws away what it left uncommitted.  The tables are records
  that the modules extend, so that an operation on cash works on every state that has cash tables.

  Numeric columns, identifiers and the bus are parameters (\<open>ledger_env\<close>).  \<open>le_col p k\<close> is what a
  column \<open>Numeric(p, k)\<close> makes of a value, \<open>col_spec\<close> what is used of it: a stored value is a
  multiple of the scale below the precision, and such a value is stored, as it is.  A query without
  \<open>ORDER BY\<close> returns the rows in an order the database chooses: \<open>le_scan\<close> is that choice, a
  permutation of the positions (\<open>scan_spec\<close>).
\<close>

datatype refusal = BelowMinimum dec dec | LockedUntil date

datatype ledger_event =
    SettlementCreated uuid string dec date
  | SettlementDue uuid string dec date int
  | CashProjected uuid int string dec nat
  | BalanceWarning uuid dec date
  | CapitalAllocation date nat dec dec
  | CapitalSubscription uuid dec dec dec string date uuid
  | CapitalRedemption uuid dec dec dec string date uuid
  | SubscriptionSubmitted uuid uuid dec string
  | SubscriptionKycDecided uuid bool string
  | SubscriptionOpsReviewed uuid bool string
  | SubscriptionGpDecided uuid bool string
  | SubscriptionWireConfirmed uuid string
  | SubscriptionExecuted uuid uuid dec dec dec
  | SubscriptionCancelled uuid string string
  | RedemptionSubmitted uuid uuid dec date
  | RedemptionValidated uuid bool "refusal option"
  | RedemptionGateApplied date dec dec dec
  | RedemptionExecuted uuid uuid dec dec dec
  | RedemptionPaymentConfirmed uuid string
  | RedemptionCancelled uuid string string
  | InvestorKycScreened uuid string string bool bool string
  | FeesAccrued uuid string date dec dec dec
  | FeesCrystallized uuid string date
  | FeesApproved "uuid list"
  | CorporateTrade string uuid string string dec uuid string string
  | CorporateCash string uuid string dec string string
  | CorporateProcessed string string string string
  | ForwardOpened uuid string string dec string dec date
  | ForwardClosed uuid dec dec
  | ForwardRolled uuid uuid date dec
  | ForwardsMarked uuid nat
  | HedgesRecommended uuid nat

record 't session =
  ss_work :: 't
  ss_disk :: 't
  ss_events :: "(string \<times> ledger_event) list"
  ss_draws :: nat

record ledger_env =
  le_uuid :: "nat \<Rightarrow> uuid"
  le_now :: timestamp
  le_today :: date
  le_col :: "nat \<Rightarrow> nat \<Rightarrow> dec \<Rightarrow> dec res"
  le_publish :: "(string \<Rightarrow> ledger_event \<Rightarrow> exn option) option"
  le_country :: "string \<Rightarrow> string option res"
  le_convert :: "(dec \<Rightarrow> string \<Rightarrow> string \<Rightarrow> dec option) option"
  le_scan :: "uuid list \<Rightarrow> nat list"
  le_cash :: bool
  le_show :: "uuid \<Rightarrow> string"

type_synonym ('t, 'a) op = "('t session, 'a) sm"

definition readT :: "('t \<Rightarrow> 'a) \<Rightarrow> ('t, 'a) op" where
  "readT f = getS (\<lambda>s. f (ss_work s))"

definition writeT :: "('t \<Rightarrow> 't) \<Rightarrow> ('t, unit) op" where
  "writeT f = modifyS (\<lambda>s. s\<lparr>ss_work := f (ss_work s)\<rparr>)"

definition commit :: "('t, unit) op" where
  "commit = modifyS (\<lambda>s. s\<lparr>ss_disk := ss_work s\<rparr>)"

definition new_uuid :: "ledger_env \<Rightarrow> ('t, uuid) op" where
  "new_uuid en = bindS (getS ss_draws) (\<lambda>n.
     thenS (modifyS (\<lambda>s. s\<lparr>ss_draws := Suc n\<rparr>)) (retS (le_uuid en n)))"

definition shared_topic :: "string \<Rightarrow> string" where
  "shared_topic base = ''shared.'' @ base"

definition emit :: "ledger_env \<Rightarrow> string \<Rightarrow> ledger_event \<Rightarrow> ('t, unit) op" where
  "emit en topic ev = (case le_publish en of
     None \<Rightarrow> retS ()
   | Some fails \<Rightarrow> (case fails topic ev of
       Some x \<Rightarrow> raiseS x
     | None \<Rightarrow> modifyS (\<lambda>s. s\<lparr>ss_events := ss_events s @ [(topic, ev)]\<rparr>)))"

definition request :: "('t, 'a) op \<Rightarrow> ('t, 'a) op" where
  "request m s = (case m s of (s', r) \<Rightarrow> (s'\<lparr>ss_work := ss_disk s'\<rparr>, r))"

definition col_spec :: "ledger_env \<Rightarrow> bool" where
  "col_spec en \<longleftrightarrow> (\<forall>p k x y. le_col en p k x = Inr y \<longrightarrow>
     on_grid k y \<and> \<bar>y\<bar> < 10 ^ (p - k) \<and> (on_grid k x \<longrightarrow> y = x)) \<and>
     (\<forall>p k x. on_grid k x \<and> \<bar>x\<bar> < 10 ^ (p - k) \<longrightarrow> le_col en p k x = Inr x)"

lemma col_specD:
  assumes "col_spec en" "le_col en p k x = Inr y"
  shows "on_grid k y" "\<bar>y\<bar> < 10 ^ (p - k)" "on_grid k x \<Longrightarrow> y = x"
  using assms unfolding col_spec_def by blast+

lemma col_store: "col_spec en \<Longrightarrow> on_grid k x \<Longrightarrow> \<bar>x\<bar> < 10 ^ (p - k) \<Longrightarrow> le_col en p k x = Inr x"
  unfolding col_spec_def by blast

text \<open>A column as PostgreSQL documents it: ties are rounded away from zero, overflow raises.\<close>

definition pg_numeric :: "nat \<Rightarrow> nat \<Rightarrow> dec \<Rightarrow> dec res" where
  "pg_numeric p k x =
     (let y = of_int (round_up (x * 10 ^ k)) / 10 ^ k
      in if \<bar>y\<bar> < 10 ^ (p - k) then Inr y else Inl OtherError)"

lemma pg_numeric_spec:
  assumes "pg_numeric p k x = Inr y"
  shows "on_grid k y \<and> \<bar>y\<bar> < 10 ^ (p - k) \<and> (on_grid k x \<longrightarrow> y = x)"
proof -
  have y: "y = of_int (round_up (x * 10 ^ k)) / 10 ^ k" "\<bar>y\<bar> < 10 ^ (p - k)"
    using assms by (auto simp: pg_numeric_def Let_def split: if_splits)
  moreover have "y = x" if "on_grid k x"
  proof -
    from that obtain n where "x = of_int n / 10 ^ k" by (rule on_gridE)
    with y(1) show ?thesis by simp
  qed
  ultimately show ?thesis by auto
qed

lemma pg_numeric_store:
  assumes "on_grid k x" "\<bar>x\<bar> < 10 ^ (p - k)"
  shows "pg_numeric p k x = Inr x"
proof -
  from assms(1) obtain n where "x = of_int n / 10 ^ k" by (rule on_gridE)
  with assms(2) show ?thesis by (simp add: pg_numeric_def Let_def)
qed

lemma pg_numeric_env: "col_spec (en\<lparr>le_col := pg_numeric\<rparr>)"
proof -
  have "le_col (en\<lparr>le_col := pg_numeric\<rparr>) = pg_numeric" by simp
  then show ?thesis unfolding col_spec_def by (metis pg_numeric_spec pg_numeric_store)
qed

lemma session_ops [simp]:
  "readT f s = (s, Inr (f (ss_work s)))"
  "writeT g s = (s\<lparr>ss_work := g (ss_work s)\<rparr>, Inr ())"
  "commit s = (s\<lparr>ss_disk := ss_work s\<rparr>, Inr ())"
  "new_uuid en s = (s\<lparr>ss_draws := Suc (ss_draws s)\<rparr>, Inr (le_uuid en (ss_draws s)))"
  by (simp_all add: readT_def writeT_def commit_def new_uuid_def)

lemma session_binds [simp]:
  "bindS (readT f) k s = k (f (ss_work s)) s"
  "thenS (writeT g) n s = n (s\<lparr>ss_work := g (ss_work s)\<rparr>)"
  "thenS commit n s = n (s\<lparr>ss_disk := ss_work s\<rparr>)"
  "bindS (new_uuid en) h s = h (le_uuid en (ss_draws s)) (s\<lparr>ss_draws := Suc (ss_draws s)\<rparr>)"
  by (simp_all add: bindS_def thenS_def)

lemma emit_work: "emit en t ev s = (s', r) \<Longrightarrow> ss_work s' = ss_work s \<and> ss_disk s' = ss_disk s"
  by (auto simp: emit_def split: option.splits)

text \<open>An invariant of the tables is one of both copies.\<close>

definition on_tables :: "('t \<Rightarrow> bool) \<Rightarrow> 't session \<Rightarrow> bool" where
  "on_tables P s \<longleftrightarrow> P (ss_work s) \<and> P (ss_disk s)"

lemma on_tables_basic [keeps_rules]:
  "keeps (on_tables P) (readT f)"
  "keeps (on_tables P) commit"
  "keeps (on_tables P) (new_uuid en)"
  "keeps (on_tables P) (emit en topic ev)"
  by (auto simp: triple_def on_tables_def emit_def split: option.split)

lemma on_tables_write: "(\<And>t. P t \<Longrightarrow> P (f t)) \<Longrightarrow> keeps (on_tables P) (writeT f)"
  by (simp add: triple_def on_tables_def)

lemma on_tables_request: "keeps (on_tables P) m \<Longrightarrow> keeps (on_tables P) (request m)"
  by (force simp: triple_def on_tables_def request_def split: prod.splits sum.splits)

text \<open>Invariants by evaluation, where the write depends on a value just read.\<close>

lemma keeps_fstI: "(\<And>s. I s \<Longrightarrow> I (fst (m s))) \<Longrightarrow> keeps I m"
  by (rule tripleI) (metis fst_conv)+

lemma fst_thenI: "I (fst (m s)) \<Longrightarrow> keeps I n \<Longrightarrow> I (fst (thenS m n s))"
  using keeps_fst[of I n "fst (m s)"]
  by (cases "m s"; cases "snd (m s)") (auto simp: thenS_def bindS_def)

lemma fst_bindI: "I (fst (m s)) \<Longrightarrow> (\<And>x. keeps I (f x)) \<Longrightarrow> I (fst (bindS m f s))"
  using keeps_fst[of I "f (projr (snd (m s)))" "fst (m s)"]
  by (cases "m s"; cases "snd (m s)") (auto simp: bindS_def)

text \<open>Writing a row of a table with unique keys.\<close>

definition put_row_by :: "('r \<Rightarrow> 'k) \<Rightarrow> 'r \<Rightarrow> 'r list \<Rightarrow> 'r list" where
  "put_row_by key r rows =
     (if find_row key (key r) rows = None then rows @ [r] else update_rows key (key r) (\<lambda>_. r) rows)"

lemma find_row_replace:
  "find_row key k (update_rows key (key r) (\<lambda>_. r) rows) =
     (if k = key r then map_option (\<lambda>_. r) (find_row key k rows) else find_row key k rows)"
  by (induction rows) (auto simp: update_rows_def)

lemma find_put_row:
  "find_row key k (put_row_by key r rows) = (if k = key r then Some r else find_row key k rows)"
  by (cases "find_row key (key r) rows")
    (auto simp: put_row_by_def find_row_append find_row_replace split: option.split)

lemma set_put_row: "q \<in> set (put_row_by key r rows) \<Longrightarrow> q = r \<or> q \<in> set rows"
  by (auto simp: put_row_by_def update_rows_def split: if_splits)

text \<open>The order of a query that asks for none.\<close>

definition scan :: "ledger_env \<Rightarrow> ('r \<Rightarrow> uuid) \<Rightarrow> 'r list \<Rightarrow> 'r list" where
  "scan en key rows = map (\<lambda>i. rows ! i) (le_scan en (map key rows))"

definition scan_spec :: "ledger_env \<Rightarrow> bool" where
  "scan_spec en \<longleftrightarrow> (\<forall>ids. mset (le_scan en ids) = mset [0..<length ids])"

lemma mset_scan: "scan_spec en \<Longrightarrow> mset (scan en key rows) = mset rows"
proof -
  assume "scan_spec en"
  then have "mset (le_scan en (map key rows)) = mset [0..<length rows]" by (simp add: scan_spec_def)
  then have "mset (scan en key rows) = mset (map (\<lambda>i. rows ! i) [0..<length rows])"
    unfolding scan_def by (simp only: mset_map)
  also have "map (\<lambda>i. rows ! i) [0..<length rows] = rows" by (rule map_nth)
  finally show ?thesis .
qed

lemma set_scan [simp]: "scan_spec en \<Longrightarrow> set (scan en key rows) = set rows"
  by (metis mset_scan set_mset_mset)

lemma distinct_scan: "scan_spec en \<Longrightarrow> distinct (map f (scan en key rows)) = distinct (map f rows)"
  by (metis mset_scan mset_map mset_eq_imp_distinct_iff)

section \<open>Grouping\<close>

text \<open>\<open>groups.setdefault(key, []).append(x)\<close> on a dictionary that remembers its insertion order.\<close>

fun bucket_add :: "'k \<Rightarrow> 'a \<Rightarrow> ('k \<times> 'a list) list \<Rightarrow> ('k \<times> 'a list) list" where
  "bucket_add k x [] = [(k, [x])]"
| "bucket_add k x ((j, xs) # rest) = (if j = k then (j, xs @ [x]) # rest else (j, xs) # bucket_add k x rest)"

lemma bucket_add_sum:
  fixes f :: "'a list \<Rightarrow> 'b::comm_monoid_add"
  assumes "\<And>xs. f (xs @ [x]) = f xs + f [x]"
  shows "(\<Sum>b\<leftarrow>bucket_add k x bs. f (snd b)) = (\<Sum>b\<leftarrow>bs. f (snd b)) + f [x]"
proof (induction bs)
  case (Cons b bs)
  then show ?case by (cases b) (simp add: assms ac_simps)
qed simp

lemma bucket_add_keys: "fst ` set (bucket_add k x bs) = insert k (fst ` set bs)"
proof (induction bs)
  case (Cons b bs)
  then show ?case by (cases b) (simp add: insert_commute)
qed simp

lemma bucket_add_spec:
  assumes "distinct (map fst bs)" "\<forall>(k, g)\<in>set bs. g = filter (\<lambda>r. key r = k) rs"
    "\<forall>r\<in>set rs. key r \<in> fst ` set bs"
  shows "distinct (map fst (bucket_add (key x) x bs))"
    "\<forall>(k, g)\<in>set (bucket_add (key x) x bs). g = filter (\<lambda>r. key r = k) (rs @ [x])"
    "\<forall>r\<in>set (rs @ [x]). key r \<in> fst ` set (bucket_add (key x) x bs)"
proof -
  show "distinct (map fst (bucket_add (key x) x bs))"
    using assms(1)
  proof (induction bs)
    case (Cons b bs)
    then show ?case by (cases b) (use bucket_add_keys[of "key x" x bs] in \<open>auto simp: image_iff\<close>)
  qed simp
  show "\<forall>r\<in>set (rs @ [x]). key r \<in> fst ` set (bucket_add (key x) x bs)"
    using assms(3) by (auto simp: bucket_add_keys)
  have same: "g = filter (\<lambda>r. key r = k) rs @ [x]"
    if "(k, g) \<in> set (bucket_add (key x) x bs)" "k = key x"
      "\<forall>(k, g)\<in>set bs. g = filter (\<lambda>r. key r = k) rs" "distinct (map fst bs)"
      "key x \<notin> fst ` set bs \<longrightarrow> filter (\<lambda>r. key r = key x) rs = []" for k g bs
    using that
  proof (induction bs)
    case (Cons b bs)
    show ?case
    proof (cases "fst b = key x")
      case True
      with Cons.prems show ?thesis by (cases b) (auto simp: image_iff)
    next
      case False
      with Cons show ?thesis by (cases b) auto
    qed
  qed auto
  have other: "(k, g) \<in> set bs" if "(k, g) \<in> set (bucket_add (key x) x bs)" "k \<noteq> key x" for k g bs
    using that by (induction bs) (auto split: if_splits)
  have empty: "key x \<notin> fst ` set bs \<longrightarrow> filter (\<lambda>r. key r = key x) rs = []"
    using assms(3) by (intro impI filter_False ballI notI) metis
  have "g = filter (\<lambda>r. key r = k) (rs @ [x])" if "(k, g) \<in> set (bucket_add (key x) x bs)" for k g
  proof (cases "k = key x")
    case True
    with same[OF that True assms(2,1) empty] show ?thesis by simp
  next
    case False
    with other[OF that False] assms(2) show ?thesis by auto
  qed
  then show "\<forall>(k, g)\<in>set (bucket_add (key x) x bs). g = filter (\<lambda>r. key r = k) (rs @ [x])" by blast
qed

lemma buckets_spec:
  fixes key :: "'r \<Rightarrow> 'k"
  defines "bs rs \<equiv> foldl (\<lambda>b r. bucket_add (key r) r b) [] rs"
  shows "distinct (map fst (bs rs)) \<and> (\<forall>(k, g)\<in>set (bs rs). g = filter (\<lambda>r. key r = k) rs) \<and>
    (\<forall>r\<in>set rs. key r \<in> fst ` set (bs rs))"
proof (induction rs rule: rev_induct)
  case (snoc x rs)
  have "bs (rs @ [x]) = bucket_add (key x) x (bs rs)" by (simp add: bs_def)
  then show ?case using bucket_add_spec[of "bs rs" key rs x] snoc by simp
qed (simp add: bs_def)

lemma buckets_sum:
  fixes f :: "'r list \<Rightarrow> 'b::comm_monoid_add"
  assumes "\<And>xs x. f (xs @ [x]) = f xs + f [x]" "f [] = 0"
  shows "(\<Sum>b\<leftarrow>foldl (\<lambda>b r. bucket_add (key r) r b) [] rs. f (snd b)) = f rs"
proof (induction rs rule: rev_induct)
  case (snoc x rs)
  then show ?case by (simp add: bucket_add_sum assms(1))
qed (simp add: assms(2))

section \<open>Money\<close>

lemma dict_get_Some: "distinct (map fst xs) \<Longrightarrow> (k, v) \<in> set xs \<Longrightarrow> map_of xs k = Some v"
  by simp

text \<open>Rounding to 28 digits never leaves the grid of a column.\<close>

lemma on_grid_fix28 [intro]:
  assumes "on_grid k x"
  shows "on_grid k (fix28 x)"
proof (cases "\<bar>x\<bar> * 10 ^ k \<le> 10 ^ 28")
  case True
  with assms show ?thesis by (simp add: fix28_exact)
next
  case False
  then have x0: "x \<noteq> 0" by auto
  define i where "i = ilog 10 \<bar>x\<bar>"
  have ub: "\<bar>x\<bar> < of_nat 10 powi (i + 1)" using ilog_bounds[of 10 "\<bar>x\<bar>"] x0 by (simp add: i_def)
  have "28 - int k < i + 1"
  proof (rule ccontr)
    assume "\<not> 28 - int k < i + 1"
    then have "of_nat 10 powi (i + 1) \<le> (of_nat 10 powi (28 - int k) :: rat)" by (intro power_int_increasing) auto
    then have "\<bar>x\<bar> * 10 ^ k \<le> of_nat 10 powi (28 - int k) * 10 ^ k" using ub by (intro mult_right_mono) auto
    also have "\<dots> = 10 ^ 28" by (simp add: power_int_diff)
    finally show False using False by simp
  qed
  then have "0 \<le> i - 27 + int k" by linarith
  then obtain m where m: "i - 27 + int k = int m" using zero_le_imp_eq_int by blast
  have eq: "fix28 x = of_int (round_even (x / of_nat 10 powi (i - 27))) * of_nat 10 powi (i - 27)"
    using x0 by (simp add: fix28_def round_sig_def Let_def i_def)
  have "of_nat 10 powi (i - 27) * (10 ^ k :: rat) = of_nat 10 powi (i - 27 + int k)"
    by (subst power_int_add) simp_all
  then have "of_nat 10 powi (i - 27) * (10 ^ k :: rat) = of_int (10 ^ m)" by (simp add: m)
  then show ?thesis
    unfolding eq by (intro on_gridI[of _ _ "round_even (x / of_nat 10 powi (i - 27)) * 10 ^ m"]) (simp add: mult.assoc)
qed

lemma on_grid_dec [intro]:
  "on_grid k x \<Longrightarrow> on_grid k y \<Longrightarrow> on_grid k (dadd x y)"
  "on_grid k x \<Longrightarrow> on_grid k y \<Longrightarrow> on_grid k (dsub x y)"
  "on_grid k x \<Longrightarrow> on_grid k (dneg x)"
  "on_grid k x \<Longrightarrow> on_grid k (dabs x)"
  unfolding dadd_def dsub_def dneg_def dabs_def by auto

lemma quantize_up_Inr:
  assumes "quantize_upE k x = Inr q"
  shows "on_grid k q" and "\<bar>q - x\<bar> \<le> 1 / (2 * 10 ^ k)" and "0 \<le> x \<Longrightarrow> 0 \<le> q"
proof -
  define n where "n = round_up (x * 10 ^ k)"
  from assms have q: "q = of_int n / 10 ^ k"
    by (auto simp: quantize_upE_def n_def Let_def split: if_splits)
  then show "on_grid k q" by simp
  have "\<bar>of_int n - x * 10 ^ k\<bar> \<le> 1 / 2"
  proof (cases "0 \<le> x * 10 ^ k")
    case True
    then have "n = \<lfloor>x * 10 ^ k + 1/2\<rfloor>" by (simp only: n_def round_up_def if_True)
    then show ?thesis by linarith
  next
    case False
    then have "n = - \<lfloor>1/2 - x * 10 ^ k\<rfloor>" by (simp only: n_def round_up_def if_False)
    then show ?thesis by linarith
  qed
  moreover have "q - x = (of_int n - x * 10 ^ k) / 10 ^ k" by (simp add: q diff_divide_distrib)
  ultimately show "\<bar>q - x\<bar> \<le> 1 / (2 * 10 ^ k)"
    by (simp add: divide_right_mono[of _ "1/2", simplified])
  assume "0 \<le> x"
  then show "0 \<le> q" by (simp add: q n_def round_up_def)
qed

text \<open>A sum of non-negative decimals is at least each of them.\<close>

lemma foldl_dadd_ge:
  "0 \<le> a \<Longrightarrow> fix28 a = a \<Longrightarrow> \<forall>x\<in>set xs. 0 \<le> x \<and> fix28 x = x \<Longrightarrow>
     a \<le> foldl dadd a xs \<and> (\<forall>x\<in>set xs. x \<le> foldl dadd a xs)"
proof (induction xs arbitrary: a)
  case (Cons x xs)
  have "fix28 a \<le> dadd a x" "fix28 x \<le> dadd a x"
    unfolding dadd_def by (rule fix28_mono, use Cons.prems in simp)+
  then have le: "a \<le> dadd a x" "x \<le> dadd a x" using Cons.prems by simp_all
  have "0 \<le> dadd a x" "fix28 (dadd a x) = dadd a x" using Cons.prems by (simp_all add: dadd_def)
  then have "dadd a x \<le> foldl dadd (dadd a x) xs \<and> (\<forall>y\<in>set xs. y \<le> foldl dadd (dadd a x) xs)"
    using Cons.prems by (intro Cons.IH) auto
  with le show ?case by auto
qed simp

lemma dsum_ge: "\<forall>x\<in>set xs. 0 \<le> x \<and> fix28 x = x \<Longrightarrow> x \<in> set xs \<Longrightarrow> x \<le> dsum xs"
  using foldl_dadd_ge[of 0 xs] by (simp add: dsum_def)

end
