(* ===== verification/Cash.thy ===== *)
theory Cash
  imports BusinessDays Ledger
begin

text \<open>
  Cash management (\<open>app/modules/cash_management\<close>): balances with their journal, settlements from
  creation to booking, the settlement ladder and the cash projection.  Every repository of the module commits its own writes.
\<close>

datatype cash_flow_type = TradeSettlement | DividendFlow | FeeFlow | SubscriptionFlow
  | RedemptionFlow | InterestFlow | TransferFlow
datatype journal_type = Credit | Debit
datatype settlement_status = SPending | SSettled | SFailed | SCancelled

section \<open>Balances and their journal\<close>

record cash_balance =
  cb_portfolio :: uuid
  cb_currency :: string
  cb_available :: dec
  cb_inflows :: dec
  cb_outflows :: dec

record cash_entry =
  cj_portfolio :: uuid
  cj_currency :: string
  cj_type :: journal_type
  cj_amount :: dec
  cj_after :: dec
  cj_flow :: cash_flow_type
  cj_ref :: "uuid option"

record settlement =
  cs_id :: uuid
  cs_portfolio :: uuid
  cs_order :: "uuid option"
  cs_instrument :: string
  cs_currency :: string
  cs_amount :: dec
  cs_trade_date :: date
  cs_date :: date
  cs_status :: settlement_status

record scheduled_flow =
  sf_portfolio :: uuid
  sf_date :: date
  sf_currency :: string
  sf_amount :: dec

record cash_tables =
  ft_balances :: "cash_balance list"
  ft_journal :: "cash_entry list"
  ft_settlements :: "settlement list"
  ft_flows :: "scheduled_flow list"

definition balance_key :: "cash_balance \<Rightarrow> uuid \<times> string" where
  "balance_key b = (cb_portfolio b, cb_currency b)"

definition get_balance :: "uuid \<Rightarrow> string \<Rightarrow> ('a cash_tables_scheme, cash_balance option) op" where
  "get_balance p c = readT (\<lambda>t. find_row balance_key (p, c) (ft_balances t))"

definition stored_balance :: "ledger_env \<Rightarrow> cash_balance \<Rightarrow> cash_balance res" where
  "stored_balance en b = bindE (le_col en 18 4 (cb_available b)) (\<lambda>av.
     bindE (le_col en 18 4 (cb_inflows b)) (\<lambda>inf.
     bindE (le_col en 18 4 (cb_outflows b)) (\<lambda>out.
     Inr (b\<lparr>cb_available := av, cb_inflows := inf, cb_outflows := out\<rparr>))))"

definition upsert :: "ledger_env \<Rightarrow> cash_balance \<Rightarrow> ('a cash_tables_scheme, unit) op" where
  "upsert en b = bindS (liftS (stored_balance en b)) (\<lambda>r.
     thenS (writeT (\<lambda>t. t\<lparr>ft_balances := put_row_by balance_key r (ft_balances t)\<rparr>)) commit)"

definition insert_journal :: "ledger_env \<Rightarrow> cash_entry \<Rightarrow> ('a cash_tables_scheme, unit) op" where
  "insert_journal en j = bindS (liftS (le_col en 18 4 (cj_amount j))) (\<lambda>am.
     bindS (liftS (le_col en 18 4 (cj_after j))) (\<lambda>af.
     thenS (writeT (\<lambda>t. t\<lparr>ft_journal := ft_journal t @ [j\<lparr>cj_amount := am, cj_after := af\<rparr>]\<rparr>)) commit))"

definition book ::
  "journal_type \<Rightarrow> ledger_env \<Rightarrow> uuid \<Rightarrow> string \<Rightarrow> dec \<Rightarrow> cash_flow_type \<Rightarrow> uuid option
     \<Rightarrow> ('a cash_tables_scheme, unit) op" where
  "book ty en p c amount flow ref = bindS (get_balance p c) (\<lambda>r.
     let old = (case r of Some b \<Rightarrow> cb_available b | None \<Rightarrow> 0);
         new = (if ty = Credit then dadd old amount else dsub old amount)
     in thenS (upsert en \<lparr>cb_portfolio = p, cb_currency = c, cb_available = new,
                  cb_inflows = (case r of Some b \<Rightarrow> cb_inflows b | None \<Rightarrow> 0),
                  cb_outflows = (case r of Some b \<Rightarrow> cb_outflows b | None \<Rightarrow> 0)\<rparr>)
          (insert_journal en \<lparr>cj_portfolio = p, cj_currency = c, cj_type = ty, cj_amount = amount,
             cj_after = new, cj_flow = flow, cj_ref = ref\<rparr>))"

definition credit ::
  "ledger_env \<Rightarrow> uuid \<Rightarrow> string \<Rightarrow> dec \<Rightarrow> cash_flow_type \<Rightarrow> uuid option \<Rightarrow> ('a cash_tables_scheme, unit) op" where
  "credit = book Credit"

definition debit ::
  "ledger_env \<Rightarrow> uuid \<Rightarrow> string \<Rightarrow> dec \<Rightarrow> cash_flow_type \<Rightarrow> uuid option \<Rightarrow> ('a cash_tables_scheme, unit) op" where
  "debit = book Debit"

definition total_balance :: "cash_balance \<Rightarrow> dec" where
  "total_balance b = dsub (dadd (cb_available b) (cb_inflows b)) (cb_outflows b)"

definition get_balances :: "uuid \<Rightarrow> 'a cash_tables_scheme \<Rightarrow> (string \<times> dec \<times> dec \<times> dec \<times> dec) list" where
  "get_balances p t = map (\<lambda>b. (cb_currency b, cb_available b, cb_inflows b, cb_outflows b, total_balance b))
     (filter (\<lambda>b. cb_portfolio b = p) (ft_balances t))"

section \<open>Settlements\<close>

definition insert_settlement :: "ledger_env \<Rightarrow> settlement \<Rightarrow> ('a cash_tables_scheme, unit) op" where
  "insert_settlement en r = bindS (liftS (le_col en 18 4 (cs_amount r))) (\<lambda>am.
     bindS (new_uuid en) (\<lambda>i.
     bindS (readT (\<lambda>t. find_row cs_id i (ft_settlements t))) (\<lambda>old.
     if old \<noteq> None then raiseS IntegrityError
     else thenS (writeT (\<lambda>t. t\<lparr>ft_settlements := ft_settlements t @ [r\<lparr>cs_id := i, cs_amount := am\<rparr>]\<rparr>)) commit)))"

definition set_settlement_status :: "uuid \<Rightarrow> settlement_status \<Rightarrow> ('a cash_tables_scheme, unit) op" where
  "set_settlement_status i st =
     thenS (writeT (\<lambda>t. t\<lparr>ft_settlements := update_rows cs_id i (\<lambda>r. r\<lparr>cs_status := st\<rparr>) (ft_settlements t)\<rparr>))
       commit"

definition fund_emit :: "ledger_env \<Rightarrow> string option \<Rightarrow> string \<Rightarrow> ledger_event \<Rightarrow> ('t, unit) op" where
  \<comment> \<open>the publishing helpers of the service: silent without a fund\<close>
  "fund_emit en fund base ev =
     (case fund of None \<Rightarrow> retS () | Some f \<Rightarrow> whenS (f \<noteq> '''') (emit en (fund_topic f base) ev))"

definition create_settlement ::
  "ledger_env \<Rightarrow> uuid \<Rightarrow> uuid option \<Rightarrow> string \<Rightarrow> string \<Rightarrow> dec \<Rightarrow> date \<Rightarrow> string option
     \<Rightarrow> ('a cash_tables_scheme, unit) op" where
  "create_settlement en p oid i c amount trade_date fund =
     bindS (liftS (le_country en i)) (\<lambda>country.
     if \<not> truthy country then raiseS ValueError
     else bindS (liftS (calculate_settlement_date trade_date (the country))) (\<lambda>sd.
     thenS (insert_settlement en \<lparr>cs_id = 0, cs_portfolio = p, cs_order = oid, cs_instrument = i,
              cs_currency = c, cs_amount = amount, cs_trade_date = trade_date, cs_date = sd,
              cs_status = SPending\<rparr>)
    (bindS (get_balance p c) (\<lambda>r.
     let av = (case r of Some b \<Rightarrow> cb_available b | None \<Rightarrow> 0);
         inf = (case r of Some b \<Rightarrow> cb_inflows b | None \<Rightarrow> 0);
         out = (case r of Some b \<Rightarrow> cb_outflows b | None \<Rightarrow> 0)
     in thenS (upsert en \<lparr>cb_portfolio = p, cb_currency = c, cb_available = av,
                  cb_inflows = (if 0 < amount then dadd inf amount else inf),
                  cb_outflows = (if 0 < amount then out else dadd out (dabs amount))\<rparr>)
       (thenS (fund_emit en fund ''cash.settlement.created'' (SettlementCreated p i amount sd))
         (whenS (sd - le_today en \<le> 2)
           (fund_emit en fund ''cash.settlement_due'' (SettlementDue p i amount sd (sd - le_today en)))))))))"

definition get_due_settlements :: "date \<Rightarrow> 'a cash_tables_scheme \<Rightarrow> settlement list" where
  "get_due_settlements d t =
     sort_key cs_date (filter (\<lambda>r. cs_status r = SPending \<and> cs_date r \<le> d) (ft_settlements t))"

definition settle_one :: "ledger_env \<Rightarrow> settlement \<Rightarrow> ('a cash_tables_scheme, unit) op" where
  "settle_one en r =
     thenS (if 0 < cs_amount r
            then credit en (cs_portfolio r) (cs_currency r) (cs_amount r) TradeSettlement (Some (cs_id r))
            else debit en (cs_portfolio r) (cs_currency r) (dabs (cs_amount r)) TradeSettlement (Some (cs_id r)))
       (set_settlement_status (cs_id r) SSettled)"

definition process_due_settlements :: "ledger_env \<Rightarrow> date \<Rightarrow> ('a cash_tables_scheme, nat) op" where
  "process_due_settlements en d = bindS (readT (get_due_settlements d)) (\<lambda>due.
     thenS (forS (settle_one en) due) (retS (length due)))"

definition retry_settlement :: "uuid \<Rightarrow> ('a cash_tables_scheme, settlement option) op" where
  "retry_settlement i = thenS (set_settlement_status i SPending)
     (readT (\<lambda>t. find_row cs_id i (ft_settlements t)))"

definition handle_trade_executed ::
  "ledger_env \<Rightarrow> string option \<Rightarrow> trade_msg \<Rightarrow> ('a cash_tables_scheme, unit) op" where
  "handle_trade_executed en fund m =
     (if \<not> truthy fund then retS ()
      else let cost = dmul (tm_quantity m) (tm_price m);
               amount = (if tm_side m = ''buy'' then dneg cost else cost)
           in bindS (liftS (snap_to_business_day (le_today en))) (\<lambda>td.
              create_settlement en (tm_portfolio m) None (tm_instrument m)
                (or_else (tm_currency m) ''USD'') amount td fund))"

section \<open>Ladder and projection\<close>

definition convert_to_base :: "ledger_env \<Rightarrow> dec \<Rightarrow> string \<Rightarrow> string \<Rightarrow> dec" where
  "convert_to_base en amount ccy base =
     (if ccy = base then amount
      else case le_convert en of
             None \<Rightarrow> amount
           | Some conv \<Rightarrow> or_else (conv amount ccy base) amount)"

definition base_balance :: "ledger_env \<Rightarrow> uuid \<Rightarrow> string \<Rightarrow> 'a cash_tables_scheme \<Rightarrow> dec" where
  "base_balance en p base t =
     dsum (map (\<lambda>b. convert_to_base en (cb_available b) (cb_currency b) base)
       (filter (\<lambda>b. cb_portfolio b = p) (ft_balances t)))"

definition settlements_between :: "uuid \<Rightarrow> date \<Rightarrow> date \<Rightarrow> 'a cash_tables_scheme \<Rightarrow> settlement list" where
  "settlements_between p a b t =
     sort_key cs_date (filter (\<lambda>r. cs_portfolio r = p \<and> a \<le> cs_date r \<and> cs_date r \<le> b) (ft_settlements t))"

record ladder_entry =
  ld_date :: date
  ld_inflow :: dec
  ld_outflow :: dec
  ld_net :: dec
  ld_cumulative :: dec

definition add_flow :: "dec \<Rightarrow> dec \<times> dec \<Rightarrow> dec \<times> dec" where
  "add_flow amt io = (if 0 < amt then (dadd (fst io) amt, snd io) else (fst io, dadd (snd io) (dabs amt)))"

definition flows_by_date :: "ledger_env \<Rightarrow> string \<Rightarrow> settlement list \<Rightarrow> date \<Rightarrow> dec \<times> dec" where
  "flows_by_date en base rs =
     foldl (\<lambda>m r. if cs_status r \<noteq> SPending then m
                  else m(cs_date r := add_flow (convert_to_base en (cs_amount r) (cs_currency r) base) (m (cs_date r))))
       (\<lambda>_. (0, 0)) rs"

function ladder_loop ::
  "(date \<Rightarrow> dec \<times> dec) \<Rightarrow> date \<Rightarrow> date \<Rightarrow> date \<Rightarrow> dec \<Rightarrow> ladder_entry list res" where
  "ladder_loop flows first stop cur cum =
     (if stop < cur then Inr []
      else let inflow = fst (flows cur); outflow = snd (flows cur);
               net = dsub inflow outflow; cum' = dadd cum net;
               here = (if 0 < inflow \<or> 0 < outflow \<or> cur = first
                       then [\<lparr>ld_date = cur, ld_inflow = inflow, ld_outflow = outflow, ld_net = net,
                              ld_cumulative = cum'\<rparr>] else [])
           in case bindE (add_days cur 1) snap_to_business_day of
                Inl e \<Rightarrow> Inl e
              | Inr nxt \<Rightarrow> bindE (ladder_loop flows first stop nxt cum') (\<lambda>rest. Inr (here @ rest)))"
  by pat_completeness auto
termination
  by (relation "measure (\<lambda>(fl, first, stop, cur, cum). nat (stop + 1 - cur))")
    (auto simp: snap_to_business_day_def bindE_Inr_iff split: if_splits)

declare ladder_loop.simps [simp del]

definition settlement_ladder ::
  "ledger_env \<Rightarrow> uuid \<Rightarrow> int \<Rightarrow> string \<Rightarrow> 'a cash_tables_scheme \<Rightarrow> ladder_entry list res" where
  "settlement_ladder en p horizon base t = bindE (add_days (le_today en) horizon) (\<lambda>stop.
     bindE (snap_to_business_day (le_today en)) (\<lambda>first.
     ladder_loop (flows_by_date en base (settlements_between p (le_today en) stop t)) first stop first
       (base_balance en p base t)))"

record projection_entry =
  pe_date :: date
  pe_opening :: dec
  pe_inflows :: dec
  pe_outflows :: dec
  pe_closing :: dec

definition day_flows :: "ledger_env \<Rightarrow> string \<Rightarrow> settlement list \<Rightarrow> scheduled_flow list \<Rightarrow> date \<Rightarrow> dec \<times> dec" where
  "day_flows en base rs fs d =
     foldl (\<lambda>io amt. add_flow amt io) (0, 0)
       (map (\<lambda>r. convert_to_base en (cs_amount r) (cs_currency r) base)
          (filter (\<lambda>r. cs_date r = d \<and> cs_status r = SPending) rs) @
        map (\<lambda>f. convert_to_base en (sf_amount f) (sf_currency f) base) (filter (\<lambda>f. sf_date f = d) fs))"

function projection_loop :: "(date \<Rightarrow> dec \<times> dec) \<Rightarrow> date \<Rightarrow> date \<Rightarrow> dec \<Rightarrow> projection_entry list res" where
  "projection_loop flows stop cur opening =
     (if stop < cur then Inr []
      else let closing = dsub (dadd opening (fst (flows cur))) (snd (flows cur))
           in case bindE (add_days cur 1) snap_to_business_day of
                Inl e \<Rightarrow> Inl e
              | Inr nxt \<Rightarrow> bindE (projection_loop flows stop nxt closing) (\<lambda>rest.
                  Inr (\<lparr>pe_date = cur, pe_opening = opening, pe_inflows = fst (flows cur),
                        pe_outflows = snd (flows cur), pe_closing = closing\<rparr> # rest)))"
  by pat_completeness auto
termination
  by (relation "measure (\<lambda>(fl, stop, cur, opening). nat (stop + 1 - cur))")
    (auto simp: snap_to_business_day_def bindE_Inr_iff split: if_splits)

declare projection_loop.simps [simp del]

definition get_projection ::
  "ledger_env \<Rightarrow> string option \<Rightarrow> uuid \<Rightarrow> int \<Rightarrow> string \<Rightarrow> ('a cash_tables_scheme, projection_entry list) op" where
  "get_projection en fund p horizon base = bindS (liftS (add_days (le_today en) horizon)) (\<lambda>stop.
     bindS (readT (settlements_between p (le_today en) stop)) (\<lambda>rs.
     bindS (readT (\<lambda>t. filter (\<lambda>f. sf_portfolio f = p \<and> le_today en \<le> sf_date f \<and> sf_date f \<le> stop) (ft_flows t))) (\<lambda>fs.
     bindS (readT (base_balance en p base)) (\<lambda>cur.
     bindS (liftS (bindE (snap_to_business_day (le_today en)) (\<lambda>first.
              projection_loop (day_flows en base rs fs) stop first cur))) (\<lambda>es.
     thenS (fund_emit en fund ''cash.projected'' (CashProjected p horizon base
              (case map pe_closing es of [] \<Rightarrow> 0 | x # xs \<Rightarrow> foldl min x xs) (length es)))
    (thenS (case List.find (\<lambda>e. pe_closing e < 0) es of
              None \<Rightarrow> retS ()
            | Some e \<Rightarrow> fund_emit en fund ''cash.balance_warning'' (BalanceWarning p (pe_closing e) (pe_date e)))
       (retS es)))))))"

end
