(* ===== verification/CashInv.thy ===== *)
theory CashInv
  imports Cash
begin

text \<open>
  The cash ledger is kept right: the journal explains every balance through every sequence of
  commands, a settlement run books what is due once, and what it does to the pending flows.
\<close>

section \<open>The journal explains the balances\<close>

definition cash_amount :: "dec \<Rightarrow> bool" where
  "cash_amount x \<longleftrightarrow> on_grid 4 x \<and> \<bar>x\<bar> < 10 ^ 14"

definition signed_amount :: "cash_entry \<Rightarrow> dec" where
  "signed_amount j = (if cj_type j = Credit then cj_amount j else - cj_amount j)"

definition journal_net :: "uuid \<times> string \<Rightarrow> cash_entry list \<Rightarrow> dec" where
  "journal_net k js = sum_list (map signed_amount (filter (\<lambda>j. (cj_portfolio j, cj_currency j) = k) js))"

definition available :: "uuid \<times> string \<Rightarrow> cash_balance list \<Rightarrow> dec" where
  "available k bs = (case find_row balance_key k bs of Some b \<Rightarrow> cb_available b | None \<Rightarrow> 0)"

definition cash_inv :: "'a cash_tables_scheme \<Rightarrow> bool" where
  "cash_inv t \<longleftrightarrow>
     (\<forall>k. available k (ft_balances t) = journal_net k (ft_journal t) \<and> cash_amount (journal_net k (ft_journal t))) \<and>
     (\<forall>r\<in>set (ft_settlements t). cash_amount (cs_amount r)) \<and>
     distinct (map cs_id (ft_settlements t))"

lemma journal_net_simps [simp]:
  "journal_net k [] = 0"
  "journal_net k (js @ [j]) =
     journal_net k js + (if (cj_portfolio j, cj_currency j) = k then signed_amount j else 0)"
  by (simp_all add: journal_net_def)

lemma available_put:
  "available k (put_row_by balance_key b bs) = (if k = balance_key b then cb_available b else available k bs)"
  by (simp add: available_def find_put_row)

lemma cash_amount_exact:
  assumes "cash_amount x" "cash_amount y"
  shows "dadd x y = x + y" "dsub x y = x - y" "dabs x = \<bar>x\<bar>"
proof -
  have b: "\<bar>x + y\<bar> * 10 ^ 4 \<le> 10 ^ 28" "\<bar>x - y\<bar> * 10 ^ 4 \<le> 10 ^ 28" "\<bar>\<bar>x\<bar>\<bar> * 10 ^ 4 \<le> 10 ^ 28"
    using assms by (auto simp: cash_amount_def abs_if split: if_splits)
  show "dadd x y = x + y" "dsub x y = x - y" "dabs x = \<bar>x\<bar>"
    unfolding dadd_def dsub_def dabs_def
    by (rule fix28_exact[OF _ b(1)] fix28_exact[OF _ b(2)] fix28_exact[OF _ b(3)];
        use assms in \<open>auto simp: cash_amount_def\<close>)+
qed

definition pending_flows :: "uuid \<times> string \<Rightarrow> 'a cash_tables_scheme \<Rightarrow> dec \<times> dec" where
  "pending_flows k t = (case find_row balance_key k (ft_balances t) of
     None \<Rightarrow> (0, 0) | Some b \<Rightarrow> (cb_inflows b, cb_outflows b))"

definition flows_ok :: "'a cash_tables_scheme \<Rightarrow> bool" where
  "flows_ok t \<longleftrightarrow> (\<forall>b\<in>set (ft_balances t). cash_amount (cb_inflows b) \<and> cash_amount (cb_outflows b))"

definition stored_row :: "ledger_env \<Rightarrow> journal_type \<Rightarrow> uuid \<Rightarrow> string \<Rightarrow> dec \<Rightarrow> 'a cash_tables_scheme \<Rightarrow> dec" where
  "stored_row en ty p c amount t =
     available (p, c) (ft_balances t) + (if ty = Credit then amount else - amount)"

text \<open>Booking either does nothing at all or writes the balance and its journal entry together.\<close>

lemma book_outcome:
  assumes col: "col_spec en" and inv: "cash_inv (ss_work s)" and am: "cash_amount amount"
  obtains e where "book ty en p c amount flow ref s = (s, Inl e)"
      "flows_ok (ss_work s) \<longrightarrow> 10 ^ 14 \<le> \<bar>stored_row en ty p c amount (ss_work s)\<bar>"
  | b j t where "book ty en p c amount flow ref s = (s\<lparr>ss_work := t, ss_disk := t\<rparr>, Inr ())"
      "t = (ss_work s)\<lparr>ft_balances := put_row_by balance_key b (ft_balances (ss_work s)),
         ft_journal := ft_journal (ss_work s) @ [j]\<rparr>"
      "balance_key b = (p, c)" "cb_available b = stored_row en ty p c amount (ss_work s)"
      "cash_amount (cb_available b)"
      "cj_portfolio j = p" "cj_currency j = c" "cj_type j = ty" "cj_amount j = amount"
      "cj_after j = cb_available b" "cj_flow j = flow" "cj_ref j = ref"
      "flows_ok (ss_work s) \<longrightarrow> flows_ok t \<and> (\<forall>k. pending_flows k t = pending_flows k (ss_work s))"
proof -
  let ?r = "find_row balance_key (p, c) (ft_balances (ss_work s))"
  let ?old = "case ?r of Some b \<Rightarrow> cb_available b | None \<Rightarrow> 0"
  let ?new = "if ty = Credit then dadd ?old amount else dsub ?old amount"
  let ?b = "\<lparr>cb_portfolio = p, cb_currency = c, cb_available = ?new,
                  cb_inflows = (case ?r of Some b \<Rightarrow> cb_inflows b | None \<Rightarrow> 0),
                  cb_outflows = (case ?r of Some b \<Rightarrow> cb_outflows b | None \<Rightarrow> 0)\<rparr>"
  have old: "?old = available (p, c) (ft_balances (ss_work s))" by (simp add: available_def)
  have "cash_amount ?old" using inv unfolding old cash_inv_def by metis
  note ex = cash_amount_exact[OF this am]
  have new: "?new = stored_row en ty p c amount (ss_work s)"
    by (simp add: stored_row_def old[symmetric] ex)
  have grid: "on_grid 4 ?new"
    using \<open>cash_amount ?old\<close> am by (auto simp: ex cash_amount_def)
  have fl: "cash_amount (cb_inflows ?b) \<and> cash_amount (cb_outflows ?b)" if "flows_ok (ss_work s)"
    using that find_row_Some[of balance_key "(p, c)" "ft_balances (ss_work s)"]
    by (auto simp: flows_ok_def cash_amount_def split: option.split)
  show ?thesis
  proof (cases "stored_balance en ?b")
    case (Inl e)
    have run: "book ty en p c amount flow ref s = (s, Inl e)"
      using Inl by (simp add: book_def get_balance_def upsert_def Let_def thenS_def bindS_def)
    have "10 ^ 14 \<le> \<bar>?new\<bar>" if ok: "flows_ok (ss_work s)"
    proof (rule ccontr)
      assume "\<not> 10 ^ 14 \<le> \<bar>?new\<bar>"
      then have "le_col en 18 4 ?new = Inr ?new" using col_store[OF col grid, of 18] by simp
      moreover have "le_col en 18 4 (cb_inflows ?b) = Inr (cb_inflows ?b)"
          "le_col en 18 4 (cb_outflows ?b) = Inr (cb_outflows ?b)"
        using fl[OF ok] col_store[OF col, of 4 _ 18] by (simp_all add: cash_amount_def)
      ultimately show False using Inl by (simp add: stored_balance_def)
    qed
    then show ?thesis using that(1)[OF run] new by simp
  next
    case (Inr b)
    then obtain av inf out where cols: "le_col en 18 4 ?new = Inr av" "le_col en 18 4 (cb_inflows ?b) = Inr inf"
        "le_col en 18 4 (cb_outflows ?b) = Inr out"
      and b: "b = ?b\<lparr>cb_available := av, cb_inflows := inf, cb_outflows := out\<rparr>"
      by (auto simp: stored_balance_def bindE_Inr_iff)
    have av: "av = ?new" by (rule col_specD(3)[OF col cols(1) grid])
    have avb: "\<bar>?new\<bar> < 10 ^ 14" using col_specD(2)[OF col cols(1)] av by simp
    have j1: "le_col en 18 4 amount = Inr amount" by (rule col_store[OF col]) (use am in \<open>auto simp: cash_amount_def\<close>)
    have j2: "le_col en 18 4 ?new = Inr ?new" using cols(1) av by simp
    have io: "on_grid 4 (cb_inflows ?b) \<Longrightarrow> inf = cb_inflows ?b" "on_grid 4 (cb_outflows ?b) \<Longrightarrow> out = cb_outflows ?b"
      using col_specD(3)[OF col cols(2)] col_specD(3)[OF col cols(3)] by auto
    let ?j = "\<lparr>cj_portfolio = p, cj_currency = c, cj_type = ty, cj_amount = amount,
             cj_after = ?new, cj_flow = flow, cj_ref = ref\<rparr>"
    let ?t = "(ss_work s)\<lparr>ft_balances := put_row_by balance_key b (ft_balances (ss_work s)),
         ft_journal := ft_journal (ss_work s) @ [?j]\<rparr>"
    have up: "upsert en ?b s = (s\<lparr>ss_work := (ss_work s)\<lparr>ft_balances := put_row_by balance_key b (ft_balances (ss_work s))\<rparr>,
        ss_disk := (ss_work s)\<lparr>ft_balances := put_row_by balance_key b (ft_balances (ss_work s))\<rparr>\<rparr>, Inr ())"
      using Inr by (simp add: upsert_def bindS_def thenS_def)
    have "book ty en p c amount flow ref s =
        insert_journal en ?j (s\<lparr>ss_work := (ss_work s)\<lparr>ft_balances := put_row_by balance_key b (ft_balances (ss_work s))\<rparr>,
        ss_disk := (ss_work s)\<lparr>ft_balances := put_row_by balance_key b (ft_balances (ss_work s))\<rparr>\<rparr>)"
      using up by (simp add: book_def get_balance_def Let_def thenS_def bindS_def)
    also have "\<dots> = (s\<lparr>ss_work := ?t, ss_disk := ?t\<rparr>, Inr ())"
      by (simp add: insert_journal_def j1 j2 bindS_def thenS_def)
    finally have run: "book ty en p c amount flow ref s = (s\<lparr>ss_work := ?t, ss_disk := ?t\<rparr>, Inr ())" .
    have "flows_ok ?t \<and> (\<forall>k. pending_flows k ?t = pending_flows k (ss_work s))" if ok: "flows_ok (ss_work s)"
    proof -
      have g: "cash_amount (cb_inflows ?b)" "cash_amount (cb_outflows ?b)" using fl[OF ok] by auto
      then have same: "cb_inflows b = cb_inflows ?b" "cb_outflows b = cb_outflows ?b" using io b by (auto simp: cash_amount_def)
      then have "flows_ok ?t" using ok g by (auto simp: flows_ok_def dest!: set_put_row)
      moreover have "pending_flows k ?t = pending_flows k (ss_work s)" for k
        using same b by (auto simp: pending_flows_def find_put_row balance_key_def split: option.splits)
      ultimately show ?thesis by blast
    qed
    then show ?thesis
      by (intro that(2)[OF run refl])
        (use b av new avb grid in \<open>auto simp: balance_key_def cash_amount_def\<close>)
  qed
qed

lemma book_keeps:
  assumes "col_spec en" "cash_amount amount"
  shows "keeps (on_tables cash_inv) (book ty en p c amount flow ref)"
proof (rule tripleI)
  have main: "on_tables cash_inv s'"
    if "on_tables cash_inv s" "book ty en p c amount flow ref s = (s', r)" for s s' r
  proof -
    have inv: "cash_inv (ss_work s)" using that(1) by (simp add: on_tables_def)
    from book_outcome[OF assms(1) this assms(2), of ty p c flow ref] show ?thesis
    proof cases
      case (1 e)
      with that show ?thesis by simp
    next
      case (2 b j t)
      have "cash_inv t"
        using inv 2(2-9) by (auto simp: cash_inv_def available_put stored_row_def signed_amount_def)
      with 2(1) that show ?thesis by (auto simp: on_tables_def)
    qed
  qed
  show "on_tables cash_inv s'" if "on_tables cash_inv s" "book ty en p c amount flow ref s = (s', Inr x)" for s s' x
    using main that by blast
  show "on_tables cash_inv s'" if "on_tables cash_inv s" "book ty en p c amount flow ref s = (s', Inl e)" for s s' e
    using main that by blast
qed

lemma status_keeps: "keeps (on_tables cash_inv) (set_settlement_status i st)"
  unfolding set_settlement_status_def
  by (intro keeps_rules on_tables_write)
    (auto simp: cash_inv_def keys_update_rows dest!: set_update_rows split: if_splits)

lemma upsert_same:
  assumes col: "col_spec en" and s: "on_tables cash_inv s"
    and b: "cb_available b = available (balance_key b) (ft_balances (ss_work s))"
  shows "on_tables cash_inv (fst (upsert en b s))"
proof (cases "stored_balance en b")
  case (Inl e)
  with s show ?thesis by (simp add: upsert_def bindS_def thenS_def)
next
  case (Inr r)
  then obtain av where av: "le_col en 18 4 (cb_available b) = Inr av" "cb_available r = av" "balance_key r = balance_key b"
    by (auto simp: stored_balance_def bindE_Inr_iff balance_key_def)
  have inv: "cash_inv (ss_work s)" using s by (simp add: on_tables_def)
  then have "cash_amount (cb_available b)" unfolding b cash_inv_def by metis
  then have "av = cb_available b" using col_specD(3)[OF col av(1)] by (simp add: cash_amount_def)
  with av b have "available k (put_row_by balance_key r (ft_balances (ss_work s))) = available k (ft_balances (ss_work s))" for k
    by (auto simp: available_put)
  with inv Inr show ?thesis by (simp add: upsert_def bindS_def thenS_def on_tables_def cash_inv_def)
qed

lemma insert_settlement_keeps:
  assumes "col_spec en"
  shows "keeps (on_tables cash_inv) (insert_settlement en r)"
proof (rule keeps_fstI)
  fix s :: "'a cash_tables_scheme session" assume s: "on_tables cash_inv s"
  show "on_tables cash_inv (fst (insert_settlement en r s))"
  proof (cases "le_col en 18 4 (cs_amount r)")
    case (Inr am)
    then have "cash_amount am" using col_specD(1,2)[OF assms Inr] by (simp add: cash_amount_def)
    with s Inr show ?thesis
      by (auto simp: insert_settlement_def on_tables_def cash_inv_def find_row_None bindS_eval(1))
  qed (use s in \<open>simp add: insert_settlement_def bindS_def\<close>)
qed

lemma fund_emit_keeps: "keeps (on_tables P) (fund_emit en fund base ev)"
  unfolding fund_emit_def by (intro keeps_rules)

lemma update_flows_keeps:
  assumes "col_spec en" "keeps (on_tables cash_inv) rest"
  shows "keeps (on_tables cash_inv) (bindS (get_balance p c) (\<lambda>r. thenS (upsert en \<lparr>cb_portfolio = p,
     cb_currency = c, cb_available = (case r of Some b \<Rightarrow> cb_available b | None \<Rightarrow> 0), cb_inflows = f r,
     cb_outflows = g r\<rparr>) rest))"
  by (rule keeps_fstI, unfold get_balance_def session_binds,
      rule fst_thenI[OF upsert_same[OF assms(1)] assms(2)]) (simp_all add: available_def balance_key_def)

lemma create_settlement_keeps:
  assumes "col_spec en"
  shows "keeps (on_tables cash_inv) (create_settlement en p oid i c amount d fund)"
  unfolding create_settlement_def Let_def
  by (intro keeps_basic keeps_if keeps_bind[OF keeps_basic(4)] keeps_then insert_settlement_keeps
      update_flows_keeps fund_emit_keeps keeps_when assms)

lemma cash_amount_dabs: "cash_amount x \<Longrightarrow> cash_amount (dabs x)"
  using cash_amount_exact(3)[of x x] by (simp add: cash_amount_def)

lemma settle_one_keeps:
  assumes "col_spec en" "cash_amount (cs_amount r)"
  shows "keeps (on_tables cash_inv) (settle_one en r)"
  unfolding settle_one_def credit_def debit_def
  by (intro keeps_rules book_keeps status_keeps assms) (rule cash_amount_dabs[OF assms(2)])

lemma process_due_keeps:
  assumes "col_spec en"
  shows "keeps (on_tables cash_inv) (process_due_settlements en d)"
proof (rule keeps_fstI)
  fix s :: "'a cash_tables_scheme session" assume s: "on_tables cash_inv s"
  then have "\<forall>r\<in>set (get_due_settlements d (ss_work s)). cash_amount (cs_amount r)"
    by (auto simp: get_due_settlements_def on_tables_def cash_inv_def)
  then have loop: "keeps (on_tables cash_inv) (forS (settle_one en) (get_due_settlements d (ss_work s)))"
    by (intro keeps_for settle_one_keeps assms) auto
  show "on_tables cash_inv (fst (process_due_settlements en d s))"
    unfolding process_due_settlements_def session_binds
    by (rule keeps_fst[OF keeps_then[OF loop] s]) (rule keeps_basic)
qed

lemma handle_trade_executed_keeps:
  "col_spec en \<Longrightarrow> keeps (on_tables cash_inv) (handle_trade_executed en fund m)"
  unfolding handle_trade_executed_def Let_def by (intro keeps_rules create_settlement_keeps)

lemma retry_settlement_keeps: "keeps (on_tables cash_inv) (retry_settlement i)"
  unfolding retry_settlement_def by (intro keeps_rules status_keeps)

section \<open>The service as a command system\<close>

datatype cash_cmd =
    CashCredit uuid string dec cash_flow_type "uuid option"
  | CashDebit uuid string dec cash_flow_type "uuid option"
  | CashSettlement uuid "uuid option" string string dec date "string option"
  | CashDue date
  | CashRetry uuid
  | CashTrade "string option" trade_msg

fun cash_exec :: "ledger_env \<Rightarrow> cash_cmd \<Rightarrow> cash_tables session \<Rightarrow> cash_tables session" where
  "cash_exec en (CashCredit p c a fl ref) s = fst (request (credit en p c a fl ref) s)"
| "cash_exec en (CashDebit p c a fl ref) s = fst (request (debit en p c a fl ref) s)"
| "cash_exec en (CashSettlement p oid i c a d fund) s = fst (request (create_settlement en p oid i c a d fund) s)"
| "cash_exec en (CashDue d) s = fst (request (process_due_settlements en d) s)"
| "cash_exec en (CashRetry i) s = fst (request (retry_settlement i) s)"
| "cash_exec en (CashTrade fund m) s = fst (request (handle_trade_executed en fund m) s)"

fun cash_legal :: "cash_cmd \<Rightarrow> bool" where
  "cash_legal (CashCredit p c a fl ref) \<longleftrightarrow> cash_amount a"
| "cash_legal (CashDebit p c a fl ref) \<longleftrightarrow> cash_amount a"
| "cash_legal _ \<longleftrightarrow> True"

definition empty_cash :: "cash_tables session" where
  "empty_cash =
     (let t = \<lparr>ft_balances = [], ft_journal = [], ft_settlements = [], ft_flows = []\<rparr>
      in \<lparr>ss_work = t, ss_disk = t, ss_events = [], ss_draws = 0\<rparr>)"

lemma empty_cash_inv: "on_tables cash_inv empty_cash"
  by (simp add: empty_cash_def Let_def on_tables_def cash_inv_def available_def cash_amount_def)

interpretation cash: command_system "cash_exec en" "\<lambda>c. col_spec en \<and> cash_legal c" "on_tables cash_inv"
  for en
proof
  fix c and s :: "cash_tables session" assume legal: "col_spec en \<and> cash_legal c" and s: "on_tables cash_inv s"
  show "on_tables cash_inv (cash_exec en c s)"
    using legal
    by (cases c) (auto simp: credit_def debit_def intro!: keeps_fst[OF on_tables_request s] book_keeps
        create_settlement_keeps process_due_keeps retry_settlement_keeps handle_trade_executed_keeps)
qed

section \<open>Booking what is due\<close>

definition entry_of :: "cash_entry \<Rightarrow> uuid \<times> string \<times> dec \<times> uuid option" where
  "entry_of j = (cj_portfolio j, cj_currency j, signed_amount j, cj_ref j)"

definition flow_of :: "settlement \<Rightarrow> uuid \<times> string \<times> dec \<times> uuid option" where
  "flow_of r = (cs_portfolio r, cs_currency r, cs_amount r, Some (cs_id r))"

definition set_settled :: "uuid list \<Rightarrow> settlement list \<Rightarrow> settlement list" where
  "set_settled ids rows = map (\<lambda>r. if cs_id r \<in> set ids then r\<lparr>cs_status := SSettled\<rparr> else r) rows"

lemma keys_set_settled [simp]: "map cs_id (set_settled ids rows) = map cs_id rows"
  by (auto simp: set_settled_def)

lemma set_settled_amount [simp]:
  "(\<forall>r\<in>set (set_settled ids rows). P (cs_amount r)) = (\<forall>r\<in>set rows. P (cs_amount r))"
  by (induction rows) (auto simp: set_settled_def)

lemma settle_one_outcome:
  assumes col: "col_spec en" and inv: "cash_inv (ss_work s)" and am: "cash_amount (cs_amount r)"
    and fl: "flows_ok (ss_work s)"
  obtains e where "settle_one en r s = (s, Inl e)"
      "10 ^ 14 \<le> \<bar>available (cs_portfolio r, cs_currency r) (ft_balances (ss_work s)) + cs_amount r\<bar>"
  | j t where "settle_one en r s = (s\<lparr>ss_work := t, ss_disk := t\<rparr>, Inr ())" "cash_inv t" "flows_ok t"
      "ft_journal t = ft_journal (ss_work s) @ [j]" "entry_of j = flow_of r"
      "ft_settlements t = set_settled [cs_id r] (ft_settlements (ss_work s))"
      "\<forall>k. pending_flows k t = pending_flows k (ss_work s)"
proof -
  let ?ty = "if 0 < cs_amount r then Credit else Debit"
  let ?am = "if 0 < cs_amount r then cs_amount r else dabs (cs_amount r)"
  let ?row = "stored_row en ?ty (cs_portfolio r) (cs_currency r) ?am (ss_work s)"
  have abs: "dabs (cs_amount r) = \<bar>cs_amount r\<bar>" by (rule cash_amount_exact(3)[OF am am])
  have am': "cash_amount ?am" using am cash_amount_dabs by simp
  have run: "settle_one en r = thenS (book ?ty en (cs_portfolio r) (cs_currency r) ?am TradeSettlement (Some (cs_id r)))
      (set_settlement_status (cs_id r) SSettled)"
    by (simp add: settle_one_def credit_def debit_def)
  have row: "?row = available (cs_portfolio r, cs_currency r) (ft_balances (ss_work s)) + cs_amount r"
    by (simp add: stored_row_def abs)
  from book_outcome[OF col inv am', of ?ty "cs_portfolio r" "cs_currency r" TradeSettlement "Some (cs_id r)"]
  show ?thesis
  proof cases
    case (1 e)
    with fl show ?thesis unfolding row by (intro that(1)[of e]) (simp_all add: run bindS_eval)
  next
    case (2 b j t)
    let ?t = "t\<lparr>ft_settlements := set_settled [cs_id r] (ft_settlements t)\<rparr>"
    have t: "ft_balances t = put_row_by balance_key b (ft_balances (ss_work s))"
      "ft_journal t = ft_journal (ss_work s) @ [j]" "ft_settlements t = ft_settlements (ss_work s)"
      by (simp_all add: 2(2))
    have all: "settle_one en r s = (s\<lparr>ss_work := ?t, ss_disk := ?t\<rparr>, Inr ())"
      using 2(1) by (simp add: run bindS_eval set_settlement_status_def set_settled_def update_rows_def)
    have "cash_inv t"
      using inv 2(3-10) unfolding cash_inv_def t
      by (auto simp: available_put stored_row_def signed_amount_def)
    then have inv': "cash_inv ?t" by (simp add: cash_inv_def)
    have e: "entry_of j = flow_of r"
      using 2(6-9,12) abs by (simp add: entry_of_def flow_of_def signed_amount_def)
    have "flows_ok t" "\<forall>k. pending_flows k t = pending_flows k (ss_work s)" using 2(13) fl by auto
    then have fl': "flows_ok ?t" "\<forall>k. pending_flows k ?t = pending_flows k (ss_work s)"
      by (simp_all add: flows_ok_def pending_flows_def)
    show ?thesis by (rule that(2)[OF all inv' fl'(1) _ e _ fl'(2)]) (simp_all add: t)
  qed
qed

lemma set_settled_append: "set_settled js (set_settled is rows) = set_settled (is @ js) rows"
  by (auto simp: set_settled_def)

lemma journal_net_append: "journal_net k (xs @ ys) = journal_net k xs + journal_net k ys"
  by (simp add: journal_net_def)

lemma journal_net_entries:
  "map entry_of js = map flow_of rs \<Longrightarrow> journal_net k js =
     sum_list (map cs_amount (filter (\<lambda>r. (cs_portfolio r, cs_currency r) = k) rs))"
proof (induction js arbitrary: rs)
  case (Cons j js)
  then obtain r rs' where rs: "rs = r # rs'" "entry_of j = flow_of r" "map entry_of js = map flow_of rs'"
    by (cases rs) auto
  with Cons.IH[OF rs(3)] show ?case by (auto simp: journal_net_def entry_of_def flow_of_def)
qed (simp add: journal_net_def)

text \<open>The loop over what is due, with room for every amount in every balance.\<close>

lemma settle_loop:
  assumes col: "col_spec en"
  shows "cash_inv (ss_work s) \<Longrightarrow> flows_ok (ss_work s) \<Longrightarrow> ss_disk s = ss_work s \<Longrightarrow>
    (\<forall>r\<in>set rs. cash_amount (cs_amount r)) \<Longrightarrow>
    (\<forall>k. \<bar>available k (ft_balances (ss_work s))\<bar> + sum_list (map (\<lambda>r. \<bar>cs_amount r\<bar>) rs) < 10 ^ 14) \<Longrightarrow>
    \<exists>t js. forS (settle_one en) rs s = (s\<lparr>ss_work := t, ss_disk := t\<rparr>, Inr ()) \<and> cash_inv t \<and> flows_ok t \<and>
      ft_journal t = ft_journal (ss_work s) @ js \<and> map entry_of js = map flow_of rs \<and>
      ft_settlements t = set_settled (map cs_id rs) (ft_settlements (ss_work s)) \<and>
      (\<forall>k. pending_flows k t = pending_flows k (ss_work s))"
proof (induction rs arbitrary: s)
  case Nil
  then show ?case by (intro exI[of _ "ss_work s"] exI[of _ "[]"]) (auto simp: set_settled_def)
next
  case (Cons r rs)
  let ?k = "(cs_portfolio r, cs_currency r)"
  have nn: "0 \<le> sum_list (map (\<lambda>r. \<bar>cs_amount r\<bar>) rs)" by (rule sum_list_map_nonneg) simp
  have amr: "cash_amount (cs_amount r)" using Cons.prems(4) by simp
  from settle_one_outcome[OF col Cons.prems(1) amr Cons.prems(2)] show ?case
  proof cases
    case (1 e)
    with Cons.prems(5)[rule_format, of ?k] nn show ?thesis by auto
  next
    case (2 j t)
    let ?s = "s\<lparr>ss_work := t, ss_disk := t\<rparr>"
    have av: "available k (ft_balances t) = available k (ft_balances (ss_work s)) + (if k = ?k then cs_amount r else 0)" for k
      using 2(2,5) Cons.prems(1) unfolding cash_inv_def 2(4)
      by (cases k) (auto simp: entry_of_def flow_of_def)
    have room: "\<forall>k. \<bar>available k (ft_balances (ss_work ?s))\<bar> + sum_list (map (\<lambda>r. \<bar>cs_amount r\<bar>) rs) < 10 ^ 14"
    proof
      fix k
      show "\<bar>available k (ft_balances (ss_work ?s))\<bar> + sum_list (map (\<lambda>r. \<bar>cs_amount r\<bar>) rs) < 10 ^ 14"
        using Cons.prems(5)[rule_format, of k] nn
          abs_triangle_ineq[of "available k (ft_balances (ss_work s))" "cs_amount r"]
        by (cases "k = ?k") (simp_all add: av)
    qed
    have "\<exists>t' js. forS (settle_one en) rs ?s = (?s\<lparr>ss_work := t', ss_disk := t'\<rparr>, Inr ()) \<and> cash_inv t' \<and> flows_ok t' \<and>
      ft_journal t' = ft_journal (ss_work ?s) @ js \<and> map entry_of js = map flow_of rs \<and>
      ft_settlements t' = set_settled (map cs_id rs) (ft_settlements (ss_work ?s)) \<and>
      (\<forall>k. pending_flows k t' = pending_flows k (ss_work ?s))"
      by (rule Cons.IH) (use 2 Cons.prems(4) room in simp_all)
    then obtain t' js where t': "forS (settle_one en) rs ?s = (s\<lparr>ss_work := t', ss_disk := t'\<rparr>, Inr ())"
      "cash_inv t'" "flows_ok t'" "ft_journal t' = ft_journal t @ js" "map entry_of js = map flow_of rs"
      "ft_settlements t' = set_settled (map cs_id rs) (ft_settlements t)"
      "\<forall>k. pending_flows k t' = pending_flows k t" by auto
    have "forS (settle_one en) (r # rs) s = (s\<lparr>ss_work := t', ss_disk := t'\<rparr>, Inr ())"
      using 2(1) t'(1) by (simp add: bindS_eval)
    moreover have "ft_settlements t' = set_settled (map cs_id (r # rs)) (ft_settlements (ss_work s))"
      using t'(6) 2(6) by (simp add: set_settled_append)
    ultimately show ?thesis
      using t' 2 by (intro exI[of _ t'] exI[of _ "j # js"]) simp
  qed
qed

definition cash_ready :: "date \<Rightarrow> 'a cash_tables_scheme session \<Rightarrow> bool" where
  \<comment> \<open>the ledger balances, nothing is uncommitted and no balance can overflow its column\<close>
  "cash_ready d s \<longleftrightarrow> cash_inv (ss_work s) \<and> flows_ok (ss_work s) \<and> ss_disk s = ss_work s \<and>
     (\<forall>k. \<bar>available k (ft_balances (ss_work s))\<bar> +
        sum_list (map (\<lambda>r. \<bar>cs_amount r\<bar>) (get_due_settlements d (ss_work s))) < 10 ^ 14)"

definition due :: "date \<Rightarrow> settlement \<Rightarrow> bool" where
  "due d r \<longleftrightarrow> cs_status r = SPending \<and> cs_date r \<le> d"

lemma set_due: "set (get_due_settlements d t) = {r \<in> set (ft_settlements t). due d r}"
  by (auto simp: get_due_settlements_def due_def)

lemma settle_all_due:
  assumes "distinct (map cs_id (ft_settlements t))"
  shows "set_settled (map cs_id (get_due_settlements d t)) (ft_settlements t) =
    map (\<lambda>r. if due d r then r\<lparr>cs_status := SSettled\<rparr> else r) (ft_settlements t)"
proof -
  have "cs_id r \<in> cs_id ` {r \<in> set (ft_settlements t). due d r} \<longleftrightarrow> due d r" if "r \<in> set (ft_settlements t)" for r
    using that assms by (auto simp: distinct_map inj_on_def)
  then show ?thesis by (simp add: set_settled_def set_due)
qed

lemma process_due_ready:
  assumes "col_spec en" "cash_ready d s"
  shows "\<exists>t js. process_due_settlements en d s =
      (s\<lparr>ss_work := t, ss_disk := t\<rparr>, Inr (length (get_due_settlements d (ss_work s)))) \<and>
    cash_inv t \<and> flows_ok t \<and> ft_journal t = ft_journal (ss_work s) @ js \<and>
    map entry_of js = map flow_of (get_due_settlements d (ss_work s)) \<and>
    ft_settlements t = map (\<lambda>r. if due d r then r\<lparr>cs_status := SSettled\<rparr> else r) (ft_settlements (ss_work s)) \<and>
    (\<forall>k. pending_flows k t = pending_flows k (ss_work s))"
proof -
  have r: "cash_inv (ss_work s)" "flows_ok (ss_work s)" "ss_disk s = ss_work s"
    "\<forall>k. \<bar>available k (ft_balances (ss_work s))\<bar> +
        sum_list (map (\<lambda>r. \<bar>cs_amount r\<bar>) (get_due_settlements d (ss_work s))) < 10 ^ 14"
    using assms(2) by (auto simp: cash_ready_def)
  have am: "\<forall>r\<in>set (get_due_settlements d (ss_work s)). cash_amount (cs_amount r)"
    using r(1) by (auto simp: set_due cash_inv_def)
  have "distinct (map cs_id (ft_settlements (ss_work s)))" using r(1) by (simp add: cash_inv_def)
  note all = settle_all_due[OF this, of d]
  from settle_loop[OF assms(1) r(1-3) am r(4)] show ?thesis
    unfolding process_due_settlements_def session_binds all by (auto simp: bindS_eval)
qed

lemma nothing_due_after:
  "ft_settlements t = map (\<lambda>r. if due d r then r\<lparr>cs_status := SSettled\<rparr> else r) rows \<Longrightarrow>
     get_due_settlements d t = []"
  by (rule set_empty[THEN iffD1]) (auto simp: set_due due_def)

lemma journal_net_after:
  assumes "ft_journal t = ft_journal u @ js" "map entry_of js = map flow_of rs" "cash_inv t" "cash_inv u"
  shows "available k (ft_balances t) = available k (ft_balances u) +
    sum_list (map cs_amount (filter (\<lambda>r. (cs_portfolio r, cs_currency r) = k) rs))"
  using assms(3,4) journal_net_entries[OF assms(2)] unfolding cash_inv_def assms(1)
  by (cases k) (simp add: journal_net_append)

section \<open>Properties\<close>

text \<open>A ledger with a PostgreSQL column, a bus that accepts everything and US instruments.\<close>

definition demo_ledger :: ledger_env where
  "demo_ledger = \<lparr>le_uuid = (\<lambda>n. n + 1), le_now = 0, le_today = 738886, le_col = pg_numeric,
     le_publish = Some (\<lambda>_ _. None), le_country = (\<lambda>_. Inr (Some ''US'')), le_convert = None,
     le_scan = (\<lambda>ids. [0..<length ids]), le_cash = True, le_show = (\<lambda>_. [])\<rparr>"

lemma demo_col: "col_spec demo_ledger"
  using pg_numeric_env[of demo_ledger] by (simp add: demo_ledger_def)

definition demo_settlement :: settlement where
  "demo_settlement = \<lparr>cs_id = 1, cs_portfolio = 7, cs_order = None, cs_instrument = ''AAPL'',
     cs_currency = ''USD'', cs_amount = 100, cs_trade_date = 738884, cs_date = 738885, cs_status = SPending\<rparr>"

definition demo_cash :: "cash_tables session" where
  "demo_cash = (let t = \<lparr>ft_balances = [\<lparr>cb_portfolio = 7, cb_currency = ''USD'', cb_available = 0,
       cb_inflows = 100, cb_outflows = 0\<rparr>], ft_journal = [], ft_settlements = [demo_settlement], ft_flows = []\<rparr>
     in \<lparr>ss_work = t, ss_disk = t, ss_events = [], ss_draws = 1\<rparr>)"

lemma demo_due: "get_due_settlements 738886 (ss_work demo_cash) = [demo_settlement]"
  by (simp add: get_due_settlements_def demo_cash_def demo_settlement_def Let_def)

lemma demo_ready: "cash_ready 738886 demo_cash"
proof -
  have av: "available k (ft_balances (ss_work demo_cash)) = 0" for k
    by (simp add: demo_cash_def Let_def available_def)
  have am: "cash_amount 0" "cash_amount 100" by (simp_all add: cash_amount_def)
  have "journal_net k (ft_journal (ss_work demo_cash)) = 0" for k by (simp add: demo_cash_def Let_def)
  moreover have "ft_settlements (ss_work demo_cash) = [demo_settlement]" by (simp add: demo_cash_def Let_def)
  ultimately have inv: "cash_inv (ss_work demo_cash)"
    using am by (simp add: cash_inv_def av demo_settlement_def)
  have fl: "flows_ok (ss_work demo_cash)" "ss_disk demo_cash = ss_work demo_cash"
    using am by (simp_all add: flows_ok_def demo_cash_def Let_def)
  have "\<forall>k. \<bar>available k (ft_balances (ss_work demo_cash))\<bar> +
      sum_list (map (\<lambda>r. \<bar>cs_amount r\<bar>) [demo_settlement]) < 10 ^ 14"
    unfolding av by (simp add: demo_settlement_def)
  with inv fl show ?thesis unfolding cash_ready_def demo_due by blast
qed



text \<open>C33. A settlement run returns, books every pending settlement that is due exactly once, marks
  exactly those as settled and leaves nothing due: run again, it finds nothing and writes nothing.
\<close>

theorem due_settlements_booked_once:
  assumes "col_spec en" "cash_ready d s"
  shows "\<exists>s' js. process_due_settlements en d s = (s', Inr (length (get_due_settlements d (ss_work s)))) \<and>
    ss_disk s' = ss_work s' \<and> ft_journal (ss_work s') = ft_journal (ss_work s) @ js \<and>
    map entry_of js = map flow_of (get_due_settlements d (ss_work s)) \<and>
    ft_settlements (ss_work s') =
      map (\<lambda>r. if due d r then r\<lparr>cs_status := SSettled\<rparr> else r) (ft_settlements (ss_work s)) \<and>
    process_due_settlements en d s' = (s', Inr 0)"
proof -
  from process_due_ready[OF assms] obtain t js where t: "process_due_settlements en d s =
      (s\<lparr>ss_work := t, ss_disk := t\<rparr>, Inr (length (get_due_settlements d (ss_work s))))"
    "ft_journal t = ft_journal (ss_work s) @ js"
    "map entry_of js = map flow_of (get_due_settlements d (ss_work s))"
    "ft_settlements t = map (\<lambda>r. if due d r then r\<lparr>cs_status := SSettled\<rparr> else r) (ft_settlements (ss_work s))"
    by blast
  have "process_due_settlements en d (s\<lparr>ss_work := t, ss_disk := t\<rparr>) = (s\<lparr>ss_work := t, ss_disk := t\<rparr>, Inr 0)"
    using nothing_due_after[OF t(4)] by (simp add: process_due_settlements_def)
  with t show ?thesis by (intro exI[of _ "s\<lparr>ss_work := t, ss_disk := t\<rparr>"] exI[of _ js]) simp
qed

theorem due_settlements_booked_once_witness:
  "\<exists>s' j. process_due_settlements demo_ledger 738886 demo_cash = (s', Inr 1) \<and>
     ft_journal (ss_disk s') = [j] \<and> entry_of j = (7, ''USD'', 100, Some 1)"
  using due_settlements_booked_once[OF demo_col demo_ready]
  unfolding demo_due by (auto simp: demo_cash_def demo_settlement_def flow_of_def Let_def)

text \<open>A settled flow stays pending.  Booking moves the amounts into the available balance but never
  out of the pending inflows and outflows that creating the settlement added them to, so the total
  balance counts every settled amount a second time.
\<close>

theorem settled_flow_stays_pending:
  assumes "col_spec en" "cash_ready d s"
  shows "\<exists>s' n. process_due_settlements en d s = (s', Inr n) \<and>
    (\<forall>k. pending_flows k (ss_work s') = pending_flows k (ss_work s) \<and>
      available k (ft_balances (ss_work s')) = available k (ft_balances (ss_work s)) +
        sum_list (map cs_amount (filter (\<lambda>r. (cs_portfolio r, cs_currency r) = k)
          (get_due_settlements d (ss_work s)))))"
proof -
  from process_due_ready[OF assms] obtain t js where t: "process_due_settlements en d s =
      (s\<lparr>ss_work := t, ss_disk := t\<rparr>, Inr (length (get_due_settlements d (ss_work s))))" "cash_inv t"
    "ft_journal t = ft_journal (ss_work s) @ js"
    "map entry_of js = map flow_of (get_due_settlements d (ss_work s))"
    "\<forall>k. pending_flows k t = pending_flows k (ss_work s)"
    by blast
  have "cash_inv (ss_work s)" using assms(2) by (simp add: cash_ready_def)
  note journal_net_after[OF t(3,4,2) this]
  with t(1,5) show ?thesis by (intro exI[of _ "s\<lparr>ss_work := t, ss_disk := t\<rparr>"] exI) simp
qed

theorem settled_flow_stays_pending_witness:
  "\<exists>s' n. process_due_settlements demo_ledger 738886 demo_cash = (s', Inr n) \<and>
     available (7, ''USD'') (ft_balances (ss_work s')) = 100 \<and>
     pending_flows (7, ''USD'') (ss_work s') = (100, 0)"
proof -
  from settled_flow_stays_pending[OF demo_col demo_ready] obtain s' n where
    "process_due_settlements demo_ledger 738886 demo_cash = (s', Inr n)"
    "pending_flows (7, ''USD'') (ss_work s') = pending_flows (7, ''USD'') (ss_work demo_cash)"
    "available (7, ''USD'') (ft_balances (ss_work s')) = available (7, ''USD'') (ft_balances (ss_work demo_cash)) +
        sum_list (map cs_amount (filter (\<lambda>r. (cs_portfolio r, cs_currency r) = (7, ''USD''))
          (get_due_settlements 738886 (ss_work demo_cash))))" by blast
  then show ?thesis unfolding demo_due
    by (simp add: demo_cash_def demo_settlement_def Let_def available_def pending_flows_def balance_key_def)
qed

end
