(* ===== verification/Netting.thy ===== *)
theory Netting
  imports CashInv
begin

text \<open>
  Netting of the obligations with a counterparty (\<open>app/modules/cash_management/core/netting.py\<close>).
\<close>

section \<open>Netting\<close>

record netting_result =
  nr_counterparty :: string
  nr_currency :: string
  nr_payable :: dec
  nr_receivable :: dec
  nr_net :: dec
  nr_ids :: "uuid list"

definition net_group :: "string \<times> string \<Rightarrow> settlement list \<Rightarrow> netting_result" where
  "net_group k rs =
     (let receivable = dsum (map cs_amount (filter (\<lambda>r. 0 < cs_amount r) rs));
          payable = dsum (map (\<lambda>r. dabs (cs_amount r)) (filter (\<lambda>r. \<not> 0 < cs_amount r) rs))
      in \<lparr>nr_counterparty = fst k, nr_currency = snd k, nr_payable = payable, nr_receivable = receivable,
          nr_net = dsub receivable payable, nr_ids = map cs_id rs\<rparr>)"

definition netting_key :: "(string \<rightharpoonup> string) \<Rightarrow> settlement \<Rightarrow> string \<times> string" where
  "netting_key cps r = (or_else (cps (cs_instrument r)) ''UNKNOWN'', cs_currency r)"

definition compute_netting :: "settlement list \<Rightarrow> (string \<rightharpoonup> string) \<Rightarrow> netting_result list" where
  "compute_netting rs cps =
     map (\<lambda>(k, g). net_group k g)
       (sort_key fst (foldl (\<lambda>b r. bucket_add (netting_key cps r) r b) [] rs))"

definition bilateral_netting :: "settlement list \<Rightarrow> string \<Rightarrow> string \<Rightarrow> netting_result list" where
  "bilateral_netting rs ours theirs =
     map (\<lambda>r. r\<lparr>nr_counterparty := ours @ ''<>'' @ nr_counterparty r\<rparr>)
       (compute_netting (filter (\<lambda>r. cs_instrument r = theirs) rs)
          (\<lambda>i. if i = theirs \<and> (\<exists>r\<in>set rs. cs_instrument r = theirs) then Some theirs else None))"

section \<open>Netting keeps every obligation\<close>

lemma netting_nets:
  assumes "\<forall>r\<in>set rs. cash_amount (cs_amount r)" "length rs \<le> 10 ^ 9" "k = (c, u)"
  shows "nr_net (net_group k rs) = sum_list (map cs_amount rs)"
proof -
  let ?pos = "filter (\<lambda>r. 0 < cs_amount r) rs" and ?neg = "filter (\<lambda>r. \<not> 0 < cs_amount r) rs"
  have bound: "sum_list (map (\<lambda>r. \<bar>cs_amount r\<bar>) xs) * 10 ^ 4 \<le> 10 ^ 28"
    if "set xs \<subseteq> set rs" "length xs \<le> length rs" for xs
  proof -
    have "sum_list (map (\<lambda>r. \<bar>cs_amount r\<bar>) xs) \<le> sum_list (map (\<lambda>_. 10 ^ 14) xs)"
      using that(1) assms(1) by (intro sum_list_mono) (auto simp: cash_amount_def less_imp_le)
    also have "\<dots> = of_nat (length xs) * 10 ^ 14" by (simp add: sum_list_triv)
    also have "\<dots> \<le> 10 ^ 9 * 10 ^ 14"
    proof (rule mult_right_mono)
      have "length xs \<le> 10 ^ 9" using that(2) assms(2) by simp
      then have "(of_nat (length xs) :: rat) \<le> of_nat (10 ^ 9)" by (simp only: of_nat_le_iff)
      then show "(of_nat (length xs) :: rat) \<le> 10 ^ 9" by simp
    qed simp
    finally show ?thesis by simp
  qed
  have abs: "map (\<lambda>r. dabs (cs_amount r)) ?neg = map (\<lambda>r. - cs_amount r) ?neg"
    using assms(1) by (auto simp: cash_amount_exact)
  have "sum_list (map abs (map (\<lambda>r. - cs_amount r) ?neg)) * 10 ^ 4 \<le> 10 ^ 28"
    using bound[of ?neg] by (simp add: comp_def)
  then have pay: "dsum (map (\<lambda>r. dabs (cs_amount r)) ?neg) = sum_list (map (\<lambda>r. - cs_amount r) ?neg)"
    unfolding abs using assms(1) by (intro dsum_exact[of _ 4]) (auto simp: cash_amount_def)
  have "sum_list (map abs (map cs_amount ?pos)) * 10 ^ 4 \<le> 10 ^ 28"
    using bound[of ?pos] by (simp add: comp_def)
  then have rec: "dsum (map cs_amount ?pos) = sum_list (map cs_amount ?pos)"
    using assms(1) by (intro dsum_exact[of _ 4]) (auto simp: cash_amount_def)
  have split: "sum_list (map cs_amount ?pos) - sum_list (map (\<lambda>r. - cs_amount r) ?neg) = sum_list (map cs_amount rs)"
    by (induction rs) auto
  have "on_grid 4 (sum_list (map cs_amount rs))"
    by (rule on_grid_sum_list) (use assms(1) in \<open>auto simp: cash_amount_def\<close>)
  moreover have "\<bar>sum_list (map cs_amount rs)\<bar> \<le> sum_list (map (\<lambda>r. \<bar>cs_amount r\<bar>) rs)"
    using sum_list_abs[of "map cs_amount rs"] by (simp add: comp_def)
  then have "\<bar>sum_list (map cs_amount rs)\<bar> * 10 ^ 4 \<le> 10 ^ 28"
    using bound[of rs] by (meson mult_right_mono order.trans order_refl zero_le_numeral zero_le_power)
  ultimately have "fix28 (sum_list (map cs_amount rs)) = sum_list (map cs_amount rs)"
    by (rule fix28_exact)
  then show ?thesis by (simp add: net_group_def Let_def dsub_def rec pay split)
qed

text \<open>Netting loses and duplicates nothing.  The results have different counterparties or currencies,
  each lists exactly the settlements of its counterparty and currency in their order, its net is
  the sum of their signed amounts, and the nets add up to the sum of all amounts.
\<close>

theorem netting_conserves:
  assumes "\<forall>r\<in>set rs. cash_amount (cs_amount r)" "length rs \<le> 10 ^ 9"
  shows "distinct (map (\<lambda>n. (nr_counterparty n, nr_currency n)) (compute_netting rs cps)) \<and>
    (\<forall>n\<in>set (compute_netting rs cps).
       let g = filter (\<lambda>r. netting_key cps r = (nr_counterparty n, nr_currency n)) rs
       in nr_ids n = map cs_id g \<and> nr_net n = sum_list (map cs_amount g)) \<and>
    sum_list (map nr_net (compute_netting rs cps)) = sum_list (map cs_amount rs)"
proof -
  define bs where "bs = foldl (\<lambda>b r. bucket_add (netting_key cps r) r b) [] rs"
  define out where "out = sort_key fst bs"
  have spec: "distinct (map fst bs)" "\<forall>(k, g)\<in>set bs. g = filter (\<lambda>r. netting_key cps r = k) rs"
    using buckets_spec[of "netting_key cps" rs] by (simp_all add: bs_def)
  have res: "compute_netting rs cps = map (\<lambda>(k, g). net_group k g) out"
    by (simp add: compute_netting_def out_def bs_def)
  have key: "(nr_counterparty (net_group k g), nr_currency (net_group k g)) = k" for k g
    by (simp add: net_group_def Let_def)
  have ids: "nr_ids (net_group k g) = map cs_id g" for k g by (simp add: net_group_def Let_def)
  have g: "g = filter (\<lambda>r. netting_key cps r = k) rs \<and> nr_net (net_group k g) = sum_list (map cs_amount g)"
    if "(k, g) \<in> set bs" for k g
  proof -
    have g: "g = filter (\<lambda>r. netting_key cps r = k) rs" using spec(2) that by blast
    have "length g \<le> 10 ^ 9" unfolding g using length_filter_le[of _ rs] assms(2) by (rule order_trans)
    moreover have "\<forall>r\<in>set g. cash_amount (cs_amount r)" unfolding g using assms(1) by auto
    ultimately show ?thesis using netting_nets[of g k "fst k" "snd k"] g by simp
  qed
  have "distinct (map fst out)"
    using spec(1) by (simp add: out_def distinct_map inj_on_def)
  moreover have "map (\<lambda>n. (nr_counterparty n, nr_currency n)) (compute_netting rs cps) = map fst out"
    by (auto simp: res key)
  moreover have "\<forall>n\<in>set (compute_netting rs cps).
       let g = filter (\<lambda>r. netting_key cps r = (nr_counterparty n, nr_currency n)) rs
       in nr_ids n = map cs_id g \<and> nr_net n = sum_list (map cs_amount g)"
  proof
    fix n assume "n \<in> set (compute_netting rs cps)"
    then obtain k h where kh: "(k, h) \<in> set bs" "n = net_group k h" by (auto simp: res out_def)
    then show "let g = filter (\<lambda>r. netting_key cps r = (nr_counterparty n, nr_currency n)) rs
       in nr_ids n = map cs_id g \<and> nr_net n = sum_list (map cs_amount g)"
      using g[OF kh(1)] unfolding kh(2) Let_def key ids by metis
  qed
  moreover have "sum_list (map nr_net (compute_netting rs cps)) = sum_list (map cs_amount rs)"
  proof -
    have "map nr_net (compute_netting rs cps) = map (\<lambda>b. sum_list (map cs_amount (snd b))) out"
    proof -
      have "nr_net (net_group (fst b) (snd b)) = sum_list (map cs_amount (snd b))" if "b \<in> set out" for b
      proof -
        have "(fst b, snd b) \<in> set bs" using that by (simp add: out_def)
        from g[OF this] show ?thesis by blast
      qed
      then show ?thesis by (simp add: res split_beta)
    qed
    moreover have "sum_list (map (\<lambda>b. sum_list (map cs_amount (snd b))) out) = (\<Sum>b\<leftarrow>bs. sum_list (map cs_amount (snd b)))"
      by (simp only: sum_mset_sum_list[symmetric] mset_map out_def mset_sort)
    moreover have "\<dots> = sum_list (map cs_amount rs)"
      unfolding bs_def by (rule buckets_sum[of "\<lambda>g. sum_list (map cs_amount g)"]) simp_all
    ultimately show ?thesis by simp
  qed
  ultimately show ?thesis by auto
qed

theorem netting_conserves_witness:
  "sum_list (map nr_net (compute_netting [demo_settlement, demo_settlement\<lparr>cs_id := 2, cs_amount := - 40\<rparr>]
     (\<lambda>_. Some ''BROKER''))) = 60"
  using netting_conserves[of "[demo_settlement, demo_settlement\<lparr>cs_id := 2, cs_amount := - 40\<rparr>]" "\<lambda>_. Some ''BROKER''"]
  by (simp add: demo_settlement_def cash_amount_def)

end
