(* ===== verification/Capital.thy ===== *)
theory Capital
  imports CashInv
begin

text \<open>
  Investor capital (\<open>app/modules/capital_accounts\<close>): the allocation of profit and fees to the
  investors, ownership and shares (\<open>core/calculator.py\<close>), the snapshots and transactions
  (\<open>models\<close>, \<open>repositories\<close>), and the service that subscribes, redeems and allocates the day
  (\<open>services/capital_transaction.py\<close>).  Both repositories commit each of their inserts.
\<close>

datatype txn_type = SubscriptionTxn | RedemptionTxn | PnlAllocation | MgmtFeeAllocation | PerfFeeAllocation
  | PeriodClose

section \<open>Calculator\<close>

type_synonym alloc_input = "uuid \<times> dec \<times> dec"

fun share_loop :: "(dec \<Rightarrow> dec \<Rightarrow> dec) \<Rightarrow> dec \<Rightarrow> dec \<Rightarrow> dec \<Rightarrow> alloc_input list \<Rightarrow> (uuid \<times> dec \<times> dec) list res" where
  "share_loop book_to amount tot so_far [] = Inr []"
| "share_loop book_to amount tot so_far ((i, cap, pct) # rest) =
     (if rest = [] then
        let alloc = dsub amount so_far in Inr [(i, alloc, book_to cap alloc)]
      else
        bindE (quantize_upE 2 (ddiv (dmul amount pct) tot)) (\<lambda>alloc.
        bindE (share_loop book_to amount tot (dadd so_far alloc) rest) (\<lambda>done_rest.
        Inr ((i, alloc, book_to cap alloc) # done_rest))))"

definition allocate :: "(dec \<Rightarrow> dec \<Rightarrow> dec) \<Rightarrow> alloc_input list \<Rightarrow> dec \<Rightarrow> (uuid \<times> dec \<times> dec) list res" where
  "allocate book_to accounts amount =
     (let nothing = map (\<lambda>(i, cap, pct). (i, 0, cap)) accounts;
          tot = dsum (map (\<lambda>(i, cap, pct). pct) accounts)
      in if accounts = [] \<or> amount = 0 then Inr nothing
         else if tot = 0 then Inr nothing
         else share_loop book_to amount tot 0 accounts)"

definition allocate_pnl :: "alloc_input list \<Rightarrow> dec \<Rightarrow> (uuid \<times> dec \<times> dec) list res" where
  "allocate_pnl = allocate dadd"

definition allocate_fees :: "alloc_input list \<Rightarrow> dec \<Rightarrow> (uuid \<times> dec \<times> dec) list res" where
  "allocate_fees = allocate dsub"

fun ownership_loop :: "dec \<Rightarrow> dec \<Rightarrow> (uuid \<times> dec) list \<Rightarrow> (uuid \<times> dec) list res" where
  "ownership_loop tot assigned [] = Inr []"
| "ownership_loop tot assigned ((i, cap) # rest) =
     (if rest = [] then Inr [(i, dsub 1 assigned)]
      else bindE (quantize_upE 6 (ddiv cap tot)) (\<lambda>pct.
           bindE (ownership_loop tot (dadd assigned pct) rest) (\<lambda>done_rest.
           Inr ((i, pct) # done_rest))))"

definition recompute_ownership :: "(uuid \<times> dec) list \<Rightarrow> (uuid \<times> dec) list res" where
  "recompute_ownership accounts =
     (let tot = dsum (map snd accounts)
      in if tot \<le> 0 then
           (if accounts = [] then Inr []
            else bindE (quantize_upE 6 (ddiv 1 (of_nat (length accounts)))) (\<lambda>even.
                 Inr (map (\<lambda>(i, cap). (i, even)) accounts)))
         else ownership_loop tot 0 accounts)"

definition compute_subscription_shares :: "dec \<Rightarrow> dec \<Rightarrow> dec res" where
  "compute_subscription_shares amount nav = (if nav \<le> 0 then Inr 0 else quantize_upE 6 (ddiv amount nav))"

definition compute_redemption_shares :: "dec \<Rightarrow> dec \<Rightarrow> dec res" where
  "compute_redemption_shares amount nav = (if nav \<le> 0 then Inr 0 else quantize_upE 6 (ddiv amount nav))"

section \<open>Tables\<close>

record capital_account =
  ca_id :: uuid
  ca_investor :: uuid
  ca_class :: string
  ca_beginning :: dec
  ca_contributions :: dec
  ca_withdrawals :: dec
  ca_pnl :: dec
  ca_mgmt :: dec
  ca_perf :: dec
  ca_ending :: dec
  ca_pct :: dec
  ca_shares :: dec
  ca_date :: date

record capital_txn =
  ct_id :: uuid
  ct_account :: uuid
  ct_investor :: uuid
  ct_type :: txn_type
  ct_amount :: dec
  ct_shares :: dec
  ct_nav :: dec
  ct_date :: date
  ct_notes :: "string option"

record capital_tables = cash_tables +
  ft_accounts :: "capital_account list"
  ft_txns :: "capital_txn list"

definition stored_account :: "ledger_env \<Rightarrow> capital_account \<Rightarrow> capital_account res" where
  "stored_account en a =
     bindE (le_col en 18 2 (ca_beginning a)) (\<lambda>b. bindE (le_col en 18 2 (ca_contributions a)) (\<lambda>c.
     bindE (le_col en 18 2 (ca_withdrawals a)) (\<lambda>w. bindE (le_col en 18 2 (ca_pnl a)) (\<lambda>p.
     bindE (le_col en 18 2 (ca_mgmt a)) (\<lambda>m. bindE (le_col en 18 2 (ca_perf a)) (\<lambda>f.
     bindE (le_col en 18 2 (ca_ending a)) (\<lambda>e. bindE (le_col en 8 6 (ca_pct a)) (\<lambda>ow.
     bindE (le_col en 18 6 (ca_shares a)) (\<lambda>s.
     Inr (a\<lparr>ca_beginning := b, ca_contributions := c, ca_withdrawals := w, ca_pnl := p, ca_mgmt := m,
            ca_perf := f, ca_ending := e, ca_pct := ow, ca_shares := s\<rparr>))))))))))"

definition insert_account :: "ledger_env \<Rightarrow> capital_account \<Rightarrow> ('a capital_tables_scheme, unit) op" where
  "insert_account en a = bindS (liftS (stored_account en a)) (\<lambda>r.
     bindS (readT (\<lambda>t. find_row ca_id (ca_id a) (ft_accounts t))) (\<lambda>old.
     if old \<noteq> None then raiseS IntegrityError
     else thenS (writeT (\<lambda>t. t\<lparr>ft_accounts := ft_accounts t @ [r]\<rparr>)) commit))"

definition insert_txn :: "ledger_env \<Rightarrow> capital_txn \<Rightarrow> ('a capital_tables_scheme, unit) op" where
  "insert_txn en x = bindS (liftS (le_col en 18 2 (ct_amount x))) (\<lambda>am.
     bindS (liftS (le_col en 18 6 (ct_shares x))) (\<lambda>sh.
     bindS (liftS (le_col en 18 6 (ct_nav x))) (\<lambda>nav.
     bindS (readT (\<lambda>t. find_row ct_id (ct_id x) (ft_txns t))) (\<lambda>old.
     if old \<noteq> None then raiseS IntegrityError
     else thenS (writeT (\<lambda>t. t\<lparr>ft_txns := ft_txns t @ [x\<lparr>ct_amount := am, ct_shares := sh, ct_nav := nav\<rparr>]\<rparr>))
            commit))))"

definition get_latest_by_fund :: "ledger_env \<Rightarrow> 'a capital_tables_scheme \<Rightarrow> capital_account list" where
  \<comment> \<open>the join on the latest date of each investor\<close>
  "get_latest_by_fund en t =
     filter (\<lambda>a. \<forall>b\<in>set (ft_accounts t). ca_investor b = ca_investor a \<longrightarrow> ca_date b \<le> ca_date a)
       (scan en ca_id (ft_accounts t))"

definition get_latest_by_share_class :: "ledger_env \<Rightarrow> string \<Rightarrow> 'a capital_tables_scheme \<Rightarrow> capital_account list" where
  "get_latest_by_share_class en cls t =
     filter (\<lambda>a. ca_class a = cls \<and> (\<forall>b\<in>set (ft_accounts t).
         ca_class b = cls \<and> ca_investor b = ca_investor a \<longrightarrow> ca_date b \<le> ca_date a))
       (scan en ca_id (ft_accounts t))"

definition get_latest_for_investor_by_class :: "ledger_env \<Rightarrow> uuid \<Rightarrow> 'a capital_tables_scheme \<Rightarrow> capital_account list" where
  "get_latest_for_investor_by_class en i t =
     filter (\<lambda>a. ca_investor a = i \<and> (\<forall>b\<in>set (ft_accounts t).
         ca_investor b = i \<and> ca_class b = ca_class a \<longrightarrow> ca_date b \<le> ca_date a))
       (scan en ca_id (ft_accounts t))"

definition get_latest_for_investor ::
  "ledger_env \<Rightarrow> uuid \<Rightarrow> string option \<Rightarrow> 'a capital_tables_scheme \<Rightarrow> capital_account option" where
  "get_latest_for_investor en i cls t =
     (case sort_key (\<lambda>a. - ca_date a)
         (filter (\<lambda>a. ca_investor a = i \<and> (case cls of None \<Rightarrow> True | Some c \<Rightarrow> ca_class a = c))
            (scan en ca_id (ft_accounts t))) of
        [] \<Rightarrow> None | a # _ \<Rightarrow> Some a)"

definition get_accounts_by_investor ::
  "ledger_env \<Rightarrow> uuid \<Rightarrow> date option \<Rightarrow> date option \<Rightarrow> nat \<Rightarrow> 'a capital_tables_scheme \<Rightarrow> capital_account list" where
  "get_accounts_by_investor en i from_date to_date most t =
     take most (sort_key (\<lambda>a. - ca_date a)
       (filter (\<lambda>a. ca_investor a = i \<and> (case from_date of None \<Rightarrow> True | Some d \<Rightarrow> d \<le> ca_date a) \<and>
            (case to_date of None \<Rightarrow> True | Some d \<Rightarrow> ca_date a \<le> d))
          (scan en ca_id (ft_accounts t))))"

section \<open>Queries of the service\<close>

record fund_overview =
  fo_aum :: dec
  fo_investors :: nat
  fo_shares :: dec
  fo_largest :: dec
  fo_last_date :: "date option"

definition get_total_shares :: "ledger_env \<Rightarrow> 'a capital_tables_scheme \<Rightarrow> dec" where
  "get_total_shares en t = dsum (map ca_shares (get_latest_by_fund en t))"

definition get_fund_overview :: "ledger_env \<Rightarrow> 'a capital_tables_scheme \<Rightarrow> fund_overview" where
  "get_fund_overview en t = (case get_latest_by_fund en t of
       [] \<Rightarrow> \<lparr>fo_aum = 0, fo_investors = 0, fo_shares = 0, fo_largest = 0, fo_last_date = None\<rparr>
     | a # as \<Rightarrow> \<lparr>fo_aum = dsum (map ca_ending (a # as)), fo_investors = length (a # as),
         fo_shares = dsum (map ca_shares (a # as)), fo_largest = foldl max (ca_pct a) (map ca_pct as),
         fo_last_date = Some (foldl max (ca_date a) (map ca_date as))\<rparr>)"

definition get_share_class_nav :: "ledger_env \<Rightarrow> string \<Rightarrow> 'a capital_tables_scheme \<Rightarrow> dec \<times> dec \<times> dec" where
  "get_share_class_nav en cls t =
     (let as = get_latest_by_share_class en cls t; aum = dsum (map ca_ending as); sh = dsum (map ca_shares as)
      in (aum, sh, if 0 < sh then ddiv aum sh else 0))"

definition list_share_classes :: "ledger_env \<Rightarrow> 'a capital_tables_scheme \<Rightarrow> string list" where
  "list_share_classes en t = sort (remdups (map ca_class (get_latest_by_fund en t)))"

definition get_share_class_investor_count :: "ledger_env \<Rightarrow> string \<Rightarrow> 'a capital_tables_scheme \<Rightarrow> nat" where
  "get_share_class_investor_count en cls t = length (get_latest_by_share_class en cls t)"

section \<open>Writes of the service\<close>

definition dict_get :: "('k \<times> 'v) list \<Rightarrow> 'k \<Rightarrow> 'v res" where
  "dict_get m k = (case map_of m k of None \<Rightarrow> Inl KeyError | Some v \<Rightarrow> Inr v)"

text \<open>Both fees in turn: identifiers with the management fee, the performance fee and the capital left.\<close>

definition charge_fees :: "alloc_input list \<Rightarrow> dec \<Rightarrow> dec \<Rightarrow> (uuid \<times> dec \<times> dec \<times> dec) list res" where
  "charge_fees inputs mgmt perf =
     bindE (allocate_fees inputs mgmt) (\<lambda>m.
     let post_mgmt = map2 (\<lambda>(i, _, pct) (_, _, cap). (i, cap, pct)) inputs m
     in bindE (allocate_fees post_mgmt perf) (\<lambda>p.
        Inr (map2 (\<lambda>(i, fee, _) (_, pfee, cap). (i, fee, pfee, cap)) m p)))"

definition class_inputs :: "alloc_input list \<Rightarrow> alloc_input list" where
  "class_inputs accounts =
     (let tot = dsum (map (\<lambda>(i, cap, pct). cap) accounts)
      in if 0 < tot then map (\<lambda>(i, cap, pct). (i, cap, ddiv cap tot)) accounts else accounts)"

definition all_fees ::
  "(string \<times> dec \<times> dec) list option \<Rightarrow> (string \<times> alloc_input) list \<Rightarrow> dec \<Rightarrow> dec \<Rightarrow> (uuid \<times> dec \<times> dec \<times> dec) list res" where
  "all_fees class_fees accounts mgmt perf =
     (if class_fees = None \<or> class_fees = Some [] then charge_fees (map snd accounts) mgmt perf
      else bindE (mapE (\<lambda>(cls, as).
             let (m, p) = or_else (map_of (the class_fees) cls) (0, 0) in charge_fees (class_inputs as) m p)
           (foldl (\<lambda>b (cls, a). bucket_add cls a b) [] accounts)) (\<lambda>rs. Inr (concat rs)))"

definition daily_txn ::
  "ledger_env \<Rightarrow> capital_account \<Rightarrow> txn_type \<Rightarrow> dec \<Rightarrow> dec \<Rightarrow> ('a capital_tables_scheme, unit) op" where
  "daily_txn en a ty amount nav = whenS (amount \<noteq> 0) (bindS (new_uuid en) (\<lambda>i.
     insert_txn en \<lparr>ct_id = i, ct_account = ca_id a, ct_investor = ca_investor a, ct_type = ty,
       ct_amount = amount, ct_shares = 0, ct_nav = nav, ct_date = ca_date a, ct_notes = None\<rparr>))"

definition daily_snapshot ::
  "ledger_env \<Rightarrow> date \<Rightarrow> dec \<Rightarrow> (uuid \<times> dec \<times> dec) list \<Rightarrow> (uuid \<times> dec \<times> dec \<times> dec) list \<Rightarrow> (uuid \<times> dec) list
     \<Rightarrow> capital_account \<Rightarrow> ('a capital_tables_scheme, unit) op" where
  "daily_snapshot en d nav pnl fees ownership a =
     bindS (liftS (dict_get pnl (ca_id a))) (\<lambda>(alloc, _).
     bindS (liftS (dict_get fees (ca_id a))) (\<lambda>(mfee, pfee, final).
     bindS (new_uuid en) (\<lambda>i.
     let snap = \<lparr>ca_id = i, ca_investor = ca_investor a, ca_class = ca_class a, ca_beginning = ca_ending a,
           ca_contributions = 0, ca_withdrawals = 0, ca_pnl = alloc, ca_mgmt = mfee, ca_perf = pfee,
           ca_ending = final, ca_pct = or_else (map_of ownership (ca_id a)) 0, ca_shares = ca_shares a,
           ca_date = d\<rparr>
     in thenS (insert_account en snap)
       (thenS (daily_txn en snap PnlAllocation alloc nav)
         (thenS (daily_txn en snap MgmtFeeAllocation mfee nav)
           (daily_txn en snap PerfFeeAllocation pfee nav))))))"

definition allocate_daily ::
  "ledger_env \<Rightarrow> dec \<Rightarrow> dec \<Rightarrow> dec \<Rightarrow> dec \<Rightarrow> date \<Rightarrow> (string \<times> dec \<times> dec) list option
     \<Rightarrow> ('a capital_tables_scheme, nat) op" where
  "allocate_daily en fund_pnl mgmt perf nav d class_fees =
     bindS (readT (get_latest_by_fund en)) (\<lambda>current.
     if current = [] then retS 0
     else bindS (liftS (allocate_pnl (map (\<lambda>a. (ca_id a, ca_ending a, ca_pct a)) current) fund_pnl)) (\<lambda>pnl.
       bindS (liftS (mapE (\<lambda>a. bindE (dict_get pnl (ca_id a)) (\<lambda>(_, cap).
                Inr (ca_class a, ca_id a, cap, ca_pct a))) current)) (\<lambda>accounts.
       bindS (liftS (all_fees class_fees accounts mgmt perf)) (\<lambda>fees.
       bindS (liftS (mapE (\<lambda>a. bindE (dict_get fees (ca_id a)) (\<lambda>(_, _, final). Inr (ca_id a, final))) current))
         (\<lambda>final_capitals.
       bindS (liftS (recompute_ownership final_capitals)) (\<lambda>ownership.
       thenS (forS (daily_snapshot en d nav pnl fees ownership) current)
      (thenS (emit en (shared_topic ''capital.allocation'') (CapitalAllocation d (length current) fund_pnl nav))
         (retS (length current)))))))))"

text \<open>Ownership is written to the snapshots of the day in the session, and flushed but not committed.\<close>

definition recompute_all_ownership ::
  "ledger_env \<Rightarrow> bool \<Rightarrow> date \<Rightarrow> ('a capital_tables_scheme, unit) op" where
  "recompute_all_ownership en own_session d =
     bindS (readT (get_latest_by_fund en)) (\<lambda>accounts.
     if accounts = [] then retS ()
     else bindS (liftS (recompute_ownership (map (\<lambda>a. (ca_id a, ca_ending a)) accounts))) (\<lambda>ownership.
       whenS own_session
        (bindS (liftS (mapE (\<lambda>a. bindE (le_col en 8 6 (or_else (map_of ownership (ca_id a)) 0)) (\<lambda>pct. Inr (ca_id a, pct)))
             (filter (\<lambda>a. ca_date a = d) accounts))) (\<lambda>pcts.
         writeT (\<lambda>t. t\<lparr>ft_accounts := map (\<lambda>a. case map_of pcts (ca_id a) of
             None \<Rightarrow> a | Some pct \<Rightarrow> a\<lparr>ca_pct := pct\<rparr>) (ft_accounts t)\<rparr>)))))"

definition process_subscription ::
  "ledger_env \<Rightarrow> bool \<Rightarrow> uuid \<Rightarrow> dec \<Rightarrow> dec \<Rightarrow> date \<Rightarrow> uuid option \<Rightarrow> string \<Rightarrow> string \<Rightarrow> string option
     \<Rightarrow> ('a capital_tables_scheme, uuid) op" where
  "process_subscription en own_session who amount nav d portfolio ccy cls notes =
     bindS (liftS (compute_subscription_shares amount nav)) (\<lambda>shares.
     bindS (readT (get_latest_for_investor en who (Some cls))) (\<lambda>existing.
     bindS (new_uuid en) (\<lambda>i.
     thenS (insert_account en \<lparr>ca_id = i, ca_investor = who, ca_class = cls,
        ca_beginning = (case existing of Some a \<Rightarrow> ca_ending a | None \<Rightarrow> 0),
        ca_contributions = amount, ca_withdrawals = 0, ca_pnl = 0, ca_mgmt = 0, ca_perf = 0,
        ca_ending = (case existing of Some a \<Rightarrow> dadd (ca_ending a) amount | None \<Rightarrow> amount), ca_pct = 0,
        ca_shares = (case existing of Some a \<Rightarrow> dadd (ca_shares a) shares | None \<Rightarrow> shares), ca_date = d\<rparr>)
    (bindS (new_uuid en) (\<lambda>txn.
     thenS (insert_txn en \<lparr>ct_id = txn, ct_account = i, ct_investor = who, ct_type = SubscriptionTxn,
        ct_amount = amount, ct_shares = shares, ct_nav = nav, ct_date = d, ct_notes = notes\<rparr>)
    (thenS (case portfolio of None \<Rightarrow> retS ()
            | Some p \<Rightarrow> whenS (le_cash en) (credit en p ccy amount SubscriptionFlow (Some txn)))
    (thenS (recompute_all_ownership en own_session d)
    (thenS (emit en (shared_topic ''capital.subscription'') (CapitalSubscription who amount shares nav cls d i))
       (retS i)))))))))"

definition process_redemption ::
  "ledger_env \<Rightarrow> bool \<Rightarrow> uuid \<Rightarrow> dec \<Rightarrow> dec \<Rightarrow> date \<Rightarrow> uuid option \<Rightarrow> string \<Rightarrow> string \<Rightarrow> string option
     \<Rightarrow> ('a capital_tables_scheme, uuid) op" where
  "process_redemption en own_session who amount nav d portfolio ccy cls notes =
     bindS (readT (get_latest_for_investor en who (Some cls))) (\<lambda>existing. case existing of
       None \<Rightarrow> raiseS ValueError
     | Some a \<Rightarrow>
       if ca_ending a < amount then raiseS ValueError
       else if nav \<le> 0 then raiseS ValueError
       else let sh = ddiv amount nav; new_shares = dsub (ca_shares a) sh
       in if new_shares < 0 then raiseS ValueError
       else bindS (new_uuid en) (\<lambda>i.
       thenS (insert_account en \<lparr>ca_id = i, ca_investor = who, ca_class = ca_class a, ca_beginning = ca_ending a,
          ca_contributions = 0, ca_withdrawals = amount, ca_pnl = 0, ca_mgmt = 0, ca_perf = 0,
          ca_ending = dsub (ca_ending a) amount, ca_pct = 0, ca_shares = new_shares, ca_date = d\<rparr>)
      (bindS (new_uuid en) (\<lambda>txn.
       thenS (insert_txn en \<lparr>ct_id = txn, ct_account = i, ct_investor = who, ct_type = RedemptionTxn,
          ct_amount = dneg amount, ct_shares = dneg sh, ct_nav = nav, ct_date = d, ct_notes = notes\<rparr>)
      (thenS (case portfolio of None \<Rightarrow> retS ()
              | Some p \<Rightarrow> whenS (le_cash en) (debit en p ccy amount RedemptionFlow (Some txn)))
      (thenS (recompute_all_ownership en own_session d)
      (thenS (emit en (shared_topic ''capital.redemption'') (CapitalRedemption who amount sh nav cls d i))
         (retS i))))))))"

end
