(* ===== verification/CapitalInv.thy ===== *)
theory CapitalInv
  imports Capital
begin

text \<open>
  Allocations conserve what is allocated, every snapshot accounts for its capital through every
  sequence of operations, and what is committed of the ownership.
\<close>

section \<open>The allocation loop\<close>

lemma fix28_abs_error: "\<bar>fix28 x - x\<bar> \<le> e" if "\<bar>x\<bar> \<le> 2 * 10 ^ 27 * e" for x e
  using fix28_error[of x] that by (simp add: field_simps)

lemma pro_rata_close:
  assumes pct: "0 \<le> pct" "pct \<le> tot" "0 < tot" and a: "\<bar>a\<bar> \<le> 10 ^ 15"
  shows "\<bar>ddiv (dmul a pct) tot - a * pct / tot\<bar> \<le> 1 / 1000"
proof -
  have small: "\<bar>u\<bar> \<le> 2 * 10 ^ 27 * (1 / 4000)" if "\<bar>v\<bar> \<le> 10 ^ 15 * 1" "\<bar>u - v\<bar> \<le> 1 / 4000" for u v :: rat
  proof -
    have "\<bar>v\<bar> \<le> 1000000000000000" using that by simp
    then have "\<bar>u\<bar> \<le> 1000000000000001" using that(2) by linarith
    then show ?thesis by simp
  qed
  have near: "\<bar>w - v\<bar> \<le> 1 / 1000" if "\<bar>w - u\<bar> \<le> 1 / 4000" "\<bar>u - v\<bar> \<le> 1 / 4000" for u v w :: rat
    using that by linarith
  have r: "0 \<le> pct / tot" "pct / tot \<le> 1" using pct by simp_all
  have "\<bar>fix28 (a * pct) - a * pct\<bar> \<le> \<bar>a\<bar> * pct / (2 * 10 ^ 27)"
    using fix28_error[of "a * pct"] pct by (simp add: abs_mult)
  then have "\<bar>fix28 (a * pct) - a * pct\<bar> / tot \<le> \<bar>a\<bar> * pct / (2 * 10 ^ 27) / tot"
    by (rule divide_right_mono) (use pct in simp)
  also have "\<dots> = \<bar>a\<bar> * (pct / tot) / (2 * 10 ^ 27)" by simp
  also have "\<dots> \<le> 10 ^ 15 * 1 / (2 * 10 ^ 27)"
    using r a by (intro divide_right_mono mult_mono) auto
  also have "\<dots> \<le> 1 / 4000" by simp
  finally have "\<bar>fix28 (a * pct) - a * pct\<bar> / tot \<le> 1 / 4000" .
  moreover have "\<bar>fix28 (a * pct) / tot - a * pct / tot\<bar> = \<bar>fix28 (a * pct) - a * pct\<bar> / tot"
    using pct(3) by (simp add: diff_divide_distrib[symmetric] del: times_divide_eq_left)
  ultimately have e1: "\<bar>fix28 (a * pct) / tot - a * pct / tot\<bar> \<le> 1 / 4000" by simp
  have "\<bar>a * pct / tot\<bar> = \<bar>a\<bar> * (pct / tot)" using pct by (simp add: abs_mult)
  also have "\<dots> \<le> 10 ^ 15 * 1" using r a by (intro mult_mono) auto
  finally have "\<bar>fix28 (a * pct) / tot\<bar> \<le> 2 * 10 ^ 27 * (1 / 4000)" using e1 small by blast
  then have "\<bar>fix28 (fix28 (a * pct) / tot) - fix28 (a * pct) / tot\<bar> \<le> 1 / 4000" by (rule fix28_abs_error)
  with e1 show ?thesis unfolding ddiv_def dmul_def using near by blast
qed

lemma share_close:
  assumes "0 \<le> pct" "pct \<le> tot" "0 < tot" "\<bar>a\<bar> \<le> 10 ^ 15"
  obtains q where "quantize_upE 2 (ddiv (dmul a pct) tot) = Inr q" "on_grid 2 q"
    "\<bar>q - a * pct / tot\<bar> \<le> 1 / 100" "\<bar>q\<bar> \<le> 10 ^ 15 + 1"
proof -
  let ?y = "ddiv (dmul a pct) tot"
  have close: "\<bar>?y - a * pct / tot\<bar> \<le> 1 / 1000" by (rule pro_rata_close[OF assms])
  have "\<bar>a * pct / tot\<bar> = \<bar>a\<bar> * (pct / tot)" using assms by (simp add: abs_mult)
  also have "\<dots> \<le> 10 ^ 15 * 1" using assms by (intro mult_mono) auto
  finally have ex: "\<bar>a * pct / tot\<bar> \<le> 10 ^ 15" by simp
  define n where "n = round_up (?y * 10 ^ 2)"
  have "\<bar>of_int n - ?y * 10 ^ 2\<bar> \<le> 1 / 2"
  proof (cases "0 \<le> ?y * 10 ^ 2")
    case True
    then have "n = \<lfloor>?y * 10 ^ 2 + 1/2\<rfloor>" by (simp only: n_def round_up_def if_True)
    then show ?thesis by linarith
  next
    case False
    then have "n = - \<lfloor>1/2 - ?y * 10 ^ 2\<rfloor>" by (simp only: n_def round_up_def if_False)
    then show ?thesis by linarith
  qed
  moreover have "\<bar>u\<bar> < of_int (10 ^ 28)"
    if "\<bar>u - y * 10 ^ 2\<bar> \<le> 1 / 2" "\<bar>y - c\<bar> \<le> 1 / 1000" "\<bar>c\<bar> \<le> 10 ^ 15" for u y c :: rat
  proof -
    have "\<bar>u - y * 100\<bar> \<le> 1 / 2" "\<bar>c\<bar> \<le> 1000000000000000" using that by simp_all
    then have "\<bar>u\<bar> < 1000000000000000000000" using that(2) by linarith
    then show ?thesis by simp
  qed
  ultimately have "\<bar>of_int n :: rat\<bar> < of_int (10 ^ 28)" using close ex by blast
  then have n: "\<bar>n\<bar> < 10 ^ 28" by (simp only: of_int_abs[symmetric] of_int_less_iff)
  then have q: "quantize_upE 2 ?y = Inr (of_int n / 10 ^ 2)" by (simp add: quantize_upE_def n_def Let_def)
  have qb: "\<bar>of_int n / 10 ^ 2 - ?y\<bar> \<le> 1 / (2 * 10 ^ 2)" by (rule quantize_up_Inr(2)[OF q])
  define y c where "y = ?y" and "c = a * pct / tot"
  have "\<bar>of_int n / 10 ^ 2 - c\<bar> \<le> 1 / 100 \<and> \<bar>of_int n / 10 ^ 2 :: rat\<bar> \<le> 10 ^ 15 + 1"
  proof -
    define u :: rat where "u = of_int n / 10 ^ 2"
    have "\<bar>u - y\<bar> \<le> 1 / 200" "\<bar>y - c\<bar> \<le> 1 / 1000" "\<bar>c\<bar> \<le> 1000000000000000"
      using qb close ex by (simp_all add: u_def y_def c_def)
    then have "\<bar>u - c\<bar> \<le> 1 / 100 \<and> \<bar>u\<bar> \<le> 1000000000000001" by linarith
    then show ?thesis by (simp add: u_def)
  qed
  then show thesis by (intro that[OF q quantize_up_Inr(1)[OF q]]) (simp_all add: c_def)
qed

lemma share_loop_spec:
  assumes "\<forall>x\<in>set xs. 0 \<le> snd (snd x) \<and> snd (snd x) \<le> tot" "0 < tot" "\<bar>a\<bar> \<le> 10 ^ 15" "on_grid 2 a"
    and "on_grid 2 sf" "\<bar>sf\<bar> + of_nat (length xs) * (10 ^ 15 + 1) \<le> 10 ^ 22" "xs \<noteq> []"
  shows "\<exists>rs. share_loop bt a tot sf xs = Inr rs \<and> map fst rs = map fst xs \<and>
    sf + (\<Sum>r\<leftarrow>rs. fst (snd r)) = a \<and>
    list_all2 (\<lambda>x r. snd (snd r) = bt (fst (snd x)) (fst (snd r)) \<and> on_grid 2 (fst (snd r))) xs rs \<and>
    list_all2 (\<lambda>x r. \<bar>fst (snd r) - a * snd (snd x) / tot\<bar> \<le> 1 / 100) (butlast xs) (butlast rs)"
  using assms(1,5-7)
proof (induction xs arbitrary: sf)
  case (Cons x rest)
  obtain i cap pct where x: "x = (i, cap, pct)" by (cases x)
  have fs: "\<bar>sf\<bar> \<le> 10 ^ 22" 
  proof -
    have "0 \<le> of_nat (length (x # rest)) * (10 ^ 15 + 1 :: rat)" by (intro mult_nonneg_nonneg) simp_all
    with Cons.prems(3) show ?thesis by linarith
  qed
  have ex: "dsub a sf = a - sf"
    unfolding dsub_def by (rule fix28_exact[of 2]) (use assms(3,4) Cons.prems(2) fs in auto)
  show ?case
  proof (cases "rest = []")
    case True
    then show ?thesis using assms(4) Cons.prems(2) by (simp add: x ex Let_def on_grid_diff)
  next
    case False
    have p: "0 \<le> pct" "pct \<le> tot" using Cons.prems(1) by (auto simp: x)
    obtain q where q: "quantize_upE 2 (ddiv (dmul a pct) tot) = Inr q" "on_grid 2 q"
      "\<bar>q - a * pct / tot\<bar> \<le> 1 / 100" "\<bar>q\<bar> \<le> 10 ^ 15 + 1"
      using share_close[OF p assms(2,3)] .
    have "\<bar>sf + q\<bar> * 10 ^ 2 \<le> 10 ^ 28" using fs q(4) by simp
    then have sum: "dadd sf q = sf + q"
      unfolding dadd_def by (rule fix28_exact[OF on_grid_add[OF Cons.prems(2) q(2)]])
    have "\<bar>sf + q\<bar> + of_nat (length rest) * (10 ^ 15 + 1) \<le> 10 ^ 22"
      using Cons.prems(3) q(4) by (simp add: algebra_simps)
    moreover have "\<forall>y\<in>set rest. 0 \<le> snd (snd y) \<and> snd (snd y) \<le> tot" using Cons.prems(1) by simp
    ultimately have "\<exists>rs. share_loop bt a tot (sf + q) rest = Inr rs \<and> map fst rs = map fst rest \<and>
      sf + q + (\<Sum>r\<leftarrow>rs. fst (snd r)) = a \<and>
      list_all2 (\<lambda>x r. snd (snd r) = bt (fst (snd x)) (fst (snd r)) \<and> on_grid 2 (fst (snd r))) rest rs \<and>
      list_all2 (\<lambda>x r. \<bar>fst (snd r) - a * snd (snd x) / tot\<bar> \<le> 1 / 100) (butlast rest) (butlast rs)"
      by (intro Cons.IH on_grid_add Cons.prems(2) q(2) False)
    then obtain rs where rs: "share_loop bt a tot (dadd sf q) rest = Inr rs" "map fst rs = map fst rest"
      "sf + q + (\<Sum>r\<leftarrow>rs. fst (snd r)) = a"
      "list_all2 (\<lambda>x r. snd (snd r) = bt (fst (snd x)) (fst (snd r)) \<and> on_grid 2 (fst (snd r))) rest rs"
      "list_all2 (\<lambda>x r. \<bar>fst (snd r) - a * snd (snd x) / tot\<bar> \<le> 1 / 100) (butlast rest) (butlast rs)"
      unfolding sum by blast
    have "rs \<noteq> []" using rs(4) False by auto
    with rs q False show ?thesis by (simp add: x add.assoc)
  qed
qed simp

section \<open>What an allocation books\<close>

definition booked :: "(dec \<Rightarrow> dec \<Rightarrow> dec) \<Rightarrow> alloc_input \<Rightarrow> uuid \<times> dec \<times> dec \<Rightarrow> bool" where
  "booked bt x r \<longleftrightarrow> fst r = fst x \<and> snd (snd r) = bt (fst (snd x)) (fst (snd r)) \<and> on_grid 2 (fst (snd r))"

lemma share_loop_books:
  "share_loop bt a tot sf xs = Inr rs \<Longrightarrow> on_grid 2 a \<Longrightarrow> on_grid 2 sf \<Longrightarrow> list_all2 (booked bt) xs rs"
proof (induction bt a tot sf xs arbitrary: rs rule: share_loop.induct)
  case (2 bt a tot sf i cap pct rest)
  show ?case
  proof (cases "rest = []")
    case True
    with 2(2-4) show ?thesis by (auto simp: Let_def booked_def)
  next
    case False
    with 2(2) obtain q qs where q: "quantize_upE 2 (ddiv (dmul a pct) tot) = Inr q"
      "share_loop bt a tot (dadd sf q) rest = Inr qs" "rs = (i, q, bt cap q) # qs"
      by (auto simp: bindE_Inr_iff)
    have g: "on_grid 2 q" by (rule quantize_up_Inr(1)[OF q(1)])
    from 2(1)[OF False q(2) 2(3) on_grid_dec(1)[OF 2(4) g]] g q(3) show ?thesis by (simp add: booked_def)
  qed
qed simp

lemma nothing_books:
  assumes "bt = dadd \<or> bt = dsub" "\<forall>(i, cap, pct)\<in>set xs. fix28 cap = cap"
  shows "list_all2 (booked bt) xs (map (\<lambda>(i, cap, pct). (i, 0, cap)) xs)"
  using assms by (auto simp: list_all2_map2 booked_def dadd_def dsub_def intro!: list.rel_refl_strong)

lemma allocate_books:
  assumes "allocate bt xs a = Inr rs" "on_grid 2 a" "bt = dadd \<or> bt = dsub"
    "\<forall>(i, cap, pct)\<in>set xs. fix28 cap = cap"
  shows "list_all2 (booked bt) xs rs"
  using assms share_loop_books[of bt a _ 0 xs rs] nothing_books[OF assms(3,4)]
  by (auto simp: allocate_def Let_def split: if_splits)

text \<open>The shares of a pool can be distributed exactly.\<close>

definition pool_ok :: "alloc_input list \<Rightarrow> bool" where
  "pool_ok xs \<longleftrightarrow> xs \<noteq> [] \<and> length xs \<le> 10 ^ 6 \<and>
     (\<forall>(i, cap, pct)\<in>set xs. 0 \<le> pct \<and> fix28 pct = pct \<and> fix28 cap = cap) \<and>
     (\<exists>(i, cap, pct)\<in>set xs. 0 < pct)"

lemma pool_total:
  assumes "pool_ok xs"
  shows "0 < dsum (map (\<lambda>(i, cap, pct). pct) xs)"
    "\<forall>x\<in>set xs. 0 \<le> snd (snd x) \<and> snd (snd x) \<le> dsum (map (\<lambda>(i, cap, pct). pct) xs)"
proof -
  have le: "\<forall>x\<in>set xs. snd (snd x) \<le> dsum (map (\<lambda>(i, cap, pct). pct) xs)"
  proof
    fix x assume x: "x \<in> set xs"
    have "\<forall>y\<in>set (map (\<lambda>(i, cap, pct). pct) xs). 0 \<le> y \<and> fix28 y = y"
      using assms by (auto simp: pool_ok_def)
    moreover have "snd (snd x) \<in> set (map (\<lambda>(i, cap, pct). pct) xs)"
      using imageI[OF x, of "\<lambda>(i, cap, pct). pct"] by (simp add: split_beta)
    ultimately show "snd (snd x) \<le> dsum (map (\<lambda>(i, cap, pct). pct) xs)" by (rule dsum_ge)
  qed
  moreover obtain i cap pct where "(i, cap, pct) \<in> set xs" "0 < pct" using assms by (auto simp: pool_ok_def)
  ultimately show "0 < dsum (map (\<lambda>(i, cap, pct). pct) xs)" by (metis less_le_trans snd_conv)
  show "\<forall>x\<in>set xs. 0 \<le> snd (snd x) \<and> snd (snd x) \<le> dsum (map (\<lambda>(i, cap, pct). pct) xs)"
    using le assms by (fastforce simp: pool_ok_def)
qed

text \<open>C37. Allocation conserves.  For at most a million accounts with non-negative ownership, not all of it
  zero, and an amount in whole cents of at most a quadrillion, the distribution of profit and of
  fees succeeds, allocates exactly the amount, gives every account but the last its share to
  within one cent, and adds to (profit) or takes from (fees) each capital what it allocates.
\<close>

theorem allocation_conserves:
  assumes "pool_ok xs" "on_grid 2 amount" "\<bar>amount\<bar> \<le> 10 ^ 15" "bt = dadd \<or> bt = dsub"
  shows "\<exists>rs. allocate bt xs amount = Inr rs \<and> map fst rs = map fst xs \<and>
    (\<Sum>r\<leftarrow>rs. fst (snd r)) = amount \<and>
    (\<forall>k<length xs. snd (snd (rs ! k)) = bt (fst (snd (xs ! k))) (fst (snd (rs ! k)))) \<and>
    (\<forall>k<length xs - 1. \<bar>fst (snd (rs ! k)) -
       amount * snd (snd (xs ! k)) / dsum (map (\<lambda>(i, cap, pct). pct) xs)\<bar> \<le> 1 / 100)"
proof (cases "amount = 0")
  case True
  then have run: "allocate bt xs amount = Inr (map (\<lambda>(i, cap, pct). (i, 0, cap)) xs)" by (simp add: allocate_def)
  have cap: "fix28 (fst (snd (xs ! k))) = fst (snd (xs ! k))" if "k < length xs" for k
    using assms(1) nth_mem[OF that] by (auto simp: pool_ok_def)
  have "(\<Sum>r\<leftarrow>xs. fst (snd (case r of (i, cap, pct) \<Rightarrow> (i, 0 :: dec, cap)))) = (\<Sum>r\<leftarrow>xs. 0)"
    by (intro arg_cong[of _ _ sum_list] map_cong) auto
  with True assms(4) cap show ?thesis unfolding run
    by (intro exI[of _ "map (\<lambda>(i, cap, pct). (i, 0, cap)) xs"])
      (auto simp: comp_def split_beta dadd_def dsub_def)
next
  case False
  let ?tot = "dsum (map (\<lambda>(i, cap, pct). pct) xs)"
  note tot = pool_total[OF assms(1)]
  have ne: "xs \<noteq> []" and len: "length xs \<le> 10 ^ 6" using assms(1) by (auto simp: pool_ok_def)
  have "of_nat (length xs) \<le> (of_nat (10 ^ 6) :: rat)" using len by (simp only: of_nat_le_iff)
  then have "of_nat (length xs) * (10 ^ 15 + 1) \<le> (of_nat (10 ^ 6) * (10 ^ 15 + 1) :: rat)"
    by (rule mult_right_mono) simp
  also have "\<dots> \<le> 10 ^ 22" by simp
  finally have "\<bar>0\<bar> + of_nat (length xs) * (10 ^ 15 + 1) \<le> (10 ^ 22 :: rat)" by simp
  from share_loop_spec[OF tot(2,1) assms(3,2) on_grid_0 this ne, of bt]
  obtain rs where rs: "share_loop bt amount ?tot 0 xs = Inr rs" "map fst rs = map fst xs"
    "(\<Sum>r\<leftarrow>rs. fst (snd r)) = amount"
    "list_all2 (\<lambda>x r. snd (snd r) = bt (fst (snd x)) (fst (snd r)) \<and> on_grid 2 (fst (snd r))) xs rs"
    "list_all2 (\<lambda>x r. \<bar>fst (snd r) - amount * snd (snd x) / ?tot\<bar> \<le> 1 / 100) (butlast xs) (butlast rs)"
    by auto
  have "\<bar>fst (snd (rs ! k)) - amount * snd (snd (xs ! k)) / ?tot\<bar> \<le> 1 / 100" if "k < length xs - 1" for k
    using list_all2_nthD[OF rs(5), of k] that list_all2_lengthD[OF rs(4)] by (simp add: nth_butlast)
  moreover have "snd (snd (rs ! k)) = bt (fst (snd (xs ! k))) (fst (snd (rs ! k)))" if "k < length xs" for k
    using list_all2_nthD[OF rs(4) that] by simp
  moreover have "allocate bt xs amount = Inr rs" using rs(1) ne False tot(1) by (simp add: allocate_def Let_def)
  ultimately show ?thesis using rs(2,3) by blast
qed

theorem allocation_conserves_witness:
  "\<exists>rs. allocate dadd [(1, 600, 3 / 5), (2, 300, 3 / 10), (3, 100, 1 / 10)] 100 = Inr rs \<and>
     (\<Sum>r\<leftarrow>rs. fst (snd r)) = 100"
proof -
  have "pool_ok [(1, 600, 3 / 5), (2, 300, 3 / 10), (3, 100, 1 / 10)]"
    by (simp add: pool_ok_def exact_simps)
  from allocation_conserves[OF this, of 100 dadd] show ?thesis by auto
qed

section \<open>Fees of a class or of the fund\<close>

definition charged :: "(uuid \<Rightarrow> dec \<Rightarrow> bool) \<Rightarrow> uuid \<times> dec \<times> dec \<times> dec \<Rightarrow> bool" where
  "charged left r = (case r of (i, fee, pfee, fin) \<Rightarrow>
     \<exists>cap. left i cap \<and> fin = dsub (dsub cap fee) pfee \<and> on_grid 2 fee \<and> on_grid 2 pfee)"

lemma charge_fees_charged:
  assumes run: "charge_fees inputs mgmt perf = Inr rs" and g: "on_grid 2 mgmt" "on_grid 2 perf"
    and cap: "\<forall>(i, cap, pct)\<in>set inputs. fix28 cap = cap \<and> left i cap"
  shows "\<forall>r\<in>set rs. charged left r"
proof -
  let ?post = "\<lambda>m. map2 (\<lambda>(i, _, pct) (_, _, cap). (i, cap, pct)) inputs m"
  from run obtain m p where m: "allocate dsub inputs mgmt = Inr m" and p: "allocate dsub (?post m) perf = Inr p"
    and rs: "rs = map2 (\<lambda>(i, fee, _) (_, pfee, cap). (i, fee, pfee, cap)) m p"
    by (auto simp: charge_fees_def bindE_Inr_iff Let_def allocate_fees_def)
  have m2: "list_all2 (booked dsub) inputs m"
    by (rule allocate_books[OF m g(1)]) (use cap in auto)
  have "\<forall>(i, c, pct)\<in>set (?post m). fix28 c = c"
  proof -
    have "fix28 (snd (snd (m ! k))) = snd (snd (m ! k))" if "k < length inputs" for k
      using list_all2_nthD[OF m2 that] by (simp add: booked_def dsub_def)
    then have "\<forall>r\<in>set m. fix28 (snd (snd r)) = snd (snd r)"
      using list_all2_lengthD[OF m2] by (metis in_set_conv_nth)
    then show ?thesis by (fastforce dest: set_zip_rightD)
  qed
  with p have p2: "list_all2 (booked dsub) (?post m) p"
    by (intro allocate_books[OF p g(2)]) auto
  have len: "length m = length inputs" "length p = length inputs"
    using list_all2_lengthD[OF m2] list_all2_lengthD[OF p2] by simp_all
  have "charged left (rs ! k)" if k: "k < length inputs" for k
  proof -
    obtain i cp pct where x: "inputs ! k = (i, cp, pct)" by (cases "inputs ! k")
    obtain j fee c1 where mk: "m ! k = (j, fee, c1)" by (cases "m ! k")
    obtain l pfee c2 where pk: "p ! k = (l, pfee, c2)" by (cases "p ! k")
    have "j = i \<and> c1 = dsub cp fee \<and> on_grid 2 fee" using list_all2_nthD[OF m2 k] by (simp add: booked_def x mk)
    moreover have "c2 = dsub c1 pfee \<and> on_grid 2 pfee"
      using list_all2_nthD[OF p2, of k] k len by (simp add: booked_def x mk pk)
    moreover have "left i cp" using cap nth_mem[OF k] by (auto simp: x)
    ultimately show ?thesis using k len by (auto simp: rs charged_def mk pk)
  qed
  moreover have "length rs = length inputs" using len by (simp add: rs)
  ultimately show ?thesis by (metis in_set_conv_nth)
qed

lemma bucket_add_mem:
  "(j, g) \<in> set (bucket_add k x bs) \<Longrightarrow> y \<in> set g \<Longrightarrow> (j = k \<and> y = x) \<or> (\<exists>h. (j, h) \<in> set bs \<and> y \<in> set h)"
proof (induction bs)
  case (Cons b bs)
  then show ?case by (cases b) (auto split: if_splits)
qed auto

lemma bucket_pairs_mem:
  "(j, g) \<in> set (foldl (\<lambda>b (c, a). bucket_add c a b) [] xs) \<Longrightarrow> y \<in> set g \<Longrightarrow> (j, y) \<in> set xs"
proof (induction xs arbitrary: j g y rule: rev_induct)
  case (snoc x xs)
  from snoc.prems bucket_add_mem[of j g "fst x" "snd x" "foldl (\<lambda>b (c, a). bucket_add c a b) [] xs" y] snoc.IH
  show ?case by (cases x) auto
qed simp

lemma class_inputs_mem: "(i, cap, pct) \<in> set (class_inputs as) \<Longrightarrow> \<exists>pct'. (i, cap, pct') \<in> set as"
  by (auto simp: class_inputs_def Let_def split: if_splits)

lemma mapE_mem: "mapE f xs = Inr ys \<Longrightarrow> y \<in> set ys \<Longrightarrow> \<exists>x\<in>set xs. f x = Inr y"
  by (induction xs arbitrary: ys) (auto simp: bindE_Inr_iff)

definition fees_on_grid :: "(string \<times> dec \<times> dec) list option \<Rightarrow> bool" where
  "fees_on_grid fees \<longleftrightarrow> (\<forall>(c, m, p)\<in>set (or_else fees []). on_grid 2 m \<and> on_grid 2 p)"

lemma all_fees_charged:
  assumes run: "all_fees fees accounts mgmt perf = Inr rs" and g: "on_grid 2 mgmt" "on_grid 2 perf" "fees_on_grid fees"
    and cap: "\<forall>(c, i, cap, pct)\<in>set accounts. fix28 cap = cap \<and> left i cap"
  shows "\<forall>r\<in>set rs. charged left r"
proof (cases "fees = None \<or> fees = Some []")
  case True
  with run have run': "charge_fees (map snd accounts) mgmt perf = Inr rs" by (auto simp: all_fees_def)
  show ?thesis by (rule charge_fees_charged[OF run' g(1,2)]) (use cap in auto)
next
  case False
  let ?groups = "foldl (\<lambda>b (c, a). bucket_add c a b) [] accounts"
  from False run obtain rss where rss: "mapE (\<lambda>(cls, as). let (m, p) = or_else (map_of (the fees) cls) (0, 0)
       in charge_fees (class_inputs as) m p) ?groups = Inr rss" "rs = concat rss"
    by (auto simp: all_fees_def bindE_Inr_iff)
  have "\<forall>r\<in>set qs. charged left r" if "qs \<in> set rss" for qs
  proof -
    from mapE_mem[OF rss(1) that] obtain grp where "grp \<in> set ?groups"
      "(\<lambda>(cls, as). let (m, p) = or_else (map_of (the fees) cls) (0, 0)
        in charge_fees (class_inputs as) m p) grp = Inr qs" by blast
    moreover obtain cls as where "grp = (cls, as)" by (cases grp)
    moreover obtain m p where "or_else (map_of (the fees) cls) (0, 0) = (m, p)"
      by (cases "or_else (map_of (the fees) cls) (0, 0)")
    ultimately have grp: "(cls, as) \<in> set ?groups" "or_else (map_of (the fees) cls) (0, 0) = (m, p)"
        "charge_fees (class_inputs as) m p = Inr qs" by simp_all
    have "on_grid 2 m \<and> on_grid 2 p"
    proof (cases "map_of (the fees) cls")
      case (Some v)
      then have "(cls, m, p) \<in> set (or_else fees [])" using grp(2) False by (auto dest: map_of_SomeD)
      with g(3) show ?thesis by (auto simp: fees_on_grid_def)
    qed (use grp(2) in simp)
    moreover have "\<forall>(i, cap, pct)\<in>set (class_inputs as). fix28 cap = cap \<and> left i cap"
      using cap bucket_pairs_mem[OF grp(1)] by (fastforce dest: class_inputs_mem)
    ultimately show ?thesis using charge_fees_charged[OF grp(3)] by blast
  qed
  then show ?thesis by (auto simp: rss(2))
qed

section \<open>Every snapshot accounts for its capital\<close>

definition cents :: "dec \<Rightarrow> bool" where
  "cents x \<longleftrightarrow> on_grid 2 x \<and> \<bar>x\<bar> < 10 ^ 16"

definition snapshot_parts :: "capital_account \<Rightarrow> dec list" where
  "snapshot_parts a = [ca_beginning a, ca_contributions a, ca_withdrawals a, ca_pnl a, ca_mgmt a, ca_perf a, ca_ending a]"

definition snapshot_ok :: "capital_account \<Rightarrow> bool" where
  "snapshot_ok a \<longleftrightarrow> (\<forall>x\<in>set (snapshot_parts a). cents x) \<and>
     ca_ending a = ca_beginning a + ca_contributions a - ca_withdrawals a + ca_pnl a - ca_mgmt a - ca_perf a"

definition proposal_ok :: "capital_account \<Rightarrow> bool" where
  "proposal_ok a \<longleftrightarrow> (\<forall>x\<in>set (snapshot_parts a). on_grid 2 x) \<and>
     ((\<forall>x\<in>set (snapshot_parts a). cents x) \<longrightarrow> snapshot_ok a)"

definition accounts_ok :: "capital_account list \<Rightarrow> bool" where
  "accounts_ok as \<longleftrightarrow> (\<forall>a\<in>set as. snapshot_ok a) \<and> distinct (map ca_id as)"

abbreviation on_accounts :: "(capital_account list \<Rightarrow> bool) \<Rightarrow> 'a capital_tables_scheme session \<Rightarrow> bool" where
  "on_accounts P \<equiv> on_tables (\<lambda>t. P (ft_accounts t))"

lemma cents_exact:
  assumes "cents x" "cents y"
  shows "dadd x y = x + y" "dsub x y = x - y"
proof -
  have b: "\<bar>x + y\<bar> * 10 ^ 2 \<le> 10 ^ 28" "\<bar>x - y\<bar> * 10 ^ 2 \<le> 10 ^ 28"
    using assms by (auto simp: cents_def abs_if split: if_splits)
  show "dadd x y = x + y" "dsub x y = x - y"
    unfolding dadd_def dsub_def
    by (rule fix28_exact[OF _ b(1)] fix28_exact[OF _ b(2)]; use assms in \<open>auto simp: cents_def\<close>)+
qed

lemma cents_0 [simp]: "cents 0"
  by (simp add: cents_def)

lemma cents_fix28: "cents x \<Longrightarrow> fix28 x = x"
  using cents_exact(1)[of x 0] by (simp add: dadd_def)

lemma stored_account_ok:
  assumes "col_spec en" "stored_account en a = Inr r" "\<forall>x\<in>set (snapshot_parts a). on_grid 2 x"
  shows "snapshot_parts r = snapshot_parts a \<and> (\<forall>x\<in>set (snapshot_parts a). cents x) \<and> ca_id r = ca_id a \<and>
    ca_investor r = ca_investor a \<and> ca_class r = ca_class a \<and> ca_date r = ca_date a \<and>
    le_col en 8 6 (ca_pct a) = Inr (ca_pct r)"
proof -
  have col: "y = x \<and> cents x" if "le_col en 18 2 x = Inr y" "on_grid 2 x" for x y
    using col_specD[OF assms(1) that(1)] that(2) by (simp add: cents_def)
  from assms(2) show ?thesis
    using assms(3) by (auto simp: stored_account_def bindE_Inr_iff snapshot_parts_def dest!: col)
qed

lemma insert_account_keeps:
  assumes "col_spec en" "proposal_ok a"
  shows "keeps (on_accounts accounts_ok) (insert_account en a)"
proof (rule keeps_fstI)
  fix s :: "'a capital_tables_scheme session" assume s: "on_accounts accounts_ok s"
  show "on_accounts accounts_ok (fst (insert_account en a s))"
  proof (cases "stored_account en a")
    case (Inr r)
    have "\<forall>x\<in>set (snapshot_parts a). on_grid 2 x" using assms(2) by (simp add: proposal_ok_def)
    note st = stored_account_ok[OF assms(1) Inr this]
    have "snapshot_ok a" using assms(2) st by (simp add: proposal_ok_def)
    then have "snapshot_ok r" using st by (simp add: snapshot_ok_def snapshot_parts_def)
    with s Inr st show ?thesis
      by (auto simp: insert_account_def on_tables_def accounts_ok_def find_row_None bindS_eval(1))
  qed (use s in \<open>simp add: insert_account_def bindS_def\<close>)
qed

text \<open>The other tables of the fund are not the accounts.\<close>

lemma insert_txn_frame: "keeps (on_accounts P) (insert_txn en x)"
  unfolding insert_txn_def by (intro keeps_rules on_tables_write) simp_all

lemma book_frame:
  "keeps (on_accounts P) (credit en p c am fl ref)" "keeps (on_accounts P) (debit en p c am fl ref)"
  unfolding credit_def debit_def book_def upsert_def insert_journal_def Let_def get_balance_def
  by (intro keeps_rules on_tables_write; simp)+

lemma keeps_read_fact:
  "(\<And>s. I s \<Longrightarrow> F (f (ss_work s))) \<Longrightarrow> (\<And>x. F x \<Longrightarrow> keeps I (k x)) \<Longrightarrow> keeps I (bindS (readT f) k)"
  by (rule triple_bind_fact[of I "readT f" "\<lambda>_. I" F]) (auto simp: triple_def readT_def)

lemma keeps_lift_fact: "(\<And>x. r = Inr x \<Longrightarrow> keeps I (k x)) \<Longrightarrow> keeps I (bindS (liftS r) k)"
  by (cases r) (auto simp: triple_def bindS_def)

lemma recompute_keeps: "keeps (on_accounts accounts_ok) (recompute_all_ownership en own d)"
proof -
  have same: "snapshot_ok (a\<lparr>ca_pct := x\<rparr>) = snapshot_ok a" for a x
    by (simp add: snapshot_ok_def snapshot_parts_def)
  have "accounts_ok (map (\<lambda>a. case map_of m (ca_id a) of None \<Rightarrow> a | Some pct \<Rightarrow> a\<lparr>ca_pct := pct\<rparr>) as)"
    if "accounts_ok as" for m as
  proof -
    have "map ca_id (map (\<lambda>a. case map_of m (ca_id a) of None \<Rightarrow> a | Some pct \<Rightarrow> a\<lparr>ca_pct := pct\<rparr>) as) = map ca_id as"
      by (auto split: option.split)
    moreover have "distinct (map ca_id as)" using that by (simp add: accounts_ok_def)
    ultimately have "distinct (map ca_id (map (\<lambda>a. case map_of m (ca_id a) of
        None \<Rightarrow> a | Some pct \<Rightarrow> a\<lparr>ca_pct := pct\<rparr>) as))" by (simp only:)
    with that show ?thesis by (auto simp: accounts_ok_def same simp del: map_map split: option.split)
  qed
  then show ?thesis unfolding recompute_all_ownership_def
    by (intro keeps_rules on_tables_write) simp_all
qed

lemma latest_for_investor_mem:
  assumes "scan_spec en" "get_latest_for_investor en i cls t = Some a"
  shows "a \<in> set (ft_accounts t) \<and> ca_investor a = i \<and> (\<forall>c. cls = Some c \<longrightarrow> ca_class a = c)"
proof -
  let ?f = "filter (\<lambda>a. ca_investor a = i \<and> (case cls of None \<Rightarrow> True | Some c \<Rightarrow> ca_class a = c))
      (scan en ca_id (ft_accounts t))"
  obtain rest where "sort_key (\<lambda>a. - ca_date a) ?f = a # rest"
    using assms(2) by (auto simp: get_latest_for_investor_def split: list.splits)
  then have "a \<in> set (sort_key (\<lambda>a. - ca_date a) ?f)" by (metis list.set_intros(1))
  with assms(1) show ?thesis by (auto split: option.splits)
qed

lemma latest_by_fund_mem:
  assumes "scan_spec en"
  shows "set (get_latest_by_fund en t) \<subseteq> set (ft_accounts t)"
    "distinct (map ca_id (ft_accounts t)) \<Longrightarrow> distinct (map ca_id (get_latest_by_fund en t))"
  using assms distinct_scan[OF assms, of ca_id ca_id "ft_accounts t"]
  by (auto simp: get_latest_by_fund_def distinct_map_filter)

lemma subscription_keeps:
  assumes col: "col_spec en" and scan: "scan_spec en" and am: "on_grid 2 amount"
  shows "keeps (on_accounts accounts_ok) (process_subscription en own who amount nav d pf ccy cls notes)"
proof -
  have pr: "proposal_ok \<lparr>ca_id = i, ca_investor = who, ca_class = cls,
        ca_beginning = (case e of Some a \<Rightarrow> ca_ending a | None \<Rightarrow> 0),
        ca_contributions = amount, ca_withdrawals = 0, ca_pnl = 0, ca_mgmt = 0, ca_perf = 0,
        ca_ending = (case e of Some a \<Rightarrow> dadd (ca_ending a) amount | None \<Rightarrow> amount), ca_pct = 0,
        ca_shares = sh, ca_date = d\<rparr>"
    if "\<forall>a. e = Some a \<longrightarrow> snapshot_ok a" for e i sh
  proof -
    have "\<forall>a. e = Some a \<longrightarrow> on_grid 2 (ca_ending a)"
      using that by (auto simp: snapshot_ok_def snapshot_parts_def cents_def)
    then show ?thesis
      using am by (auto simp: proposal_ok_def snapshot_ok_def snapshot_parts_def cents_exact split: option.splits)
  qed
  have fact: "\<forall>a. get_latest_for_investor en who (Some cls) t = Some a \<longrightarrow> snapshot_ok a"
    if "accounts_ok (ft_accounts t)" for t :: "'a capital_tables_scheme"
    using that by (auto simp: accounts_ok_def dest!: latest_for_investor_mem[OF scan])
  show ?thesis
    unfolding process_subscription_def
    by (intro keeps_bind[OF keeps_basic(4)] keeps_read_fact[where F = "\<lambda>e. \<forall>a. e = Some a \<longrightarrow> snapshot_ok a"]
        keeps_bind[OF on_tables_basic(3)] keeps_then insert_account_keeps[OF col] pr insert_txn_frame
        keeps_option keeps_basic keeps_when book_frame recompute_keeps on_tables_basic)
      (use fact in \<open>auto simp: on_tables_def\<close>)
qed

lemma redemption_keeps:
  assumes col: "col_spec en" and scan: "scan_spec en" and am: "on_grid 2 amount"
  shows "keeps (on_accounts accounts_ok) (process_redemption en own who amount nav d pf ccy cls notes)"
proof -
  have pr: "proposal_ok \<lparr>ca_id = i, ca_investor = who, ca_class = ca_class a, ca_beginning = ca_ending a,
          ca_contributions = 0, ca_withdrawals = amount, ca_pnl = 0, ca_mgmt = 0, ca_perf = 0,
          ca_ending = dsub (ca_ending a) amount, ca_pct = 0, ca_shares = sh, ca_date = d\<rparr>"
    if "snapshot_ok a" for a i sh
  proof -
    have "on_grid 2 (ca_ending a)" using that by (auto simp: snapshot_ok_def snapshot_parts_def cents_def)
    then show ?thesis
      using am by (auto simp: proposal_ok_def snapshot_ok_def snapshot_parts_def cents_exact)
  qed
  have fact: "\<forall>a. get_latest_for_investor en who (Some cls) t = Some a \<longrightarrow> snapshot_ok a"
    if "accounts_ok (ft_accounts t)" for t :: "'a capital_tables_scheme"
    using that by (auto simp: accounts_ok_def dest!: latest_for_investor_mem[OF scan])
  show ?thesis
    unfolding process_redemption_def Let_def
    by (intro keeps_read_fact[where F = "\<lambda>e. \<forall>a. e = Some a \<longrightarrow> snapshot_ok a"] keeps_option keeps_if
        keeps_bind[OF on_tables_basic(3)] keeps_then insert_account_keeps[OF col] pr insert_txn_frame
        keeps_basic keeps_when book_frame recompute_keeps on_tables_basic)
      (use fact in \<open>auto simp: on_tables_def\<close>)
qed

text \<open>The daily allocation: what is looked up for an account is what was computed for it.\<close>

lemma dict_get_mem: "dict_get m k = Inr v \<Longrightarrow> (k, v) \<in> set m"
  by (auto simp: dict_get_def dest: map_of_SomeD split: option.splits)

lemma pnl_of_account:
  assumes books: "list_all2 (booked dadd) (map (\<lambda>a. (ca_id a, ca_ending a, ca_pct a)) as) pnl"
    and d: "distinct (map ca_id as)" and a: "a \<in> set as" and got: "dict_get pnl (ca_id a) = Inr (alloc, cap)"
  shows "cap = dadd (ca_ending a) alloc \<and> on_grid 2 alloc"
proof -
  from dict_get_mem[OF got] obtain k where k: "k < length pnl" "pnl ! k = (ca_id a, alloc, cap)"
    by (auto simp: in_set_conv_nth)
  have len: "length pnl = length as" using list_all2_lengthD[OF books] by simp
  have b: "booked dadd (ca_id (as ! k), ca_ending (as ! k), ca_pct (as ! k)) (ca_id a, alloc, cap)"
    using list_all2_nthD2[OF books k(1)] k len by simp
  then have "ca_id (as ! k) = ca_id a" by (simp add: booked_def)
  moreover have "inj_on ca_id (set as)" using d by (simp add: distinct_map)
  ultimately have "as ! k = a" using a k(1) len by (auto dest: inj_onD)
  with b show ?thesis by (simp add: booked_def)
qed

lemma allocate_daily_keeps:
  assumes col: "col_spec en" and scan: "scan_spec en"
    and g: "on_grid 2 fund_pnl" "on_grid 2 mgmt" "on_grid 2 perf" "fees_on_grid fees"
  shows "keeps (on_accounts accounts_ok) (allocate_daily en fund_pnl mgmt perf nav d fees)"
proof -
  let ?F = "\<lambda>as. (\<forall>a\<in>set as. snapshot_ok a) \<and> distinct (map ca_id as)"
  have snap: "keeps (on_accounts accounts_ok) (daily_snapshot en d nav pnl charges own a)"
    if F: "?F as" and a: "a \<in> set as"
      and pnl: "allocate_pnl (map (\<lambda>a. (ca_id a, ca_ending a, ca_pct a)) as) fund_pnl = Inr pnl"
      and acc: "mapE (\<lambda>a. bindE (dict_get pnl (ca_id a)) (\<lambda>(_, cap). Inr (ca_class a, ca_id a, cap, ca_pct a))) as = Inr accounts"
      and fee: "all_fees fees accounts mgmt perf = Inr charges" for as pnl accounts charges own a
  proof -
    have cents: "cents (ca_ending b)" if "b \<in> set as" for b
      using F that by (auto simp: snapshot_ok_def snapshot_parts_def)
    have books: "list_all2 (booked dadd) (map (\<lambda>a. (ca_id a, ca_ending a, ca_pct a)) as) pnl"
      by (rule allocate_books[OF pnl[unfolded allocate_pnl_def] g(1)]) (auto simp: cents_fix28 cents)
    let ?left = "\<lambda>i cap. \<exists>alloc. dict_get pnl i = Inr (alloc, cap)"
    have "\<forall>(c, i, cap, pct)\<in>set accounts. fix28 cap = cap \<and> ?left i cap"
    proof -
      have "fix28 cap = cap \<and> ?left i cap" if x: "(c, i, cap, pct) \<in> set accounts" for c i cap pct
      proof -
        from mapE_mem[OF acc x] obtain b alloc where b: "b \<in> set as" "dict_get pnl (ca_id b) = Inr (alloc, cap)" "i = ca_id b"
          by (auto simp: bindE_Inr_iff)
        then have "cap = dadd (ca_ending b) alloc" using pnl_of_account[OF books _ b(1,2)] F by simp
        with b show ?thesis by (auto simp: dadd_def)
      qed
      then show ?thesis by auto
    qed
    note charged = all_fees_charged[OF fee g(2-4) this]
    have "proposal_ok \<lparr>ca_id = i, ca_investor = ca_investor a, ca_class = ca_class a, ca_beginning = ca_ending a,
           ca_contributions = 0, ca_withdrawals = 0, ca_pnl = alloc, ca_mgmt = mfee, ca_perf = pfee,
           ca_ending = final, ca_pct = pct, ca_shares = ca_shares a, ca_date = d\<rparr>"
      if al: "dict_get pnl (ca_id a) = Inr (alloc, cap)" and fe: "dict_get charges (ca_id a) = Inr (mfee, pfee, final)"
      for i alloc cap mfee pfee final pct
    proof -
      have p: "cap = dadd (ca_ending a) alloc" "on_grid 2 alloc" using pnl_of_account[OF books _ a al] F by auto
      from charged dict_get_mem[OF fe] al have fin: "final = dsub (dsub cap mfee) pfee" "on_grid 2 mfee" "on_grid 2 pfee"
        by (auto simp: charged_def)
      have e: "on_grid 2 (ca_ending a)" using cents[OF a] by (simp add: cents_def)
      have "final = ca_ending a + alloc - mfee - pfee"
        if c: "cents alloc" "cents mfee" "cents pfee" "cents final"
      proof -
        have exact: "fix28 x = x" if "on_grid 2 x" "\<bar>x\<bar> \<le> 10 ^ 17" for x
          using that by (intro fix28_exact[of 2]) auto
        have b: "\<bar>ca_ending a\<bar> < 10 ^ 16" "\<bar>alloc\<bar> < 10 ^ 16" "\<bar>mfee\<bar> < 10 ^ 16" "\<bar>pfee\<bar> < 10 ^ 16"
          using c cents[OF a] by (auto simp: cents_def)
        have "dadd (ca_ending a) alloc = ca_ending a + alloc"
          unfolding dadd_def by (rule exact) (use b e p(2) in auto)
        moreover have "dsub (ca_ending a + alloc) mfee = ca_ending a + alloc - mfee"
          unfolding dsub_def by (rule exact) (use b e p(2) fin in auto)
        moreover have "dsub (ca_ending a + alloc - mfee) pfee = ca_ending a + alloc - mfee - pfee"
          unfolding dsub_def by (rule exact) (use b e p(2) fin in auto)
        ultimately show ?thesis by (simp add: fin p)
      qed
      moreover have "on_grid 2 final" unfolding fin p using e p(2) fin by auto
      ultimately show ?thesis
        using e p(2) fin(2,3) by (auto simp: proposal_ok_def snapshot_ok_def snapshot_parts_def)
    qed
    then show ?thesis
      unfolding daily_snapshot_def daily_txn_def Let_def
      by ((intro keeps_lift_fact; clarsimp split: prod.splits)+,
          intro keeps_bind[OF on_tables_basic(3)] keeps_then insert_account_keeps[OF col]
            insert_txn_frame keeps_when keeps_basic)
  qed
  have fact: "?F (get_latest_by_fund en t)" if "accounts_ok (ft_accounts t)" for t :: "'a capital_tables_scheme"
    using that latest_by_fund_mem[OF scan, of t] by (auto simp: accounts_ok_def)
  show ?thesis
    unfolding allocate_daily_def
    by (intro keeps_read_fact[where F = ?F] keeps_if keeps_lift_fact keeps_basic keeps_then keeps_for
        on_tables_basic snap)
      (use fact in \<open>auto simp: on_tables_def\<close>)
qed

section \<open>The service as a command system\<close>

datatype capital_cmd =
    CapitalSubscribe bool uuid dec dec date "uuid option" string string "string option"
  | CapitalRedeem bool uuid dec dec date "uuid option" string string "string option"
  | CapitalDaily dec dec dec dec date "(string \<times> dec \<times> dec) list option"

fun capital_exec :: "ledger_env \<Rightarrow> capital_cmd \<Rightarrow> capital_tables session \<Rightarrow> capital_tables session" where
  "capital_exec en (CapitalSubscribe own who am nav d pf ccy cls notes) s =
     fst (request (process_subscription en own who am nav d pf ccy cls notes) s)"
| "capital_exec en (CapitalRedeem own who am nav d pf ccy cls notes) s =
     fst (request (process_redemption en own who am nav d pf ccy cls notes) s)"
| "capital_exec en (CapitalDaily pnl mgmt perf nav d fees) s =
     fst (request (allocate_daily en pnl mgmt perf nav d fees) s)"

fun capital_legal :: "capital_cmd \<Rightarrow> bool" where
  "capital_legal (CapitalSubscribe own who am nav d pf ccy cls notes) \<longleftrightarrow> on_grid 2 am"
| "capital_legal (CapitalRedeem own who am nav d pf ccy cls notes) \<longleftrightarrow> on_grid 2 am"
| "capital_legal (CapitalDaily pnl mgmt perf nav d fees) \<longleftrightarrow>
     on_grid 2 pnl \<and> on_grid 2 mgmt \<and> on_grid 2 perf \<and> fees_on_grid fees"

definition empty_capital :: "capital_tables session" where
  "empty_capital =
     (let t = \<lparr>ft_balances = [], ft_journal = [], ft_settlements = [], ft_flows = [], ft_accounts = [], ft_txns = []\<rparr>
      in \<lparr>ss_work = t, ss_disk = t, ss_events = [], ss_draws = 0\<rparr>)"

lemma empty_capital_accounts: "P [] \<Longrightarrow> on_accounts P empty_capital"
  by (simp add: empty_capital_def Let_def on_tables_def)

interpretation capital: command_system "capital_exec en" "\<lambda>c. col_spec en \<and> scan_spec en \<and> capital_legal c"
  "on_accounts accounts_ok" for en
proof
  fix c and s :: "capital_tables session"
  assume legal: "col_spec en \<and> scan_spec en \<and> capital_legal c" and s: "on_accounts accounts_ok s"
  show "on_accounts accounts_ok (capital_exec en c s)"
    using legal
    by (cases c) (auto intro!: keeps_fst[OF on_tables_request s] subscription_keeps redemption_keeps allocate_daily_keeps)
qed

section \<open>What is committed of the ownership\<close>

definition unowned :: "capital_account list \<Rightarrow> bool" where
  "unowned as \<longleftrightarrow> (\<forall>a\<in>set as. ca_pct a = 0 \<and> ca_pnl a = 0)"

definition profitless :: "capital_account list \<Rightarrow> bool" where
  "profitless as \<longleftrightarrow> (\<forall>a\<in>set as. ca_pnl a = 0)"

abbreviation on_disk :: "(capital_account list \<Rightarrow> bool) \<Rightarrow> 'a capital_tables_scheme session \<Rightarrow> bool" where
  "on_disk P s \<equiv> P (ft_accounts (ss_disk s))"

lemma insert_account_when:
  assumes "\<And>r as. stored_account en a = Inr r \<Longrightarrow> P as \<Longrightarrow> P (as @ [r])"
  shows "keeps (on_accounts P) (insert_account en a)"
  unfolding insert_account_def
  by (intro keeps_lift_fact keeps_rules on_tables_write) (simp add: assms)

lemma stored_zero:
  assumes "col_spec en" "stored_account en a = Inr r"
  shows "ca_pct a = 0 \<Longrightarrow> ca_pct r = 0" "ca_pnl a = 0 \<Longrightarrow> ca_pnl r = 0"
proof -
  have col: "y = 0" if "le_col en p k 0 = Inr y" for p k y using col_specD(3)[OF assms(1) that] by simp
  show "ca_pct a = 0 \<Longrightarrow> ca_pct r = 0" "ca_pnl a = 0 \<Longrightarrow> ca_pnl r = 0"
    using assms(2) by (auto simp: stored_account_def bindE_Inr_iff dest: col)
qed

lemma disk_tail:
  "triple (on_accounts P) (thenS (recompute_all_ownership en own d) (thenS (emit en topic ev) (retS x)))
     (\<lambda>_. on_disk P) (on_disk P)"
proof (rule triple_pre)
  show "keeps (on_disk P) (thenS (recompute_all_ownership en own d) (thenS (emit en topic ev) (retS x)))"
    unfolding recompute_all_ownership_def emit_def
    by (intro keeps_rules) (auto simp: triple_def readT_def writeT_def split: option.split)
qed (simp add: on_tables_def)

lemma prefix_keeps:
  "keeps (on_accounts P) m \<Longrightarrow> triple (on_accounts P) m (\<lambda>_. on_accounts P) (on_disk P)"
  by (erule triple_conseq) (simp_all add: on_tables_def)

lemma prefix_then:
  "keeps (on_accounts P) m \<Longrightarrow> triple (on_accounts P) n (\<lambda>_. on_disk P) (on_disk P) \<Longrightarrow>
     triple (on_accounts P) (thenS m n) (\<lambda>_. on_disk P) (on_disk P)"
  by (rule triple_then[OF prefix_keeps])

lemma prefix_bind:
  "keeps (on_accounts P) m \<Longrightarrow> (\<And>x. triple (on_accounts P) (n x) (\<lambda>_. on_disk P) (on_disk P)) \<Longrightarrow>
     triple (on_accounts P) (bindS m n) (\<lambda>_. on_disk P) (on_disk P)"
  by (rule triple_bind[OF prefix_keeps])

lemma prefix_raise: "triple (on_accounts P) (raiseS e) (\<lambda>_. on_disk P) (on_disk P)"
  by (auto simp: triple_def on_tables_def)

lemma on_accounts_request:
  assumes "triple (on_accounts P) m (\<lambda>_. on_disk P) (on_disk P)" "on_accounts P s"
  shows "on_accounts P (fst (request m s))"
proof (cases "m s")
  case (Pair s' r)
  with tripleD[OF assms, of s'] have "on_disk P s'" by (cases r) auto
  with Pair show ?thesis by (simp add: request_def on_tables_def)
qed

lemma subscription_disk:
  assumes "\<And>a r as. ca_pct a = 0 \<Longrightarrow> ca_pnl a = 0 \<Longrightarrow> ca_investor a = who \<Longrightarrow> stored_account en a = Inr r \<Longrightarrow> P as \<Longrightarrow> P (as @ [r])"
  shows "triple (on_accounts P) (process_subscription en own who amount nav d pf ccy cls notes) (\<lambda>_. on_disk P) (on_disk P)"
  unfolding process_subscription_def
  by (intro prefix_bind[OF keeps_basic(4)] prefix_bind[OF on_tables_basic(1)] prefix_bind[OF on_tables_basic(3)]
      prefix_then[OF insert_account_when] prefix_then[OF insert_txn_frame] prefix_then[OF keeps_option] disk_tail
      keeps_basic keeps_when book_frame) (rule assms; simp)

lemma redemption_disk:
  assumes "\<And>a r as. ca_pct a = 0 \<Longrightarrow> ca_pnl a = 0 \<Longrightarrow> stored_account en a = Inr r \<Longrightarrow> P as \<Longrightarrow> P (as @ [r])"
  shows "triple (on_accounts P) (process_redemption en own who amount nav d pf ccy cls notes) (\<lambda>_. on_disk P) (on_disk P)"
  unfolding process_redemption_def Let_def
  by (intro prefix_bind[OF on_tables_basic(1)] prefix_bind[OF on_tables_basic(3)] triple_option triple_if prefix_raise
      prefix_then[OF insert_account_when] prefix_then[OF insert_txn_frame] prefix_then[OF keeps_option] disk_tail
      keeps_basic keeps_when book_frame) (rule assms; simp)

fun capital_http :: "capital_cmd \<Rightarrow> bool" where
  "capital_http (CapitalDaily pnl mgmt perf nav d fees) \<longleftrightarrow> False"
| "capital_http _ \<longleftrightarrow> True"

interpretation http_capital: command_system "capital_exec en" "\<lambda>c. col_spec en \<and> capital_http c"
  "on_accounts unowned" for en
proof
  fix c and s :: "capital_tables session"
  assume legal: "col_spec en \<and> capital_http c" and s: "on_accounts unowned s"
  have grow: "unowned (as @ [r])"
    if "ca_pct a = 0" "ca_pnl a = 0" "stored_account en a = Inr r" "unowned as" for a r as
    using that legal stored_zero[of en a r] by (auto simp: unowned_def)
  show "on_accounts unowned (capital_exec en c s)"
    using legal
    by (cases c) (auto intro!: on_accounts_request[OF _ s] subscription_disk redemption_disk grow)
qed

lemma dsum_zeros: "\<forall>x\<in>set xs. x = 0 \<Longrightarrow> dsum xs = 0"
proof -
  have "\<forall>x\<in>set xs. x = 0 \<Longrightarrow> foldl dadd 0 xs = 0" by (induction xs) (simp_all add: dadd_def)
  then show "\<forall>x\<in>set xs. x = 0 \<Longrightarrow> dsum xs = 0" by (simp add: dsum_def)
qed

lemma daily_unowned:
  assumes col: "col_spec en" and scan: "scan_spec en" and s: "on_accounts unowned s"
  shows "on_accounts profitless (fst (allocate_daily en pnl mgmt perf nav d fees s))"
proof -
  let ?cur = "get_latest_by_fund en (ss_work s)"
  have zero: "\<forall>a\<in>set ?cur. ca_pct a = 0"
    using s latest_by_fund_mem(1)[OF scan] by (fastforce simp: on_tables_def unowned_def)
  have none: "allocate_pnl (map (\<lambda>a. (ca_id a, ca_ending a, ca_pct a)) ?cur) pnl =
      Inr (map (\<lambda>a. (ca_id a, 0, ca_ending a)) ?cur)"
  proof -
    have "dsum (map (\<lambda>(i, cap, pct). pct) (map (\<lambda>a. (ca_id a, ca_ending a, ca_pct a)) ?cur)) = 0"
      by (rule dsum_zeros) (use zero in auto)
    then show ?thesis by (simp add: allocate_pnl_def allocate_def Let_def comp_def)
  qed
  have snap: "keeps (on_accounts profitless)
      (daily_snapshot en d nav (map (\<lambda>a. (ca_id a, 0, ca_ending a)) ?cur) charges own a)" for charges own a
  proof -
    have grow: "profitless (as @ [r])"
      if "ca_pnl x = 0" "stored_account en x = Inr r" "profitless as" for x r as
      using that stored_zero(2)[OF col] by (auto simp: profitless_def)
    have zero_alloc: "alloc = 0" if "dict_get (map (\<lambda>a. (ca_id a, 0 :: dec, ca_ending a)) ?cur) i = Inr (alloc, cap)" for i alloc cap
      using dict_get_mem[OF that] by auto
    show ?thesis
      unfolding daily_snapshot_def daily_txn_def Let_def
      by ((intro keeps_lift_fact; clarsimp dest!: zero_alloc split: prod.splits)+,
          intro keeps_bind[OF on_tables_basic(3)] keeps_then insert_account_when
            insert_txn_frame keeps_when keeps_basic, rule grow; simp)
  qed
  have s': "on_accounts profitless s" using s by (auto simp: on_tables_def unowned_def profitless_def)
  have rest: "keeps (on_accounts profitless) k \<Longrightarrow> on_accounts profitless (fst (k s))" for k :: "('a capital_tables_scheme, nat) op"
    using keeps_fst[of "on_accounts profitless" k s] s' by blast
  show ?thesis
    unfolding allocate_daily_def session_binds none
    by (rule rest) (intro keeps_if keeps_lift_fact keeps_basic keeps_then keeps_for on_tables_basic;
        clarsimp simp: snap)
qed

section \<open>What a subscription adds\<close>

text \<open>The result of a sequence is that of its last computation.\<close>

lemma result_bind:
  "(\<And>y. triple (\<lambda>_. True) (k y) (\<lambda>x _. R x) (\<lambda>_. True)) \<Longrightarrow>
     triple (\<lambda>_. True) (bindS m k) (\<lambda>x _. R x) (\<lambda>_. True)"
  by (rule triple_bind[where R = "\<lambda>_ _. True"]) (auto simp: triple_def split: prod.splits sum.splits)

lemma result_then:
  "triple (\<lambda>_. True) n (\<lambda>x _. R x) (\<lambda>_. True) \<Longrightarrow> triple (\<lambda>_. True) (thenS m n) (\<lambda>x _. R x) (\<lambda>_. True)"
  unfolding thenS_def by (rule result_bind)

lemma subscription_adds:
  fixes s :: "'a capital_tables_scheme session"
  assumes col: "col_spec en" and g: "on_grid 2 amount"
    and old: "\<forall>a. get_latest_for_investor en who (Some cls) (ss_work s) = Some a \<longrightarrow> cents (ca_ending a)"
    and run: "process_subscription en own who amount nav d pf ccy cls notes s = (s', Inr i)"
  shows "\<exists>r. ft_accounts (ss_disk s') = ft_accounts (ss_work s) @ [r] \<and> ca_id r = i \<and> ca_investor r = who \<and>
    ca_class r = cls \<and> ca_date r = d \<and> ca_pct r = 0 \<and>
    ca_ending r = (case get_latest_for_investor en who (Some cls) (ss_work s) of
      Some a \<Rightarrow> ca_ending a + amount | None \<Rightarrow> amount)"
proof -
  let ?e = "get_latest_for_investor en who (Some cls) (ss_work s)"
  let ?i = "le_uuid en (ss_draws s)" and ?s = "s\<lparr>ss_draws := Suc (ss_draws s)\<rparr>"
  from run obtain sh where sh: "compute_subscription_shares amount nav = Inr sh"
    by (cases "compute_subscription_shares amount nav") (auto simp: process_subscription_def bindS_def)
  let ?a = "\<lparr>ca_id = ?i, ca_investor = who, ca_class = cls,
        ca_beginning = (case ?e of Some a \<Rightarrow> ca_ending a | None \<Rightarrow> 0),
        ca_contributions = amount, ca_withdrawals = 0, ca_pnl = 0, ca_mgmt = 0, ca_perf = 0,
        ca_ending = (case ?e of Some a \<Rightarrow> dadd (ca_ending a) amount | None \<Rightarrow> amount), ca_pct = 0,
        ca_shares = (case ?e of Some a \<Rightarrow> dadd (ca_shares a) sh | None \<Rightarrow> sh), ca_date = d\<rparr>"
  define rest :: "unit \<Rightarrow> ('a capital_tables_scheme, uuid) op" where "rest = (\<lambda>_. bindS (new_uuid en) (\<lambda>txn.
     thenS (insert_txn en \<lparr>ct_id = txn, ct_account = ?i, ct_investor = who, ct_type = SubscriptionTxn,
        ct_amount = amount, ct_shares = sh, ct_nav = nav, ct_date = d, ct_notes = notes\<rparr>)
    (thenS (case pf of None \<Rightarrow> retS ()
            | Some p \<Rightarrow> whenS (le_cash en) (credit en p ccy amount SubscriptionFlow (Some txn)))
    (thenS (recompute_all_ownership en own d)
    (thenS (emit en (shared_topic ''capital.subscription'') (CapitalSubscription who amount sh nav cls d ?i))
       (retS ?i))))))"
  have run': "bindS (insert_account en ?a) rest ?s = (s', Inr i)"
    using run sh by (simp add: process_subscription_def rest_def thenS_def bindS_def[of "liftS _"])
  show ?thesis
  proof (cases "stored_account en ?a")
    case (Inl e)
    with run' show ?thesis by (simp add: insert_account_def bindS_def)
  next
    case (Inr r)
    let ?t = "(ss_work s)\<lparr>ft_accounts := ft_accounts (ss_work s) @ [r]\<rparr>"
    let ?s1 = "?s\<lparr>ss_work := ?t, ss_disk := ?t\<rparr>"
    have ins: "insert_account en ?a ?s = (?s1, Inr ())"
      using run' Inr by (cases "find_row ca_id ?i (ft_accounts (ss_work s))")
        (auto simp: insert_account_def bindS_def thenS_def)
    then have run2: "rest () ?s1 = (s', Inr i)" using run' by (simp add: bindS_eval)
    let ?P = "\<lambda>as. as = ft_accounts (ss_work s) @ [r]"
    have "triple (on_accounts ?P) (rest ()) (\<lambda>_. on_disk ?P) (on_disk ?P)"
      unfolding rest_def
      by (intro prefix_bind[OF on_tables_basic(3)] prefix_then[OF insert_txn_frame] prefix_then[OF keeps_option]
          disk_tail keeps_basic keeps_when book_frame)
    from tripleD(1)[OF this _ run2] have disk: "ft_accounts (ss_disk s') = ft_accounts (ss_work s) @ [r]"
      by (simp add: on_tables_def)
    have "triple (\<lambda>_. True) (rest ()) (\<lambda>x _. x = ?i) (\<lambda>_. True)"
      unfolding rest_def by (intro result_bind result_then triple_ret refl)
    from tripleD(1)[OF this _ run2] have i: "i = ?i" by simp
    have "\<forall>x\<in>set (snapshot_parts ?a). on_grid 2 x"
      using g old by (auto simp: snapshot_parts_def cents_def split: option.split)
    note st = stored_account_ok[OF col Inr this]
    have am: "cents amount" using st by (simp add: snapshot_parts_def)
    have "snapshot_parts r = snapshot_parts ?a" using st by blast
    then have "ca_ending r = (case ?e of Some a \<Rightarrow> dadd (ca_ending a) amount | None \<Rightarrow> amount)"
      by (simp add: snapshot_parts_def)
    then have fin: "ca_ending r = (case ?e of Some a \<Rightarrow> ca_ending a + amount | None \<Rightarrow> amount)"
      using old am by (cases ?e) (auto simp: cents_exact(1))
    have "ca_id r = ?i" "ca_investor r = who" "ca_class r = cls" "ca_date r = d" using st by simp_all
    moreover have "ca_pct r = 0" using stored_zero(1)[OF col Inr] by simp
    ultimately show ?thesis using disk fin i by blast
  qed
qed

section \<open>Properties\<close>

text \<open>C12. Every snapshot accounts for its capital.  After any sequence of subscriptions, redemptions and
  daily allocations in whole cents, whatever failed on the way, every committed snapshot holds
  amounts of the column's range and its ending capital is its beginning capital plus contributions
  and profit less withdrawals and both fees.
\<close>

theorem snapshots_account_for_capital:
  assumes "col_spec en" "scan_spec en" "\<forall>c\<in>set cs. capital_legal c"
  shows "\<forall>a\<in>set (ft_accounts (ss_disk (fold (capital_exec en) cs empty_capital))). snapshot_ok a"
proof -
  have "\<forall>c\<in>set cs. col_spec en \<and> scan_spec en \<and> capital_legal c" using assms by blast
  from capital.run_keeps[OF this empty_capital_accounts] show ?thesis
    by (simp add: accounts_ok_def on_tables_def)
qed

lemma demo_scan: "scan_spec demo_ledger"
  by (simp add: scan_spec_def demo_ledger_def)

theorem snapshots_account_for_capital_witness:
  "list_all snapshot_ok (ft_accounts (ss_disk (fold (capital_exec demo_ledger)
     [CapitalSubscribe True 5 1000 10 738886 (Some 7) ''USD'' ''default'' None,
      CapitalDaily 50 2 1 (21 / 2) 738886 None,
      CapitalRedeem True 5 300 (21 / 2) 738887 (Some 7) ''USD'' ''default'' None] empty_capital)))"
  unfolding list_all_iff
  by (rule snapshots_account_for_capital[OF demo_col demo_scan]) (simp add: fees_on_grid_def)

text \<open>The first day's profit is lost.  Ownership is recomputed after a subscription or redemption but
  only flushed, so that after any sequence of such requests the committed ownership of every
  snapshot is zero; the daily allocation that follows then allocates no profit to anyone, whatever
  the fund earned.
\<close>

theorem first_profit_is_lost:
  assumes "col_spec en" "scan_spec en" "\<forall>c\<in>set cs. capital_http c"
  shows "let s = fold (capital_exec en) cs empty_capital
    in (\<forall>a\<in>set (ft_accounts (ss_disk s)). ca_pct a = 0) \<and>
       (\<forall>a\<in>set (ft_accounts (ss_disk (fst (allocate_daily en pnl mgmt perf nav d fees s)))). ca_pnl a = 0)"
proof -
  have "\<forall>c\<in>set cs. col_spec en \<and> capital_http c" using assms by blast
  from http_capital.run_keeps[OF this empty_capital_accounts]
  have s: "on_accounts unowned (fold (capital_exec en) cs empty_capital)" by (simp add: unowned_def)
  from daily_unowned[OF assms(1,2) s, of pnl mgmt perf nav d fees] s show ?thesis
    by (simp add: Let_def on_tables_def unowned_def profitless_def)
qed

theorem first_profit_is_lost_witness:
  "let s = fold (capital_exec demo_ledger)
       [CapitalSubscribe True 5 1000 10 738886 (Some 7) ''USD'' ''default'' None] empty_capital
   in list_all (\<lambda>a. ca_pct a = 0) (ft_accounts (ss_disk s)) \<and>
      list_all (\<lambda>a. ca_pnl a = 0) (ft_accounts (ss_disk (fst (allocate_daily demo_ledger 50 2 1 (21 / 2) 738886 None s))))"
  unfolding list_all_iff by (rule first_profit_is_lost[OF demo_col demo_scan]) simp

text \<open>A full redemption may be refused.  Shares are issued rounded to six places but redeemed unrounded:
  an investor whose shares were rounded down cannot redeem the whole of the capital at the price it
  was subscribed at.
\<close>

theorem full_redemption_refused:
  assumes "get_latest_for_investor en who (Some cls) (ss_work s) = Some a" "0 < nav"
    and "compute_subscription_shares (ca_ending a) nav = Inr (ca_shares a)"
    and "ca_shares a < ddiv (ca_ending a) nav"
  shows "process_redemption en own who (ca_ending a) nav d pf ccy cls notes s = (s, Inl ValueError)"
proof -
  have "dsub (ca_shares a) (ddiv (ca_ending a) nav) < 0" using assms(4) by (simp add: dsub_def)
  with assms(1,2) show ?thesis by (simp add: process_redemption_def Let_def)
qed

definition demo_account :: capital_account where
  "demo_account = \<lparr>ca_id = 1, ca_investor = 5, ca_class = ''default'', ca_beginning = 0, ca_contributions = 100,
     ca_withdrawals = 0, ca_pnl = 0, ca_mgmt = 0, ca_perf = 0, ca_ending = 100, ca_pct = 0,
     ca_shares = 33333333 / 1000000, ca_date = 738886\<rparr>"

definition demo_capital :: "capital_tables session" where
  "demo_capital = (let t = (ss_work empty_capital)\<lparr>ft_accounts := [demo_account]\<rparr>
     in \<lparr>ss_work = t, ss_disk = t, ss_events = [], ss_draws = 1\<rparr>)"

lemma demo_latest:
  "get_latest_for_investor demo_ledger 5 (Some ''default'') (ss_work demo_capital) = Some demo_account"
  by (simp add: get_latest_for_investor_def demo_ledger_def scan_def demo_capital_def Let_def demo_account_def)

theorem full_redemption_refused_witness:
  "process_redemption demo_ledger True 5 100 3 738887 None ''USD'' ''default'' None demo_capital
     = (demo_capital, Inl ValueError)"
proof -
  define y where "y = ddiv 100 3"
  have y: "\<bar>y - 100 / 3\<bar> \<le> 1 / 100000000000000000000"
    using fix28_error[of "100 / 3"] by (simp add: y_def ddiv_def)
  have third: "33333333 / 1000000 < y" using y by linarith
  have "33333333 \<le> y * 1000000 + 1 / 2" "y * 1000000 + 1 / 2 < 33333334" using y by linarith+
  then have "\<lfloor>y * 1000000 + 1 / 2\<rfloor> = 33333333" by (intro floor_unique) simp_all
  then have "round_up (ddiv 100 3 * 10 ^ 6) = 33333333" using third by (simp add: round_up_def y_def)
  then have "compute_subscription_shares (ca_ending demo_account) 3 = Inr (ca_shares demo_account)"
    by (simp add: compute_subscription_shares_def quantize_upE_def Let_def demo_account_def)
  moreover have "ca_shares demo_account < ddiv (ca_ending demo_account) 3" using third by (simp add: demo_account_def y_def)
  ultimately have "process_redemption demo_ledger True 5 (ca_ending demo_account) 3 738887 None ''USD'' ''default'' None
      demo_capital = (demo_capital, Inl ValueError)"
    using full_redemption_refused[OF demo_latest] by simp
  then show ?thesis by (simp add: demo_account_def)
qed

definition investor_capital :: "ledger_env \<Rightarrow> uuid \<Rightarrow> 'a capital_tables_scheme \<Rightarrow> dec" where
  "investor_capital en who t =
     sum_list (map ca_ending (filter (\<lambda>a. ca_investor a = who) (get_latest_by_fund en t)))"

lemma investor_capital_rows:
  assumes "scan_spec en" "\<forall>a\<in>set (ft_accounts t). ca_investor a = who \<longrightarrow> ca_date a \<le> d"
    "\<exists>a\<in>set (ft_accounts t). ca_investor a = who \<and> ca_date a = d"
  shows "investor_capital en who t =
    sum_list (map ca_ending (filter (\<lambda>a. ca_investor a = who \<and> ca_date a = d) (ft_accounts t)))"
proof -
  have top: "(\<forall>b\<in>set (ft_accounts t). ca_investor b = ca_investor a \<longrightarrow> ca_date b \<le> ca_date a) \<longleftrightarrow> ca_date a = d"
    if "a \<in> set (ft_accounts t)" "ca_investor a = who" for a
    using assms(2,3) that by (auto intro: antisym)
  have "filter (\<lambda>a. ca_investor a = who) (get_latest_by_fund en t) =
      filter (\<lambda>a. ca_investor a = who \<and> ca_date a = d) (scan en ca_id (ft_accounts t))"
    unfolding get_latest_by_fund_def filter_filter
    by (rule filter_cong[OF refl]) (use top set_scan[OF assms(1)] in metis)
  moreover have "mset (map ca_ending (filter (\<lambda>a. ca_investor a = who \<and> ca_date a = d) (scan en ca_id (ft_accounts t)))) =
      mset (map ca_ending (filter (\<lambda>a. ca_investor a = who \<and> ca_date a = d) (ft_accounts t)))"
    by (simp only: mset_map mset_filter mset_scan[OF assms(1)])
  ultimately show ?thesis unfolding investor_capital_def by (simp only: sum_mset_sum_list[symmetric])
qed

text \<open>Two snapshots of one day are counted twice.  The latest snapshots of the fund are those of the
  latest date, and a second subscription on the same day leaves both of the day: the capital of the
  investor in the fund's latest snapshots grows by the old capital once more on top of the amount.
\<close>

theorem same_day_counted_twice:
  assumes "col_spec en" "scan_spec en" "on_grid 2 amount" "on_accounts accounts_ok s"
    and "get_latest_for_investor en who (Some cls) (ss_work s) = Some a" "ca_date a = d"
    and "\<forall>b\<in>set (ft_accounts (ss_work s)). ca_investor b = who \<longrightarrow> ca_date b \<le> d"
    and "process_subscription en own who amount nav d pf ccy cls notes s = (s', Inr i)"
  shows "investor_capital en who (ss_disk s') = investor_capital en who (ss_work s) + ca_ending a + amount"
proof -
  have a: "a \<in> set (ft_accounts (ss_work s))" "ca_investor a = who"
    using latest_for_investor_mem[OF assms(2,5)] by auto
  have "cents (ca_ending a)" using a assms(4) by (auto simp: on_tables_def accounts_ok_def snapshot_ok_def snapshot_parts_def)
  with subscription_adds[OF assms(1,3) _ assms(8)] assms(5) obtain r where
    r: "ft_accounts (ss_disk s') = ft_accounts (ss_work s) @ [r]" "ca_investor r = who" "ca_date r = d"
      "ca_ending r = ca_ending a + amount" by auto
  have "investor_capital en who (ss_work s) =
      sum_list (map ca_ending (filter (\<lambda>a. ca_investor a = who \<and> ca_date a = d) (ft_accounts (ss_work s))))"
    by (rule investor_capital_rows[OF assms(2,7)]) (use a assms(6) in auto)
  moreover have "investor_capital en who (ss_disk s') =
      sum_list (map ca_ending (filter (\<lambda>a. ca_investor a = who \<and> ca_date a = d) (ft_accounts (ss_disk s'))))"
    by (rule investor_capital_rows[OF assms(2)]) (use r a assms(6,7) in auto)
  ultimately show ?thesis by (simp add: r add.assoc)
qed

lemma bindS_lift: "bindS (liftS (Inr x)) k = k x"
  by (simp add: bindS_def fun_eq_iff)

lemma then_assoc:
  "thenS (bindS m f) n = bindS m (\<lambda>x. thenS (f x) n)"
  "thenS (thenS m u) n = thenS m (thenS u n)"
  by (auto simp: fun_eq_iff thenS_def bindS_def split: prod.split sum.split)

lemma insert_account_then:
  "stored_account en a = Inr r \<Longrightarrow> find_row ca_id (ca_id a) (ft_accounts (ss_work s)) = None \<Longrightarrow>
     thenS (insert_account en a) n s = n (s\<lparr>ss_work := (ss_work s)\<lparr>ft_accounts := ft_accounts (ss_work s) @ [r]\<rparr>,
       ss_disk := (ss_work s)\<lparr>ft_accounts := ft_accounts (ss_work s) @ [r]\<rparr>\<rparr>)"
  by (simp add: insert_account_def thenS_def bindS_def)

lemma insert_txn_then:
  "le_col en 18 2 (ct_amount x) = Inr am \<Longrightarrow> le_col en 18 6 (ct_shares x) = Inr sh \<Longrightarrow>
   le_col en 18 6 (ct_nav x) = Inr nav \<Longrightarrow> find_row ct_id (ct_id x) (ft_txns (ss_work s)) = None \<Longrightarrow>
     \<exists>t. thenS (insert_txn en x) n s = n (s\<lparr>ss_work := t, ss_disk := t\<rparr>) \<and>
       ft_accounts t = ft_accounts (ss_work s)"
  by (rule exI[of _ "(ss_work s)\<lparr>ft_txns := ft_txns (ss_work s) @ [x\<lparr>ct_amount := am, ct_shares := sh, ct_nav := nav\<rparr>]\<rparr>"])
    (simp add: insert_txn_def thenS_def bindS_def)

lemma recompute_then:
  "get_latest_by_fund en (ss_work s) \<noteq> [] \<Longrightarrow>
   recompute_ownership (map (\<lambda>a. (ca_id a, ca_ending a)) (get_latest_by_fund en (ss_work s))) = Inr own \<Longrightarrow>
   mapE (\<lambda>a. bindE (le_col en 8 6 (or_else (map_of own (ca_id a)) 0)) (\<lambda>pct. Inr (ca_id a, pct)))
     (filter (\<lambda>a. ca_date a = d) (get_latest_by_fund en (ss_work s))) = Inr pcts \<Longrightarrow>
   \<exists>s'. thenS (recompute_all_ownership en True d) n s = n s'"
  by (simp add: recompute_all_ownership_def thenS_def bindS_def) blast

lemma demo_store: "on_grid k x \<Longrightarrow> \<bar>x\<bar> < 10 ^ (p - k) \<Longrightarrow> le_col demo_ledger p k x = Inr x"
  by (rule col_store[OF demo_col])

lemma demo_subscribe:
  "\<exists>s' i. process_subscription demo_ledger True 5 50 10 738886 None ''USD'' ''default'' None demo_capital = (s', Inr i)"
proof -
  have sh: "compute_subscription_shares 50 10 = Inr 5"
    by (simp add: compute_subscription_shares_def quantize_upE_def ddiv_def exact_simps round_up_def Let_def)
  have g: "on_grid 6 (33333333 / 1000000)" using on_grid_of_int_div[of 6 33333333] by simp
  have s: "on_grid 6 (38333333 / 1000000)" using on_grid_of_int_div[of 6 38333333] by simp
  have sums: "dadd 100 50 = 150" "dadd (33333333 / 1000000) 5 = 38333333 / 1000000"
    using s by (auto simp: dadd_def exact_simps intro: fix28_exact)
  have own: "recompute_ownership [(1, 100), (2, 150)] = Inr [(1, 2 / 5), (2, 3 / 5)]"
    by (simp add: recompute_ownership_def dsum_def dec_defs exact_simps quantize_upE_def round_up_def Let_def)
  have pct: "on_grid 6 (2 / 5)" "on_grid 6 (3 / 5)"
    using on_grid_of_int_div[of 6 400000] on_grid_of_int_div[of 6 600000] by simp_all
  have rows: "ft_accounts (ss_work demo_capital) = [demo_account]" "ft_txns (ss_work demo_capital) = []"
    "ss_draws demo_capital = 1"
    by (simp_all add: demo_capital_def Let_def empty_capital_def)
  have env: "le_uuid demo_ledger n = int n + 1" "le_publish demo_ledger = Some (\<lambda>_ _. None)"
    "le_scan demo_ledger ids = [0..<length ids]" for n ids
    by (simp_all add: demo_ledger_def)
  have ids: "ca_id demo_account = 1" "ca_ending demo_account = 100" "ca_shares demo_account = 33333333 / 1000000"
    "ca_investor demo_account = 5" "ca_date demo_account = 738886"
    by (simp_all add: demo_account_def)
  let ?r = "\<lparr>ca_id = 2, ca_investor = 5, ca_class = ''default'', ca_beginning = 100, ca_contributions = 50,
      ca_withdrawals = 0, ca_pnl = 0, ca_mgmt = 0, ca_perf = 0, ca_ending = 150, ca_pct = 0,
      ca_shares = 38333333 / 1000000, ca_date = 738886\<rparr>"
  let ?x = "\<lparr>ct_id = 3, ct_account = 2, ct_investor = 5, ct_type = SubscriptionTxn, ct_amount = 50, ct_shares = 5,
      ct_nav = 10, ct_date = 738886, ct_notes = None\<rparr>"
  let ?rest = "thenS (recompute_all_ownership demo_ledger True 738886)
    (thenS (emit demo_ledger (shared_topic ''capital.subscription'') (CapitalSubscription 5 50 5 10 ''default'' 738886 2)) (retS (2 :: uuid)))"
  obtain s1 where s1: "ft_accounts (ss_work s1) = [demo_account, ?r]" "ft_txns (ss_work s1) = []"
    "process_subscription demo_ledger True 5 50 10 738886 None ''USD'' ''default'' None demo_capital =
       thenS (insert_txn demo_ledger ?x) ?rest s1"
    by (rule that[of "demo_capital\<lparr>ss_work := (ss_work demo_capital)\<lparr>ft_accounts := [demo_account, ?r]\<rparr>,
          ss_disk := (ss_work demo_capital)\<lparr>ft_accounts := [demo_account, ?r]\<rparr>, ss_draws := Suc (Suc (Suc 0))\<rparr>"])
      (simp_all add: process_subscription_def sh bindS_lift demo_latest insert_account_then stored_account_def
        demo_store sums g s ids rows env)
  have "\<exists>t. thenS (insert_txn demo_ledger ?x) ?rest s1 = ?rest (s1\<lparr>ss_work := t, ss_disk := t\<rparr>) \<and>
      ft_accounts t = ft_accounts (ss_work s1)"
    by (rule insert_txn_then) (simp_all add: demo_store s1)
  then obtain t where t: "thenS (insert_txn demo_ledger ?x) ?rest s1 = ?rest (s1\<lparr>ss_work := t, ss_disk := t\<rparr>)"
    "ft_accounts t = [demo_account, ?r]" using s1(1) by auto
  have latest: "get_latest_by_fund demo_ledger t = [demo_account, ?r]"
    by (simp add: get_latest_by_fund_def scan_def env t ids upt_rec)
  obtain s2 where "?rest (s1\<lparr>ss_work := t, ss_disk := t\<rparr>) = thenS (emit demo_ledger (shared_topic ''capital.subscription'')
      (CapitalSubscription 5 50 5 10 ''default'' 738886 2)) (retS (2 :: uuid)) s2"
    using recompute_then[of demo_ledger "s1\<lparr>ss_work := t, ss_disk := t\<rparr>" "[(1, 2 / 5), (2, 3 / 5)]" 738886
      "[(1, 2 / 5), (2, 3 / 5)]"] by (auto simp: latest own ids demo_store pct)
  then show ?thesis unfolding s1(3) t(1) by (simp add: emit_def env)
qed

theorem same_day_counted_twice_witness:
  "case process_subscription demo_ledger True 5 50 10 738886 None ''USD'' ''default'' None demo_capital of
     (s', Inr i) \<Rightarrow> investor_capital demo_ledger 5 (ss_disk s') = 250 | (s', Inl e) \<Rightarrow> False"
proof -
  have ok: "on_accounts accounts_ok demo_capital"
    by (simp add: on_tables_def demo_capital_def Let_def accounts_ok_def snapshot_ok_def snapshot_parts_def
        demo_account_def cents_def)
  have old: "investor_capital demo_ledger 5 (ss_work demo_capital) = 100"
    by (simp add: investor_capital_def get_latest_by_fund_def demo_ledger_def scan_def demo_capital_def
        Let_def demo_account_def)
  obtain s' i where run: "process_subscription demo_ledger True 5 50 10 738886 None ''USD'' ''default'' None demo_capital = (s', Inr i)"
    using demo_subscribe by blast
  then show ?thesis
    using same_day_counted_twice[OF demo_col demo_scan _ ok demo_latest _ _ run] old
    by (simp add: demo_capital_def Let_def demo_account_def)
qed

end
