(* ===== verification/FundTerms.thy ===== *)
theory FundTerms
  imports BusinessDays Ledger
begin

text \<open>
  The pure core of the investor operations (\<open>app/modules/investor_operations/core\<close>): dealing dates,
  lock-up and notice periods (\<open>fund_terms.py\<close>) and the redemption gate (\<open>gate_engine.py\<close>).
\<close>

datatype redemption_frequency = Monthly | Quarterly | Annual

definition redemption_frequency_of :: "string \<Rightarrow> redemption_frequency res" where
  "redemption_frequency_of s =
     (if s = ''monthly'' then Inr Monthly else if s = ''quarterly'' then Inr Quarterly
      else if s = ''annual'' then Inr Annual else Inl ValueError)"

section \<open>Dates\<close>

definition add_months :: "date \<Rightarrow> int \<Rightarrow> date res" where
  "add_months d n =
     (let month = month_of d - 1 + n; y = year_of d + month div 12; m = month mod 12 + 1
      in date_of y m (min (day_of d) (month_days y m)))"

definition resolve_dealing_day :: "int \<Rightarrow> int \<Rightarrow> int \<Rightarrow> date res" where
  "resolve_dealing_day y m dealing_day =
     (if dealing_day = - 1 then date_of y m (month_days y m)
      else date_of y m (min dealing_day (month_days y m)))"

definition adjust_to_business_day :: "date \<Rightarrow> date res" where
  "adjust_to_business_day d =
     (if weekday d = 5 then add_days d (- 1) else if weekday d = 6 then add_days d (- 2) else Inr d)"

fun monthly_loop :: "int \<Rightarrow> int \<Rightarrow> int \<Rightarrow> nat \<Rightarrow> date list res" where
  "monthly_loop y m dealing_day 0 = Inr []"
| "monthly_loop y m dealing_day (Suc k) =
     bindE (resolve_dealing_day y m dealing_day) (\<lambda>d.
     bindE (if 12 < m + 1 then monthly_loop (y + 1) 1 dealing_day k else monthly_loop y (m + 1) dealing_day k)
       (\<lambda>ds. Inr (d # ds)))"

definition monthly_candidates :: "date \<Rightarrow> int \<Rightarrow> nat \<Rightarrow> date list res" where
  "monthly_candidates from dealing_day months = monthly_loop (year_of from) (month_of from) dealing_day months"

definition quarterly_candidates :: "date \<Rightarrow> int \<Rightarrow> date list res" where
  "quarterly_candidates from dealing_day =
     mapE (\<lambda>(y, m). resolve_dealing_day y m dealing_day)
       (concat (map (\<lambda>y. map (\<lambda>m. (y, m)) [3, 6, 9, 12]) [year_of from, year_of from + 1]))"

definition annual_candidates :: "date \<Rightarrow> int \<Rightarrow> date list res" where
  "annual_candidates from dealing_day =
     mapE (\<lambda>y. resolve_dealing_day y 12 dealing_day) [year_of from, year_of from + 1, year_of from + 2]"

text \<open>The loop over the candidates; the first argument is the candidate seen last.\<close>

fun pick_dealing :: "date \<Rightarrow> date \<Rightarrow> date list \<Rightarrow> date res" where
  "pick_dealing seen from [] = adjust_to_business_day seen"
| "pick_dealing seen from (d # ds) =
     bindE (adjust_to_business_day d) (\<lambda>adj. if from \<le> adj then Inr adj else pick_dealing d from ds)"

definition compute_next_dealing_date :: "redemption_frequency \<Rightarrow> int \<Rightarrow> date \<Rightarrow> date res" where
  "compute_next_dealing_date freq dealing_day from =
     bindE (case freq of
         Monthly \<Rightarrow> monthly_candidates from dealing_day 3
       | Quarterly \<Rightarrow> quarterly_candidates from dealing_day
       | Annual \<Rightarrow> annual_candidates from dealing_day)
       (\<lambda>ds. pick_dealing (last ds) from ds)"

definition check_lock_up :: "date \<Rightarrow> int \<Rightarrow> date \<Rightarrow> bool res" where
  "check_lock_up subscribed months requested =
     bindE (add_months subscribed months) (\<lambda>expiry. Inr (expiry \<le> requested))"

definition compute_lock_up_expiry :: "date \<Rightarrow> int \<Rightarrow> date res" where
  "compute_lock_up_expiry subscribed months = add_months subscribed months"

definition compute_notice_deadline :: "date \<Rightarrow> int \<Rightarrow> date res" where
  "compute_notice_deadline notice days = add_days notice days"

definition compute_payment_due_date :: "date \<Rightarrow> int \<Rightarrow> date res" where
  "compute_payment_due_date dealing days = add_days dealing days"

definition validate_minimum_amount :: "dec \<Rightarrow> dec \<Rightarrow> bool" where
  "validate_minimum_amount amount minimum \<longleftrightarrow> minimum \<le> amount"

section \<open>The gate\<close>

text \<open>\<open>ROUND_DOWN\<close> truncates towards zero.\<close>

definition quantize_downE :: "nat \<Rightarrow> dec \<Rightarrow> dec res" where
  "quantize_downE k x =
     (let n = (if 0 \<le> x then \<lfloor>x * 10 ^ k\<rfloor> else - \<lfloor>- x * 10 ^ k\<rfloor>)
      in if \<bar>n\<bar> < 10 ^ 28 then Inr (of_int n / 10 ^ k) else Inl InvalidOperation)"

record gate_allocation =
  gl_request :: uuid
  gl_original :: dec
  gl_approved :: dec
  gl_pct :: dec

record gate_result =
  gr_triggered :: bool
  gr_requested :: dec
  gr_approved :: dec
  gr_capacity :: dec
  gr_allocations :: "gate_allocation list"

fun gate_loop :: "dec \<Rightarrow> dec \<Rightarrow> dec \<Rightarrow> (uuid \<times> dec) list \<Rightarrow> gate_allocation list res" where
  "gate_loop capacity tot so_far [] = Inr []"
| "gate_loop capacity tot so_far ((i, amt) # rest) =
     bindE (quantize_downE 6 (ddiv amt tot)) (\<lambda>pct.
     bindE (if rest = [] then Inr (dsub capacity so_far)
            else quantize_downE 2 (ddiv (dmul capacity amt) tot)) (\<lambda>approved.
     bindE (gate_loop capacity tot (if rest = [] then so_far else dadd so_far approved) rest) (\<lambda>ls.
     Inr (\<lparr>gl_request = i, gl_original = amt, gl_approved = approved, gl_pct = pct\<rparr> # ls))))"

definition check_gate :: "(uuid \<times> dec) list \<Rightarrow> dec \<Rightarrow> dec \<Rightarrow> gate_result res" where
  "check_gate requests fund_nav gate_pct =
     (let capacity = dmul fund_nav gate_pct; tot = dsum (map snd requests)
      in if requests = [] \<or> tot \<le> 0 then
           Inr \<lparr>gr_triggered = False, gr_requested = 0, gr_approved = 0, gr_capacity = capacity, gr_allocations = []\<rparr>
         else if tot \<le> capacity then
           Inr \<lparr>gr_triggered = False, gr_requested = tot, gr_approved = tot, gr_capacity = capacity,
             gr_allocations = map (\<lambda>(i, amt). \<lparr>gl_request = i, gl_original = amt, gl_approved = amt, gl_pct = 1\<rparr>) requests\<rparr>
         else bindE (gate_loop capacity tot 0 requests) (\<lambda>ls.
           Inr \<lparr>gr_triggered = True, gr_requested = tot, gr_approved = capacity, gr_capacity = capacity,
             gr_allocations = ls\<rparr>))"

section \<open>Months in a row\<close>

text \<open>Months numbered from year 0: the number of a month is twelve times its year plus its place.\<close>

definition month_at :: "int \<Rightarrow> date" where
  "month_at k = first_of (k div 12) (k mod 12 + 1)"

definition days_at :: "int \<Rightarrow> int" where
  "days_at k = month_days (k div 12) (k mod 12 + 1)"

definition dealing_at :: "int \<Rightarrow> int \<Rightarrow> date" where
  "dealing_at dealing_day k =
     month_at k + (if dealing_day = - 1 then days_at k else min dealing_day (days_at k)) - 1"

definition month_number :: "date \<Rightarrow> int" where
  "month_number d = 12 * year_of d + month_of d - 1"

lemma month_at_next: "month_at (k + 1) = month_at k + days_at k"
proof -
  have m: "1 \<le> k mod 12 + 1" "k mod 12 + 1 \<le> 12" 
    using pos_mod_sign[of 12 k] pos_mod_bound[of 12 k] by linarith+
  define q r where qr: "q = k div 12" "r = k mod 12"
  have r: "0 \<le> r" "r < 12" and k: "k + 1 = (r + 1) + 12 * q" by (simp_all add: qr)
  have "(r + 1) div 12 = (if r = 11 then 1 else 0)" "(r + 1) mod 12 = (if r = 11 then 0 else r + 1)"
    using r by (auto simp: div_pos_pos_trivial mod_pos_pos_trivial)
  then have "(k + 1) div 12 = (if k mod 12 + 1 = 12 then k div 12 + 1 else k div 12)"
    "(k + 1) mod 12 + 1 = (if k mod 12 + 1 = 12 then 1 else k mod 12 + 1 + 1)"
    unfolding k qr(1)[symmetric] qr(2)[symmetric] by (auto simp: div_mult_self2 mod_mult_self2)
  then show ?thesis unfolding month_at_def days_at_def using first_next[OF m, of "k div 12"] by simp
qed

lemma month_at_mono: "j < k \<Longrightarrow> month_at j + days_at j \<le> month_at k"
proof -
  have "month_at j + days_at j \<le> month_at (j + 1 + int n)" for n
  proof (induction n)
    case (Suc n)
    have "28 \<le> days_at (j + 1 + int n)" unfolding days_at_def by (rule month_days_bounds)
    with Suc month_at_next[of "j + 1 + int n"] show ?case by (simp add: algebra_simps)
  qed (simp add: month_at_next)
  moreover assume "j < k"
  then have "k = j + 1 + int (nat (k - j - 1))" by simp
  ultimately show ?thesis by metis
qed

lemma days_at_bounds: "28 \<le> days_at k" "days_at k \<le> 31"
  by (simp_all add: days_at_def month_days_bounds)

lemma dealing_bounds:
  assumes "dd = - 1 \<or> 1 \<le> dd"
  shows "month_at k \<le> dealing_at dd k" "dealing_at dd k < month_at k + days_at k"
  using assms days_at_bounds[of k] by (auto simp: dealing_at_def)

lemma dealing_mono:
  assumes "dd = - 1 \<or> 1 \<le> dd" "j \<le> k"
  shows "dealing_at dd j \<le> dealing_at dd k"
proof (cases "j = k")
  case False
  then have "month_at j + days_at j \<le> month_at k" using assms(2) by (intro month_at_mono) simp
  with dealing_bounds[OF assms(1), of j] dealing_bounds[OF assms(1), of k] show ?thesis by linarith
qed simp

lemma month_number_split:
  assumes "1 \<le> m" "m \<le> (12::int)"
  shows "(12 * y + m - 1) div 12 = y" "(12 * y + m - 1) mod 12 + 1 = m"
  using assms by presburger+

lemma resolve_at:
  assumes "dd = - 1 \<or> 1 \<le> dd" "12 \<le> k" "k \<le> 12 * 9999 + 11"
  shows "resolve_dealing_day (k div 12) (k mod 12 + 1) dd = Inr (dealing_at dd k)"
proof -
  have y: "1 \<le> k div 12" "k div 12 \<le> 9999" "1 \<le> k mod 12 + 1" "k mod 12 + 1 \<le> 12"
    using assms(2,3) by presburger+
  with assms(1) days_at_bounds[of k] show ?thesis
    by (auto simp: resolve_dealing_day_def date_of_def dealing_at_def month_at_def days_at_def)
qed

lemma resolve_InrD:
  assumes "resolve_dealing_day y m dd = Inr d"
  shows "(dd = - 1 \<or> 1 \<le> dd) \<and> 1 \<le> m \<and> m \<le> 12 \<and> d = dealing_at dd (12 * y + m - 1)"
proof -
  have v: "1 \<le> m" "m \<le> 12" using assms by (auto simp: resolve_dealing_day_def date_of_def split: if_splits)
  note k = month_number_split[OF v, of y]
  show ?thesis using assms v
    by (auto simp: resolve_dealing_day_def date_of_def dealing_at_def month_at_def days_at_def k split: if_splits)
qed

lemma month_number_of:
  assumes "1 \<le> d"
  shows "month_at (month_number d) \<le> d" "d < month_at (month_number d) + days_at (month_number d)"
proof -
  note b = month_of_bounds[OF assms]
  note k = month_number_split[OF b(1,2), of "year_of d"]
  show "month_at (month_number d) \<le> d" "d < month_at (month_number d) + days_at (month_number d)"
    using b(3,4) by (simp_all add: month_at_def days_at_def month_number_def k)
qed

section \<open>The business day before\<close>

definition pulled :: "date \<Rightarrow> date" where
  "pulled d = d - (if weekday d = 5 then 1 else if weekday d = 6 then 2 else 0)"

lemma adjust_pulled: "1 \<le> d \<Longrightarrow> d \<le> max_date \<Longrightarrow> adjust_to_business_day d = Inr (pulled d)"
proof -
  assume d: "1 \<le> d" "d \<le> max_date"
  have "6 \<le> d" if "weekday d = 5 \<or> weekday d = 6" using that d(1) unfolding weekday_def by presburger
  with d show ?thesis by (auto simp: adjust_to_business_day_def pulled_def)
qed

lemma adjust_InrD: "adjust_to_business_day d = Inr r \<Longrightarrow> r = pulled d"
  by (auto simp: adjust_to_business_day_def pulled_def split: if_splits)

lemma pulled_bounds: "pulled d \<le> d" "d \<le> pulled d + 2" "weekday (pulled d) < 5"
proof -
  show "pulled d \<le> d" "d \<le> pulled d + 2" by (auto simp: pulled_def)
  show "weekday (pulled d) < 5" unfolding pulled_def weekday_def by presburger
qed

lemma pulled_mono: "d \<le> e \<Longrightarrow> pulled d \<le> pulled e"
proof -
  assume "d \<le> e"
  then consider "d = e" | "d + 1 = e" | "d + 2 \<le> e" by linarith
  then show ?thesis
  proof cases
    case 2
    then show ?thesis unfolding pulled_def weekday_def by presburger
  next
    case 3
    with pulled_bounds[of d] pulled_bounds[of e] show ?thesis by linarith
  qed simp
qed

lemma pick_dealing_spec:
  assumes "\<forall>d\<in>set ds. 1 \<le> d \<and> d \<le> max_date" "sorted ds" "\<exists>d\<in>set ds. from \<le> pulled d"
  shows "\<exists>d\<in>set ds. pick_dealing seen from ds = Inr (pulled d) \<and> from \<le> pulled d \<and>
    (\<forall>e\<in>set ds. from \<le> pulled e \<longrightarrow> pulled d \<le> pulled e)"
  using assms
proof (induction ds arbitrary: seen)
  case (Cons d ds)
  have adj: "adjust_to_business_day d = Inr (pulled d)" using Cons.prems(1) by (simp add: adjust_pulled)
  show ?case
  proof (cases "from \<le> pulled d")
    case True
    moreover have "pulled d \<le> pulled e" if "e \<in> set ds" for e using Cons.prems(2) that by (auto intro: pulled_mono)
    ultimately show ?thesis by (auto simp: adj)
  next
    case False
    then have "\<exists>e\<in>set ds. from \<le> pulled e" using Cons.prems(3) by auto
    then obtain e where e: "e \<in> set ds" "pick_dealing d from ds = Inr (pulled e)" "from \<le> pulled e"
      "\<forall>f\<in>set ds. from \<le> pulled f \<longrightarrow> pulled e \<le> pulled f"
      using Cons.IH[of d] Cons.prems(1,2) by auto
    with False show ?thesis by (auto simp: adj intro!: bexI[of _ e])
  qed
qed simp

section \<open>The next dealing date\<close>

definition dealing_numbers :: "redemption_frequency \<Rightarrow> date \<Rightarrow> int list" where
  "dealing_numbers freq from =
     (let k = month_number from; j = 12 * year_of from
      in case freq of
           Monthly \<Rightarrow> [k, k + 1, k + 2]
         | Quarterly \<Rightarrow> [j + 2, j + 5, j + 8, j + 11, j + 14, j + 17, j + 20, j + 23]
         | Annual \<Rightarrow> [j + 11, j + 23, j + 35])"

definition dealing_month :: "redemption_frequency \<Rightarrow> int \<Rightarrow> bool" where
  "dealing_month freq m = (case freq of Monthly \<Rightarrow> True | Quarterly \<Rightarrow> m \<in> {3, 6, 9, 12} | Annual \<Rightarrow> m = 12)"

lemma monthly_loop_at:
  assumes "dd = - 1 \<or> 1 \<le> dd"
  shows "12 \<le> k \<Longrightarrow> k + int n \<le> 12 * 9999 + 12 \<Longrightarrow>
    monthly_loop (k div 12) (k mod 12 + 1) dd n = Inr (map (\<lambda>i. dealing_at dd (k + int i)) [0..<n])"
proof (induction n arbitrary: k)
  case (Suc n)
  define q r where qr: "q = k div 12" "r = k mod 12"
  have r: "0 \<le> r" "r < 12" and k1: "k + 1 = (r + 1) + 12 * q" by (simp_all add: qr)
  have "(r + 1) div 12 = (if r = 11 then 1 else 0)" "(r + 1) mod 12 = (if r = 11 then 0 else r + 1)"
    using r by (auto simp: div_pos_pos_trivial mod_pos_pos_trivial)
  then have nxt: "(if 12 < k mod 12 + 1 + 1 then monthly_loop (k div 12 + 1) 1 dd n
      else monthly_loop (k div 12) (k mod 12 + 1 + 1) dd n) =
    monthly_loop ((k + 1) div 12) ((k + 1) mod 12 + 1) dd n"
    using r unfolding k1 qr(1)[symmetric] qr(2)[symmetric] by (auto simp: div_mult_self2 mod_mult_self2)
  have "resolve_dealing_day (k div 12) (k mod 12 + 1) dd = Inr (dealing_at dd k)"
    by (rule resolve_at[OF assms]) (use Suc.prems in auto)
  moreover have "monthly_loop ((k + 1) div 12) ((k + 1) mod 12 + 1) dd n =
      Inr (map (\<lambda>i. dealing_at dd (k + 1 + int i)) [0..<n])"
    by (rule Suc.IH) (use Suc.prems in auto)
  moreover have "map (\<lambda>i. dealing_at dd (k + int i)) [0..<Suc n] =
      dealing_at dd k # map (\<lambda>i. dealing_at dd (k + 1 + int i)) [0..<n]"
    by (simp add: map_upt_Suc algebra_simps del: upt_Suc)
  ultimately show ?case unfolding monthly_loop.simps nxt by simp
qed simp

lemma candidates_at:
  assumes dd: "dd = - 1 \<or> 1 \<le> dd" and d: "1 \<le> from" "year_of from \<le> 9997"
  shows "(case freq of Monthly \<Rightarrow> monthly_candidates from dd 3
       | Quarterly \<Rightarrow> quarterly_candidates from dd
       | Annual \<Rightarrow> annual_candidates from dd) = Inr (map (dealing_at dd) (dealing_numbers freq from))"
proof -
  note b = month_of_bounds[OF d(1)]
  have y: "1 \<le> year_of from" by (rule year_of_bounds(3)[OF d(1)])
  have res: "resolve_dealing_day y m dd = Inr (dealing_at dd (12 * y + m - 1))"
    if "1 \<le> y" "y \<le> 9999" "1 \<le> m" "m \<le> 12" for y m
    using resolve_at[OF dd, of "12 * y + m - 1"] month_number_split[OF that(3,4), of y] that by simp
  show ?thesis
  proof (cases freq)
    case Monthly
    have "monthly_loop (month_number from div 12) (month_number from mod 12 + 1) dd 3 =
        Inr (map (\<lambda>i. dealing_at dd (month_number from + int i)) [0..<3])"
      by (rule monthly_loop_at[OF dd]) (use b y d in \<open>simp_all add: month_number_def\<close>)
    then show ?thesis
      unfolding monthly_candidates_def Monthly dealing_numbers_def month_number_def month_number_split[OF b(1,2)]
      by (simp add: upt_rec Let_def)
  next
    case Quarterly
    then show ?thesis using y d by (simp add: quarterly_candidates_def dealing_numbers_def Let_def res algebra_simps)
  next
    case Annual
    then show ?thesis using y d by (simp add: annual_candidates_def dealing_numbers_def Let_def res algebra_simps)
  qed
qed

lemma dealing_numbers_complete:
  assumes "dealing_month freq m" "1 \<le> m" "m \<le> 12" "c \<in> set (dealing_numbers freq from)"
    and "month_number from \<le> 12 * y + m - 1" "12 * y + m - 1 \<le> c" "1 \<le> from"
  shows "12 * y + m - 1 \<in> set (dealing_numbers freq from)"
proof -
  note b = month_of_bounds[OF assms(7)]
  have y: "year_of from \<le> y" using assms(3,5) b(1) by (simp add: month_number_def)
  show ?thesis
  proof (cases freq)
    case Monthly
    with assms(4-6) show ?thesis by (auto simp: dealing_numbers_def Let_def)
  next
    case Quarterly
    with assms(4,6) assms(2) have "y \<le> year_of from + 1" by (auto simp: dealing_numbers_def Let_def)
    with y have "y = year_of from \<or> y = year_of from + 1" by linarith
    with Quarterly assms(1) show ?thesis by (auto simp: dealing_numbers_def Let_def dealing_month_def)
  next
    case Annual
    with assms(4,6) assms(2) have "y \<le> year_of from + 2" by (auto simp: dealing_numbers_def Let_def)
    with y have "y = year_of from \<or> y = year_of from + 1 \<or> y = year_of from + 2" by linarith
    with Annual assms(1) show ?thesis by (auto simp: dealing_numbers_def Let_def dealing_month_def)
  qed
qed

lemma dealing_numbers_months:
  assumes "c \<in> set (dealing_numbers freq from)" "1 \<le> from"
  shows "\<exists>y m. 1 \<le> m \<and> m \<le> 12 \<and> dealing_month freq m \<and> c = 12 * y + m - 1"
proof (intro exI conjI)
  show "1 \<le> c mod 12 + 1" "c mod 12 + 1 \<le> 12"
    using pos_mod_sign[of 12 c] pos_mod_bound[of 12 c] by linarith+
  show "c = 12 * (c div 12) + (c mod 12 + 1) - 1" by simp
  show "dealing_month freq (c mod 12 + 1)"
  proof (cases freq)
    case Quarterly
    with assms have "\<exists>y. c = 2 + y * 12 \<or> c = 5 + y * 12 \<or> c = 8 + y * 12 \<or> c = 11 + y * 12"
      by (auto simp: dealing_numbers_def Let_def intro: exI[of _ "year_of from"] exI[of _ "year_of from + 1"])
    with Quarterly show ?thesis by (auto simp: dealing_month_def mod_mult_self1)
  next
    case Annual
    with assms have "\<exists>y. c = 11 + y * 12"
      by (auto simp: dealing_numbers_def Let_def intro: exI[of _ "year_of from"] exI[of _ "year_of from + 1"] exI[of _ "year_of from + 2"])
    with Annual show ?thesis by (auto simp: dealing_month_def mod_mult_self1)
  qed (simp add: dealing_month_def)
qed

lemma month_date_bounds:
  assumes "resolve_dealing_day y m dd = Inr d"
  shows "1 \<le> d \<and> d \<le> max_date"
proof -
  obtain k where "date_of y m k = Inr d"
    using assms by (auto simp: resolve_dealing_day_def split: if_splits)
  then show ?thesis using year_month_of_date by blast
qed

lemma dealing_numbers_reach:
  assumes "1 \<le> from"
  shows "\<exists>c\<in>set (dealing_numbers freq from). month_number from + 2 \<le> c"
proof (cases freq)
  case Monthly
  then show ?thesis by (auto simp: dealing_numbers_def Let_def)
next
  case Quarterly
  with month_of_bounds[OF assms] show ?thesis by (auto simp: dealing_numbers_def Let_def month_number_def)
next
  case Annual
  with month_of_bounds[OF assms] show ?thesis by (auto simp: dealing_numbers_def Let_def month_number_def)
qed

lemma dealing_numbers_range:
  assumes "c \<in> set (dealing_numbers freq from)" "1 \<le> from" "year_of from \<le> 9997"
  shows "12 \<le> c" "c \<le> 12 * 9999 + 11"
  using assms month_of_bounds[OF assms(2)] year_of_bounds(3)[OF assms(2)]
  by (cases freq; auto simp: dealing_numbers_def Let_def month_number_def)+

lemma dealing_numbers_sorted: "sorted (dealing_numbers freq from)"
  by (cases freq) (simp_all add: dealing_numbers_def Let_def)

lemma pulled_reach:
  assumes "dd = - 1 \<or> 1 \<le> dd" "1 \<le> from" "month_number from + 2 \<le> c"
  shows "from \<le> pulled (dealing_at dd c)"
proof -
  let ?k = "month_number from"
  have "month_at (?k + 1) + days_at (?k + 1) \<le> month_at c" using assms(3) by (intro month_at_mono) simp
  moreover have "from < month_at (?k + 1)" using month_number_of(2)[OF assms(2)] by (simp add: month_at_next)
  ultimately show ?thesis
    using dealing_bounds(1)[OF assms(1), of c] pulled_bounds(2)[of "dealing_at dd c"] days_at_bounds(1)[of "?k + 1"]
    by linarith
qed

lemma next_dealing_spec:
  assumes dd: "dd = - 1 \<or> 1 \<le> dd" and d: "1 \<le> from" "year_of from \<le> 9997"
  shows "\<exists>r. compute_next_dealing_date freq dd from = Inr r \<and> from \<le> r \<and> weekday r < 5 \<and>
    (\<exists>y m d. dealing_month freq m \<and> resolve_dealing_day y m dd = Inr d \<and> adjust_to_business_day d = Inr r) \<and>
    (\<forall>y m d e. dealing_month freq m \<and> resolve_dealing_day y m dd = Inr d \<and>
       adjust_to_business_day d = Inr e \<and> from \<le> e \<longrightarrow> r \<le> e)"
proof -
  let ?ns = "dealing_numbers freq from" and ?ds = "map (dealing_at dd) (dealing_numbers freq from)"
  have res: "\<exists>y m. dealing_month freq m \<and> resolve_dealing_day y m dd = Inr (dealing_at dd c)" if c: "c \<in> set ?ns" for c
  proof -
    obtain y m where ym: "1 \<le> m" "m \<le> 12" "dealing_month freq m" "c = 12 * y + m - 1"
      using dealing_numbers_months[OF c d(1)] by blast
    have "dealing_month freq m \<and> resolve_dealing_day y m dd = Inr (dealing_at dd c)"
      using resolve_at[OF dd, of c] dealing_numbers_range[OF c d] ym(3) month_number_split[OF ym(1,2), of y] ym(4)
      by simp
    then show ?thesis by blast
  qed
  then have range: "\<forall>e\<in>set ?ds. 1 \<le> e \<and> e \<le> max_date" using month_date_bounds by fastforce
  have "sorted ?ds" using dealing_numbers_sorted[of freq "from"]
    by (auto simp: sorted_map intro: sorted_wrt_mono_rel dealing_mono[OF dd])
  moreover have "\<exists>e\<in>set ?ds. from \<le> pulled e"
    using dealing_numbers_reach[OF d(1), of freq] pulled_reach[OF dd d(1)] by auto
  ultimately obtain c where c: "c \<in> set ?ns" "pick_dealing (last ?ds) from ?ds = Inr (pulled (dealing_at dd c))"
    "from \<le> pulled (dealing_at dd c)" "\<forall>e\<in>set ?ds. from \<le> pulled e \<longrightarrow> pulled (dealing_at dd c) \<le> pulled e"
    using pick_dealing_spec[OF range, of "from" "last ?ds"] by auto
  have least: "pulled (dealing_at dd c) \<le> e"
    if e: "dealing_month freq m" "resolve_dealing_day y m dd = Inr x" "adjust_to_business_day x = Inr e" "from \<le> e"
    for y m x e
  proof -
    let ?n = "12 * y + m - 1"
    have m: "1 \<le> m" "m \<le> 12" and x: "x = dealing_at dd ?n" and ex: "e = pulled x"
      using resolve_InrD[OF e(2)] adjust_InrD[OF e(3)] by auto
    have "month_number from \<le> ?n"
    proof (rule ccontr)
      assume "\<not> ?thesis"
      then have "month_at ?n + days_at ?n \<le> month_at (month_number from)" by (intro month_at_mono) simp
      with dealing_bounds(2)[OF dd, of ?n] month_number_of(1)[OF d(1)] pulled_bounds(1)[of x] e(4)
      show False unfolding ex x by linarith
    qed
    moreover have "?n \<in> set ?ns \<or> c \<le> ?n"
      using dealing_numbers_complete[OF e(1) m c(1) calculation _ d(1)] by linarith
    ultimately show ?thesis using c(4) e(4) dealing_mono[OF dd, of c ?n] unfolding ex x by (auto intro: pulled_mono)
  qed
  have "compute_next_dealing_date freq dd from = Inr (pulled (dealing_at dd c))"
    unfolding compute_next_dealing_date_def candidates_at[OF dd d] using c(2) by simp
  moreover obtain y m where ym: "dealing_month freq m" "resolve_dealing_day y m dd = Inr (dealing_at dd c)"
    using res[OF c(1)] by blast
  moreover have "adjust_to_business_day (dealing_at dd c) = Inr (pulled (dealing_at dd c))"
    using range c(1) by (intro adjust_pulled) auto
  ultimately show ?thesis using c(3) pulled_bounds(3) least by blast
qed

text \<open>C29. The next dealing date.  For every month-end or day-of-month rule, the service returns the earliest
  business day not before the start date that is the (weekend-adjusted) dealing day of a dealing month:
  every month, March/June/September/December, or December.  The candidates it generates always suffice,
  so the fallback after the loop is never reached.
\<close>

theorem next_dealing_date_earliest:
  assumes dd: "dd = - 1 \<or> 1 \<le> dd" and d: "1 \<le> from" "year_of from \<le> 9997"
  shows "\<exists>r. compute_next_dealing_date freq dd from = Inr r \<and> from \<le> r \<and> weekday r < 5 \<and>
    (\<exists>y m d. dealing_month freq m \<and> resolve_dealing_day y m dd = Inr d \<and> adjust_to_business_day d = Inr r) \<and>
    (\<forall>y m d e. dealing_month freq m \<and> resolve_dealing_day y m dd = Inr d \<and>
       adjust_to_business_day d = Inr e \<and> from \<le> e \<longrightarrow> r \<le> e)"
  by (rule next_dealing_spec[OF assms])

theorem next_dealing_date_earliest_witness:
  "\<exists>r. compute_next_dealing_date Quarterly (- 1) 738000 = Inr r \<and> 738000 \<le> r \<and> weekday r < 5"
proof -
  have "year_of 738000 = 2021" by (simp add: year_of_def Let_def)
  then show ?thesis using next_dealing_date_earliest[of "- 1" 738000 Quarterly] by auto
qed

section \<open>What the gate approves\<close>

lemma quantize_downE_nonneg:
  assumes "0 \<le> x" "x < 10 ^ 20" "k \<le> 6"
  obtains q where "quantize_downE k x = Inr q" "0 \<le> q" "q \<le> x" "x < q + 1 / 10 ^ k" "on_grid k q"
proof -
  define n where "n = \<lfloor>x * 10 ^ k\<rfloor>"
  have "(10::rat) ^ k \<le> 10 ^ 6" using assms(3) by (intro power_increasing) auto
  then have "x * 10 ^ k \<le> 10 ^ 20 * 10 ^ 6" using assms(1,2) by (intro mult_mono) auto
  moreover have "of_int n \<le> x * 10 ^ k" "x * 10 ^ k < of_int n + 1" unfolding n_def by linarith+
  moreover have "0 \<le> n" using assms(1) by (simp add: n_def)
  ultimately have "(of_int \<bar>n\<bar> :: rat) < of_int (10 ^ 28)" by simp
  then have "\<bar>n\<bar> < 10 ^ 28" by (simp only: of_int_less_iff)
  then have "quantize_downE k x = Inr (of_int n / 10 ^ k)"
    using assms(1) by (simp add: quantize_downE_def Let_def n_def)
  moreover have "of_int n / 10 ^ k \<le> x" "x < of_int n / 10 ^ k + 1 / 10 ^ k"
    using \<open>of_int n \<le> x * 10 ^ k\<close> \<open>x * 10 ^ k < of_int n + 1\<close> by (simp_all add: field_simps)
  ultimately show thesis using that[of "of_int n / 10 ^ k"] \<open>0 \<le> n\<close> by simp
qed

lemma on_grid_2_mult: "on_grid 2 x \<Longrightarrow> on_grid 2 y \<Longrightarrow> on_grid 4 (x * y)"
  using on_grid_mult[of 2 x 2 y] by simp

text \<open>The computed share never exceeds the request, in spite of the rounding of both operations.\<close>

lemma gate_share:
  assumes amt: "0 \<le> amt" "amt \<le> tot" "on_grid 2 amt" and tot: "0 < tot" "tot \<le> 10 ^ 12" "on_grid 2 tot"
    and cap: "0 \<le> cap" "cap \<le> tot"
  shows "0 \<le> ddiv (dmul cap amt) tot" "ddiv (dmul cap amt) tot \<le> amt" "0 \<le> ddiv amt tot" "ddiv amt tot \<le> 1"
proof -
  have t: "tot \<le> 1000000000000" using tot(2) by simp
  have "\<bar>tot * amt\<bar> \<le> 1000000000000 * 1000000000000"
    unfolding abs_mult using amt t tot(1) by (intro mult_mono) auto
  then have "fix28 (tot * amt) = tot * amt"
    by (intro fix28_exact[OF on_grid_2_mult[OF tot(3) amt(3)]]) simp
  moreover have "fix28 (cap * amt) \<le> fix28 (tot * amt)" using amt cap by (intro fix28_mono mult_right_mono) auto
  ultimately have "fix28 (cap * amt) / tot \<le> amt" using tot(1) by (simp add: field_simps)
  moreover have "fix28 amt = amt" by (rule fix28_exact[OF amt(3)]) (use amt t in simp)
  ultimately show "ddiv (dmul cap amt) tot \<le> amt"
    unfolding ddiv_def dmul_def using fix28_mono by metis
  show "0 \<le> ddiv (dmul cap amt) tot" "0 \<le> ddiv amt tot"
    using amt cap tot(1) by (simp_all add: ddiv_def dmul_def)
  have "fix28 (1::rat) = 1" by (rule fix28_exact[of 2]) simp_all
  then show "ddiv amt tot \<le> 1" unfolding ddiv_def using fix28_mono[of "amt / tot" 1] amt tot(1) by simp
qed

definition gate_part :: "uuid \<times> dec \<Rightarrow> gate_allocation \<Rightarrow> bool" where
  "gate_part r l \<longleftrightarrow> gl_request l = fst r \<and> gl_original l = snd r \<and> on_grid 2 (gl_approved l) \<and>
     0 \<le> gl_approved l \<and> gl_approved l \<le> snd r"

lemma gate_loop_spec:
  assumes "0 < tot" "tot \<le> 10 ^ 12" "on_grid 2 tot" "0 \<le> cap" "cap \<le> tot" "on_grid 8 cap"
  shows "xs \<noteq> [] \<Longrightarrow> \<forall>x\<in>set xs. 0 \<le> snd x \<and> on_grid 2 (snd x) \<Longrightarrow> 0 \<le> sf \<Longrightarrow> on_grid 2 sf \<Longrightarrow>
      sf + (\<Sum>x\<leftarrow>xs. snd x) \<le> tot \<Longrightarrow>
    \<exists>ls. gate_loop cap tot sf xs = Inr ls \<and> map gl_request ls = map fst xs \<and>
      (\<Sum>l\<leftarrow>ls. gl_approved l) = cap - sf \<and> list_all2 gate_part (butlast xs) (butlast ls)"
proof (induction xs arbitrary: sf)
  case (Cons x rest)
  obtain i amt where x: "x = (i, amt)" by (cases x)
  have t: "tot \<le> 1000000000000" using assms(2) by simp
  have rest: "0 \<le> (\<Sum>y\<leftarrow>rest. snd y)" using Cons.prems(2) by (auto intro!: sum_list_nonneg)
  have amt: "0 \<le> amt" "on_grid 2 amt" "amt \<le> tot"
    using Cons.prems(2,3,5) rest by (auto simp: x)
  note share = gate_share[OF amt(1,3,2) assms(1-5)]
  obtain pct where pct: "quantize_downE 6 (ddiv amt tot) = Inr pct"
    by (rule quantize_downE_nonneg[OF share(3), of 6]) (use share(4) in auto)
  show ?case
  proof (cases "rest = []")
    case True
    have "\<bar>cap - sf\<bar> \<le> 1000000000000" using assms(4,5) Cons.prems(3,5) t amt(1) rest by (auto simp: x)
    then have "dsub cap sf = cap - sf" unfolding dsub_def
      by (intro fix28_exact[of 8] on_grid_diff assms(6) on_grid_mono[OF Cons.prems(4)]) auto
    with True pct show ?thesis by (simp add: x)
  next
    case False
    have "ddiv (dmul cap amt) tot < 10 ^ 20" using share(2) amt(3) t by simp
    then obtain q where q: "quantize_downE 2 (ddiv (dmul cap amt) tot) = Inr q" "0 \<le> q"
      "q \<le> ddiv (dmul cap amt) tot" "on_grid 2 q"
      by (rule quantize_downE_nonneg[OF share(1), of 2]) auto
    have qa: "q \<le> amt" using q(3) share(2) by simp
    have le: "sf + q + (\<Sum>y\<leftarrow>rest. snd y) \<le> tot" using Cons.prems(5) qa by (simp add: x)
    have "\<bar>sf + q\<bar> \<le> 1000000000000" using le rest Cons.prems(3) q(2) t by simp
    then have sum: "dadd sf q = sf + q" unfolding dadd_def
      by (intro fix28_exact[OF on_grid_add[OF Cons.prems(4) q(4)]]) simp
    obtain ls where ls: "gate_loop cap tot (sf + q) rest = Inr ls" "map gl_request ls = map fst rest"
      "(\<Sum>l\<leftarrow>ls. gl_approved l) = cap - (sf + q)" "list_all2 gate_part (butlast rest) (butlast ls)"
      using Cons.IH[of "sf + q", OF False _ _ on_grid_add[OF Cons.prems(4) q(4)] le] Cons.prems(2,3) q(2) by auto
    have "ls \<noteq> []" using ls(2) False by auto
    moreover have "gate_part (i, amt) \<lparr>gl_request = i, gl_original = amt, gl_approved = q, gl_pct = pct\<rparr>"
      using q qa by (simp add: gate_part_def)
    ultimately show ?thesis using ls q(1) pct False sum by (simp add: x)
  qed
qed simp

text \<open>C28. The redemption gate.  For requests in cents totalling at most a trillion, the gate triggers exactly
  when they exceed the capacity (NAV times the gate percentage); it answers every request in order, the
  approved amounts add up to exactly the smaller of the capacity and the total, and every request but
  the last is approved for at most what it asked.
\<close>

theorem gate_shares_capacity:
  assumes "xs \<noteq> []" "\<forall>x\<in>set xs. 0 \<le> snd x \<and> on_grid 2 (snd x)"
    and "0 < (\<Sum>x\<leftarrow>xs. snd x)" "(\<Sum>x\<leftarrow>xs. snd x) \<le> 10 ^ 12"
    and "0 \<le> dmul nav pct" "on_grid 8 (dmul nav pct)"
  shows "\<exists>r. check_gate xs nav pct = Inr r \<and> gr_triggered r = (dmul nav pct < (\<Sum>x\<leftarrow>xs. snd x)) \<and>
    gr_requested r = (\<Sum>x\<leftarrow>xs. snd x) \<and> map gl_request (gr_allocations r) = map fst xs \<and>
    (\<Sum>l\<leftarrow>gr_allocations r. gl_approved l) = min (dmul nav pct) (\<Sum>x\<leftarrow>xs. snd x) \<and>
    gr_approved r = min (dmul nav pct) (\<Sum>x\<leftarrow>xs. snd x) \<and>
    list_all2 gate_part (butlast xs) (butlast (gr_allocations r))"
proof -
  let ?t = "\<Sum>x\<leftarrow>xs. snd x" and ?c = "dmul nav pct"
  have t: "dsum (map snd xs) = ?t"
  proof (rule dsum_exact[of _ 2])
    have "(\<Sum>x\<leftarrow>map snd xs. \<bar>x\<bar>) = ?t" using assms(2) by (intro arg_cong[of _ _ sum_list]) (auto simp: comp_def)
    then show "(\<Sum>x\<leftarrow>map snd xs. \<bar>x\<bar>) * 10 ^ 2 \<le> 10 ^ 28" using assms(4) by simp
  qed (use assms(2) in auto)
  have grid: "on_grid 2 ?t" by (rule on_grid_sum_list) (use assms(2) in auto)
  show ?thesis
  proof (cases "?t \<le> ?c")
    case True
    let ?all = "\<lambda>(i, amt). \<lparr>gl_request = i, gl_original = amt, gl_approved = amt, gl_pct = 1\<rparr>"
    have "list_all2 gate_part ys (map ?all ys)" if "set ys \<subseteq> set xs" for ys
      using that assms(2) by (induction ys) (auto simp: gate_part_def)
    moreover have "set (butlast xs) \<subseteq> set xs" by (auto dest: in_set_butlastD)
    ultimately have "list_all2 gate_part (butlast xs) (butlast (map ?all xs))" by (simp add: map_butlast[symmetric])
    moreover have "map gl_request (map ?all xs) = map fst xs" "map gl_approved (map ?all xs) = map snd xs"
      by (induction xs) auto
    moreover have "check_gate xs nav pct = Inr \<lparr>gr_triggered = False, gr_requested = ?t, gr_approved = ?t,
        gr_capacity = ?c, gr_allocations = map ?all xs\<rparr>"
      using True assms(1,3) by (simp add: check_gate_def t Let_def)
    ultimately show ?thesis using True by (simp add: min_def del: map_map)
  next
    case False
    then obtain ls where "gate_loop ?c ?t 0 xs = Inr ls" "map gl_request ls = map fst xs"
      "(\<Sum>l\<leftarrow>ls. gl_approved l) = ?c" "list_all2 gate_part (butlast xs) (butlast ls)"
      using gate_loop_spec[OF assms(3,4) grid assms(5) _ assms(6,1,2), of 0] by auto
    with False assms(1,3) show ?thesis by (simp add: check_gate_def t Let_def)
  qed
qed

theorem gate_shares_capacity_witness:
  "\<exists>r. check_gate [(1, 100), (2, 100), (3, 100)] 1000 (1 / 10) = Inr r \<and> gr_triggered r \<and>
     (\<Sum>l\<leftarrow>gr_allocations r. gl_approved l) = 100"
proof -
  have "dmul 1000 (1 / 10) = 100" by (simp add: dec_defs exact_simps)
  with gate_shares_capacity[of "[(1, 100), (2, 100), (3, 100)]" 1000 "1 / 10"] show ?thesis by auto
qed

text \<open>The remainder can exceed the last request: the others are rounded down by up to a cent each.\<close>

lemma gate_last_above_request:
  "\<exists>r. check_gate [(1, 100), (2, 100), (3, 100), (4, 100)] (39999 / 100) 1 = Inr r \<and>
     map gl_approved (gr_allocations r) = [9999 / 100, 9999 / 100, 9999 / 100, 10002 / 100] \<and>
     map gl_original (gr_allocations r) = [100, 100, 100, 100]"
  by (simp add: check_gate_def Let_def dsum_def dec_defs exact_simps quantize_downE_def)

end
