(* ===== verification/InvestorOps.thy ===== *)
theory InvestorOps
  imports Capital FundTerms
begin

text \<open>
  Subscriptions and redemptions as multi-party requests (\<open>app/modules/investor_operations\<close>): the two
  state machines (\<open>core/state_machine.py\<close>), the tables (\<open>models\<close>, \<open>repositories\<close>), the services
  that advance a request (\<open>services/subscription.py\<close>, \<open>services/redemption.py\<close>), and screening and
  fund terms (\<open>services/kyc.py\<close>).  A state is stored as a string and parsed when it is read.

  The repositories flush but never commit.  With the session of a request (\<open>own_session\<close>) their
  writes are seen by the rest of the request; without one each repository call has a session of its
  own that is closed uncommitted, so the write is lost.
\<close>

section \<open>State machines\<close>

datatype subscription_state = SubDraft | SubPendingKyc | SubKycApproved | SubKycRejected | SubPendingOpsReview
  | SubPendingGpApproval | SubApproved | SubRejected | SubPendingWire | SubWireConfirmed | SubQueuedForNav
  | SubExecuted | SubCancelled

fun sub_value :: "subscription_state \<Rightarrow> string" where
  "sub_value SubDraft = ''draft''"
| "sub_value SubPendingKyc = ''pending_kyc''"
| "sub_value SubKycApproved = ''kyc_approved''"
| "sub_value SubKycRejected = ''kyc_rejected''"
| "sub_value SubPendingOpsReview = ''pending_ops_review''"
| "sub_value SubPendingGpApproval = ''pending_gp_approval''"
| "sub_value SubApproved = ''approved''"
| "sub_value SubRejected = ''rejected''"
| "sub_value SubPendingWire = ''pending_wire''"
| "sub_value SubWireConfirmed = ''wire_confirmed''"
| "sub_value SubQueuedForNav = ''queued_for_nav''"
| "sub_value SubExecuted = ''executed''"
| "sub_value SubCancelled = ''cancelled''"

definition all_subscription_states :: "subscription_state list" where
  "all_subscription_states = [SubDraft, SubPendingKyc, SubKycApproved, SubKycRejected, SubPendingOpsReview,
     SubPendingGpApproval, SubApproved, SubRejected, SubPendingWire, SubWireConfirmed, SubQueuedForNav,
     SubExecuted, SubCancelled]"

definition subscription_state_of :: "string \<Rightarrow> subscription_state res" where
  "subscription_state_of v = (case List.find (\<lambda>st. sub_value st = v) all_subscription_states of
     None \<Rightarrow> Inl ValueError | Some st \<Rightarrow> Inr st)"

fun sub_transitions :: "subscription_state \<Rightarrow> subscription_state list" where
  "sub_transitions SubDraft = [SubPendingKyc, SubCancelled]"
| "sub_transitions SubPendingKyc = [SubKycApproved, SubKycRejected, SubCancelled]"
| "sub_transitions SubKycApproved = [SubPendingOpsReview, SubCancelled]"
| "sub_transitions SubKycRejected = []"
| "sub_transitions SubPendingOpsReview = [SubPendingGpApproval, SubCancelled]"
| "sub_transitions SubPendingGpApproval = [SubApproved, SubRejected, SubCancelled]"
| "sub_transitions SubApproved = [SubPendingWire, SubCancelled]"
| "sub_transitions SubRejected = []"
| "sub_transitions SubPendingWire = [SubWireConfirmed, SubCancelled]"
| "sub_transitions SubWireConfirmed = [SubQueuedForNav, SubCancelled]"
| "sub_transitions SubQueuedForNav = [SubExecuted, SubCancelled]"
| "sub_transitions SubExecuted = []"
| "sub_transitions SubCancelled = []"

definition apply_subscription_transition :: "subscription_state \<Rightarrow> subscription_state \<Rightarrow> subscription_state res" where
  "apply_subscription_transition current target =
     (if target \<in> set (sub_transitions current) then Inr target else Inl InvalidTransitionError)"

datatype redemption_state = RedDraft | RedPendingValidation | RedValidated | RedValidationFailed
  | RedPendingGateCheck | RedGateApplied | RedQueuedForNav | RedNavCalculated | RedPendingPayment
  | RedPaymentSent | RedExecuted | RedCancelled

fun red_value :: "redemption_state \<Rightarrow> string" where
  "red_value RedDraft = ''draft''"
| "red_value RedPendingValidation = ''pending_validation''"
| "red_value RedValidated = ''validated''"
| "red_value RedValidationFailed = ''validation_failed''"
| "red_value RedPendingGateCheck = ''pending_gate_check''"
| "red_value RedGateApplied = ''gate_applied''"
| "red_value RedQueuedForNav = ''queued_for_nav''"
| "red_value RedNavCalculated = ''nav_calculated''"
| "red_value RedPendingPayment = ''pending_payment''"
| "red_value RedPaymentSent = ''payment_sent''"
| "red_value RedExecuted = ''executed''"
| "red_value RedCancelled = ''cancelled''"

definition all_redemption_states :: "redemption_state list" where
  "all_redemption_states = [RedDraft, RedPendingValidation, RedValidated, RedValidationFailed,
     RedPendingGateCheck, RedGateApplied, RedQueuedForNav, RedNavCalculated, RedPendingPayment,
     RedPaymentSent, RedExecuted, RedCancelled]"

definition redemption_state_of :: "string \<Rightarrow> redemption_state res" where
  "redemption_state_of v = (case List.find (\<lambda>st. red_value st = v) all_redemption_states of
     None \<Rightarrow> Inl ValueError | Some st \<Rightarrow> Inr st)"

fun red_transitions :: "redemption_state \<Rightarrow> redemption_state list" where
  "red_transitions RedDraft = [RedPendingValidation, RedCancelled]"
| "red_transitions RedPendingValidation = [RedValidated, RedValidationFailed, RedCancelled]"
| "red_transitions RedValidated = [RedPendingGateCheck, RedCancelled]"
| "red_transitions RedValidationFailed = []"
| "red_transitions RedPendingGateCheck = [RedGateApplied, RedQueuedForNav, RedCancelled]"
| "red_transitions RedGateApplied = [RedQueuedForNav, RedCancelled]"
| "red_transitions RedQueuedForNav = [RedNavCalculated, RedCancelled]"
| "red_transitions RedNavCalculated = [RedPendingPayment, RedCancelled]"
| "red_transitions RedPendingPayment = [RedPaymentSent, RedCancelled]"
| "red_transitions RedPaymentSent = [RedExecuted]"
| "red_transitions RedExecuted = []"
| "red_transitions RedCancelled = []"

definition apply_redemption_transition :: "redemption_state \<Rightarrow> redemption_state \<Rightarrow> redemption_state res" where
  "apply_redemption_transition current target =
     (if target \<in> set (red_transitions current) then Inr target else Inl InvalidTransitionError)"

section \<open>Tables\<close>

record fund_terms =
  tm_id :: uuid
  tm_class :: string
  tm_lock_up :: int
  tm_notice :: int
  tm_frequency :: string
  tm_gate :: dec
  tm_min_sub :: dec
  tm_min_red :: dec
  tm_dealing_day :: int
  tm_payment :: int
  tm_active :: bool

record investor_kyc =
  ky_investor :: uuid
  ky_status :: string
  ky_aml :: string
  ky_sanctions_clear :: bool
  ky_pep :: bool
  ky_funds_verified :: bool
  ky_accredited :: bool
  ky_screened_at :: "timestamp option"
  ky_expires_at :: "timestamp option"
  ky_provider :: "string option"
  ky_notes :: "string option"

record sub_request =
  sr_id :: uuid
  sr_investor :: uuid
  sr_class :: string
  sr_amount :: dec
  sr_state :: string
  sr_submitted :: timestamp
  sr_kyc_at :: "timestamp option"
  sr_kyc_by :: "string option"
  sr_kyc_notes :: "string option"
  sr_ops_at :: "timestamp option"
  sr_ops_by :: "string option"
  sr_ops_notes :: "string option"
  sr_gp_at :: "timestamp option"
  sr_gp_by :: "string option"
  sr_wire_at :: "timestamp option"
  sr_wire_ref :: "string option"
  sr_dealing :: "date option"
  sr_executed_at :: "timestamp option"
  sr_nav :: "dec option"
  sr_shares :: "dec option"
  sr_cancelled_at :: "timestamp option"
  sr_reason :: "string option"

record red_request =
  rd_id :: uuid
  rd_investor :: uuid
  rd_amount :: dec
  rd_approved :: "dec option"
  rd_state :: string
  rd_submitted :: timestamp
  rd_notice :: date
  rd_earliest :: "date option"
  rd_lock_up :: "date option"
  rd_gate_applied :: bool
  rd_gate_pct :: "dec option"
  rd_dealing :: "date option"
  rd_nav :: "dec option"
  rd_shares :: "dec option"
  rd_due :: "date option"
  rd_sent_at :: "timestamp option"
  rd_reference :: "string option"
  rd_cancelled_at :: "timestamp option"
  rd_reason :: "(string + refusal) option"

record investor_tables = capital_tables +
  iv_subs :: "sub_request list"
  iv_reds :: "red_request list"
  iv_terms :: "fund_terms list"
  iv_kyc :: "investor_kyc list"

type_synonym 'a iop = "(investor_tables, 'a) op"

text \<open>\<open>insert\<close>, \<open>update_state\<close> and \<open>upsert\<close> flush: their writes live as long as the session.\<close>

definition flush_write :: "bool \<Rightarrow> (investor_tables \<Rightarrow> investor_tables) \<Rightarrow> unit iop" where
  "flush_write own_session f = whenS own_session (writeT f)"

definition insert_sub :: "ledger_env \<Rightarrow> bool \<Rightarrow> sub_request \<Rightarrow> unit iop" where
  "insert_sub en own_session r = bindS (liftS (le_col en 18 2 (sr_amount r))) (\<lambda>am.
     bindS (readT (\<lambda>t. find_row sr_id (sr_id r) (iv_subs t))) (\<lambda>old.
     if old \<noteq> None then raiseS IntegrityError
     else flush_write own_session (\<lambda>t. t\<lparr>iv_subs := iv_subs t @ [r\<lparr>sr_amount := am\<rparr>]\<rparr>)))"

definition update_sub :: "bool \<Rightarrow> uuid \<Rightarrow> (sub_request \<Rightarrow> sub_request) \<Rightarrow> unit iop" where
  "update_sub own_session i f = flush_write own_session (\<lambda>t. t\<lparr>iv_subs := update_rows sr_id i f (iv_subs t)\<rparr>)"

definition insert_red :: "ledger_env \<Rightarrow> bool \<Rightarrow> red_request \<Rightarrow> unit iop" where
  "insert_red en own_session r = bindS (liftS (le_col en 18 2 (rd_amount r))) (\<lambda>am.
     bindS (readT (\<lambda>t. find_row rd_id (rd_id r) (iv_reds t))) (\<lambda>old.
     if old \<noteq> None then raiseS IntegrityError
     else flush_write own_session (\<lambda>t. t\<lparr>iv_reds := iv_reds t @ [r\<lparr>rd_amount := am\<rparr>]\<rparr>)))"

definition update_red :: "bool \<Rightarrow> uuid \<Rightarrow> (red_request \<Rightarrow> red_request) \<Rightarrow> unit iop" where
  "update_red own_session i f = flush_write own_session (\<lambda>t. t\<lparr>iv_reds := update_rows rd_id i f (iv_reds t)\<rparr>)"

definition subs_by_state :: "ledger_env \<Rightarrow> string \<Rightarrow> investor_tables \<Rightarrow> sub_request list" where
  "subs_by_state en v t = sort_key sr_submitted (filter (\<lambda>r. sr_state r = v) (scan en sr_id (iv_subs t)))"

definition subs_by_investor :: "ledger_env \<Rightarrow> uuid \<Rightarrow> investor_tables \<Rightarrow> sub_request list" where
  "subs_by_investor en i t =
     sort_key (\<lambda>r. - sr_submitted r) (filter (\<lambda>r. sr_investor r = i) (scan en sr_id (iv_subs t)))"

definition subs_by_dealing_date :: "ledger_env \<Rightarrow> date \<Rightarrow> investor_tables \<Rightarrow> sub_request list" where
  "subs_by_dealing_date en d t =
     sort_key sr_submitted (filter (\<lambda>r. sr_dealing r = Some d) (scan en sr_id (iv_subs t)))"

definition reds_by_state :: "ledger_env \<Rightarrow> string \<Rightarrow> investor_tables \<Rightarrow> red_request list" where
  "reds_by_state en v t = sort_key rd_submitted (filter (\<lambda>r. rd_state r = v) (scan en rd_id (iv_reds t)))"

definition reds_by_investor :: "ledger_env \<Rightarrow> uuid \<Rightarrow> investor_tables \<Rightarrow> red_request list" where
  "reds_by_investor en i t =
     sort_key (\<lambda>r. - rd_submitted r) (filter (\<lambda>r. rd_investor r = i) (scan en rd_id (iv_reds t)))"

definition reds_by_dealing_date :: "ledger_env \<Rightarrow> date \<Rightarrow> investor_tables \<Rightarrow> red_request list" where
  "reds_by_dealing_date en d t =
     sort_key rd_submitted (filter (\<lambda>r. rd_dealing r = Some d) (scan en rd_id (iv_reds t)))"

definition reds_pending_for_gate :: "ledger_env \<Rightarrow> investor_tables \<Rightarrow> red_request list" where
  "reds_pending_for_gate en t = sort_key rd_submitted
     (filter (\<lambda>r. rd_state r = ''validated'' \<or> rd_state r = ''pending_gate_check'') (scan en rd_id (iv_reds t)))"

definition red_count_by_state :: "investor_tables \<Rightarrow> string \<Rightarrow> nat" where
  "red_count_by_state t v = length (filter (\<lambda>r. rd_state r = v) (iv_reds t))"

definition terms_by_class :: "string \<Rightarrow> investor_tables \<Rightarrow> fund_terms option" where
  "terms_by_class cls t = find_row tm_class cls (iv_terms t)"

definition terms_list_active :: "ledger_env \<Rightarrow> investor_tables \<Rightarrow> fund_terms list" where
  "terms_list_active en t = sort_key tm_class (filter tm_active (scan en tm_id (iv_terms t)))"

definition kyc_by_investor :: "uuid \<Rightarrow> investor_tables \<Rightarrow> investor_kyc option" where
  "kyc_by_investor i t = find_row ky_investor i (iv_kyc t)"

section \<open>Subscriptions\<close>

definition investor_topic :: string where
  "investor_topic = shared_topic ''investor-operations''"

definition sub_to_summary :: "sub_request \<Rightarrow> sub_request iop" where
  \<comment> \<open>the summary carries the columns of the record and needs its state to parse\<close>
  "sub_to_summary r = bindS (liftS (subscription_state_of (sr_state r))) (\<lambda>_. retS r)"

definition submit_subscription ::
  "ledger_env \<Rightarrow> bool \<Rightarrow> uuid \<Rightarrow> dec \<Rightarrow> string \<Rightarrow> sub_request iop" where
  "submit_subscription en own_session who amount cls =
     bindS (readT (terms_by_class cls)) (\<lambda>terms.
     if (case terms of None \<Rightarrow> False | Some tm \<Rightarrow> \<not> validate_minimum_amount amount (tm_min_sub tm))
     then raiseS ValueError
     else bindS (new_uuid en) (\<lambda>i.
     bindS (liftS (apply_subscription_transition SubDraft SubPendingKyc)) (\<lambda>state.
     let r = \<lparr>sr_id = i, sr_investor = who, sr_class = cls, sr_amount = amount, sr_state = sub_value state,
           sr_submitted = le_now en, sr_kyc_at = None, sr_kyc_by = None, sr_kyc_notes = None, sr_ops_at = None,
           sr_ops_by = None, sr_ops_notes = None, sr_gp_at = None, sr_gp_by = None, sr_wire_at = None,
           sr_wire_ref = None, sr_dealing = None, sr_executed_at = None, sr_nav = None, sr_shares = None,
           sr_cancelled_at = None, sr_reason = None\<rparr>
     in thenS (insert_sub en own_session r)
       (thenS (emit en investor_topic (SubscriptionSubmitted i who amount cls))
         (sub_to_summary r)))))"

text \<open>The record and its parsed state, or \<open>ValueError\<close>.\<close>

definition get_sub :: "uuid \<Rightarrow> (sub_request \<times> subscription_state) iop" where
  "get_sub i = bindS (readT (\<lambda>t. find_row sr_id i (iv_subs t))) (\<lambda>found. case found of
       None \<Rightarrow> raiseS ValueError
     | Some r \<Rightarrow> bindS (liftS (subscription_state_of (sr_state r))) (\<lambda>st. retS (r, st)))"

definition record_kyc_decision ::
  "ledger_env \<Rightarrow> bool \<Rightarrow> uuid \<Rightarrow> bool \<Rightarrow> string \<Rightarrow> string \<Rightarrow> sub_request iop" where
  "record_kyc_decision en own_session i approved decided_by notes =
     bindS (get_sub i) (\<lambda>(r, current).
     bindS (liftS (apply_subscription_transition current (if approved then SubKycApproved else SubKycRejected))) (\<lambda>target.
     let f = (\<lambda>r. r\<lparr>sr_state := sub_value target, sr_kyc_at := Some (le_now en), sr_kyc_by := Some decided_by,
           sr_kyc_notes := Some notes\<rparr>)
     in thenS (update_sub own_session i f)
       (thenS (emit en investor_topic (SubscriptionKycDecided i approved decided_by))
         (sub_to_summary (f r)))))"

definition ops_review ::
  "ledger_env \<Rightarrow> bool \<Rightarrow> uuid \<Rightarrow> bool \<Rightarrow> string \<Rightarrow> string \<Rightarrow> sub_request iop" where
  "ops_review en own_session i approved decided_by notes =
     bindS (get_sub i) (\<lambda>(r, current).
     bindS (liftS (if current = SubKycApproved then apply_subscription_transition current SubPendingOpsReview
                   else Inr current)) (\<lambda>current.
     bindS (liftS (apply_subscription_transition current (if approved then SubPendingGpApproval else SubCancelled)))
       (\<lambda>target.
     let f = (\<lambda>r. r\<lparr>sr_state := sub_value target, sr_ops_at := Some (le_now en), sr_ops_by := Some decided_by,
           sr_ops_notes := Some notes\<rparr>)
     in thenS (update_sub own_session i f)
       (thenS (emit en investor_topic (SubscriptionOpsReviewed i approved decided_by))
         (sub_to_summary (f r))))))"

definition next_dealing_of :: "ledger_env \<Rightarrow> fund_terms \<Rightarrow> date res" where
  "next_dealing_of en tm = bindE (redemption_frequency_of (tm_frequency tm)) (\<lambda>freq.
     compute_next_dealing_date freq (tm_dealing_day tm) (le_today en))"

definition gp_decision :: "ledger_env \<Rightarrow> bool \<Rightarrow> uuid \<Rightarrow> bool \<Rightarrow> string \<Rightarrow> sub_request iop" where
  "gp_decision en own_session i approved decided_by =
     bindS (get_sub i) (\<lambda>(r, current).
     bindS (liftS (apply_subscription_transition current (if approved then SubApproved else SubRejected))) (\<lambda>target.
     bindS (if \<not> approved then retS (sr_dealing r)
            else bindS (readT (terms_by_class (sr_class r))) (\<lambda>terms. case terms of
                None \<Rightarrow> retS (sr_dealing r)
              | Some tm \<Rightarrow> bindS (liftS (next_dealing_of en tm)) (\<lambda>d. retS (Some d)))) (\<lambda>dealing.
     let f = (\<lambda>r. r\<lparr>sr_state := sub_value target, sr_gp_at := Some (le_now en), sr_gp_by := Some decided_by,
           sr_dealing := dealing\<rparr>)
     in thenS (update_sub own_session i f)
       (thenS (emit en investor_topic (SubscriptionGpDecided i approved decided_by))
         (sub_to_summary (f r))))))"

fun walk_transitions :: "subscription_state \<Rightarrow> subscription_state list \<Rightarrow> subscription_state res" where
  "walk_transitions current [] = Inr current"
| "walk_transitions current (target # ts) =
     bindE (apply_subscription_transition current target) (\<lambda>st. walk_transitions st ts)"

definition confirm_wire :: "ledger_env \<Rightarrow> bool \<Rightarrow> uuid \<Rightarrow> string \<Rightarrow> sub_request iop" where
  "confirm_wire en own_session i wire =
     bindS (get_sub i) (\<lambda>(r, current).
     bindS (liftS (walk_transitions current [SubPendingWire, SubWireConfirmed, SubQueuedForNav])) (\<lambda>_.
     let f = (\<lambda>r. r\<lparr>sr_state := sub_value SubQueuedForNav, sr_wire_at := Some (le_now en), sr_wire_ref := Some wire\<rparr>)
     in thenS (update_sub own_session i f)
       (thenS (emit en investor_topic (SubscriptionWireConfirmed i wire))
         (sub_to_summary (f r)))))"

definition execute_sub ::
  "ledger_env \<Rightarrow> bool \<Rightarrow> date \<Rightarrow> dec \<Rightarrow> uuid \<Rightarrow> sub_request \<Rightarrow> sub_request iop" where
  "execute_sub en own_session d nav portfolio r =
     bindS (liftS (subscription_state_of (sr_state r))) (\<lambda>current.
     bindS (liftS (apply_subscription_transition current SubExecuted)) (\<lambda>target.
     bindS (liftS (quantizeE 6 (ddiv (sr_amount r) nav))) (\<lambda>shares.
     bindS (process_subscription en own_session (sr_investor r) (sr_amount r) nav d (Some portfolio) ''USD'' (sr_class r)
              (Some (''Subscription request '' @ le_show en (sr_id r)))) (\<lambda>_.
     bindS (liftS (le_col en 18 6 nav)) (\<lambda>nav_col.
     bindS (liftS (le_col en 18 6 shares)) (\<lambda>shares_col.
     let f = (\<lambda>n s r. r\<lparr>sr_state := sub_value target, sr_executed_at := Some (le_now en), sr_nav := Some n,
           sr_shares := Some s\<rparr>)
     in thenS (update_sub own_session (sr_id r) (f nav_col shares_col))
       (thenS (emit en investor_topic (SubscriptionExecuted (sr_id r) (sr_investor r) (sr_amount r) nav shares))
         (sub_to_summary (f nav shares r)))))))))"

definition execute_subscriptions ::
  "ledger_env \<Rightarrow> bool \<Rightarrow> date \<Rightarrow> dec \<Rightarrow> uuid \<Rightarrow> sub_request list iop" where
  "execute_subscriptions en own_session d nav portfolio =
     (if nav \<le> 0 then raiseS ValueError
      else bindS (readT (subs_by_dealing_date en d)) (\<lambda>records.
        mapS (execute_sub en own_session d nav portfolio)
          (filter (\<lambda>r. sr_state r = sub_value SubQueuedForNav) records)))"

definition cancel_subscription ::
  "ledger_env \<Rightarrow> bool \<Rightarrow> uuid \<Rightarrow> string \<Rightarrow> string \<Rightarrow> sub_request iop" where
  "cancel_subscription en own_session i reason cancelled_by =
     bindS (get_sub i) (\<lambda>(r, current).
     bindS (liftS (apply_subscription_transition current SubCancelled)) (\<lambda>target.
     let f = (\<lambda>r. r\<lparr>sr_state := sub_value target, sr_cancelled_at := Some (le_now en), sr_reason := Some reason\<rparr>)
     in thenS (update_sub own_session i f)
       (thenS (emit en investor_topic (SubscriptionCancelled i reason cancelled_by))
         (sub_to_summary (f r)))))"

definition get_subscription :: "uuid \<Rightarrow> sub_request option iop" where
  "get_subscription i = bindS (readT (\<lambda>t. find_row sr_id i (iv_subs t))) (\<lambda>found. case found of
     None \<Rightarrow> retS None | Some r \<Rightarrow> bindS (sub_to_summary r) (\<lambda>x. retS (Some x)))"

definition list_subscriptions ::
  "ledger_env \<Rightarrow> string option \<Rightarrow> uuid option \<Rightarrow> sub_request list iop" where
  "list_subscriptions en state investor =
     bindS (readT (\<lambda>t. case (state, investor) of
         (Some (c # cs), _) \<Rightarrow> subs_by_state en (c # cs) t
       | (_, Some i) \<Rightarrow> subs_by_investor en i t
       | _ \<Rightarrow> concat (map (\<lambda>st. subs_by_state en (sub_value st) t)
           [SubPendingKyc, SubKycApproved, SubPendingOpsReview, SubPendingGpApproval, SubApproved,
            SubPendingWire, SubWireConfirmed, SubQueuedForNav]))) (\<lambda>records.
     mapS sub_to_summary records)"

section \<open>Redemptions\<close>

definition red_to_summary :: "red_request \<Rightarrow> red_request iop" where
  "red_to_summary r = bindS (liftS (redemption_state_of (rd_state r))) (\<lambda>_. retS r)"

definition submit_redemption ::
  "ledger_env \<Rightarrow> bool \<Rightarrow> uuid \<Rightarrow> dec \<Rightarrow> date option \<Rightarrow> red_request iop" where
  "submit_redemption en own_session who amount notice_date =
     (let notice = or_else notice_date (le_today en)
      in bindS (new_uuid en) (\<lambda>i.
         bindS (liftS (apply_redemption_transition RedDraft RedPendingValidation)) (\<lambda>state.
         let r = \<lparr>rd_id = i, rd_investor = who, rd_amount = amount, rd_approved = None, rd_state = red_value state,
               rd_submitted = le_now en, rd_notice = notice, rd_earliest = None, rd_lock_up = None,
               rd_gate_applied = False, rd_gate_pct = None, rd_dealing = None, rd_nav = None, rd_shares = None,
               rd_due = None, rd_sent_at = None, rd_reference = None, rd_cancelled_at = None, rd_reason = None\<rparr>
         in thenS (insert_red en own_session r)
           (thenS (emit en investor_topic (RedemptionSubmitted i who amount notice))
             (red_to_summary r)))))"

definition get_red :: "uuid \<Rightarrow> (red_request \<times> redemption_state) iop" where
  "get_red i = bindS (readT (\<lambda>t. find_row rd_id i (iv_reds t))) (\<lambda>found. case found of
       None \<Rightarrow> raiseS ValueError
     | Some r \<Rightarrow> bindS (liftS (redemption_state_of (rd_state r))) (\<lambda>st. retS (r, st)))"

text \<open>The terms' verdict: why the request fails, the end of the lock-up and the earliest date.\<close>

definition check_terms ::
  "ledger_env \<Rightarrow> fund_terms \<Rightarrow> red_request \<Rightarrow> date option \<Rightarrow> (refusal option \<times> date option \<times> date) res" where
  "check_terms en tm r subscribed =
     (let low = (if validate_minimum_amount (rd_amount r) (tm_min_red tm) then None
                 else Some (BelowMinimum (rd_amount r) (tm_min_red tm)))
      in bindE (case subscribed of
             Some d \<Rightarrow> if low \<noteq> None then Inr (low, None)
               else bindE (compute_lock_up_expiry d (tm_lock_up tm)) (\<lambda>expiry.
                 Inr (if le_today en < expiry then Some (LockedUntil expiry) else None, Some expiry))
           | None \<Rightarrow> Inr (low, None)) (\<lambda>(failed, expiry).
         bindE (compute_notice_deadline (rd_notice r) (tm_notice tm)) (\<lambda>earliest.
         Inr (failed, expiry, earliest))))"

definition validate_redemption ::
  "ledger_env \<Rightarrow> bool \<Rightarrow> uuid \<Rightarrow> string \<Rightarrow> date option \<Rightarrow> red_request iop" where
  "validate_redemption en own_session i cls subscribed =
     bindS (get_red i) (\<lambda>(r, current).
     bindS (readT (terms_by_class cls)) (\<lambda>terms.
     bindS (liftS (case terms of
         None \<Rightarrow> Inr (None, None, None)
       | Some tm \<Rightarrow> bindE (check_terms en tm r subscribed) (\<lambda>(failed, expiry, earliest).
           Inr (failed, expiry, Some earliest)))) (\<lambda>(failed, expiry, earliest).
     bindS (liftS (apply_redemption_transition current
         (if failed = None then RedValidated else RedValidationFailed))) (\<lambda>target.
     let g = (\<lambda>r. r\<lparr>rd_state := red_value target,
           rd_lock_up := (if expiry = None then rd_lock_up r else expiry),
           rd_earliest := (if earliest = None then rd_earliest r else earliest)\<rparr>);
         f = (\<lambda>r. (g r)\<lparr>rd_reason := (case failed of None \<Rightarrow> rd_reason r | Some w \<Rightarrow> Some (Inr w))\<rparr>)
     in thenS (update_red own_session i f)
       (thenS (emit en investor_topic (RedemptionValidated i (target = RedValidated) failed))
         (red_to_summary (g r)))))))"

definition default_gate_pct :: dec where "default_gate_pct = 1 / 4"

definition gate_one ::
  "ledger_env \<Rightarrow> bool \<Rightarrow> date \<Rightarrow> dec \<Rightarrow> bool \<Rightarrow> red_request list \<Rightarrow> gate_allocation \<Rightarrow> unit iop" where
  "gate_one en own_session d gate_pct triggered pending l =
     (case find_row rd_id (gl_request l) pending of
        None \<Rightarrow> raiseS OtherError
      | Some r \<Rightarrow>
        bindS (liftS (redemption_state_of (rd_state r))) (\<lambda>current.
        bindS (liftS (if current = RedValidated then apply_redemption_transition current RedPendingGateCheck
                      else Inr current)) (\<lambda>current.
        bindS (liftS (apply_redemption_transition current (if triggered then RedGateApplied else RedQueuedForNav)))
          (\<lambda>target.
        bindS (liftS (le_col en 18 2 (gl_approved l))) (\<lambda>approved.
        bindS (liftS (if triggered then bindE (le_col en 8 6 gate_pct) (\<lambda>p. Inr (Some p)) else Inr None)) (\<lambda>pct.
        update_red own_session (gl_request l) (\<lambda>r. (case pct of
            None \<Rightarrow> r | Some p \<Rightarrow> r\<lparr>rd_gate_applied := True, rd_gate_pct := Some p\<rparr>)
          \<lparr>rd_state := red_value target, rd_approved := Some approved, rd_dealing := Some d\<rparr>)))))))"

definition run_gate_check ::
  "ledger_env \<Rightarrow> bool \<Rightarrow> date \<Rightarrow> dec \<Rightarrow> dec option \<Rightarrow> string \<Rightarrow> gate_result iop" where
  "run_gate_check en own_session d fund_nav gate_pct cls =
     bindS (case gate_pct of
         Some p \<Rightarrow> retS p
       | None \<Rightarrow> bindS (readT (terms_by_class cls)) (\<lambda>terms.
           retS (case terms of None \<Rightarrow> default_gate_pct | Some tm \<Rightarrow> tm_gate tm))) (\<lambda>pct.
     bindS (readT (reds_pending_for_gate en)) (\<lambda>pending.
     bindS (liftS (check_gate (map (\<lambda>r. (rd_id r, rd_amount r)) pending) fund_nav pct)) (\<lambda>res.
     thenS (forS (gate_one en own_session d pct (gr_triggered res) pending) (gr_allocations res))
    (thenS (whenS (gr_triggered res) (emit en investor_topic
        (RedemptionGateApplied d (gr_requested res) (gr_approved res) (gr_capacity res))))
       (retS res)))))"

definition queue_red :: "bool \<Rightarrow> red_request \<Rightarrow> unit iop" where
  "queue_red own_session r = bindS (liftS (redemption_state_of (rd_state r))) (\<lambda>current.
     whenS (current = RedGateApplied) (bindS (liftS (apply_redemption_transition current RedQueuedForNav)) (\<lambda>target.
       update_red own_session (rd_id r) (\<lambda>r. r\<lparr>rd_state := red_value target\<rparr>))))"

definition payable_amount :: "red_request \<Rightarrow> dec" where
  \<comment> \<open>\<open>record.approved_amount or record.requested_amount\<close>\<close>
  "payable_amount r = (case rd_approved r of
     Some a \<Rightarrow> if a = 0 then rd_amount r else a | None \<Rightarrow> rd_amount r)"

definition execute_red ::
  "ledger_env \<Rightarrow> bool \<Rightarrow> date \<Rightarrow> dec \<Rightarrow> uuid \<Rightarrow> int \<Rightarrow> red_request \<Rightarrow> red_request iop" where
  "execute_red en own_session d nav portfolio payment_days r =
     (let amount = payable_amount r
      in bindS (liftS (quantizeE 6 (ddiv amount nav))) (\<lambda>shares.
         bindS (liftS (apply_redemption_transition RedQueuedForNav RedNavCalculated)) (\<lambda>_.
         bindS (liftS (apply_redemption_transition RedNavCalculated RedPendingPayment)) (\<lambda>target.
         bindS (process_redemption en own_session (rd_investor r) amount nav d (Some portfolio) ''USD'' ''default''
                  (Some (''Redemption request '' @ le_show en (rd_id r)))) (\<lambda>_.
         bindS (liftS (compute_payment_due_date d payment_days)) (\<lambda>due.
         bindS (liftS (le_col en 18 6 nav)) (\<lambda>nav_col.
         bindS (liftS (le_col en 18 6 shares)) (\<lambda>shares_col.
         let f = (\<lambda>n s r. r\<lparr>rd_state := red_value target, rd_nav := Some n, rd_shares := Some s, rd_due := Some due\<rparr>)
         in thenS (update_red own_session (rd_id r) (f nav_col shares_col))
           (thenS (emit en investor_topic (RedemptionExecuted (rd_id r) (rd_investor r) amount nav shares))
             (red_to_summary (f nav shares r))))))))))) "

definition execute_redemptions ::
  "ledger_env \<Rightarrow> bool \<Rightarrow> date \<Rightarrow> dec \<Rightarrow> uuid \<Rightarrow> red_request list iop" where
  "execute_redemptions en own_session d nav portfolio =
     (if nav \<le> 0 then raiseS ValueError
      else bindS (readT (reds_by_dealing_date en d)) (\<lambda>records.
        let queued = filter (\<lambda>r. rd_state r = red_value RedQueuedForNav \<or> rd_state r = red_value RedGateApplied) records
        in thenS (forS (queue_red own_session) queued)
          (bindS (readT (terms_by_class ''default'')) (\<lambda>terms.
           mapS (execute_red en own_session d nav portfolio (case terms of None \<Rightarrow> 30 | Some tm \<Rightarrow> tm_payment tm)) queued))))"

definition confirm_payment :: "ledger_env \<Rightarrow> bool \<Rightarrow> uuid \<Rightarrow> string \<Rightarrow> red_request iop" where
  "confirm_payment en own_session i ref =
     bindS (get_red i) (\<lambda>(r, current).
     bindS (liftS (apply_redemption_transition current RedPaymentSent)) (\<lambda>sent.
     bindS (liftS (apply_redemption_transition sent RedExecuted)) (\<lambda>target.
     let f = (\<lambda>r. r\<lparr>rd_state := red_value target, rd_sent_at := Some (le_now en), rd_reference := Some ref\<rparr>)
     in thenS (update_red own_session i f)
       (thenS (emit en investor_topic (RedemptionPaymentConfirmed i ref))
         (red_to_summary (f r))))))"

definition cancel_redemption :: "ledger_env \<Rightarrow> bool \<Rightarrow> uuid \<Rightarrow> string \<Rightarrow> string \<Rightarrow> red_request iop" where
  "cancel_redemption en own_session i reason cancelled_by =
     bindS (get_red i) (\<lambda>(r, current).
     bindS (liftS (apply_redemption_transition current RedCancelled)) (\<lambda>target.
     let f = (\<lambda>r. r\<lparr>rd_state := red_value target, rd_cancelled_at := Some (le_now en), rd_reason := Some (Inl reason)\<rparr>)
     in thenS (update_red own_session i f)
       (thenS (emit en investor_topic (RedemptionCancelled i reason cancelled_by))
         (red_to_summary (f r)))))"

definition get_redemption :: "uuid \<Rightarrow> red_request option iop" where
  "get_redemption i = bindS (readT (\<lambda>t. find_row rd_id i (iv_reds t))) (\<lambda>found. case found of
     None \<Rightarrow> retS None | Some r \<Rightarrow> bindS (red_to_summary r) (\<lambda>x. retS (Some x)))"

definition pending_red_states :: "redemption_state list" where
  "pending_red_states = [RedPendingValidation, RedValidated, RedPendingGateCheck, RedGateApplied,
     RedQueuedForNav, RedNavCalculated, RedPendingPayment]"

definition list_redemptions ::
  "ledger_env \<Rightarrow> string option \<Rightarrow> uuid option \<Rightarrow> red_request list iop" where
  "list_redemptions en state investor =
     bindS (readT (\<lambda>t. case (state, investor) of
         (Some (c # cs), _) \<Rightarrow> reds_by_state en (c # cs) t
       | (_, Some i) \<Rightarrow> reds_by_investor en i t
       | _ \<Rightarrow> concat (map (\<lambda>st. reds_by_state en (red_value st) t) pending_red_states))) (\<lambda>records.
     mapS red_to_summary records)"

record queue_summary =
  qs_subs :: nat
  qs_reds :: nat
  qs_sub_amount :: dec
  qs_red_amount :: dec
  qs_next_dealing :: "date option"

definition get_queue_summary :: "ledger_env \<Rightarrow> string \<Rightarrow> queue_summary iop" where
  "get_queue_summary en cls =
     bindS (readT (\<lambda>t. sum_list (map (\<lambda>st. red_count_by_state t (red_value st)) pending_red_states))) (\<lambda>n.
     bindS (list_redemptions en None None) (\<lambda>records.
     bindS (readT (terms_by_class cls)) (\<lambda>terms.
     bindS (liftS (case terms of None \<Rightarrow> Inr None
         | Some tm \<Rightarrow> bindE (next_dealing_of en tm) (\<lambda>d. Inr (Some d)))) (\<lambda>dealing.
     retS \<lparr>qs_subs = 0, qs_reds = n, qs_sub_amount = 0, qs_red_amount = dsum (map rd_amount records),
       qs_next_dealing = dealing\<rparr>))))"

section \<open>Screening and fund terms\<close>

record screening =
  sc_kyc :: string
  sc_aml :: string
  sc_sanctions_clear :: bool
  sc_pep :: bool
  sc_funds_verified :: bool
  sc_provider :: string
  sc_notes :: string

text \<open>The screening provider is a parameter: it answers or raises.\<close>

definition screen_investor ::
  "ledger_env \<Rightarrow> (uuid \<Rightarrow> string \<Rightarrow> string \<Rightarrow> string option \<Rightarrow> screening res) \<Rightarrow> bool \<Rightarrow> uuid \<Rightarrow> string \<Rightarrow> string
     \<Rightarrow> string option \<Rightarrow> investor_kyc iop" where
  "screen_investor en adapter own_session who name entity_type jurisdiction =
     bindS (liftS (adapter who name entity_type jurisdiction)) (\<lambda>res.
     bindS (readT (kyc_by_investor who)) (\<lambda>existing.
     let base = (case existing of Some k \<Rightarrow> k
           | None \<Rightarrow> \<lparr>ky_investor = who, ky_status = [], ky_aml = [], ky_sanctions_clear = False, ky_pep = False,
               ky_funds_verified = False, ky_accredited = False, ky_screened_at = None, ky_expires_at = None,
               ky_provider = None, ky_notes = None\<rparr>);
         k = base\<lparr>ky_status := sc_kyc res, ky_aml := sc_aml res, ky_sanctions_clear := sc_sanctions_clear res,
               ky_pep := sc_pep res, ky_funds_verified := sc_funds_verified res, ky_provider := Some (sc_provider res),
               ky_screened_at := Some (le_now en), ky_notes := Some (sc_notes res)\<rparr>
     in thenS (flush_write own_session (\<lambda>t. t\<lparr>iv_kyc := put_row_by ky_investor k (iv_kyc t)\<rparr>))
       (thenS (emit en investor_topic (InvestorKycScreened who (sc_kyc res) (sc_aml res) (sc_sanctions_clear res)
          (sc_pep res) (sc_provider res)))
         (retS k))))"

definition get_investor_kyc :: "uuid \<Rightarrow> investor_kyc option iop" where
  "get_investor_kyc i = readT (kyc_by_investor i)"

definition terms_to_summary :: "fund_terms \<Rightarrow> fund_terms iop" where
  "terms_to_summary tm = bindS (liftS (redemption_frequency_of (tm_frequency tm))) (\<lambda>_. retS tm)"

definition get_fund_terms :: "string \<Rightarrow> fund_terms option iop" where
  "get_fund_terms cls = bindS (readT (terms_by_class cls)) (\<lambda>found. case found of
     None \<Rightarrow> retS None | Some tm \<Rightarrow> bindS (terms_to_summary tm) (\<lambda>x. retS (Some x)))"

definition list_fund_terms :: "ledger_env \<Rightarrow> fund_terms list iop" where
  "list_fund_terms en = bindS (readT (terms_list_active en)) (mapS terms_to_summary)"

definition upsert_fund_terms ::
  "ledger_env \<Rightarrow> bool \<Rightarrow> string \<Rightarrow> int \<Rightarrow> int \<Rightarrow> string \<Rightarrow> dec \<Rightarrow> dec \<Rightarrow> dec \<Rightarrow> int \<Rightarrow> int \<Rightarrow> fund_terms iop" where
  "upsert_fund_terms en own_session cls lock_up notice freq gate min_sub min_red dealing_day payment =
     bindS (readT (terms_by_class cls)) (\<lambda>existing.
     bindS (case existing of Some tm \<Rightarrow> retS (tm_id tm, tm_active tm)
            | None \<Rightarrow> bindS (new_uuid en) (\<lambda>i. retS (i, True))) (\<lambda>(i, active).
     let col = (\<lambda>p k x. if own_session \<or> existing = None then le_col en p k x else Inr x) in
     bindS (liftS (col 8 6 gate)) (\<lambda>gate_col.
     bindS (liftS (col 18 2 min_sub)) (\<lambda>min_sub_col.
     bindS (liftS (col 18 2 min_red)) (\<lambda>min_red_col.
     let tm = (\<lambda>g s r. \<lparr>tm_id = i, tm_class = cls, tm_lock_up = lock_up, tm_notice = notice, tm_frequency = freq,
           tm_gate = g, tm_min_sub = s, tm_min_red = r, tm_dealing_day = dealing_day, tm_payment = payment,
           tm_active = active\<rparr>)
     in thenS (flush_write own_session (\<lambda>t. t\<lparr>iv_terms :=
            put_row_by tm_class (tm gate_col min_sub_col min_red_col) (iv_terms t)\<rparr>))
         (terms_to_summary (tm gate min_sub min_red)))))))"

end
