(* ===== verification/InvestorInv.thy ===== *)
theory InvestorInv
  imports InvestorOps CapitalInv
begin

text \<open>
  The request state machines (one locale for both), the invariants of the request tables through every
  sequence of operations, how a subscription gets to the NAV queue, and what is lost: by requests, whose
  session is never committed, and by the end of day, which has no session at all.
\<close>

section \<open>Life cycles\<close>

text \<open>States with names, and transitions that only go down: no request is ever in the same state twice.\<close>

locale life_cycle =
  fixes moves :: "'s \<Rightarrow> 's list" and states :: "'s list" and label :: "'s \<Rightarrow> string" and height :: "'s \<Rightarrow> nat"
  assumes all_states: "s \<in> set states"
    and names: "distinct (map label states)"
    and down: "t \<in> set (moves s) \<Longrightarrow> height t < height s"
begin

lemma label_inj: "label s = label t \<longleftrightarrow> s = t"
  using names all_states by (metis distinct_map inj_onD)

lemma find_label: "List.find (\<lambda>st. label st = v) states = Some s \<longleftrightarrow> v = label s"
proof
  show "List.find (\<lambda>st. label st = v) states = Some s \<Longrightarrow> v = label s"
    by (auto simp: find_Some_iff)
  assume v: "v = label s"
  have "List.find (\<lambda>st. label st = v) states \<noteq> None"
    using all_states[of s] by (auto simp: find_None_iff v)
  then obtain t where "List.find (\<lambda>st. label st = v) states = Some t" by blast
  then show "List.find (\<lambda>st. label st = v) states = Some s"
    using v by (auto simp: find_Some_iff label_inj)
qed

fun walk :: "'s \<Rightarrow> 's list \<Rightarrow> bool" where
  "walk s [] \<longleftrightarrow> True"
| "walk s (t # ts) \<longleftrightarrow> t \<in> set (moves s) \<and> walk t ts"

lemma walk_short: "walk s ts \<Longrightarrow> length ts + height (last (s # ts)) \<le> height s"
  by (induction ts arbitrary: s) (auto dest!: down, fastforce)

lemma walk_down: "walk s ts \<Longrightarrow> t \<in> set ts \<Longrightarrow> height t < height s"
  by (induction ts arbitrary: s) (auto dest!: down, fastforce)

lemma walk_distinct: "walk s ts \<Longrightarrow> distinct (s # ts)"
proof (induction ts arbitrary: s)
  case (Cons t ts)
  then have "height t < height s" "distinct (t # ts)" by (auto dest: down)
  moreover have "\<forall>u\<in>set (t # ts). height u < height s" using walk_down[OF Cons.prems] by blast
  ultimately show ?case by auto
qed simp

lemma walk_ends: "\<exists>ts. walk s ts \<and> moves (last (s # ts)) = []"
proof (induction "height s" arbitrary: s rule: less_induct)
  case less
  show ?case
  proof (cases "moves s")
    case Nil
    then show ?thesis by (intro exI[of _ "[]"]) simp
  next
    case (Cons t rest)
    then have t: "t \<in> set (moves s)" by simp
    obtain ts where "walk t ts" "moves (last (t # ts)) = []" using less[OF down[OF t]] by blast
    with t show ?thesis by (intro exI[of _ "t # ts"]) simp
  qed
qed

end

fun sub_height :: "subscription_state \<Rightarrow> nat" where
  "sub_height SubDraft = 10"
| "sub_height SubPendingKyc = 9"
| "sub_height SubKycApproved = 8"
| "sub_height SubPendingOpsReview = 7"
| "sub_height SubPendingGpApproval = 6"
| "sub_height SubApproved = 5"
| "sub_height SubPendingWire = 4"
| "sub_height SubWireConfirmed = 3"
| "sub_height SubQueuedForNav = 2"
| "sub_height _ = 1"

fun red_height :: "redemption_state \<Rightarrow> nat" where
  "red_height RedDraft = 10"
| "red_height RedPendingValidation = 9"
| "red_height RedValidated = 8"
| "red_height RedPendingGateCheck = 7"
| "red_height RedGateApplied = 6"
| "red_height RedQueuedForNav = 5"
| "red_height RedNavCalculated = 4"
| "red_height RedPendingPayment = 3"
| "red_height RedPaymentSent = 2"
| "red_height _ = 1"

interpretation sub: life_cycle sub_transitions all_subscription_states sub_value sub_height
proof
  show "s \<in> set all_subscription_states" for s by (cases s) (simp_all add: all_subscription_states_def)
  show "distinct (map sub_value all_subscription_states)" by (simp add: all_subscription_states_def)
  show "t \<in> set (sub_transitions s) \<Longrightarrow> sub_height t < sub_height s" for s t by (cases s) auto
qed

interpretation red: life_cycle red_transitions all_redemption_states red_value red_height
proof
  show "s \<in> set all_redemption_states" for s by (cases s) (simp_all add: all_redemption_states_def)
  show "distinct (map red_value all_redemption_states)" by (simp add: all_redemption_states_def)
  show "t \<in> set (red_transitions s) \<Longrightarrow> red_height t < red_height s" for s t by (cases s) auto
qed

lemma sub_parse [simp]: "subscription_state_of v = Inr st \<longleftrightarrow> v = sub_value st"
  using sub.find_label[of v st] by (auto simp: subscription_state_of_def split: option.split)

lemma red_parse [simp]: "redemption_state_of v = Inr st \<longleftrightarrow> v = red_value st"
  using red.find_label[of v st] by (auto simp: redemption_state_of_def split: option.split)

lemma parse_label [simp]:
  "subscription_state_of (sub_value st) = Inr st" "redemption_state_of (red_value rt) = Inr rt"
  by simp_all

lemmas labels_inj [simp] = sub.label_inj red.label_inj

lemma apply_sub_iff [simp]:
  "apply_subscription_transition s t = Inr u \<longleftrightarrow> u = t \<and> t \<in> set (sub_transitions s)"
  "apply_redemption_transition p q = Inr w \<longleftrightarrow> w = q \<and> q \<in> set (red_transitions p)"
  by (auto simp: apply_subscription_transition_def apply_redemption_transition_def)

section \<open>Operations that keep an invariant of the request tables\<close>

text \<open>Session invariants that cash, capital, events and commits cannot break.\<close>

definition frame :: "(investor_tables session \<Rightarrow> bool) \<Rightarrow> bool" where
  "frame I \<longleftrightarrow> (\<forall>s. I s \<longrightarrow> I (s\<lparr>ss_disk := ss_work s\<rparr>) \<and>
     (\<forall>n. I (s\<lparr>ss_draws := n\<rparr>)) \<and> (\<forall>es. I (s\<lparr>ss_events := es\<rparr>)) \<and>
     (\<forall>x. I (s\<lparr>ss_work := (ss_work s)\<lparr>ft_accounts := x\<rparr>\<rparr>)) \<and> (\<forall>x. I (s\<lparr>ss_work := (ss_work s)\<lparr>ft_txns := x\<rparr>\<rparr>)) \<and>
     (\<forall>x. I (s\<lparr>ss_work := (ss_work s)\<lparr>ft_balances := x\<rparr>\<rparr>)) \<and> (\<forall>x. I (s\<lparr>ss_work := (ss_work s)\<lparr>ft_journal := x\<rparr>\<rparr>)))"

lemma frame_basic:
  assumes "frame I"
  shows "keeps I commit" "keeps I (readT f)" "keeps I (new_uuid en)" "keeps I (emit en topic ev)"
    "keeps I (writeT (\<lambda>t. t\<lparr>ft_accounts := fa t\<rparr>))" "keeps I (writeT (\<lambda>t. t\<lparr>ft_txns := ft t\<rparr>))"
    "keeps I (writeT (\<lambda>t. t\<lparr>ft_balances := fb t\<rparr>))" "keeps I (writeT (\<lambda>t. t\<lparr>ft_journal := fj t\<rparr>))"
  using assms by (auto simp: triple_def frame_def emit_def split: option.split)

lemma capital_frame:
  assumes "frame I"
  shows "keeps I (process_subscription en own who amount nav d pf ccy cls notes)"
    and "keeps I (process_redemption en own who amount nav d pf ccy cls notes)"
proof -
  note b = frame_basic[OF assms]
  have ins: "keeps I (insert_account en a)" "keeps I (insert_txn en x)" for a x
    unfolding insert_account_def insert_txn_def by (intro keeps_rules b)+
  have book: "keeps I (credit en p c am fl ref)" "keeps I (debit en p c am fl ref)" for p c am fl ref
    unfolding credit_def debit_def book_def upsert_def insert_journal_def Let_def get_balance_def
    by (intro keeps_rules b)+
  have own: "keeps I (recompute_all_ownership en own d)"
    unfolding recompute_all_ownership_def by (intro keeps_rules b)
  show "keeps I (process_subscription en own who amount nav d pf ccy cls notes)"
    unfolding process_subscription_def by (intro keeps_rules b ins book own)
  show "keeps I (process_redemption en own who amount nav d pf ccy cls notes)"
    unfolding process_redemption_def Let_def by (intro keeps_rules b ins book own)
qed

lemma frame_tables:
  assumes "\<And>t u. iv_subs u = iv_subs t \<Longrightarrow> iv_reds u = iv_reds t \<Longrightarrow> iv_terms u = iv_terms t \<Longrightarrow>
    iv_kyc u = iv_kyc t \<Longrightarrow> P t \<Longrightarrow> P u"
  shows "frame (on_tables P)"
proof -
  have same: "P u = P t" if "iv_subs u = iv_subs t" "iv_reds u = iv_reds t" "iv_terms u = iv_terms t" "iv_kyc u = iv_kyc t"
    for t u using assms[OF that] assms[OF that[symmetric]] by blast
  have "P (t\<lparr>ft_accounts := a\<rparr>) = P t" "P (t\<lparr>ft_txns := b\<rparr>) = P t" "P (t\<lparr>ft_balances := c\<rparr>) = P t"
    "P (t\<lparr>ft_journal := d\<rparr>) = P t" for t a b c d by (rule same; simp)+
  then show ?thesis by (simp add: frame_def on_tables_def)
qed

lemma frame_conj: "frame I \<Longrightarrow> frame J \<Longrightarrow> frame (\<lambda>s. I s \<and> J s)"
  by (simp add: frame_def)

lemma frame_work:
  assumes "\<And>t u. iv_subs u = iv_subs t \<Longrightarrow> iv_reds u = iv_reds t \<Longrightarrow> Q t \<Longrightarrow> Q u"
  shows "frame (\<lambda>s. Q (ss_work s))"
proof -
  have same: "Q u = Q t" if "iv_subs u = iv_subs t" "iv_reds u = iv_reds t"
    for t u using assms[OF that] assms[OF that[symmetric]] by blast
  have "Q (t\<lparr>ft_accounts := a\<rparr>) = Q t" "Q (t\<lparr>ft_txns := b\<rparr>) = Q t" "Q (t\<lparr>ft_balances := c\<rparr>) = Q t"
    "Q (t\<lparr>ft_journal := d\<rparr>) = Q t" for t a b c d by (rule same; simp)+
  then show ?thesis by (simp add: frame_def)
qed

section \<open>The request tables\<close>

definition stored_sub_states :: "subscription_state list" where
  "stored_sub_states = [SubPendingKyc, SubKycApproved, SubKycRejected, SubPendingGpApproval, SubApproved,
     SubRejected, SubQueuedForNav, SubExecuted, SubCancelled]"

definition sub_evidence :: "subscription_state \<Rightarrow> sub_request \<Rightarrow> bool" where
  "sub_evidence st r \<longleftrightarrow>
     (st \<in> {SubKycApproved, SubKycRejected, SubPendingGpApproval, SubApproved, SubRejected, SubQueuedForNav, SubExecuted}
        \<longrightarrow> sr_kyc_at r \<noteq> None \<and> sr_kyc_by r \<noteq> None) \<and>
     (st \<in> {SubPendingGpApproval, SubApproved, SubRejected, SubQueuedForNav, SubExecuted}
        \<longrightarrow> sr_ops_at r \<noteq> None \<and> sr_ops_by r \<noteq> None) \<and>
     (st \<in> {SubApproved, SubRejected, SubQueuedForNav, SubExecuted} \<longrightarrow> sr_gp_at r \<noteq> None \<and> sr_gp_by r \<noteq> None) \<and>
     (st \<in> {SubQueuedForNav, SubExecuted} \<longrightarrow> sr_wire_at r \<noteq> None \<and> sr_wire_ref r \<noteq> None) \<and>
     (st = SubExecuted \<longrightarrow> sr_dealing r \<noteq> None \<and> sr_executed_at r \<noteq> None \<and> sr_nav r \<noteq> None \<and> sr_shares r \<noteq> None) \<and>
     (st = SubCancelled \<longrightarrow> sr_cancelled_at r \<noteq> None \<or> sr_ops_by r \<noteq> None)"

definition sub_ok :: "sub_request \<Rightarrow> bool" where
  "sub_ok r \<longleftrightarrow> cents (sr_amount r) \<and> (\<exists>st\<in>set stored_sub_states. sr_state r = sub_value st \<and> sub_evidence st r)"

definition stored_red_states :: "redemption_state list" where
  "stored_red_states = [RedPendingValidation, RedValidated, RedValidationFailed, RedGateApplied, RedQueuedForNav,
     RedPendingPayment, RedExecuted, RedCancelled]"

definition red_evidence :: "redemption_state \<Rightarrow> red_request \<Rightarrow> bool" where
  "red_evidence st r \<longleftrightarrow>
     (st = RedValidationFailed \<longrightarrow> rd_reason r \<noteq> None) \<and>
     (st = RedGateApplied \<longrightarrow> rd_gate_applied r \<and> rd_gate_pct r \<noteq> None) \<and>
     (st \<in> {RedGateApplied, RedQueuedForNav, RedPendingPayment, RedExecuted} \<longrightarrow>
        rd_approved r \<noteq> None \<and> rd_dealing r \<noteq> None) \<and>
     (st \<in> {RedPendingPayment, RedExecuted} \<longrightarrow> rd_nav r \<noteq> None \<and> rd_shares r \<noteq> None \<and> rd_due r \<noteq> None) \<and>
     (st = RedExecuted \<longrightarrow> rd_sent_at r \<noteq> None \<and> rd_reference r \<noteq> None) \<and>
     (st = RedCancelled \<longrightarrow> rd_cancelled_at r \<noteq> None)"

definition red_ok :: "red_request \<Rightarrow> bool" where
  "red_ok r \<longleftrightarrow> cents (rd_amount r) \<and> (\<exists>st\<in>set stored_red_states. rd_state r = red_value st \<and> red_evidence st r)"

definition requests_ok :: "investor_tables \<Rightarrow> bool" where
  "requests_ok t \<longleftrightarrow> (\<forall>r\<in>set (iv_subs t). sub_ok r) \<and> distinct (map sr_id (iv_subs t)) \<and>
     (\<forall>r\<in>set (iv_reds t). red_ok r) \<and> distinct (map rd_id (iv_reds t)) \<and>
     distinct (map tm_class (iv_terms t)) \<and> distinct (map ky_investor (iv_kyc t))"

abbreviation ok :: "investor_tables session \<Rightarrow> bool" where
  "ok \<equiv> on_tables requests_ok"

lemma frame_ok: "frame ok"
  by (rule frame_tables) (simp add: requests_ok_def)

lemma update_rows_ok:
  assumes "distinct (map key rows)" "find_row key i rows = Some r" "\<forall>x\<in>set rows. P x" "P (f r)"
  shows "\<forall>x\<in>set (update_rows key i f rows). P x"
proof -
  have "x = r" if "x \<in> set rows" "key x = i" for x
    using assms(1) find_row_Some[OF assms(2)] that by (auto simp: distinct_map inj_on_def)
  with assms(3,4) show ?thesis by (auto simp: update_rows_def)
qed

lemma sub_update_ok:
  assumes "requests_ok t" "find_row sr_id i (iv_subs t) = Some r" "sub_ok (f r)" "\<And>x. sr_id (f x) = sr_id x"
  shows "requests_ok (t\<lparr>iv_subs := update_rows sr_id i f (iv_subs t)\<rparr>)"
  using assms update_rows_ok[of sr_id "iv_subs t" i r sub_ok f] keys_update_rows[of sr_id f i "iv_subs t"]
  by (simp add: requests_ok_def)

lemma red_update_ok:
  assumes "requests_ok t" "find_row rd_id i (iv_reds t) = Some r" "red_ok (f r)" "\<And>x. rd_id (f x) = rd_id x"
  shows "requests_ok (t\<lparr>iv_reds := update_rows rd_id i f (iv_reds t)\<rparr>)"
  using assms update_rows_ok[of rd_id "iv_reds t" i r red_ok f] keys_update_rows[of rd_id f i "iv_reds t"]
  by (simp add: requests_ok_def)

section \<open>Steps of one request\<close>

lemma lift_then:
  "(\<And>x. r = Inr x \<Longrightarrow> triple J (k x) Q E) \<Longrightarrow> (\<And>s. J s \<Longrightarrow> E s) \<Longrightarrow> triple J (bindS (liftS r) k) Q E"
  by (cases r) (auto simp: triple_def bindS_def)

lemma read_then: "(\<And>x. triple J (k x) Q E) \<Longrightarrow> triple J (bindS (readT f) k) Q E"
  by (auto simp: triple_def)

text \<open>The row read is the row updated.\<close>

definition sub_at :: "uuid \<Rightarrow> sub_request \<Rightarrow> investor_tables session \<Rightarrow> bool" where
  "sub_at i r s \<longleftrightarrow> ok s \<and> find_row sr_id i (iv_subs (ss_work s)) = Some r"

definition red_at :: "uuid \<Rightarrow> red_request \<Rightarrow> investor_tables session \<Rightarrow> bool" where
  "red_at i r s \<longleftrightarrow> ok s \<and> find_row rd_id i (iv_reds (ss_work s)) = Some r"

lemma sub_okI:
  "cents (sr_amount r) \<Longrightarrow> st \<in> set stored_sub_states \<Longrightarrow> sr_state r = sub_value st \<Longrightarrow> sub_evidence st r \<Longrightarrow> sub_ok r"
  by (auto simp: sub_ok_def)

lemma red_okI:
  "cents (rd_amount r) \<Longrightarrow> st \<in> set stored_red_states \<Longrightarrow> rd_state r = red_value st \<Longrightarrow> red_evidence st r \<Longrightarrow> red_ok r"
  by (auto simp: red_ok_def)

definition sub_fact :: "sub_request \<Rightarrow> subscription_state \<Rightarrow> bool" where
  "sub_fact r st \<longleftrightarrow> cents (sr_amount r) \<and> st \<in> set stored_sub_states \<and> sub_evidence st r"

definition red_fact :: "red_request \<Rightarrow> redemption_state \<Rightarrow> bool" where
  "red_fact r st \<longleftrightarrow> cents (rd_amount r) \<and> st \<in> set stored_red_states \<and> red_evidence st r"

lemma sub_factI: "sub_ok r \<Longrightarrow> sr_state r = sub_value st \<Longrightarrow> sub_fact r st"
  by (auto simp: sub_ok_def sub_fact_def)

lemma red_factI: "red_ok r \<Longrightarrow> rd_state r = red_value st \<Longrightarrow> red_fact r st"
  by (auto simp: red_ok_def red_fact_def)

lemma get_sub_at:
  assumes "\<And>r st. sub_fact r st \<Longrightarrow> triple (sub_at i r) (k (r, st)) Q ok"
  shows "triple ok (bindS (get_sub i) k) Q ok"
proof (rule triple_bind_fact[where R = "\<lambda>(r, st). sub_at i r" and F = "\<lambda>(r, st). sub_fact r st"])
  show "triple ok (get_sub i) (\<lambda>x s. (case x of (r, st) \<Rightarrow> sub_at i r) s \<and> (case x of (r, st) \<Rightarrow> sub_fact r st)) ok"
    by (rule tripleI)
      (auto simp: get_sub_def sub_at_def on_tables_def requests_ok_def bindS_def dest!: find_row_Some
        intro!: sub_factI split: option.splits sum.splits)
qed (use assms in auto)

lemma get_red_at:
  assumes "\<And>r st. red_fact r st \<Longrightarrow> triple (red_at i r) (k (r, st)) Q ok"
  shows "triple ok (bindS (get_red i) k) Q ok"
proof (rule triple_bind_fact[where R = "\<lambda>(r, st). red_at i r" and F = "\<lambda>(r, st). red_fact r st"])
  show "triple ok (get_red i) (\<lambda>x s. (case x of (r, st) \<Rightarrow> red_at i r) s \<and> (case x of (r, st) \<Rightarrow> red_fact r st)) ok"
    by (rule tripleI)
      (auto simp: get_red_def red_at_def on_tables_def requests_ok_def bindS_def dest!: find_row_Some
        intro!: red_factI split: option.splits sum.splits)
qed (use assms in auto)

lemma sub_at_ok: "sub_at i r s \<Longrightarrow> ok s"
  by (simp add: sub_at_def)

lemma red_at_ok: "red_at i r s \<Longrightarrow> ok s"
  by (simp add: red_at_def)

lemma update_sub_at:
  assumes "sub_ok (f r)" "\<And>x. sr_id (f x) = sr_id x" "keeps ok n"
  shows "triple (sub_at i r) (thenS (update_sub own i f) n) (\<lambda>_. ok) ok"
proof (rule triple_then[OF _ assms(3)])
  show "triple (sub_at i r) (update_sub own i f) (\<lambda>_. ok) ok"
    using assms(1,2) by (auto simp: update_sub_def flush_write_def whenS_def triple_def sub_at_def on_tables_def
      intro: sub_update_ok)
qed

lemma update_red_at:
  assumes "red_ok (f r)" "\<And>x. rd_id (f x) = rd_id x" "keeps ok n"
  shows "triple (red_at i r) (thenS (update_red own i f) n) (\<lambda>_. ok) ok"
proof (rule triple_then[OF _ assms(3)])
  show "triple (red_at i r) (update_red own i f) (\<lambda>_. ok) ok"
    using assms(1,2) by (auto simp: update_red_def flush_write_def whenS_def triple_def red_at_def on_tables_def
      intro: red_update_ok)
qed

lemma tail_keeps:
  "keeps ok (thenS (emit en topic ev) (sub_to_summary r))"
  "keeps ok (thenS (emit en topic ev) (red_to_summary q))"
  unfolding sub_to_summary_def red_to_summary_def by (intro keeps_rules)+

lemmas sub_step = stored_sub_states_def sub_evidence_def
lemmas red_step = stored_red_states_def red_evidence_def

section \<open>Every operation keeps the tables well-formed\<close>

lemma keeps_flush: "(\<And>t. requests_ok t \<Longrightarrow> requests_ok (f t)) \<Longrightarrow> keeps ok (flush_write own f)"
  unfolding flush_write_def by (intro keeps_when on_tables_write)

lemma insert_sub_keeps:
  assumes "col_spec en" "\<And>am. cents am \<Longrightarrow> sub_ok (r\<lparr>sr_amount := am\<rparr>)"
  shows "keeps ok (insert_sub en own r)"
proof (rule keeps_fstI)
  fix s assume s: "ok s"
  have "requests_ok (t\<lparr>iv_subs := iv_subs t @ [r\<lparr>sr_amount := am\<rparr>]\<rparr>)"
    if "le_col en 18 2 (sr_amount r) = Inr am" "find_row sr_id (sr_id r) (iv_subs t) = None" "requests_ok t" for am t
    using that col_specD[OF assms(1) that(1)] assms(2)[of am]
    by (auto simp: requests_ok_def find_row_None cents_def)
  with s show "ok (fst (insert_sub en own r s))"
    by (auto simp: insert_sub_def on_tables_def flush_write_def whenS_def bindS_def split: sum.split)
qed

lemma insert_red_keeps:
  assumes "col_spec en" "\<And>am. cents am \<Longrightarrow> red_ok (r\<lparr>rd_amount := am\<rparr>)"
  shows "keeps ok (insert_red en own r)"
proof (rule keeps_fstI)
  fix s assume s: "ok s"
  have "requests_ok (t\<lparr>iv_reds := iv_reds t @ [r\<lparr>rd_amount := am\<rparr>]\<rparr>)"
    if "le_col en 18 2 (rd_amount r) = Inr am" "find_row rd_id (rd_id r) (iv_reds t) = None" "requests_ok t" for am t
    using that col_specD[OF assms(1) that(1)] assms(2)[of am]
    by (auto simp: requests_ok_def find_row_None cents_def)
  with s show "ok (fst (insert_red en own r s))"
    by (auto simp: insert_red_def on_tables_def flush_write_def whenS_def bindS_def split: sum.split)
qed

lemma fresh_ok:
  "cents am \<Longrightarrow> sr_state r = sub_value SubPendingKyc \<Longrightarrow> sub_ok (r\<lparr>sr_amount := am\<rparr>)"
  "cents am \<Longrightarrow> rd_state q = red_value RedPendingValidation \<Longrightarrow> red_ok (q\<lparr>rd_amount := am\<rparr>)"
  by (simp_all add: sub_ok_def red_ok_def sub_step red_step)

lemma submit_keeps:
  assumes "col_spec en"
  shows "keeps ok (submit_subscription en own who am cls)" "keeps ok (submit_redemption en own who am d)"
proof -
  show "keeps ok (submit_subscription en own who am cls)"
    unfolding submit_subscription_def Let_def
    by (intro keeps_bind keeps_if keeps_lift_fact keeps_then insert_sub_keeps[OF assms] fresh_ok
        tail_keeps keeps_basic on_tables_basic) simp_all
  show "keeps ok (submit_redemption en own who am d)"
    unfolding submit_redemption_def Let_def
    by (intro keeps_bind keeps_if keeps_lift_fact keeps_then insert_red_keeps[OF assms] fresh_ok
        tail_keeps keeps_basic on_tables_basic) simp_all
qed

lemma kyc_keeps: "keeps ok (record_kyc_decision en own i approved by notes)"
  unfolding record_kyc_decision_def
proof (rule get_sub_at, simp only: prod.case Let_def, intro lift_then update_sub_at tail_keeps)
  fix r st target
  assume r: "sub_fact r st"
    and t: "apply_subscription_transition st (if approved then SubKycApproved else SubKycRejected) = Inr target"
  show "sub_ok (r\<lparr>sr_state := sub_value target, sr_kyc_at := Some (le_now en), sr_kyc_by := Some by, sr_kyc_notes := Some notes\<rparr>)"
    by (rule sub_okI[of _ target]; use r t in \<open>cases approved; cases st; simp add: sub_fact_def sub_step\<close>)
qed (simp_all add: sub_at_ok)

lemma ops_keeps: "keeps ok (ops_review en own i approved by notes)"
  unfolding ops_review_def
proof (rule get_sub_at, simp only: prod.case Let_def, intro lift_then update_sub_at tail_keeps)
  fix r st mid target
  assume r: "sub_fact r st"
    and t: "(if st = SubKycApproved then apply_subscription_transition st SubPendingOpsReview else Inr st) = Inr mid"
      "apply_subscription_transition mid (if approved then SubPendingGpApproval else SubCancelled) = Inr target"
  show "sub_ok (r\<lparr>sr_state := sub_value target, sr_ops_at := Some (le_now en), sr_ops_by := Some by, sr_ops_notes := Some notes\<rparr>)"
    by (rule sub_okI[of _ target]; use r t in \<open>cases approved; cases st; simp add: sub_fact_def sub_step\<close>)
qed (simp_all add: sub_at_ok)

lemma gp_keeps: "keeps ok (gp_decision en own i approved by)"
  unfolding gp_decision_def
proof (rule get_sub_at, simp only: prod.case Let_def, rule lift_then, rule triple_bind)
  fix r st target
  assume r: "sub_fact r st"
    and t: "apply_subscription_transition st (if approved then SubApproved else SubRejected) = Inr target"
  show "triple (sub_at i r) (if \<not> approved then retS (sr_dealing r)
      else bindS (readT (terms_by_class (sr_class r))) (\<lambda>terms. case terms of None \<Rightarrow> retS (sr_dealing r)
        | Some tm \<Rightarrow> bindS (liftS (next_dealing_of en tm)) (\<lambda>d. retS (Some d)))) (\<lambda>_. sub_at i r) ok"
  proof (rule triple_conseq)
    show "keeps (sub_at i r) (if \<not> approved then retS (sr_dealing r)
      else bindS (readT (terms_by_class (sr_class r))) (\<lambda>terms. case terms of None \<Rightarrow> retS (sr_dealing r)
        | Some tm \<Rightarrow> bindS (liftS (next_dealing_of en tm)) (\<lambda>d. retS (Some d))))"
      unfolding readT_def by (intro keeps_rules)
  qed (simp_all add: sub_at_ok)
  fix dealing
  show "triple (sub_at i r) (thenS (update_sub own i (\<lambda>r. r\<lparr>sr_state := sub_value target, sr_gp_at := Some (le_now en),
      sr_gp_by := Some by, sr_dealing := dealing\<rparr>)) (thenS (emit en investor_topic (SubscriptionGpDecided i approved by))
      (sub_to_summary (r\<lparr>sr_state := sub_value target, sr_gp_at := Some (le_now en), sr_gp_by := Some by,
        sr_dealing := dealing\<rparr>)))) (\<lambda>_. ok) ok"
    by (intro update_sub_at tail_keeps; (rule sub_okI[of _ target])?; use r t in \<open>cases approved; cases st; simp add: sub_fact_def sub_step\<close>)
qed (simp_all add: sub_at_ok)

lemma wire_keeps: "keeps ok (confirm_wire en own i wire)"
  unfolding confirm_wire_def
proof (rule get_sub_at, simp only: prod.case Let_def, intro lift_then update_sub_at tail_keeps)
  fix r st mid
  assume r: "sub_fact r st" and t: "walk_transitions st [SubPendingWire, SubWireConfirmed, SubQueuedForNav] = Inr mid"
  then have st: "st = SubApproved" by (cases st) (auto simp: bindE_Inr_iff)
  show "sub_ok (r\<lparr>sr_state := sub_value SubQueuedForNav, sr_wire_at := Some (le_now en), sr_wire_ref := Some wire\<rparr>)"
    by (rule sub_okI[of _ SubQueuedForNav]; use r st in \<open>simp add: sub_fact_def sub_step\<close>)
qed (simp_all add: sub_at_ok)

lemma cancel_sub_keeps: "keeps ok (cancel_subscription en own i reason by)"
  unfolding cancel_subscription_def
proof (rule get_sub_at, simp only: prod.case Let_def, intro lift_then update_sub_at tail_keeps)
  fix r st target
  assume r: "sub_fact r st" and t: "apply_subscription_transition st SubCancelled = Inr target"
  show "sub_ok (r\<lparr>sr_state := sub_value target, sr_cancelled_at := Some (le_now en), sr_reason := Some reason\<rparr>)"
    by (rule sub_okI[of _ SubCancelled]; use r t in \<open>simp add: sub_fact_def sub_step\<close>)
qed (simp_all add: sub_at_ok)

lemma cancel_red_keeps: "keeps ok (cancel_redemption en own i reason by)"
  unfolding cancel_redemption_def
proof (rule get_red_at, simp only: prod.case Let_def, intro lift_then update_red_at tail_keeps)
  fix r st target
  assume r: "red_fact r st" and t: "apply_redemption_transition st RedCancelled = Inr target"
  show "red_ok (r\<lparr>rd_state := red_value target, rd_cancelled_at := Some (le_now en), rd_reason := Some (Inl reason)\<rparr>)"
    by (rule red_okI[of _ RedCancelled]; use r t in \<open>simp add: red_fact_def red_step\<close>)
qed (simp_all add: red_at_ok)

lemma payment_keeps: "keeps ok (confirm_payment en own i ref)"
  unfolding confirm_payment_def
proof (rule get_red_at, simp only: prod.case Let_def, intro lift_then update_red_at tail_keeps)
  fix r st sent target
  assume r: "red_fact r st" and t: "apply_redemption_transition st RedPaymentSent = Inr sent"
    "apply_redemption_transition sent RedExecuted = Inr target"
  then have st: "st = RedPendingPayment" "target = RedExecuted" by (cases st; simp)+
  show "red_ok (r\<lparr>rd_state := red_value target, rd_sent_at := Some (le_now en), rd_reference := Some ref\<rparr>)"
    by (rule red_okI[of _ target]; use r st in \<open>simp add: red_fact_def red_step\<close>)
qed (simp_all add: red_at_ok)

lemma triple_case3:
  "(\<And>a b c. triple P (f a b c) Q E) \<Longrightarrow> triple P (case x of (a, b, c) \<Rightarrow> f a b c) Q E"
  by (cases x) simp

lemma validate_keeps: "keeps ok (validate_redemption en own i cls subscribed)"
  unfolding validate_redemption_def
proof (rule get_red_at, simp only: prod.case Let_def,
    intro read_then lift_then triple_case3 update_red_at tail_keeps)
  fix r st target and failed :: "refusal option" and expiry earliest :: "date option"
  assume r: "red_fact r st"
    and t: "apply_redemption_transition st (if failed = None then RedValidated else RedValidationFailed) = Inr target"
  show "red_ok (r\<lparr>rd_state := red_value target,
         rd_lock_up := (if expiry = None then rd_lock_up r else expiry),
         rd_earliest := (if earliest = None then rd_earliest r else earliest),
         rd_reason := (case failed of None \<Rightarrow> rd_reason r | Some w \<Rightarrow> Some (Inr w))\<rparr>)"
    by (rule red_okI[of _ target]; use r t in \<open>cases failed; simp add: red_fact_def red_step\<close>)
qed (simp_all add: red_at_ok)

section \<open>Batches\<close>

text \<open>While a batch runs, the rows still to come stay ready: no update takes evidence away.\<close>

definition sub_ready :: "sub_request \<Rightarrow> bool" where
  "sub_ready r \<longleftrightarrow> cents (sr_amount r) \<and> sr_kyc_at r \<noteq> None \<and> sr_kyc_by r \<noteq> None \<and> sr_ops_at r \<noteq> None \<and>
     sr_ops_by r \<noteq> None \<and> sr_gp_at r \<noteq> None \<and> sr_gp_by r \<noteq> None \<and> sr_wire_at r \<noteq> None \<and>
     sr_wire_ref r \<noteq> None \<and> sr_dealing r \<noteq> None"

definition red_ready :: "red_request \<Rightarrow> bool" where
  "red_ready r \<longleftrightarrow> cents (rd_amount r) \<and> rd_approved r \<noteq> None \<and> rd_dealing r \<noteq> None"

definition subs_ready :: "uuid set \<Rightarrow> investor_tables \<Rightarrow> bool" where
  "subs_ready ids t \<longleftrightarrow> (\<forall>r\<in>set (iv_subs t). sr_id r \<in> ids \<longrightarrow> sub_ready r)"

definition reds_ready :: "uuid set \<Rightarrow> investor_tables \<Rightarrow> bool" where
  "reds_ready ids t \<longleftrightarrow> (\<forall>r\<in>set (iv_reds t). rd_id r \<in> ids \<longrightarrow> red_ready r)"

abbreviation sub_batch :: "uuid set \<Rightarrow> investor_tables session \<Rightarrow> bool" where
  "sub_batch ids \<equiv> \<lambda>s. ok s \<and> subs_ready ids (ss_work s)"

abbreviation red_batch :: "uuid set \<Rightarrow> investor_tables session \<Rightarrow> bool" where
  "red_batch ids \<equiv> \<lambda>s. ok s \<and> reds_ready ids (ss_work s)"

lemma frame_batch: "frame (sub_batch ids)" "frame (red_batch ids)"
  by (rule frame_conj[OF frame_ok frame_work]; simp add: subs_ready_def reds_ready_def)+

lemma update_batch_rows:
  assumes "\<forall>x\<in>set rows. P x" "\<forall>x\<in>set rows. key x \<in> ids \<longrightarrow> R x" "i \<in> ids" "\<And>r. R r \<Longrightarrow> P (f r) \<and> R (f r)"
  shows "(\<forall>x\<in>set (update_rows key i f rows). P x) \<and> (\<forall>x\<in>set (update_rows key i f rows). key x \<in> ids \<longrightarrow> R x)"
  using assms by (auto simp: update_rows_def)

lemma update_sub_batch:
  assumes "i \<in> ids" "\<And>r. sub_ready r \<Longrightarrow> sub_ok (f r) \<and> sub_ready (f r)" "\<And>x. sr_id (f x) = sr_id x"
  shows "keeps (sub_batch ids) (update_sub own i f)"
proof -
  have "requests_ok (t\<lparr>iv_subs := update_rows sr_id i f (iv_subs t)\<rparr>) \<and>
      subs_ready ids (t\<lparr>iv_subs := update_rows sr_id i f (iv_subs t)\<rparr>)"
    if "requests_ok t" "subs_ready ids t" for t
  proof -
    have "\<forall>x\<in>set (iv_subs t). sub_ok x" using that(1) by (simp add: requests_ok_def)
    from update_batch_rows[OF this that(2)[unfolded subs_ready_def] assms(1,2)] that(1) show ?thesis
      using keys_update_rows[of sr_id f i "iv_subs t", OF assms(3)] by (simp add: requests_ok_def subs_ready_def)
  qed
  then show ?thesis by (auto simp: update_sub_def flush_write_def whenS_def triple_def on_tables_def)
qed

lemma update_red_batch:
  assumes "i \<in> ids" "\<And>r. red_ready r \<Longrightarrow> red_ok (f r) \<and> red_ready (f r)" "\<And>x. rd_id (f x) = rd_id x"
  shows "keeps (red_batch ids) (update_red own i f)"
proof -
  have "requests_ok (t\<lparr>iv_reds := update_rows rd_id i f (iv_reds t)\<rparr>) \<and>
      reds_ready ids (t\<lparr>iv_reds := update_rows rd_id i f (iv_reds t)\<rparr>)"
    if "requests_ok t" "reds_ready ids t" for t
  proof -
    have "\<forall>x\<in>set (iv_reds t). red_ok x" using that(1) by (simp add: requests_ok_def)
    from update_batch_rows[OF this that(2)[unfolded reds_ready_def] assms(1,2)] that(1) show ?thesis
      using keys_update_rows[of rd_id f i "iv_reds t", OF assms(3)] by (simp add: requests_ok_def reds_ready_def)
  qed
  then show ?thesis by (auto simp: update_red_def flush_write_def whenS_def triple_def on_tables_def)
qed

lemma summary_keeps: "keeps I (sub_to_summary r)" "keeps I (red_to_summary q)"
  unfolding sub_to_summary_def red_to_summary_def by (intro keeps_rules)+

lemma execute_sub_keeps:
  assumes "sr_id r \<in> ids"
  shows "keeps (sub_batch ids) (execute_sub en own d nav pf r)"
  unfolding execute_sub_def Let_def
proof (intro keeps_lift_fact keeps_bind keeps_then keeps_basic capital_frame frame_basic[OF frame_batch(1)]
    frame_batch summary_keeps update_sub_batch[OF assms])
  fix st target shares n s x
  assume "apply_subscription_transition st SubExecuted = Inr target"
  then have t: "target = SubExecuted" by simp
  assume x: "sub_ready x"
  let ?y = "x\<lparr>sr_state := sub_value target, sr_executed_at := Some (le_now en), sr_nav := Some n, sr_shares := Some s\<rparr>"
  have "sub_ok ?y" by (rule sub_okI[of _ SubExecuted]; use x t in \<open>simp add: sub_ready_def sub_step\<close>)
  moreover have "sub_ready ?y" using x by (simp add: sub_ready_def)
  ultimately show "sub_ok ?y \<and> sub_ready ?y" by blast
qed simp

lemma batch_conseq: "keeps (\<lambda>s. ok s \<and> J s) m \<Longrightarrow> triple (\<lambda>s. ok s \<and> J s) m (\<lambda>_. ok) ok"
  by (erule triple_conseq) simp_all

lemma subs_by_dealing_mem:
  "scan_spec en \<Longrightarrow> set (subs_by_dealing_date en d t) = {r \<in> set (iv_subs t). sr_dealing r = Some d}"
  by (auto simp: subs_by_dealing_date_def)

lemma reds_by_dealing_mem:
  "scan_spec en \<Longrightarrow> set (reds_by_dealing_date en d t) = {r \<in> set (iv_reds t). rd_dealing r = Some d}"
  by (auto simp: reds_by_dealing_date_def)

lemma queued_sub_ready: "sub_ok r \<Longrightarrow> sr_state r = sub_value SubQueuedForNav \<Longrightarrow> sr_dealing r = Some d \<Longrightarrow> sub_ready r"
  using sub_factI[of r SubQueuedForNav] by (simp add: sub_fact_def sub_ready_def sub_step)

lemma queued_red_ready:
  assumes "red_ok r" "rd_state r = red_value RedQueuedForNav \<or> rd_state r = red_value RedGateApplied"
  shows "red_ready r"
  using assms(2) red_factI[OF assms(1), of RedQueuedForNav] red_factI[OF assms(1), of RedGateApplied]
  by (auto simp: red_fact_def red_ready_def red_step)

lemma same_row: "distinct (map key rows) \<Longrightarrow> x \<in> set rows \<Longrightarrow> y \<in> set rows \<Longrightarrow> key x = key y \<Longrightarrow> x = y"
  by (auto simp: distinct_map inj_on_def)

lemma execute_subscriptions_keeps:
  assumes "scan_spec en"
  shows "keeps ok (execute_subscriptions en own d nav pf)"
  unfolding execute_subscriptions_def
proof (intro keeps_if keeps_basic)
  let ?queue = "\<lambda>records. filter (\<lambda>r. sr_state r = sub_value SubQueuedForNav) records"
  show "keeps ok (bindS (readT (subs_by_dealing_date en d)) (\<lambda>records. mapS (execute_sub en own d nav pf) (?queue records)))"
  proof (rule triple_bind)
    show "triple ok (readT (subs_by_dealing_date en d)) (\<lambda>records. sub_batch (sr_id ` set (?queue records))) ok"
    proof (rule tripleI)
      fix s s' records
      assume s: "ok s" and "readT (subs_by_dealing_date en d) s = (s', Inr records)"
      then have t: "s' = s" "records = subs_by_dealing_date en d (ss_work s)" "requests_ok (ss_work s)"
        by (auto simp: on_tables_def)
      have "sub_ready r" if r: "r \<in> set (iv_subs (ss_work s))" and i: "sr_id r \<in> sr_id ` set (?queue records)" for r
      proof -
        from i obtain q where q: "q \<in> set (?queue records)" "sr_id r = sr_id q" by blast
        then have m: "q \<in> set (iv_subs (ss_work s))" "sr_dealing q = Some d" "sr_state q = sub_value SubQueuedForNav"
          by (simp_all add: t(2) subs_by_dealing_mem[OF assms] del: sub_value.simps)
        have "r = q" using t(3) same_row[OF _ r m(1) q(2)] by (simp add: requests_ok_def)
        moreover have "sub_ok q" using t(3) m(1) by (simp add: requests_ok_def)
        ultimately show ?thesis using queued_sub_ready[OF _ m(3,2)] by simp
      qed
      then show "sub_batch (sr_id ` set (?queue records)) s'" using s t(1) by (simp add: subs_ready_def)
    qed simp
    show "triple (sub_batch (sr_id ` set (?queue records))) (mapS (execute_sub en own d nav pf) (?queue records)) (\<lambda>_. ok) ok"
      for records by (rule batch_conseq[OF keeps_map[OF execute_sub_keeps]]) (rule imageI)
  qed
qed

lemma queue_red_keeps:
  assumes "rd_id r \<in> ids"
  shows "keeps (red_batch ids) (queue_red own r)"
  unfolding queue_red_def
proof (intro keeps_lift_fact keeps_when update_red_batch[OF assms])
  fix target :: redemption_state and current x
  assume "apply_redemption_transition current RedQueuedForNav = Inr target" and x: "red_ready x"
  then have t: "target = RedQueuedForNav" by simp
  have "red_ok (x\<lparr>rd_state := red_value target\<rparr>)"
    by (rule red_okI[of _ target]; use x t in \<open>simp add: red_ready_def red_step\<close>)
  moreover have "red_ready (x\<lparr>rd_state := red_value target\<rparr>)" using x by (simp add: red_ready_def)
  ultimately show "red_ok (x\<lparr>rd_state := red_value target\<rparr>) \<and> red_ready (x\<lparr>rd_state := red_value target\<rparr>)" by blast
qed simp

lemma execute_red_keeps:
  assumes "rd_id r \<in> ids"
  shows "keeps (red_batch ids) (execute_red en own d nav pf days r)"
  unfolding execute_red_def Let_def
proof (intro keeps_lift_fact keeps_bind keeps_then keeps_basic capital_frame frame_basic[OF frame_batch(2)]
    frame_batch summary_keeps update_red_batch[OF assms])
  fix target x n s due
  assume "apply_redemption_transition RedNavCalculated RedPendingPayment = Inr target" and x: "red_ready x"
  then have t: "target = RedPendingPayment" by simp
  let ?y = "x\<lparr>rd_state := red_value target, rd_nav := Some n, rd_shares := Some s, rd_due := Some due\<rparr>"
  have "red_ok ?y" by (rule red_okI[of _ target]; use x t in \<open>simp add: red_ready_def red_step\<close>)
  moreover have "red_ready ?y" using x by (simp add: red_ready_def)
  ultimately show "red_ok ?y \<and> red_ready ?y" by blast
qed simp

lemma execute_redemptions_keeps:
  assumes "scan_spec en"
  shows "keeps ok (execute_redemptions en own d nav pf)"
  unfolding execute_redemptions_def Let_def
proof (intro keeps_if keeps_basic)
  let ?queue = "\<lambda>records. filter (\<lambda>r. rd_state r = red_value RedQueuedForNav \<or> rd_state r = red_value RedGateApplied) records"
  show "keeps ok (bindS (readT (reds_by_dealing_date en d)) (\<lambda>records. thenS (forS (queue_red own) (?queue records))
    (bindS (readT (terms_by_class ''default'')) (\<lambda>terms. mapS (execute_red en own d nav pf
      (case terms of None \<Rightarrow> 30 | Some tm \<Rightarrow> tm_payment tm)) (?queue records)))))"
  proof (rule triple_bind)
    show "triple ok (readT (reds_by_dealing_date en d)) (\<lambda>records. red_batch (rd_id ` set (?queue records))) ok"
    proof (rule tripleI)
      fix s s' records
      assume s: "ok s" and "readT (reds_by_dealing_date en d) s = (s', Inr records)"
      then have t: "s' = s" "records = reds_by_dealing_date en d (ss_work s)" "requests_ok (ss_work s)"
        by (auto simp: on_tables_def)
      have "red_ready r" if r: "r \<in> set (iv_reds (ss_work s))" and i: "rd_id r \<in> rd_id ` set (?queue records)" for r
      proof -
        from i obtain q where q: "q \<in> set (?queue records)" "rd_id r = rd_id q" by blast
        then have m: "q \<in> set (iv_reds (ss_work s))"
            "rd_state q = red_value RedQueuedForNav \<or> rd_state q = red_value RedGateApplied"
          by (simp_all add: t(2) reds_by_dealing_mem[OF assms] del: red_value.simps)
        have "r = q" using t(3) same_row[OF _ r m(1) q(2)] by (simp add: requests_ok_def)
        moreover have "red_ok q" using t(3) m(1) by (simp add: requests_ok_def)
        ultimately show ?thesis using queued_red_ready[OF _ m(2)] by simp
      qed
      then show "red_batch (rd_id ` set (?queue records)) s'" using s t(1) by (simp add: reds_ready_def)
    qed simp
    show "triple (red_batch (rd_id ` set (?queue records))) (thenS (forS (queue_red own) (?queue records))
      (bindS (readT (terms_by_class ''default'')) (\<lambda>terms. mapS (execute_red en own d nav pf
        (case terms of None \<Rightarrow> 30 | Some tm \<Rightarrow> tm_payment tm)) (?queue records)))) (\<lambda>_. ok) ok" for records
      by (intro batch_conseq keeps_then keeps_bind keeps_for keeps_map queue_red_keeps execute_red_keeps
          frame_basic(2)[OF frame_batch(2)]) simp_all
  qed
qed

lemma gate_one_keeps: "keeps ok (gate_one en own d pct triggered pending l)"
proof -
  have upd: "keeps ok (update_red own i f)" if f: "\<And>x. red_ok x \<Longrightarrow> red_ok (f x)" "\<And>x. rd_id (f x) = rd_id x" for i f
  proof -
    have "requests_ok (t\<lparr>iv_reds := update_rows rd_id i f (iv_reds t)\<rparr>)" if "requests_ok t" for t
    proof -
      have "\<forall>x\<in>set (update_rows rd_id i f (iv_reds t)). red_ok x"
        using that f(1) by (auto simp: requests_ok_def update_rows_def)
      with that keys_update_rows[of rd_id f i "iv_reds t", OF f(2)] show ?thesis by (simp add: requests_ok_def)
    qed
    then show ?thesis unfolding update_red_def by (intro keeps_flush)
  qed
  have f: "red_ok ((case p of None \<Rightarrow> x | Some p \<Rightarrow> x\<lparr>rd_gate_applied := True, rd_gate_pct := Some p\<rparr>)
      \<lparr>rd_state := red_value target, rd_approved := Some a, rd_dealing := Some d\<rparr>)"
    if x: "red_ok x" and target: "target = (if triggered then RedGateApplied else RedQueuedForNav)"
      and p: "triggered \<longrightarrow> p \<noteq> None" for x p target a
  proof (rule red_okI[of _ target])
    have "cents (rd_amount x)" using x by (simp add: red_ok_def)
    then show "cents (rd_amount ((case p of None \<Rightarrow> x | Some p \<Rightarrow> x\<lparr>rd_gate_applied := True, rd_gate_pct := Some p\<rparr>)
      \<lparr>rd_state := red_value target, rd_approved := Some a, rd_dealing := Some d\<rparr>))" by (cases p) simp_all
  qed (use target p in \<open>cases p; cases triggered; simp add: red_step\<close>)+
  show ?thesis
    unfolding gate_one_def
    by (intro keeps_option keeps_lift_fact keeps_basic upd f) (auto simp: bindE_Inr_iff split: if_splits option.split)
qed

lemma gate_keeps: "keeps ok (run_gate_check en own d nav pct cls)"
  unfolding run_gate_check_def by (intro keeps_rules keeps_for gate_one_keeps)

lemma distinct_put_row:
  assumes "distinct (map key rows)"
  shows "distinct (map key (put_row_by key r rows))"
proof (cases "find_row key (key r) rows")
  case None
  with assms show ?thesis by (auto simp: put_row_by_def find_row_None)
next
  case (Some q)
  have "map key (update_rows key (key r) (\<lambda>_. r) rows) = map key rows"
    by (auto simp: update_rows_def)
  with Some assms show ?thesis by (simp add: put_row_by_def)
qed

lemma admin_keeps:
  "keeps ok (screen_investor en adapter own who name ty jur)"
  "keeps ok (upsert_fund_terms en own cls lock_up notice freq gate min_sub min_red day pay)"
proof -
  show "keeps ok (screen_investor en adapter own who name ty jur)"
    unfolding screen_investor_def Let_def
    by (intro keeps_rules keeps_flush) (simp add: requests_ok_def distinct_put_row)
  show "keeps ok (upsert_fund_terms en own cls lock_up notice freq gate min_sub min_red day pay)"
    unfolding upsert_fund_terms_def Let_def terms_to_summary_def case_prod_beta
    by (intro keeps_rules keeps_flush) (simp add: requests_ok_def distinct_put_row)
qed

section \<open>Sequences of operations\<close>

text \<open>
  How an operation is called: several in one session, as an HTTP request whose session is closed at its
  end, or from a background task without a session.
\<close>

datatype call_mode = InSession | InRequest | InBackground

datatype investor_cmd =
    SubmitSub uuid dec string
  | KycDecide uuid bool string string
  | OpsDecide uuid bool string string
  | GpDecide uuid bool string
  | WireIn uuid string
  | ExecuteSubs date dec uuid
  | CancelSub uuid string string
  | SubmitRed uuid dec "date option"
  | ValidateRed uuid string "date option"
  | GateCheck date dec "dec option" string
  | ExecuteReds date dec uuid
  | PayRed uuid string
  | CancelRed uuid string string
  | Screen uuid string string "string option"
  | SetTerms string int int string dec dec dec int int

type_synonym screening_adapter = "uuid \<Rightarrow> string \<Rightarrow> string \<Rightarrow> string option \<Rightarrow> screening res"

fun investor_op :: "ledger_env \<Rightarrow> screening_adapter \<Rightarrow> bool \<Rightarrow> investor_cmd \<Rightarrow> unit iop" where
  "investor_op en ad own (SubmitSub who am cls) = thenS (submit_subscription en own who am cls) (retS ())"
| "investor_op en ad own (KycDecide i b by n) = thenS (record_kyc_decision en own i b by n) (retS ())"
| "investor_op en ad own (OpsDecide i b by n) = thenS (ops_review en own i b by n) (retS ())"
| "investor_op en ad own (GpDecide i b by) = thenS (gp_decision en own i b by) (retS ())"
| "investor_op en ad own (WireIn i w) = thenS (confirm_wire en own i w) (retS ())"
| "investor_op en ad own (ExecuteSubs d nav pf) = thenS (execute_subscriptions en own d nav pf) (retS ())"
| "investor_op en ad own (CancelSub i why by) = thenS (cancel_subscription en own i why by) (retS ())"
| "investor_op en ad own (SubmitRed who am d) = thenS (submit_redemption en own who am d) (retS ())"
| "investor_op en ad own (ValidateRed i cls d) = thenS (validate_redemption en own i cls d) (retS ())"
| "investor_op en ad own (GateCheck d nav pct cls) = thenS (run_gate_check en own d nav pct cls) (retS ())"
| "investor_op en ad own (ExecuteReds d nav pf) = thenS (execute_redemptions en own d nav pf) (retS ())"
| "investor_op en ad own (PayRed i ref) = thenS (confirm_payment en own i ref) (retS ())"
| "investor_op en ad own (CancelRed i why by) = thenS (cancel_redemption en own i why by) (retS ())"
| "investor_op en ad own (Screen who n ty j) = thenS (screen_investor en ad own who n ty j) (retS ())"
| "investor_op en ad own (SetTerms cls l n fr g ms mr day pay) =
     thenS (upsert_fund_terms en own cls l n fr g ms mr day pay) (retS ())"

fun investor_exec ::
  "ledger_env \<Rightarrow> screening_adapter \<Rightarrow> call_mode \<times> investor_cmd \<Rightarrow> investor_tables session \<Rightarrow> investor_tables session" where
  "investor_exec en ad (InSession, c) s = fst (investor_op en ad True c s)"
| "investor_exec en ad (InRequest, c) s = fst (request (investor_op en ad True c) s)"
| "investor_exec en ad (InBackground, c) s = fst (investor_op en ad False c s)"

definition empty_investor :: "investor_tables session" where
  "empty_investor =
     (let t = \<lparr>ft_balances = [], ft_journal = [], ft_settlements = [], ft_flows = [], ft_accounts = [], ft_txns = [],
        iv_subs = [], iv_reds = [], iv_terms = [], iv_kyc = []\<rparr>
      in \<lparr>ss_work = t, ss_disk = t, ss_events = [], ss_draws = 0\<rparr>)"

lemma empty_investor_ok: "ok empty_investor"
  by (simp add: empty_investor_def Let_def on_tables_def requests_ok_def)

lemma investor_op_keeps:
  assumes "col_spec en" "scan_spec en"
  shows "keeps ok (investor_op en ad own c)"
  by (cases c) (auto intro!: keeps_then keeps_basic submit_keeps kyc_keeps ops_keeps gp_keeps wire_keeps
      execute_subscriptions_keeps cancel_sub_keeps validate_keeps gate_keeps execute_redemptions_keeps payment_keeps
      cancel_red_keeps admin_keeps assms)

interpretation investor: command_system "investor_exec en ad" "\<lambda>_. col_spec en \<and> scan_spec en" ok for en ad
proof
  fix c :: "call_mode \<times> investor_cmd" and s :: "investor_tables session"
  assume legal: "col_spec en \<and> scan_spec en" and s: "ok s"
  obtain m d where c: "c = (m, d)" by (cases c)
  show "ok (investor_exec en ad c s)"
    unfolding c using legal s
    by (cases m) (auto intro!: keeps_fst[OF on_tables_request] keeps_fst[OF investor_op_keeps] investor_op_keeps)
qed

section \<open>What is not committed\<close>

lemma keeps_disk_basic [keeps_rules]:
  "keeps (\<lambda>s. ss_disk s = d) (readT f)" "keeps (\<lambda>s. ss_disk s = d) (writeT g)"
  "keeps (\<lambda>s. ss_disk s = d) (new_uuid en)" "keeps (\<lambda>s. ss_disk s = d) (emit en topic ev)"
  by (auto simp: triple_def emit_def split: option.split)

lemma keeps_disk_rows:
  "keeps (\<lambda>s. ss_disk s = d) (update_sub own i f)" "keeps (\<lambda>s. ss_disk s = d) (update_red own j g)"
  "keeps (\<lambda>s. ss_disk s = d) (insert_sub en own r)" "keeps (\<lambda>s. ss_disk s = d) (insert_red en own q)"
  "keeps (\<lambda>s. ss_disk s = d) (get_sub k)" "keeps (\<lambda>s. ss_disk s = d) (get_red l)"
  unfolding update_sub_def update_red_def insert_sub_def insert_red_def get_sub_def get_red_def flush_write_def
  by (intro keeps_rules)+

lemma gate_one_disk: "keeps (\<lambda>s. ss_disk s = d) (gate_one en own dt pct tr pending l)"
  unfolding gate_one_def by (intro keeps_rules keeps_disk_rows)

fun executes :: "investor_cmd \<Rightarrow> bool" where
  "executes (ExecuteSubs d nav pf) = True"
| "executes (ExecuteReds d nav pf) = True"
| "executes _ = False"

lemma investor_op_disk:
  assumes "\<not> executes c"
  shows "keeps (\<lambda>s. ss_disk s = d) (investor_op en ad own c)"
proof -
  note ops = submit_subscription_def record_kyc_decision_def ops_review_def gp_decision_def confirm_wire_def
    cancel_subscription_def submit_redemption_def validate_redemption_def run_gate_check_def confirm_payment_def
    cancel_redemption_def screen_investor_def upsert_fund_terms_def
  show ?thesis
    by (cases c)
      ((use assms in \<open>simp; fail\<close>) | (simp only: investor_op.simps ops Let_def case_prod_beta terms_to_summary_def flush_write_def,
        intro keeps_rules keeps_disk_rows summary_keeps keeps_for gate_one_disk))+
qed

lemma scan_Nil: "scan_spec en \<Longrightarrow> scan en key [] = []"
  by (metis set_scan set_empty)

lemma execute_nothing:
  assumes "scan_spec en" "iv_subs (ss_work s) = []" "iv_reds (ss_work s) = []" "executes c"
  shows "fst (investor_op en ad own c s) = s"
  using assms
  by (cases c) (auto simp: thenS_def bindS_def execute_subscriptions_def execute_redemptions_def Let_def
      subs_by_dealing_date_def reds_by_dealing_date_def scan_Nil)

lemma background_writes_nothing:
  assumes "frame I"
  shows "keeps I (investor_op en ad False c)"
proof -
  note fb = frame_basic[OF assms]
  note ops = submit_subscription_def record_kyc_decision_def ops_review_def gp_decision_def confirm_wire_def
    cancel_subscription_def submit_redemption_def validate_redemption_def run_gate_check_def confirm_payment_def
    cancel_redemption_def screen_investor_def upsert_fund_terms_def execute_subscriptions_def
    execute_redemptions_def insert_sub_def insert_red_def gate_one_def queue_red_def
  have rows: "update_sub False i f = retS ()" "update_red False i g = retS ()" "flush_write False h = retS ()" for i f g h
    by (simp_all add: update_sub_def update_red_def flush_write_def)
  have get: "keeps I (get_sub i)" "keeps I (get_red i)" for i
    unfolding get_sub_def get_red_def by (intro keeps_rules fb)+
  have ex: "keeps I (execute_sub en False d nav pf r)" "keeps I (execute_red en False d nav pf n q)" for d nav pf r n q
    unfolding execute_sub_def execute_red_def Let_def rows
    by (intro keeps_rules fb capital_frame[OF assms] summary_keeps)+
  show ?thesis
    by (cases c)
      (simp only: investor_op.simps ops rows Let_def case_prod_beta terms_to_summary_def,
        intro keeps_rules fb get ex summary_keeps keeps_for keeps_map)+
qed

section \<open>The way to the queue\<close>

definition bus_ok :: "ledger_env \<Rightarrow> bool" where
  "bus_ok en \<longleftrightarrow> (case le_publish en of None \<Rightarrow> True | Some fails \<Rightarrow> \<forall>topic ev. fails topic ev = None)"

lemma emit_ok:
  assumes "bus_ok en"
  obtains es where "emit en topic ev s = (s\<lparr>ss_events := es\<rparr>, Inr ())"
proof (cases "le_publish en")
  case None
  then show thesis using that[of "ss_events s"] by (simp add: emit_def)
next
  case (Some f)
  with assms show thesis using that by (simp add: emit_def bus_ok_def)
qed

text \<open>Updating a row that was found, with a bus that works.\<close>

lemma update_then:
  assumes "bus_ok en" "find_row sr_id i (iv_subs (ss_work s)) = Some r" "\<And>x. sr_id (f x) = sr_id x"
  shows "let t = ss_work (fst (thenS (thenS (update_sub True i f) (thenS (emit en topic ev) (sub_to_summary q))) (retS ()) s))
    in find_row sr_id i (iv_subs t) = Some (f r) \<and> iv_terms t = iv_terms (ss_work s)"
proof -
  let ?s = "s\<lparr>ss_work := (ss_work s)\<lparr>iv_subs := update_rows sr_id i f (iv_subs (ss_work s))\<rparr>\<rparr>"
  obtain es where es: "emit en topic ev ?s = (?s\<lparr>ss_events := es\<rparr>, Inr ())" using emit_ok[OF assms(1)] .
  have "find_row sr_id i (update_rows sr_id i f (iv_subs (ss_work s))) = Some (f r)"
    using find_row_update[of sr_id f i i "iv_subs (ss_work s)", OF assms(3)] assms(2) by simp
  then show ?thesis
    by (cases "subscription_state_of (sr_state q)")
      (simp_all add: thenS_def bindS_def update_sub_def flush_write_def es sub_to_summary_def Let_def)
qed

lemma get_sub_run:
  assumes "find_row sr_id i (iv_subs (ss_work s)) = Some r" "sr_state r = sub_value st"
  shows "get_sub i s = (s, Inr (r, st))"
  using assms by (simp add: get_sub_def bindS_def)

lemma step_run:
  assumes "get_sub i s = (s, Inr (r, st))"
  shows "thenS (bindS (get_sub i) k) n s = thenS (k (r, st)) n s"
  using assms by (simp add: thenS_def bindS_def)

abbreviation row_of :: "uuid \<Rightarrow> investor_tables session \<Rightarrow> sub_request option" where
  "row_of i s \<equiv> find_row sr_id i (iv_subs (ss_work s))"

lemma kyc_step:
  assumes "bus_ok en" "row_of i s = Some r" "sr_state r = sub_value SubPendingKyc"
  shows "\<exists>q. row_of i (investor_exec en ad (InSession, KycDecide i True by n) s) = Some q \<and>
    sr_state q = sub_value SubKycApproved \<and> sr_class q = sr_class r \<and>
    iv_terms (ss_work (investor_exec en ad (InSession, KycDecide i True by n) s)) = iv_terms (ss_work s)"
  using update_then[OF assms(1,2)]
  by (simp add: step_run[OF get_sub_run[OF assms(2,3)]] record_kyc_decision_def bindS_lift apply_subscription_transition_def Let_def)

lemma ops_step:
  assumes "bus_ok en" "row_of i s = Some r" "sr_state r = sub_value SubKycApproved"
  shows "\<exists>q. row_of i (investor_exec en ad (InSession, OpsDecide i True by n) s) = Some q \<and>
    sr_state q = sub_value SubPendingGpApproval \<and> sr_class q = sr_class r \<and>
    iv_terms (ss_work (investor_exec en ad (InSession, OpsDecide i True by n) s)) = iv_terms (ss_work s)"
  using update_then[OF assms(1,2)]
  by (simp add: step_run[OF get_sub_run[OF assms(2,3)]] ops_review_def bindS_lift apply_subscription_transition_def Let_def)

lemma gp_step:
  assumes "bus_ok en" "row_of i s = Some r" "sr_state r = sub_value SubPendingGpApproval"
    and tm: "terms_by_class (sr_class r) (ss_work s) = Some tm" "next_dealing_of en tm = Inr d"
  shows "\<exists>q. row_of i (investor_exec en ad (InSession, GpDecide i True by) s) = Some q \<and>
    sr_state q = sub_value SubApproved \<and> sr_dealing q = Some d"
proof -
  have mid: "thenS (bindS (bindS (readT (terms_by_class (sr_class r))) (\<lambda>terms. case terms of None \<Rightarrow> retS (sr_dealing r)
      | Some tm \<Rightarrow> bindS (liftS (next_dealing_of en tm)) (\<lambda>d. retS (Some d)))) k) n s = thenS (k (Some d)) n s"
    for k and n :: "unit iop" using tm by (simp add: thenS_def bindS_def)
  show ?thesis
    using update_then[OF assms(1,2)]
    by (simp add: step_run[OF get_sub_run[OF assms(2,3)]] gp_decision_def bindS_lift apply_subscription_transition_def Let_def mid)
qed

lemma wire_step:
  assumes "bus_ok en" "row_of i s = Some r" "sr_state r = sub_value SubApproved"
  shows "\<exists>q. row_of i (investor_exec en ad (InSession, WireIn i w) s) = Some q \<and>
    sr_state q = sub_value SubQueuedForNav \<and> sr_dealing q = sr_dealing r"
  using update_then[OF assms(1,2)]
  by (simp add: step_run[OF get_sub_run[OF assms(2,3)]] confirm_wire_def bindS_lift apply_subscription_transition_def Let_def)

lemma terms_of_tables: "iv_terms t = iv_terms u \<Longrightarrow> terms_by_class cls t = terms_by_class cls u"
  by (simp add: terms_by_class_def)

lemma queue_from_gp:
  assumes "bus_ok en" "row_of i s = Some r" "sr_state r = sub_value SubPendingGpApproval"
    "terms_by_class (sr_class r) (ss_work s) = Some tm" "next_dealing_of en tm = Inr d"
  shows "\<exists>q. row_of i (fold (investor_exec en ad) [(InSession, GpDecide i True by), (InSession, WireIn i w)] s) = Some q \<and>
    sr_state q = sub_value SubQueuedForNav \<and> sr_dealing q = Some d"
proof -
  obtain q where q: "row_of i (investor_exec en ad (InSession, GpDecide i True by) s) = Some q"
    "sr_state q = sub_value SubApproved" "sr_dealing q = Some d" using gp_step[OF assms] by blast
  from wire_step[OF assms(1) q(1,2)] q(3) show ?thesis by (simp del: investor_exec.simps sub_value.simps)
qed

lemma queue_from_kyc:
  assumes "bus_ok en" "row_of i s = Some r" "sr_state r = sub_value SubKycApproved"
    "terms_by_class (sr_class r) (ss_work s) = Some tm" "next_dealing_of en tm = Inr d"
  shows "\<exists>q. row_of i (fold (investor_exec en ad)
      [(InSession, OpsDecide i True by n), (InSession, GpDecide i True by), (InSession, WireIn i w)] s) = Some q \<and>
    sr_state q = sub_value SubQueuedForNav \<and> sr_dealing q = Some d"
proof -
  let ?s = "investor_exec en ad (InSession, OpsDecide i True by n) s"
  obtain q where q: "row_of i ?s = Some q" "sr_state q = sub_value SubPendingGpApproval" "sr_class q = sr_class r"
    "iv_terms (ss_work ?s) = iv_terms (ss_work s)" using ops_step[OF assms(1-3)] by blast
  from queue_from_gp[OF assms(1) q(1,2) _ assms(5)] assms(4) q(3,4) show ?thesis
    by (simp add: terms_of_tables[OF q(4)] del: investor_exec.simps sub_value.simps)
qed

lemma queue_from_start:
  assumes "bus_ok en" "row_of i s = Some r" "sr_state r = sub_value SubPendingKyc"
    "terms_by_class (sr_class r) (ss_work s) = Some tm" "next_dealing_of en tm = Inr d"
  shows "\<exists>q. row_of i (fold (investor_exec en ad) [(InSession, KycDecide i True by n),
      (InSession, OpsDecide i True by n), (InSession, GpDecide i True by), (InSession, WireIn i w)] s) = Some q \<and>
    sr_state q = sub_value SubQueuedForNav \<and> sr_dealing q = Some d"
proof -
  let ?s = "investor_exec en ad (InSession, KycDecide i True by n) s"
  obtain q where q: "row_of i ?s = Some q" "sr_state q = sub_value SubKycApproved" "sr_class q = sr_class r"
    "iv_terms (ss_work ?s) = iv_terms (ss_work s)" using kyc_step[OF assms(1-3)] by blast
  from queue_from_kyc[OF assms(1) q(1,2) _ assms(5)] assms(4) q(3,4) show ?thesis
    by (simp add: terms_of_tables[OF q(4)] del: investor_exec.simps sub_value.simps)
qed

section \<open>Properties\<close>


fun sub_accepts :: "subscription_state \<Rightarrow> subscription_state list \<Rightarrow> bool" where
  "sub_accepts st [] = True"
| "sub_accepts st (t # ts) = (apply_subscription_transition st t = Inr t \<and> sub_accepts t ts)"

fun red_accepts :: "redemption_state \<Rightarrow> redemption_state list \<Rightarrow> bool" where
  "red_accepts st [] = True"
| "red_accepts st (t # ts) = (apply_redemption_transition st t = Inr t \<and> red_accepts t ts)"

lemma accepts_walk: "sub_accepts st ts = sub.walk st ts" "red_accepts rt us = red.walk rt us"
  by (induction ts arbitrary: st, simp_all) (induction us arbitrary: rt, simp_all)

lemma heights: "1 \<le> sub_height st" "sub_height st \<le> 10" "1 \<le> red_height rt" "red_height rt \<le> 10"
  by (cases st; cases rt; simp)+

text \<open>C31. The life of a request is finite.  Any sequence of transitions the machines accept, from any state,
  visits no state twice and has at most nine steps; and from every state there is one that ends in a
  state with no way out.
\<close>

theorem request_life_is_finite:
  "(sub_accepts st ts \<longrightarrow> distinct (st # ts) \<and> length ts \<le> 9) \<and>
   (red_accepts rt us \<longrightarrow> distinct (rt # us) \<and> length us \<le> 9) \<and>
   (\<exists>vs. sub_accepts st vs \<and> sub_transitions (last (st # vs)) = []) \<and>
   (\<exists>ws. red_accepts rt ws \<and> red_transitions (last (rt # ws)) = [])"
proof (intro conjI impI)
  assume "sub_accepts st ts"
  then have w: "sub.walk st ts" by (simp only: accepts_walk)
  show "distinct (st # ts)" by (rule sub.walk_distinct[OF w])
  from sub.walk_short[OF w] heights(1)[of "last (st # ts)"] heights(2)[of st] show "length ts \<le> 9" by linarith
next
  assume "red_accepts rt us"
  then have w: "red.walk rt us" by (simp only: accepts_walk)
  show "distinct (rt # us)" by (rule red.walk_distinct[OF w])
  from red.walk_short[OF w] heights(3)[of "last (rt # us)"] heights(4)[of rt] show "length us \<le> 9" by linarith
qed (use sub.walk_ends red.walk_ends in \<open>simp_all only: accepts_walk\<close>)

theorem request_life_is_finite_witness:
  "distinct [SubPendingKyc, SubKycApproved, SubPendingOpsReview] \<and> length [SubKycApproved, SubPendingOpsReview] \<le> 9"
proof -
  have "sub_accepts SubPendingKyc [SubKycApproved, SubPendingOpsReview]" by (simp add: apply_subscription_transition_def)
  with request_life_is_finite[of SubPendingKyc "[SubKycApproved, SubPendingOpsReview]" RedDraft "[]"] show ?thesis by blast
qed

definition typed_requests :: "investor_tables \<Rightarrow> bool" where
  "typed_requests t \<longleftrightarrow> distinct (map sr_id (iv_subs t)) \<and> distinct (map rd_id (iv_reds t)) \<and>
     list_all (\<lambda>r. cents (sr_amount r) \<and> (case subscription_state_of (sr_state r) of Inl e \<Rightarrow> False
        | Inr st \<Rightarrow> st \<notin> {SubDraft, SubPendingOpsReview, SubPendingWire, SubWireConfirmed})) (iv_subs t) \<and>
     list_all (\<lambda>r. cents (rd_amount r) \<and> (case redemption_state_of (rd_state r) of Inl e \<Rightarrow> False
        | Inr st \<Rightarrow> st \<notin> {RedDraft, RedPendingGateCheck, RedNavCalculated, RedPaymentSent})) (iv_reds t)"

lemma ok_typed: "requests_ok t \<Longrightarrow> typed_requests t"
proof -
  have s: "cents (sr_amount r) \<and> (case subscription_state_of (sr_state r) of Inl e \<Rightarrow> False
      | Inr st \<Rightarrow> st \<notin> {SubDraft, SubPendingOpsReview, SubPendingWire, SubWireConfirmed})" if "sub_ok r" for r
  proof -
    from that obtain st where st: "sr_state r = sub_value st" "st \<in> set stored_sub_states" "cents (sr_amount r)"
      by (auto simp: sub_ok_def)
    then show ?thesis by (auto simp: stored_sub_states_def simp del: sub_value.simps)
  qed
  have d: "cents (rd_amount r) \<and> (case redemption_state_of (rd_state r) of Inl e \<Rightarrow> False
      | Inr st \<Rightarrow> st \<notin> {RedDraft, RedPendingGateCheck, RedNavCalculated, RedPaymentSent})" if "red_ok r" for r
  proof -
    from that obtain st where st: "rd_state r = red_value st" "st \<in> set stored_red_states" "cents (rd_amount r)"
      by (auto simp: red_ok_def)
    then show ?thesis by (auto simp: stored_red_states_def simp del: red_value.simps)
  qed
  assume "requests_ok t"
  then show ?thesis by (simp add: requests_ok_def typed_requests_def list_all_iff s d del: parse_label)
qed

text \<open>C14. The request tables are well-typed.  After any sequence of operations, however each was called (several
  in one session, as requests, or in the background) and whatever failed, in the session and on disk: request
  identifiers are unique, amounts are in cents within the column, every stored state parses, and the states
  a service only passes through (draft, pending ops review, pending wire, wire confirmed; pending gate check,
  NAV calculated, payment sent) are never stored.
\<close>

theorem request_tables_typed:
  assumes "col_spec en" "scan_spec en"
  shows "typed_requests (ss_work (fold (investor_exec en ad) cs empty_investor)) \<and>
    typed_requests (ss_disk (fold (investor_exec en ad) cs empty_investor))"
proof -
  have "\<forall>c\<in>set cs. col_spec en \<and> scan_spec en" using assms by blast
  from investor.run_keeps[OF this empty_investor_ok, of ad] show ?thesis by (simp add: on_tables_def ok_typed)
qed

definition demo_adapter :: screening_adapter where
  "demo_adapter who name ty jur = Inr \<lparr>sc_kyc = ''approved'', sc_aml = ''cleared'', sc_sanctions_clear = True,
     sc_pep = False, sc_funds_verified = True, sc_provider = ''mock'', sc_notes = []\<rparr>"

theorem request_tables_typed_witness:
  "typed_requests (ss_work (fold (investor_exec demo_ledger demo_adapter)
     [(InSession, SubmitSub 5 1000 ''default''), (InSession, KycDecide 1 True ''kyc'' []),
      (InRequest, SubmitRed 5 100 None), (InBackground, ExecuteSubs 738886 10 7)] empty_investor))"
  using request_tables_typed[OF demo_col demo_scan] by blast

definition signed_off :: "investor_tables \<Rightarrow> bool" where
  "signed_off t \<longleftrightarrow>
     list_all (\<lambda>r. sr_state r = sub_value SubExecuted \<longrightarrow> sr_kyc_by r \<noteq> None \<and> sr_ops_by r \<noteq> None \<and> sr_gp_by r \<noteq> None \<and>
       sr_wire_ref r \<noteq> None \<and> sr_dealing r \<noteq> None \<and> sr_nav r \<noteq> None \<and> sr_shares r \<noteq> None) (iv_subs t) \<and>
     list_all (\<lambda>r. rd_state r = red_value RedPendingPayment \<or> rd_state r = red_value RedExecuted \<longrightarrow>
       rd_approved r \<noteq> None \<and> rd_dealing r \<noteq> None \<and> rd_nav r \<noteq> None \<and> rd_shares r \<noteq> None \<and> rd_due r \<noteq> None) (iv_reds t)"

lemma ok_signed_off: "requests_ok t \<Longrightarrow> signed_off t"
proof -
  assume t: "requests_ok t"
  have "sub_fact r SubExecuted" if "r \<in> set (iv_subs t)" "sr_state r = sub_value SubExecuted" for r
    using t that by (intro sub_factI) (auto simp: requests_ok_def)
  then have s: "list_all (\<lambda>r. sr_state r = sub_value SubExecuted \<longrightarrow> sr_kyc_by r \<noteq> None \<and> sr_ops_by r \<noteq> None \<and>
      sr_gp_by r \<noteq> None \<and> sr_wire_ref r \<noteq> None \<and> sr_dealing r \<noteq> None \<and> sr_nav r \<noteq> None \<and> sr_shares r \<noteq> None) (iv_subs t)"
    by (simp add: list_all_iff sub_fact_def sub_step del: sub_value.simps)
  have "red_fact r st" if "r \<in> set (iv_reds t)" "rd_state r = red_value st" for r st
    using t that by (intro red_factI) (auto simp: requests_ok_def)
  from this[of _ RedPendingPayment] this[of _ RedExecuted]
  have "list_all (\<lambda>r. rd_state r = red_value RedPendingPayment \<or> rd_state r = red_value RedExecuted \<longrightarrow>
       rd_approved r \<noteq> None \<and> rd_dealing r \<noteq> None \<and> rd_nav r \<noteq> None \<and> rd_shares r \<noteq> None \<and> rd_due r \<noteq> None) (iv_reds t)"
    unfolding list_all_iff by (auto simp: red_fact_def red_step simp del: red_value.simps)
  with s show ?thesis by (simp only: signed_off_def)
qed



lemma request_disk:
  assumes "ss_work s = ss_disk s" "ss_disk (fst (m s)) = ss_disk s"
  shows "ss_disk (fst (request m s)) = ss_disk s \<and> ss_work (fst (request m s)) = ss_disk s"
  using assms by (cases "m s") (simp add: request_def)

text \<open>No HTTP request ever stores a subscription or a redemption.  On a database without requests, any
  sequence of HTTP requests to the investor operations, in any order, leaves everything committed as it was:
  submissions, decisions, fund terms and screenings are flushed in a session that nobody commits.
\<close>

theorem requests_never_stored:
  assumes "scan_spec en" "\<forall>c\<in>set cs. fst c = InRequest"
    and "ss_work s = ss_disk s" "iv_subs (ss_disk s) = []" "iv_reds (ss_disk s) = []"
  shows "ss_disk (fold (investor_exec en ad) cs s) = ss_disk s"
proof -
  let ?I = "\<lambda>t. ss_disk t = ss_disk s \<and> ss_work t = ss_disk s"
  have "?I (investor_exec en ad c t)" if c: "fst c = InRequest" and t: "?I t" for c t
  proof -
    obtain d where d: "c = (InRequest, d)" using c by (cases c) auto
    have "ss_disk (fst (investor_op en ad True d t)) = ss_disk t"
    proof (cases "executes d")
      case True
      with execute_nothing[OF assms(1), of t d ad True] t assms(4,5) show ?thesis by simp
    next
      case False
      from keeps_fst[OF investor_op_disk[OF False, of "ss_disk t" en ad True], of t] show ?thesis by simp
    qed
    with request_disk[of t "investor_op en ad True d"] t show ?thesis by (simp add: d)
  qed
  then have "?I (fold (investor_exec en ad) cs t)" if "?I t" for t
    using assms(2) that by (induction cs arbitrary: t) auto
  with assms(3) show ?thesis by blast
qed

theorem requests_never_stored_witness:
  "ss_disk (fold (investor_exec demo_ledger demo_adapter) [(InRequest, SetTerms ''default'' 12 45 ''quarterly'' (1 / 4) 1 1 (- 1) 30),
     (InRequest, SubmitSub 5 1000 ''default''), (InRequest, KycDecide 2 True ''kyc'' [])] empty_investor) = ss_disk empty_investor"
  by (rule requests_never_stored[OF demo_scan]) (simp_all add: empty_investor_def Let_def)

text \<open>The end of day executes subscriptions but does not record it.  Called without a session, as the end of
  day does, no operation changes the requests, the terms or the screenings, in the session or on disk,
  although it does book the capital: a subscription queued for the dealing date is still queued afterwards
  and the next run for that date executes it again.
\<close>

theorem background_leaves_requests_queued:
  "let s' = investor_exec en ad (InBackground, c) s
   in ss_work s = ss_disk s \<longrightarrow> (iv_subs (ss_work s'), iv_reds (ss_work s'), iv_terms (ss_work s'), iv_kyc (ss_work s')) =
        (iv_subs (ss_work s), iv_reds (ss_work s), iv_terms (ss_work s), iv_kyc (ss_work s)) \<and>
      (iv_subs (ss_disk s'), iv_reds (ss_disk s'), iv_terms (ss_disk s'), iv_kyc (ss_disk s')) =
        (iv_subs (ss_disk s), iv_reds (ss_disk s), iv_terms (ss_disk s), iv_kyc (ss_disk s)) \<and>
      subs_by_dealing_date en d (ss_work s') = subs_by_dealing_date en d (ss_work s)"
proof -
  let ?P = "\<lambda>t. (iv_subs t, iv_reds t, iv_terms t, iv_kyc t) =
    (iv_subs (ss_work s), iv_reds (ss_work s), iv_terms (ss_work s), iv_kyc (ss_work s))"
  have frame: "frame (on_tables ?P)" by (rule frame_tables) simp
  have "on_tables ?P (investor_exec en ad (InBackground, c) s)" if "ss_work s = ss_disk s"
    using keeps_fst[OF background_writes_nothing[OF frame], of s en ad c] that by (simp add: on_tables_def)
  then show ?thesis by (simp add: on_tables_def Let_def subs_by_dealing_date_def)
qed

definition demo_sub :: sub_request where
  "demo_sub = \<lparr>sr_id = 11, sr_investor = 5, sr_class = ''default'', sr_amount = 1000, sr_state = ''pending_kyc'',
     sr_submitted = 0, sr_kyc_at = None, sr_kyc_by = None, sr_kyc_notes = None, sr_ops_at = None,
     sr_ops_by = None, sr_ops_notes = None, sr_gp_at = None, sr_gp_by = None, sr_wire_at = None,
     sr_wire_ref = None, sr_dealing = None, sr_executed_at = None, sr_nav = None, sr_shares = None,
     sr_cancelled_at = None, sr_reason = None\<rparr>"

definition demo_terms :: fund_terms where
  "demo_terms = \<lparr>tm_id = 12, tm_class = ''default'', tm_lock_up = 12, tm_notice = 45, tm_frequency = ''quarterly'',
     tm_gate = 1 / 4, tm_min_sub = 1, tm_min_red = 1, tm_dealing_day = - 1, tm_payment = 30, tm_active = True\<rparr>"

definition demo_investor :: "investor_tables session" where
  "demo_investor =
     (let t = (ss_work empty_investor)\<lparr>iv_subs := [demo_sub], iv_terms := [demo_terms]\<rparr>
      in empty_investor\<lparr>ss_work := t, ss_disk := t\<rparr>)"

theorem background_leaves_requests_queued_witness:
  "iv_subs (ss_disk (investor_exec demo_ledger demo_adapter (InBackground, ExecuteSubs 738886 10 7) demo_investor)) = [demo_sub]"
proof -
  have "ss_work demo_investor = ss_disk demo_investor" "iv_subs (ss_disk demo_investor) = [demo_sub]"
    by (simp_all add: demo_investor_def Let_def)
  with background_leaves_requests_queued[of demo_ledger demo_adapter "ExecuteSubs 738886 10 7" demo_investor 738886]
  show ?thesis by (simp only: Let_def prod.inject)
qed

text \<open>C30. A live subscription can always be brought to the NAV queue.  In a session with a working bus, from each
  of the states before the GP's decision the remaining approvals and the wire (at most four operations) lead to
  a request queued for NAV with the dealing date of its share class's terms, where the execution of that date
  finds it.
\<close>

theorem subscription_reaches_queue:
  assumes "bus_ok en" "scan_spec en" "find_row sr_id i (iv_subs (ss_work s)) = Some r"
    and "sr_state r = sub_value st" "st \<in> {SubPendingKyc, SubKycApproved, SubPendingGpApproval}"
    and "terms_by_class (sr_class r) (ss_work s) = Some tm" "next_dealing_of en tm = Inr d"
  shows "\<exists>cs q. length cs \<le> 4 \<and> sr_id q = i \<and>
    q \<in> set (subs_by_dealing_date en d (ss_work (fold (investor_exec en ad) (map (Pair InSession) cs) s))) \<and>
    sr_state q = sub_value SubQueuedForNav"
proof -
  let ?tail = "[GpDecide i True [], WireIn i []]"
  have "\<exists>cs q. length cs \<le> 4 \<and> row_of i (fold (investor_exec en ad) (map (Pair InSession) cs) s) = Some q \<and>
      sr_state q = sub_value SubQueuedForNav \<and> sr_dealing q = Some d"
    using assms(5)
  proof (elim insertE emptyE)
    assume "st = SubPendingKyc"
    from queue_from_start[OF assms(1,3) assms(4)[unfolded this] assms(6,7), of ad "[]" "[]" "[]"]
    show ?thesis by (intro exI[of _ "[KycDecide i True [] [], OpsDecide i True [] []] @ ?tail"]) (simp del: investor_exec.simps)
  next
    assume "st = SubKycApproved"
    from queue_from_kyc[OF assms(1,3) assms(4)[unfolded this] assms(6,7), of ad "[]" "[]" "[]"]
    show ?thesis by (intro exI[of _ "OpsDecide i True [] [] # ?tail"]) (simp del: investor_exec.simps)
  next
    assume "st = SubPendingGpApproval"
    from queue_from_gp[OF assms(1,3) assms(4)[unfolded this] assms(6,7), of ad "[]" "[]"]
    show ?thesis by (intro exI[of _ ?tail]) (simp del: investor_exec.simps)
  qed
  then obtain cs q where cs: "length cs \<le> 4" "row_of i (fold (investor_exec en ad) (map (Pair InSession) cs) s) = Some q"
    "sr_state q = sub_value SubQueuedForNav" "sr_dealing q = Some d" by blast
  from find_row_Some[OF cs(2)] cs(1,3,4) show ?thesis
    by (intro exI[of _ cs] exI[of _ q]) (simp add: subs_by_dealing_mem[OF assms(2)])
qed

lemma demo_next_dealing: "\<exists>d. next_dealing_of demo_ledger demo_terms = Inr d"
proof -
  have "year_of 738886 \<le> 9997" by (simp add: year_of_def Let_def)
  then show ?thesis using next_dealing_spec[of "- 1" 738886 Quarterly]
    by (auto simp: next_dealing_of_def redemption_frequency_of_def demo_terms_def demo_ledger_def)
qed

theorem subscription_reaches_queue_witness:
  "\<exists>cs q d. length cs \<le> 4 \<and> sr_id q = 11 \<and> sr_state q = ''queued_for_nav'' \<and>
     q \<in> set (subs_by_dealing_date demo_ledger d
       (ss_work (fold (investor_exec demo_ledger demo_adapter) (map (Pair InSession) cs) demo_investor)))"
proof -
  obtain d where d: "next_dealing_of demo_ledger demo_terms = Inr d" using demo_next_dealing by blast
  have w: "iv_subs (ss_work demo_investor) = [demo_sub]" "iv_terms (ss_work demo_investor) = [demo_terms]"
    by (simp_all add: demo_investor_def Let_def)
  have "find_row sr_id 11 (iv_subs (ss_work demo_investor)) = Some demo_sub" unfolding w by (simp add: demo_sub_def)
  moreover have "sr_state demo_sub = sub_value SubPendingKyc" by (simp add: demo_sub_def)
  moreover have "bus_ok demo_ledger" by (simp add: bus_ok_def demo_ledger_def)
  moreover have "terms_by_class (sr_class demo_sub) (ss_work demo_investor) = Some demo_terms"
    unfolding terms_by_class_def w by (simp add: demo_sub_def demo_terms_def)
  ultimately show ?thesis
    using subscription_reaches_queue[OF _ demo_scan _ _ _ _ d, of 11 demo_investor demo_sub SubPendingKyc demo_adapter]
    by (auto simp del: investor_exec.simps)
qed

text \<open>A redemption gated to nothing is paid in full.  When the gate has no capacity it approves zero for
  every request; the execution reads an approved amount of zero as none and redeems what was requested.
\<close>

theorem zero_gate_pays_in_full:
  assumes "xs \<noteq> []" "\<forall>x\<in>set xs. 0 < snd x \<and> on_grid 2 (snd x)" "(\<Sum>x\<leftarrow>xs. snd x) \<le> 10 ^ 12"
    and "dmul nav pct = 0"
  shows "\<exists>g. check_gate xs nav pct = Inr g \<and> map gl_request (gr_allocations g) = map fst xs \<and>
    list_all (\<lambda>l. gl_approved l = 0 \<and> payable_amount (r\<lparr>rd_approved := Some (gl_approved l)\<rparr>) = rd_amount r)
      (gr_allocations g)"
proof -
  let ?t = "\<Sum>x\<leftarrow>xs. snd x"
  have amounts: "\<forall>x\<in>set xs. 0 \<le> snd x \<and> on_grid 2 (snd x)" using assms(2) by (auto intro: less_imp_le)
  have grid: "on_grid 2 ?t" by (rule on_grid_sum_list) (use assms(2) in auto)
  obtain x ys where xs: "xs = x # ys" using assms(1) by (cases xs) auto
  have "0 \<le> (\<Sum>y\<leftarrow>ys. snd y)" using amounts by (intro sum_list_nonneg) (auto simp: xs)
  then have pos: "0 < ?t" using assms(2) by (simp add: xs)
  have t: "dsum (map snd xs) = ?t"
  proof (rule dsum_exact[of _ 2])
    have "(\<Sum>x\<leftarrow>map snd xs. \<bar>x\<bar>) = ?t" using amounts by (intro arg_cong[of _ _ sum_list]) (auto simp: comp_def)
    then show "(\<Sum>x\<leftarrow>map snd xs. \<bar>x\<bar>) * 10 ^ 2 \<le> 10 ^ 28" using assms(3) by simp
  qed (use amounts in auto)
  obtain ls where ls: "gate_loop 0 ?t 0 xs = Inr ls" "map gl_request ls = map fst xs"
    "(\<Sum>l\<leftarrow>ls. gl_approved l) = 0" "list_all2 gate_part (butlast xs) (butlast ls)"
    using gate_loop_spec[OF pos assms(3) grid _ _ _ assms(1) amounts, of 0 0] pos by auto
  have first: "gate_loop 0 ?t 0 zs = Inr ms \<Longrightarrow> list_all (\<lambda>l. gl_approved l = 0) ms" for zs ms
  proof (induction zs arbitrary: ms)
    case (Cons z zs)
    obtain i amt where z: "z = (i, amt)" by (cases z)
    have "dmul 0 amt = 0" "quantize_downE 2 (ddiv 0 ?t) = Inr 0" "dsub 0 0 = 0" "dadd 0 0 = 0"
      by (simp_all add: dec_defs quantize_downE_def Let_def)
    with Cons show ?case by (auto simp: z bindE_Inr_iff split: if_splits)
  qed simp
  have "check_gate xs nav pct = Inr \<lparr>gr_triggered = True, gr_requested = ?t, gr_approved = 0, gr_capacity = 0,
      gr_allocations = ls\<rparr>"
    using assms(1,4) pos ls(1) by (simp add: check_gate_def t Let_def)
  with ls(2) first[OF ls(1)] show ?thesis by (auto simp: list_all_iff payable_amount_def)
qed

definition demo_red :: red_request where
  "demo_red = \<lparr>rd_id = 1, rd_investor = 5, rd_amount = 100, rd_approved = None, rd_state = ''validated'',
     rd_submitted = 0, rd_notice = 738886, rd_earliest = None, rd_lock_up = None, rd_gate_applied = False,
     rd_gate_pct = None, rd_dealing = None, rd_nav = None, rd_shares = None, rd_due = None, rd_sent_at = None,
     rd_reference = None, rd_cancelled_at = None, rd_reason = None\<rparr>"

theorem zero_gate_pays_in_full_witness:
  "\<exists>g. check_gate [(1, 100), (2, 300)] 0 (1 / 4) = Inr g \<and>
     list_all (\<lambda>l. gl_approved l = 0 \<and> payable_amount (demo_red\<lparr>rd_approved := Some (gl_approved l)\<rparr>) = 100)
       (gr_allocations g)"
proof -
  have "dmul 0 (1 / 4) = 0" by (simp add: dec_defs)
  with zero_gate_pays_in_full[of "[(1, 100), (2, 300)]" 0 "1 / 4" demo_red] show ?thesis
    by (auto simp: demo_red_def)
qed

end
