(* ===== verification/Fees.thy ===== *)
theory Fees
  imports Cash
begin

text \<open>
  Fee accounting (\<open>app/modules/fee_accounting\<close>): the management and performance fee of a day, the
  accrual rows with their running totals, the high water mark and the approval of accruals.  The
  tables are those of a fund; a schedule, an accrual and a mark belong to a share class.  Every
  repository of the module commits its own write.  A query ordered by date leaves the order of rows
  of one date to the database: the rows are scanned and then sorted by date, latest first.
\<close>

datatype fee_type = ManagementFee | PerformanceFee | AdminFee
datatype accrual_status = FeeAccrued | FeeCrystallized | FeePaid

section \<open>Calculator\<close>

definition calculate_daily_management_fee :: "dec \<Rightarrow> int \<Rightarrow> dec res" where
  "calculate_daily_management_fee nav annual_bps =
     quantize_upE 2 (ddiv (ddiv (dmul nav (of_int annual_bps)) 10000) 365)"

definition calculate_performance_fee :: "dec \<Rightarrow> dec \<Rightarrow> dec \<Rightarrow> dec \<Rightarrow> int \<Rightarrow> dec res" where
  "calculate_performance_fee current_nav hwm_nav pct hurdle_annual days =
     (if current_nav \<le> hwm_nav then Inr 0
      else let prorated = ddiv (dmul (ddiv hurdle_annual 100) (of_int days)) 365;
               gain = dsub current_nav (dmul hwm_nav (dadd 1 prorated))
           in if gain \<le> 0 then Inr 0 else quantize_upE 2 (ddiv (dmul gain pct) 100))"

definition should_crystallize :: "string \<Rightarrow> date \<Rightarrow> bool res" where
  "should_crystallize frequency d =
     (if frequency = ''quarterly'' then
        (if month_of d \<notin> {3, 6, 9, 12} then Inr False
         else if max_date < d + 1 then Inl ValueError
         else Inr (month_of (d + 1) \<noteq> month_of d))
      else if frequency = ''annual'' then Inr (month_of d = 12 \<and> day_of d = 31)
      else Inr False)"

section \<open>Tables\<close>

record fee_schedule =
  fs_fund :: string
  fs_class :: string
  fs_mgmt_bps :: int
  fs_perf_pct :: dec
  fs_hurdle :: dec
  fs_high_water :: bool
  fs_crystal :: string
  fs_payment :: string

record fee_accrual =
  fa_id :: uuid
  fa_portfolio :: uuid
  fa_class :: string
  fa_type :: fee_type
  fa_date :: date
  fa_nav :: dec
  fa_amount :: dec
  fa_cumulative :: dec
  fa_status :: accrual_status

record water_mark =
  wm_id :: uuid
  wm_portfolio :: uuid
  wm_class :: string
  wm_date :: date
  wm_nav :: dec
  wm_peak :: dec

record fee_tables =
  ft_schedules :: "fee_schedule list"
  ft_accruals :: "fee_accrual list"
  ft_marks :: "water_mark list"

definition schedule_key :: "fee_schedule \<Rightarrow> string \<times> string" where
  "schedule_key r = (fs_fund r, fs_class r)"

definition get_by_fund_slug :: "string \<Rightarrow> string \<Rightarrow> 'a fee_tables_scheme \<Rightarrow> fee_schedule option" where
  "get_by_fund_slug fund cls t = find_row schedule_key (fund, cls) (ft_schedules t)"

definition int32 :: "int \<Rightarrow> int res" where
  "int32 n = (if - (2 ^ 31) \<le> n \<and> n < 2 ^ 31 then Inr n else Inl OtherError)"

definition upsert_schedule :: "ledger_env \<Rightarrow> fee_schedule \<Rightarrow> ('a fee_tables_scheme, fee_schedule) op" where
  "upsert_schedule en r =
     bindS (liftS (bindE (int32 (fs_mgmt_bps r)) (\<lambda>_. bindE (le_col en 8 4 (fs_perf_pct r)) (\<lambda>pct.
       bindE (le_col en 8 4 (fs_hurdle r)) (\<lambda>h. Inr (r\<lparr>fs_perf_pct := pct, fs_hurdle := h\<rparr>)))))) (\<lambda>q.
     thenS (writeT (\<lambda>t. t\<lparr>ft_schedules := put_row_by schedule_key q (ft_schedules t)\<rparr>))
       (thenS commit (retS q)))"

definition get_by_portfolio ::
  "ledger_env \<Rightarrow> uuid \<Rightarrow> date option \<Rightarrow> date option \<Rightarrow> 'a fee_tables_scheme \<Rightarrow> fee_accrual list" where
  "get_by_portfolio en p start stop t = sort_key (\<lambda>r. - fa_date r) (scan en fa_id
     (filter (\<lambda>r. fa_portfolio r = p \<and> (\<forall>d\<in>set_option start. d \<le> fa_date r) \<and>
        (\<forall>d\<in>set_option stop. fa_date r \<le> d)) (ft_accruals t)))"

definition first_of_list :: "'r list \<Rightarrow> 'r option" where
  "first_of_list rs = (case rs of [] \<Rightarrow> None | r # _ \<Rightarrow> Some r)"

definition get_latest_by_type ::
  "ledger_env \<Rightarrow> uuid \<Rightarrow> fee_type \<Rightarrow> string \<Rightarrow> 'a fee_tables_scheme \<Rightarrow> fee_accrual option" where
  "get_latest_by_type en p ty cls t = first_of_list (sort_key (\<lambda>r. - fa_date r) (scan en fa_id
     (filter (\<lambda>r. fa_portfolio r = p \<and> fa_type r = ty \<and> fa_class r = cls) (ft_accruals t))))"

definition insert_accrual :: "ledger_env \<Rightarrow> fee_accrual \<Rightarrow> ('a fee_tables_scheme, fee_accrual) op" where
  "insert_accrual en r =
     bindS (liftS (bindE (le_col en 20 2 (fa_nav r)) (\<lambda>nav. bindE (le_col en 20 2 (fa_amount r)) (\<lambda>am.
       bindE (le_col en 20 2 (fa_cumulative r)) (\<lambda>cum.
       Inr (r\<lparr>fa_nav := nav, fa_amount := am, fa_cumulative := cum\<rparr>)))))) (\<lambda>q.
     bindS (readT (\<lambda>t. find_row fa_id (fa_id q) (ft_accruals t))) (\<lambda>old.
     if old \<noteq> None then raiseS IntegrityError
     else thenS (writeT (\<lambda>t. t\<lparr>ft_accruals := ft_accruals t @ [q]\<rparr>)) (thenS commit (retS q))))"

definition set_accrual_status :: "uuid \<Rightarrow> accrual_status \<Rightarrow> ('a fee_tables_scheme, unit) op" where
  "set_accrual_status i st =
     thenS (writeT (\<lambda>t. t\<lparr>ft_accruals := update_rows fa_id i (\<lambda>r. r\<lparr>fa_status := st\<rparr>) (ft_accruals t)\<rparr>)) commit"

definition get_latest_mark ::
  "ledger_env \<Rightarrow> uuid \<Rightarrow> string \<Rightarrow> 'a fee_tables_scheme \<Rightarrow> water_mark option" where
  "get_latest_mark en p cls t = first_of_list (sort_key (\<lambda>r. - wm_date r) (scan en wm_id
     (filter (\<lambda>r. wm_portfolio r = p \<and> wm_class r = cls) (ft_marks t))))"

definition insert_mark :: "ledger_env \<Rightarrow> water_mark \<Rightarrow> ('a fee_tables_scheme, unit) op" where
  \<comment> \<open>\<open>HighWaterMarkRepository.upsert\<close>, which only ever adds\<close>
  "insert_mark en r =
     bindS (liftS (bindE (le_col en 20 2 (wm_nav r)) (\<lambda>nav. bindE (le_col en 20 2 (wm_peak r)) (\<lambda>peak.
       Inr (r\<lparr>wm_nav := nav, wm_peak := peak\<rparr>))))) (\<lambda>q.
     bindS (readT (\<lambda>t. find_row wm_id (wm_id q) (ft_marks t))) (\<lambda>old.
     if old \<noteq> None then raiseS IntegrityError
     else thenS (writeT (\<lambda>t. t\<lparr>ft_marks := ft_marks t @ [q]\<rparr>)) commit))"

section \<open>Accruing\<close>

definition schedule_for :: "string \<Rightarrow> string \<Rightarrow> ('a fee_tables_scheme, fee_schedule option) op" where
  \<comment> \<open>the schedule of the class, or else that of the default class\<close>
  "schedule_for fund cls = bindS (readT (get_by_fund_slug fund cls)) (\<lambda>r. case r of
       Some x \<Rightarrow> retS (Some x)
     | None \<Rightarrow> readT (get_by_fund_slug fund ''default''))"

definition accrue_fee ::
  "ledger_env \<Rightarrow> uuid \<Rightarrow> string \<Rightarrow> fee_type \<Rightarrow> date \<Rightarrow> dec \<Rightarrow> dec \<Rightarrow> ('a fee_tables_scheme, fee_accrual) op" where
  \<comment> \<open>the same lines for either fee: the latest row of the type, the running total, the new row\<close>
  "accrue_fee en p cls ty d nav fee =
     bindS (readT (get_latest_by_type en p ty cls)) (\<lambda>latest.
     let cumulative = (case latest of Some r \<Rightarrow> dadd (fa_cumulative r) fee | None \<Rightarrow> fee)
     in bindS (new_uuid en) (\<lambda>i.
        insert_accrual en \<lparr>fa_id = i, fa_portfolio = p, fa_class = cls, fa_type = ty, fa_date = d,
          fa_nav = nav, fa_amount = fee, fa_cumulative = cumulative, fa_status = FeeAccrued\<rparr>))"

definition accrue_daily_fees ::
  "ledger_env \<Rightarrow> uuid \<Rightarrow> string \<Rightarrow> dec \<Rightarrow> date \<Rightarrow> string \<Rightarrow> ('a fee_tables_scheme, fee_accrual list) op" where
  "accrue_daily_fees en p fund nav d cls = bindS (schedule_for fund cls) (\<lambda>sched. case sched of
       None \<Rightarrow> retS []
     | Some sc \<Rightarrow>
         bindS (liftS (calculate_daily_management_fee nav (fs_mgmt_bps sc))) (\<lambda>mgmt_fee.
         bindS (accrue_fee en p cls ManagementFee d nav mgmt_fee) (\<lambda>mgmt.
         bindS (readT (get_latest_mark en p cls)) (\<lambda>mark.
         let hwm_nav = (case mark of Some m \<Rightarrow> wm_nav m | None \<Rightarrow> nav);
             days = (case mark of Some m \<Rightarrow> d - wm_date m | None \<Rightarrow> 0)
         in bindS (liftS (calculate_performance_fee nav hwm_nav (fs_perf_pct sc) (fs_hurdle sc) days)) (\<lambda>perf_fee.
         bindS (if 0 < perf_fee
                then bindS (accrue_fee en p cls PerformanceFee d nav perf_fee) (\<lambda>perf. retS [mgmt, perf])
                else retS [mgmt]) (\<lambda>accruals.
         thenS (emit en (fund_topic fund ''fees.accrued'') (FeesAccrued p cls d mgmt_fee perf_fee nav))
           (retS accruals)))))))"

definition accrue_daily_for_fund ::
  "ledger_env \<Rightarrow> uuid list \<Rightarrow> string \<Rightarrow> (uuid \<Rightarrow> dec option) option \<Rightarrow> date \<Rightarrow> string
     \<Rightarrow> ('a fee_tables_scheme, fee_accrual list) op" where
  "accrue_daily_for_fund en ps fund navs d cls =
     bindS (mapS (\<lambda>p. accrue_daily_fees en p fund (or_else (or_else navs (\<lambda>_. None) p) 0) d cls) ps)
       (\<lambda>rows. retS (concat rows))"

section \<open>Crystallization and approval\<close>

definition crystallize_fees ::
  "ledger_env \<Rightarrow> uuid \<Rightarrow> string \<Rightarrow> date \<Rightarrow> string \<Rightarrow> ('a fee_tables_scheme, unit) op" where
  "crystallize_fees en p fund d cls = bindS (schedule_for fund cls) (\<lambda>sched. case sched of
       None \<Rightarrow> retS ()
     | Some sc \<Rightarrow> bindS (liftS (should_crystallize (fs_crystal sc) d)) (\<lambda>due.
         if \<not> due then retS ()
         else bindS (readT (get_by_portfolio en p None None)) (\<lambda>accruals.
         thenS (forS (\<lambda>r. whenS (fa_status r = FeeAccrued \<and> fa_class r = cls)
                  (set_accrual_status (fa_id r) FeeCrystallized)) accruals)
        (thenS (case first_of_list (filter (\<lambda>r. fa_class r = cls) accruals) of
                  None \<Rightarrow> retS ()
                | Some latest \<Rightarrow> bindS (readT (get_latest_mark en p cls)) (\<lambda>mark.
                    let current = fa_nav latest;
                        peak = (case mark of Some m \<Rightarrow> max current (wm_peak m) | None \<Rightarrow> current)
                    in bindS (new_uuid en) (\<lambda>i. insert_mark en
                         \<lparr>wm_id = i, wm_portfolio = p, wm_class = cls, wm_date = d,
                          wm_nav = current, wm_peak = peak\<rparr>)))
          (emit en (fund_topic fund ''fees.crystallized'') (FeesCrystallized p cls d))))))"

definition crystallize_for_fund ::
  "ledger_env \<Rightarrow> uuid list \<Rightarrow> string \<Rightarrow> date \<Rightarrow> string \<Rightarrow> ('a fee_tables_scheme, unit) op" where
  "crystallize_for_fund en ps fund d cls = forS (\<lambda>p. crystallize_fees en p fund d cls) ps"

definition approve_one :: "uuid \<Rightarrow> ('a fee_tables_scheme, bool) op" where
  "approve_one i = bindS (readT (\<lambda>t. find_row fa_id i (ft_accruals t))) (\<lambda>r. case r of
       None \<Rightarrow> retS False
     | Some a \<Rightarrow> if fa_status a \<noteq> FeeAccrued then retS False
                 else thenS (set_accrual_status i FeeCrystallized) (retS True))"

definition approve_accruals ::
  "ledger_env \<Rightarrow> uuid list \<Rightarrow> string option \<Rightarrow> ('a fee_tables_scheme, nat) op" where
  "approve_accruals en ids fund = bindS (mapS approve_one ids) (\<lambda>ok.
     let approved = map fst (filter snd (zip ids ok))
     in thenS (case fund of None \<Rightarrow> retS ()
               | Some f \<Rightarrow> whenS (approved \<noteq> []) (emit en (fund_topic f ''fees.approved'') (FeesApproved approved)))
          (retS (length approved)))"

section \<open>Queries\<close>

definition get_accruals_for_fund ::
  "ledger_env \<Rightarrow> uuid list \<Rightarrow> date option \<Rightarrow> date option \<Rightarrow> 'a fee_tables_scheme \<Rightarrow> fee_accrual list" where
  "get_accruals_for_fund en ps start stop t =
     sort_key (\<lambda>r. - fa_date r) (concat (map (\<lambda>p. get_by_portfolio en p start stop t) ps))"

text \<open>\<open>d[k] = d.get(k, Decimal(0)) + x\<close> on a dictionary in insertion order.\<close>

fun total_add :: "'k \<Rightarrow> dec \<Rightarrow> ('k \<times> dec) list \<Rightarrow> ('k \<times> dec) list" where
  "total_add k x [] = [(k, dadd 0 x)]"
| "total_add k x ((j, y) # rest) = (if j = k then (j, dadd y x) # rest else (j, y) # total_add k x rest)"

definition get_fee_summary :: "ledger_env \<Rightarrow> uuid \<Rightarrow> 'a fee_tables_scheme \<Rightarrow> (fee_type \<times> dec) list" where
  "get_fee_summary en p t =
     foldl (\<lambda>m r. total_add (fa_type r) (fa_amount r) m) [] (get_by_portfolio en p None None t)"

definition get_fund_summary :: "ledger_env \<Rightarrow> uuid list \<Rightarrow> 'a fee_tables_scheme \<Rightarrow> (fee_type \<times> dec) list" where
  "get_fund_summary en ps t =
     foldl (\<lambda>m p. foldl (\<lambda>m (ty, x). total_add ty x m) m (get_fee_summary en p t)) [] ps"

end
