(* ===== verification/Recon.thy ===== *)
theory Recon
  imports Fees "HOL-Library.AList"
begin

text \<open>
  Reconciliation at the end of the day (\<open>app/modules/eod/core/reconciler.py\<close>, \<open>auto_resolver.py\<close>,
  \<open>escalation.py\<close> and their repositories): the three-way match of positions, the match of cash, the
  breaks that are stored, the rules that close or escalate them and the ages of the open ones.

  A Python dictionary is an association list in insertion order.  A set of strings has no order: the
  order its elements are visited in is \<open>rc_arrange\<close>.  What the position and the cash service return is
  an argument of the operations here; the end of day passes the rows of the two modelled tables.  The
  broker and the fund administrator are external: a function that may raise.  Times are microseconds.
\<close>

datatype break_type = QuantityMismatch | MissingInternal | MissingBroker | MissingAdmin
  | BrokerAdminMismatch | InternalAdminMismatch | CashMismatch
datatype break_status = BOpen | BInvestigating | BResolved | BEscalated
datatype sla_status = WithinSla | SlaWarning | SlaBreached

section \<open>Matching\<close>

record recon_break =
  br_instrument :: string
  br_type :: break_type
  br_internal :: dec
  br_broker :: dec
  br_admin :: "dec option"
  br_difference :: dec
  br_material :: bool

record cash_break =
  cx_currency :: string
  cx_internal :: dec
  cx_admin :: dec
  cx_difference :: dec
  cx_material :: bool

type_synonym quantities = "(string \<times> dec) list"

definition quantity_of :: "quantities \<Rightarrow> string \<Rightarrow> dec" where
  "quantity_of m i = or_else (map_of m i) 0"

definition material :: "dec \<Rightarrow> bool" where
  "material x \<longleftrightarrow> 1 / 100 < dabs x"

definition make_break :: "string \<Rightarrow> break_type \<Rightarrow> dec \<Rightarrow> dec \<Rightarrow> dec option \<Rightarrow> recon_break" where
  "make_break i ty int_qty brk_qty adm_qty =
     (let diff = dsub int_qty brk_qty
      in \<lparr>br_instrument = i, br_type = ty, br_internal = int_qty, br_broker = brk_qty, br_admin = adm_qty,
          br_difference = diff, br_material = material diff\<rparr>)"

definition first_break :: "string \<Rightarrow> dec \<Rightarrow> dec \<Rightarrow> dec option \<Rightarrow> recon_break list" where
  \<comment> \<open>internal against broker, and against the administrator where these two agree\<close>
  "first_break i int_qty brk_qty adm_qty =
     (if int_qty = 0 \<and> brk_qty \<noteq> 0 then [make_break i MissingInternal int_qty brk_qty adm_qty]
      else if brk_qty = 0 \<and> int_qty \<noteq> 0 then [make_break i MissingBroker int_qty brk_qty adm_qty]
      else if int_qty \<noteq> brk_qty then [make_break i QuantityMismatch int_qty brk_qty adm_qty]
      else case adm_qty of None \<Rightarrow> []
           | Some q \<Rightarrow> if q = 0 \<and> int_qty \<noteq> 0 then [make_break i MissingAdmin int_qty brk_qty adm_qty]
                       else if q \<noteq> int_qty then [make_break i InternalAdminMismatch int_qty brk_qty adm_qty]
                       else [])"

definition second_break :: "string \<Rightarrow> dec \<Rightarrow> dec \<Rightarrow> dec option \<Rightarrow> recon_break list" where
  \<comment> \<open>broker against administrator where all three disagree\<close>
  "second_break i int_qty brk_qty adm_qty = (case adm_qty of None \<Rightarrow> []
     | Some q \<Rightarrow>
         if brk_qty \<noteq> q \<and> int_qty = brk_qty \<and> int_qty \<noteq> 0 then []
         else if brk_qty \<noteq> q \<and> int_qty \<noteq> brk_qty \<and> brk_qty \<noteq> 0 \<and> q \<noteq> 0
              then [\<lparr>br_instrument = i, br_type = BrokerAdminMismatch, br_internal = int_qty,
                     br_broker = brk_qty, br_admin = adm_qty, br_difference = dsub brk_qty q,
                     br_material = material (dsub brk_qty q)\<rparr>]
              else [])"

definition all_keys :: "quantities \<Rightarrow> quantities \<Rightarrow> quantities option \<Rightarrow> string list" where
  "all_keys internal broker admin =
     remdups (map fst internal @ map fst broker @ map fst (or_else admin []))"

definition match_positions ::
  "(string list \<Rightarrow> string list) \<Rightarrow> quantities \<Rightarrow> quantities \<Rightarrow> quantities option \<Rightarrow> recon_break list" where
  "match_positions arrange internal broker admin = concat (map (\<lambda>i.
     let int_qty = quantity_of internal i;
         brk_qty = quantity_of broker i;
         adm_qty = map_option (\<lambda>m. quantity_of m i) admin
     in first_break i int_qty brk_qty adm_qty @ second_break i int_qty brk_qty adm_qty)
     (arrange (all_keys internal broker admin)))"

definition match_cash ::
  "(string list \<Rightarrow> string list) \<Rightarrow> quantities \<Rightarrow> quantities \<Rightarrow> cash_break list" where
  "match_cash arrange internal admin = concat (map (\<lambda>c.
     let int_bal = quantity_of internal c; adm_bal = quantity_of admin c; diff = dsub int_bal adm_bal
     in if 1 < dabs diff
        then [\<lparr>cx_currency = c, cx_internal = int_bal, cx_admin = adm_bal, cx_difference = diff, cx_material = True\<rparr>]
        else [])
     (arrange (all_keys internal admin None)))"

section \<open>Results and breaks\<close>

datatype break_note = RoundingNote dec | ImmaterialNote | TimingNote | RecurringNote | StaleNote int | TextNote string

record break_row =
  bk_id :: uuid
  bk_portfolio :: uuid
  bk_date :: date
  bk_instrument :: "string option"
  bk_type :: break_type
  bk_internal :: dec
  bk_broker :: dec
  bk_admin :: "dec option"
  bk_difference :: dec
  bk_material :: bool
  bk_currency :: "string option"
  bk_internal_balance :: "dec option"
  bk_admin_balance :: "dec option"
  bk_status :: break_status
  bk_assigned :: "string option"
  bk_note :: "break_note option"
  bk_created :: timestamp
  bk_resolved :: "timestamp option"

record recon_row =
  rr_portfolio :: uuid
  rr_date :: date
  rr_total :: int
  rr_matched :: int
  rr_clean :: bool
  rr_breaks :: "recon_break list"

record recon_tables =
  rt_results :: "recon_row list"
  rt_breaks :: "break_row list"

definition result_key :: "recon_row \<Rightarrow> uuid \<times> date" where
  "result_key r = (rr_portfolio r, rr_date r)"

definition upsert_result :: "recon_row \<Rightarrow> ('a recon_tables_scheme, unit) op" where
  "upsert_result r = thenS (writeT (\<lambda>t. t\<lparr>rt_results := put_row_by result_key r (rt_results t)\<rparr>)) commit"

definition latest_result :: "uuid \<Rightarrow> 'a recon_tables_scheme \<Rightarrow> recon_row option" where
  "latest_result p t = first_of_list (sort_key (\<lambda>r. - rr_date r) (filter (\<lambda>r. rr_portfolio r = p) (rt_results t)))"

definition opt_col :: "ledger_env \<Rightarrow> nat \<Rightarrow> nat \<Rightarrow> dec option \<Rightarrow> dec option res" where
  "opt_col en p k x = (case x of None \<Rightarrow> Inr None | Some v \<Rightarrow> bindE (le_col en p k v) (\<lambda>w. Inr (Some w)))"

definition stored_break :: "ledger_env \<Rightarrow> break_row \<Rightarrow> break_row res" where
  "stored_break en r =
     bindE (le_col en 18 8 (bk_internal r)) (\<lambda>a. bindE (le_col en 18 8 (bk_broker r)) (\<lambda>b.
     bindE (opt_col en 18 8 (bk_admin r)) (\<lambda>c. bindE (le_col en 18 8 (bk_difference r)) (\<lambda>d.
     bindE (opt_col en 18 2 (bk_internal_balance r)) (\<lambda>e. bindE (opt_col en 18 2 (bk_admin_balance r)) (\<lambda>f.
     Inr (r\<lparr>bk_internal := a, bk_broker := b, bk_admin := c, bk_difference := d,
            bk_internal_balance := e, bk_admin_balance := f\<rparr>)))))))"

definition insert_breaks :: "ledger_env \<Rightarrow> break_row list \<Rightarrow> ('a recon_tables_scheme, unit) op" where
  "insert_breaks en rs =
     bindS (liftS (mapE (stored_break en) rs)) (\<lambda>qs.
     bindS (readT (\<lambda>t. distinct (map bk_id (rt_breaks t @ qs)))) (\<lambda>fresh.
     if \<not> fresh then raiseS IntegrityError
     else thenS (writeT (\<lambda>t. t\<lparr>rt_breaks := rt_breaks t @ qs\<rparr>)) commit))"

definition list_open :: "ledger_env \<Rightarrow> uuid \<Rightarrow> 'a recon_tables_scheme \<Rightarrow> break_row list" where
  "list_open en p t = sort_key bk_created (scan en bk_id
     (filter (\<lambda>r. bk_portfolio r = p \<and> bk_status r \<in> {BOpen, BInvestigating, BEscalated}) (rt_breaks t)))"

definition list_by_portfolio_date ::
  "ledger_env \<Rightarrow> uuid \<Rightarrow> date \<Rightarrow> 'a recon_tables_scheme \<Rightarrow> break_row list" where
  "list_by_portfolio_date en p d t = sort_key bk_created (scan en bk_id
     (filter (\<lambda>r. bk_portfolio r = p \<and> bk_date r = d) (rt_breaks t)))"

definition list_recently_resolved ::
  "ledger_env \<Rightarrow> uuid \<Rightarrow> date \<Rightarrow> 'a recon_tables_scheme \<Rightarrow> break_row list" where
  "list_recently_resolved en p since t = sort_key (\<lambda>r. - bk_created r) (scan en bk_id
     (filter (\<lambda>r. bk_portfolio r = p \<and> bk_status r = BResolved \<and> since \<le> bk_date r) (rt_breaks t)))"

definition update_break ::
  "uuid \<Rightarrow> break_status \<Rightarrow> string option \<Rightarrow> break_note option \<Rightarrow> timestamp option
     \<Rightarrow> ('a recon_tables_scheme, break_row option) op" where
  "update_break i st assigned resolution resolved =
     bindS (readT (\<lambda>t. find_row bk_id i (rt_breaks t))) (\<lambda>r. case r of
       None \<Rightarrow> retS None
     | Some x \<Rightarrow>
         let f = (\<lambda>r. r\<lparr>bk_status := st,
                bk_assigned := (if assigned = None then bk_assigned r else assigned),
                bk_note := (if resolution = None then bk_note r else resolution),
                bk_resolved := (if resolved = None then bk_resolved r else resolved)\<rparr>)
         in thenS (writeT (\<lambda>t. t\<lparr>rt_breaks := update_rows bk_id i f (rt_breaks t)\<rparr>))
           (thenS commit (retS (Some (f x)))))"

section \<open>Rules\<close>

datatype auto_rule = RoundingDifferenceRule | ImmaterialBreakRule | CashTimingRule
  | DuplicateBreakRule | StaleBreakRule int

definition default_rules :: "auto_rule list" where
  "default_rules =
     [RoundingDifferenceRule, ImmaterialBreakRule, CashTimingRule, DuplicateBreakRule, StaleBreakRule 5]"

definition day_micros :: int where "day_micros = 86400 * 10 ^ 6"

fun rule_matches ::
  "timestamp \<Rightarrow> (string option \<times> break_type) set \<Rightarrow> auto_rule \<Rightarrow> break_row \<Rightarrow> bool" where
  "rule_matches now recurring RoundingDifferenceRule r \<longleftrightarrow>
     dabs (bk_difference r) \<le> 5 / 1000 \<and> bk_status r = BOpen"
| "rule_matches now recurring ImmaterialBreakRule r \<longleftrightarrow> \<not> bk_material r \<and> bk_status r = BOpen"
| "rule_matches now recurring CashTimingRule r \<longleftrightarrow>
     bk_type r = CashMismatch \<and> dabs (bk_difference r) < 100 \<and> bk_status r = BOpen"
| "rule_matches now recurring DuplicateBreakRule r \<longleftrightarrow>
     bk_status r = BOpen \<and> (bk_instrument r, bk_type r) \<in> recurring"
| "rule_matches now recurring (StaleBreakRule n) r \<longleftrightarrow>
     bk_status r = BOpen \<and> n * day_micros < now - bk_created r"

fun resolution_note :: "auto_rule \<Rightarrow> break_row \<Rightarrow> break_note" where
  "resolution_note RoundingDifferenceRule r = RoundingNote (bk_difference r)"
| "resolution_note ImmaterialBreakRule r = ImmaterialNote"
| "resolution_note CashTimingRule r = TimingNote"
| "resolution_note DuplicateBreakRule r = RecurringNote"
| "resolution_note (StaleBreakRule n) r = StaleNote n"

fun target_status :: "auto_rule \<Rightarrow> break_status" where
  "target_status (StaleBreakRule n) = BEscalated"
| "target_status _ = BResolved"

definition apply_rule :: "ledger_env \<Rightarrow> break_row \<Rightarrow> auto_rule \<Rightarrow> ('a recon_tables_scheme, unit) op" where
  "apply_rule en r rule = bindS (update_break (bk_id r) (target_status rule) None (Some (resolution_note rule r))
     (if target_status rule = BResolved then Some (le_now en) else None)) (\<lambda>_. retS ())"

definition process_one ::
  "ledger_env \<Rightarrow> (string option \<times> break_type) set \<Rightarrow> auto_rule list \<Rightarrow> break_row
     \<Rightarrow> ('a recon_tables_scheme, auto_rule option) op" where
  "process_one en recurring rules r = (case List.find (\<lambda>rule. rule_matches (le_now en) recurring rule r) rules of
       None \<Rightarrow> retS None
     | Some rule \<Rightarrow> thenS (apply_rule en r rule) (retS (Some rule)))"

definition resolved_keys ::
  "ledger_env \<Rightarrow> auto_rule list \<Rightarrow> uuid \<Rightarrow> date
     \<Rightarrow> ('a recon_tables_scheme, (string option \<times> break_type) set) op" where
  \<comment> \<open>what the duplicate rule is told before the rules run\<close>
  "resolved_keys en rules p d =
     (if DuplicateBreakRule \<in> set rules
      then bindS (liftS (add_days d (- 3))) (\<lambda>since.
           bindS (readT (list_recently_resolved en p since)) (\<lambda>rs.
           retS (set (map (\<lambda>r. (bk_instrument r, bk_type r)) rs))))
      else retS {})"

fun add_name :: "'r list \<Rightarrow> 'r \<Rightarrow> 'r list" where
  "add_name xs x = (if x \<in> set xs then xs else xs @ [x])"

definition process_breaks ::
  "ledger_env \<Rightarrow> auto_rule list \<Rightarrow> uuid \<Rightarrow> date
     \<Rightarrow> ('a recon_tables_scheme, nat \<times> nat \<times> auto_rule list) op" where
  "process_breaks en rules p d =
     bindS (readT (list_open en p)) (\<lambda>open_breaks.
     bindS (resolved_keys en rules p d) (\<lambda>recurring.
     bindS (mapS (process_one en recurring rules) open_breaks) (\<lambda>applied.
     let used = map the (filter (\<lambda>x. x \<noteq> None) applied)
     in retS (length (filter (\<lambda>x. target_status x = BResolved) used),
              length (filter (\<lambda>x. target_status x = BEscalated) used), foldl add_name [] used))))"

section \<open>The reconciler\<close>

record recon_env =
  rc_ledger :: ledger_env
  rc_arrange :: "string list \<Rightarrow> string list"
  rc_broker :: "uuid \<Rightarrow> date \<Rightarrow> quantities res"
  rc_admin :: "(quantities res \<times> quantities res) option"
  rc_cash :: bool
  rc_breaks :: bool
  rc_resolver :: "auto_rule list option"

definition unless_raised :: "'a res \<Rightarrow> 'a option res" where
  \<comment> \<open>\<open>except Exception\<close> around a call: a warning and no value\<close>
  "unless_raised r = (case r of Inr x \<Rightarrow> Inr (Some x)
     | Inl e \<Rightarrow> if e = Hang then Inl Hang else Inr None)"

definition admin_positions :: "recon_env \<Rightarrow> quantities option res" where
  "admin_positions rc = (case rc_admin rc of None \<Rightarrow> Inr None | Some (ps, _) \<Rightarrow> unless_raised ps)"

definition reconcile_cash :: "recon_env \<Rightarrow> (string \<times> dec) list \<Rightarrow> cash_break list res" where
  "reconcile_cash rc balances = (case rc_admin rc of None \<Rightarrow> Inr []
     | Some (_, cs) \<Rightarrow> if \<not> rc_cash rc then Inr []
         else bindE (unless_raised cs) (\<lambda>admin_cash. case admin_cash of None \<Rightarrow> Inr []
           | Some admin \<Rightarrow> Inr (match_cash (rc_arrange rc)
               (foldl (\<lambda>m (c, x). total_add c x m) [] balances) admin)))"

definition position_row :: "timestamp \<Rightarrow> uuid \<Rightarrow> date \<Rightarrow> recon_break \<Rightarrow> uuid \<Rightarrow> break_row" where
  "position_row now p d b i = \<lparr>bk_id = i, bk_portfolio = p, bk_date = d, bk_instrument = Some (br_instrument b),
     bk_type = br_type b, bk_internal = br_internal b, bk_broker = br_broker b, bk_admin = br_admin b,
     bk_difference = br_difference b, bk_material = br_material b, bk_currency = None,
     bk_internal_balance = None, bk_admin_balance = None, bk_status = BOpen, bk_assigned = None,
     bk_note = None, bk_created = now, bk_resolved = None\<rparr>"

definition cash_row :: "timestamp \<Rightarrow> uuid \<Rightarrow> date \<Rightarrow> cash_break \<Rightarrow> uuid \<Rightarrow> break_row" where
  "cash_row now p d b i = \<lparr>bk_id = i, bk_portfolio = p, bk_date = d, bk_instrument = None,
     bk_type = CashMismatch, bk_internal = 0, bk_broker = 0, bk_admin = None,
     bk_difference = cx_difference b, bk_material = cx_material b, bk_currency = Some (cx_currency b),
     bk_internal_balance = Some (cx_internal b), bk_admin_balance = Some (cx_admin b), bk_status = BOpen,
     bk_assigned = None, bk_note = None, bk_created = now, bk_resolved = None\<rparr>"

definition persist_breaks ::
  "ledger_env \<Rightarrow> uuid \<Rightarrow> date \<Rightarrow> recon_break list \<Rightarrow> cash_break list \<Rightarrow> ('a recon_tables_scheme, unit) op" where
  "persist_breaks en p d breaks cash_breaks =
     bindS (mapS (\<lambda>f. bindS (new_uuid en) (\<lambda>i. retS (f i)))
       (map (position_row (le_now en) p d) breaks @ map (cash_row (le_now en) p d) cash_breaks)) (\<lambda>rows.
     whenS (rows \<noteq> []) (insert_breaks en rows))"

record recon_result =
  rs_total :: int
  rs_matched :: int
  rs_breaks :: "recon_break list"
  rs_cash :: "cash_break list"
  rs_clean :: bool

definition reconcile ::
  "recon_env \<Rightarrow> quantities \<Rightarrow> (string \<times> dec) list \<Rightarrow> uuid \<Rightarrow> date \<Rightarrow> ('a recon_tables_scheme, recon_result) op" where
  "reconcile rc positions balances p d =
     (let internal = foldl (\<lambda>m (i, q). AList.update i q m) [] positions in
     bindS (liftS (rc_broker rc p d)) (\<lambda>broker.
     bindS (liftS (admin_positions rc)) (\<lambda>admin.
     let breaks = match_positions (rc_arrange rc) internal broker admin
     in bindS (liftS (reconcile_cash rc balances)) (\<lambda>cash_breaks.
     let n = int (length (all_keys internal broker admin));
         is_clean = (breaks = [] \<and> cash_breaks = [])
     in thenS (upsert_result \<lparr>rr_portfolio = p, rr_date = d, rr_total = n,
                rr_matched = n - int (length breaks), rr_clean = is_clean, rr_breaks = breaks\<rparr>)
       (thenS (whenS (rc_breaks rc \<and> (breaks \<noteq> [] \<or> cash_breaks \<noteq> []))
                 (persist_breaks (rc_ledger rc) p d breaks cash_breaks))
       (thenS (case rc_resolver rc of None \<Rightarrow> retS ()
               | Some rules \<Rightarrow> whenS (rc_breaks rc)
                   (bindS (process_breaks (rc_ledger rc) rules p d) (\<lambda>_. retS ())))
          (retS \<lparr>rs_total = n, rs_matched = n - int (length breaks), rs_breaks = breaks,
                 rs_cash = cash_breaks, rs_clean = is_clean\<rparr>)))))))"

section \<open>Ages and service levels\<close>

record escalation_policy =
  ep_warn :: int
  ep_escalate :: int
  ep_critical :: int

definition default_policy :: escalation_policy where
  "default_policy = \<lparr>ep_warn = 4, ep_escalate = 24, ep_critical = 2\<rparr>"

definition age_hours :: "timestamp \<Rightarrow> break_row \<Rightarrow> rat" where
  \<comment> \<open>a float: the seconds between two times, divided by 3600\<close>
  "age_hours now r = fl64 (fdiv_int (now - bk_created r) (10 ^ 6) / 3600)"

definition check_sla :: "escalation_policy \<Rightarrow> timestamp \<Rightarrow> break_row \<Rightarrow> sla_status" where
  "check_sla ep now r =
     (let age = age_hours now r
      in if bk_material r then
           (if of_int (ep_critical ep) \<le> age then SlaBreached
            else if fdiv_int (ep_critical ep) 2 \<le> age then SlaWarning
            else WithinSla)
         else if of_int (ep_escalate ep) \<le> age then SlaBreached
         else if of_int (ep_warn ep) \<le> age then SlaWarning
         else WithinSla)"

definition aging_buckets :: "(string \<times> rat \<times> rat option) list" where
  \<comment> \<open>\<open>None\<close> is infinity\<close>
  "aging_buckets = [(''<1h'', 0, Some 1), (''1-4h'', 1, Some 4), (''4-24h'', 4, Some 24), (''>24h'', 24, None)]"

definition bucket_of :: "rat \<Rightarrow> string option" where
  "bucket_of age = map_option fst
     (List.find (\<lambda>(_, lo, hi). lo \<le> age \<and> (case hi of None \<Rightarrow> True | Some h \<Rightarrow> age < h)) aging_buckets)"

record aging_summary =
  ag_buckets :: "(string \<times> nat \<times> dec) list"
  ag_oldest :: rat
  ag_breached :: nat

definition get_aging_summary :: "escalation_policy \<Rightarrow> timestamp \<Rightarrow> break_row list \<Rightarrow> aging_summary" where
  "get_aging_summary ep now rs = \<lparr>
     ag_buckets = map (\<lambda>(label, _, _).
       let members = filter (\<lambda>r. bucket_of (age_hours now r) = Some label) rs
       in (label, length members, foldl (\<lambda>a r. dadd a (dabs (bk_difference r))) 0 members)) aging_buckets,
     ag_oldest = fl64 (of_int (round_even (foldl max 0 (map (age_hours now) rs) * 100)) / 100),
     ag_breached = length (filter (\<lambda>r. check_sla ep now r = SlaBreached) rs)\<rparr>"

end
