(* ===== verification/Eod.thy ===== *)
theory Eod
  imports Recon InvestorOps
begin

text \<open>
  The end of day (\<open>app/modules/eod/core/orchestrator.py\<close>, \<open>nav_calculator.py\<close>, \<open>pnl_snapshot.py\<close>,
  \<open>price_finalization.py\<close> and their repositories).  A run takes twelve steps in a fixed order, records
  each of them and stops at the first that fails.

  The steps work on the tables of other components, so the state is made of theirs: the position store,
  the session on cash, capital and investor tables, the session on fees, and the module's own tables
  with those of reconciliation.  \<open>zoomS\<close> runs an operation of a component on its part.  The end of day
  passes no session: every repository call opens one of its own, and each of those the end of day uses
  commits, so that running them one after the other on one session is the same.

  The market data, the security master, risk, attribution, corporate actions and the report are
  parameters of a run (\<open>eod_env\<close>): values or exceptions, and for corporate actions a computation on the
  position store, whose transactions they book.
\<close>

section \<open>Tables\<close>

record nav_row =
  nv_portfolio :: uuid
  nv_date :: date
  nv_gross :: dec
  nv_net :: dec
  nv_cash :: dec
  nv_fees :: dec
  nv_nav :: dec
  nv_per_share :: dec
  nv_shares :: dec
  nv_currency :: string

record pnl_row =
  pl_portfolio :: uuid
  pl_date :: date
  pl_realized :: dec
  pl_unrealized :: dec
  pl_total :: dec
  pl_count :: nat
  pl_details :: "current_position list"

record daily_row =
  dp_portfolio :: uuid
  dp_instrument :: string
  dp_date :: date
  dp_quantity :: dec
  dp_price :: dec
  dp_value :: dec
  dp_cost :: dec
  dp_unrealized :: dec
  dp_realized :: dec
  dp_daily :: dec
  dp_currency :: string

record price_row =
  pc_instrument :: string
  pc_date :: date
  pc_close :: dec
  pc_source :: string
  pc_by :: string

datatype step_name = MarketClose | PriceFinalization | CorporateActionProcessing | PositionRecon
  | NavCalculation | FeeAccrualStep | PnlSnapshot | CapitalAllocationStep | DealingDateExecution
  | EodRisk | PerformanceAttribution | ReportGeneration
datatype step_status = StepPending | StepRunning | StepCompleted | StepFailed | StepSkipped

datatype step_detail = Message string | PriceCounts nat nat bool
  | ActionCounts "(uuid \<times> string list) list"
  | ReconCounts "(uuid \<times> int \<times> int \<times> nat \<times> bool) list"
  | Amounts "(uuid \<times> dec) list"
  | Outcomes "(uuid \<times> bool) list"
  | NoSharesOutstanding
  | Allocated nat
  | Dealt nat nat dec
  | Processed nat
  | Reported "string list" nat

record run_row =
  ru_id :: uuid
  ru_date :: date
  ru_fund :: string
  ru_started :: timestamp
  ru_completed :: "timestamp option"
  ru_successful :: bool

record step_result =
  sp_step :: step_name
  sp_status :: step_status
  sp_started :: timestamp
  sp_completed :: "timestamp option"
  sp_error :: "exn option"
  sp_details :: "step_detail option"

record eod_tables = recon_tables +
  et_navs :: "nav_row list"
  et_pnls :: "pnl_row list"
  et_daily :: "daily_row list"
  et_prices :: "price_row list"
  et_runs :: "run_row list"
  et_steps :: "(uuid \<times> step_result) list"

record eod_state =
  eo_store :: store
  eo_funds :: "investor_tables session"
  eo_fees :: "fee_tables session"
  eo_eod :: "eod_tables session"

definition zoomS :: "('s \<Rightarrow> 't) \<Rightarrow> ('t \<Rightarrow> 's \<Rightarrow> 's) \<Rightarrow> ('t, 'a) sm \<Rightarrow> ('s, 'a) sm" where
  "zoomS get put m s = (case m (get s) of (t, r) \<Rightarrow> (put t s, r))"

definition on_store :: "(store, 'a) sm \<Rightarrow> (eod_state, 'a) sm" where
  "on_store = zoomS eo_store (\<lambda>t s. s\<lparr>eo_store := t\<rparr>)"
definition on_funds :: "(investor_tables, 'a) op \<Rightarrow> (eod_state, 'a) sm" where
  "on_funds = zoomS eo_funds (\<lambda>t s. s\<lparr>eo_funds := t\<rparr>)"
definition on_fees :: "(fee_tables, 'a) op \<Rightarrow> (eod_state, 'a) sm" where
  "on_fees = zoomS eo_fees (\<lambda>t s. s\<lparr>eo_fees := t\<rparr>)"
definition on_eod :: "(eod_tables, 'a) op \<Rightarrow> (eod_state, 'a) sm" where
  "on_eod = zoomS eo_eod (\<lambda>t s. s\<lparr>eo_eod := t\<rparr>)"

record eod_env =
  ee_ledger :: ledger_env
  ee_recon :: recon_env
  ee_fund :: "string \<Rightarrow> (uuid \<times> string option) option"
  ee_portfolios :: "uuid \<Rightarrow> uuid list"
  ee_instruments :: "string list res"
  ee_price :: "string \<Rightarrow> dec option res"
  ee_actions :: "(string \<Rightarrow> uuid \<Rightarrow> date \<Rightarrow> (store, string list) sm) option"
  ee_risk :: "uuid \<Rightarrow> string \<Rightarrow> exn option"
  ee_fee :: bool
  ee_capital :: bool
  ee_capital_txn :: bool
  ee_subs :: bool
  ee_reds :: bool
  ee_attribution :: "(uuid \<Rightarrow> date \<Rightarrow> exn option) option"
  ee_report :: "(string list \<times> nat) res option"

section \<open>Prices\<close>

definition price_key :: "price_row \<Rightarrow> string \<times> date" where
  "price_key r = (pc_instrument r, pc_date r)"

definition upsert_price :: "ledger_env \<Rightarrow> price_row \<Rightarrow> ('a eod_tables_scheme, unit) op" where
  \<comment> \<open>on conflict only the price and its source are replaced\<close>
  "upsert_price en r = bindS (liftS (le_col en 18 8 (pc_close r))) (\<lambda>c.
     thenS (writeT (\<lambda>t. t\<lparr>et_prices :=
         (if find_row price_key (price_key r) (et_prices t) = None then et_prices t @ [r\<lparr>pc_close := c\<rparr>]
          else update_rows price_key (price_key r) (\<lambda>q. q\<lparr>pc_close := c, pc_source := pc_source r\<rparr>) (et_prices t))\<rparr>))
       commit)"

definition finalize_one :: "eod_env \<Rightarrow> date \<Rightarrow> string \<Rightarrow> (eod_state, bool) sm" where
  "finalize_one ee d ticker = bindS (liftS (ee_price ee ticker)) (\<lambda>mid. case mid of
       None \<Rightarrow> retS False
     | Some x \<Rightarrow> thenS (on_eod (upsert_price (ee_ledger ee) \<lparr>pc_instrument = ticker, pc_date = d, pc_close = x,
            pc_source = ''market_data'', pc_by = ''eod_orchestrator''\<rparr>)) (retS True))"

definition finalize_prices :: "eod_env \<Rightarrow> date \<Rightarrow> (eod_state, nat \<times> string list) sm" where
  "finalize_prices ee d = bindS (liftS (ee_instruments ee)) (\<lambda>tickers.
     bindS (mapS (finalize_one ee d) tickers) (\<lambda>ok.
     retS (length (filter id ok), map fst (filter (\<lambda>x. \<not> snd x) (zip tickers ok)))))"

section \<open>Net asset value\<close>

definition positions_of :: "uuid \<Rightarrow> store \<Rightarrow> current_position list" where
  "positions_of p st = sort_key (\<lambda>r. snd (cp_id r)) (filter (\<lambda>r. fst (cp_id r) = p) (st_positions st))"

definition nav_key :: "nav_row \<Rightarrow> uuid \<times> date" where
  "nav_key r = (nv_portfolio r, nv_date r)"

definition stored_nav :: "ledger_env \<Rightarrow> nav_row \<Rightarrow> nav_row res" where
  "stored_nav en r =
     bindE (le_col en 18 2 (nv_gross r)) (\<lambda>a. bindE (le_col en 18 2 (nv_net r)) (\<lambda>b.
     bindE (le_col en 18 2 (nv_cash r)) (\<lambda>c. bindE (le_col en 18 2 (nv_fees r)) (\<lambda>d.
     bindE (le_col en 18 2 (nv_nav r)) (\<lambda>e. bindE (le_col en 18 8 (nv_per_share r)) (\<lambda>f.
     bindE (le_col en 18 8 (nv_shares r)) (\<lambda>g.
     Inr (r\<lparr>nv_gross := a, nv_net := b, nv_cash := c, nv_fees := d, nv_nav := e, nv_per_share := f,
            nv_shares := g\<rparr>))))))))"

definition upsert_nav :: "ledger_env \<Rightarrow> nav_row \<Rightarrow> ('a eod_tables_scheme, unit) op" where
  \<comment> \<open>on conflict everything but the currency is replaced\<close>
  "upsert_nav en r = bindS (liftS (stored_nav en r)) (\<lambda>q.
     thenS (writeT (\<lambda>t. t\<lparr>et_navs :=
         (if find_row nav_key (nav_key q) (et_navs t) = None then et_navs t @ [q]
          else update_rows nav_key (nav_key q) (\<lambda>old. q\<lparr>nv_currency := nv_currency old\<rparr>) (et_navs t))\<rparr>))
       commit)"

definition nav_of :: "eod_env \<Rightarrow> uuid \<Rightarrow> date \<Rightarrow> string \<Rightarrow> eod_state \<Rightarrow> nav_row" where
  "nav_of ee p d base s =
     (let en = ee_ledger ee;
          mvs = map (\<lambda>r. convert_to_base en (cp_market_value r) (cp_currency r) base) (positions_of p (eo_store s));
          gross = foldl (\<lambda>a x. dadd a (dabs x)) 0 mvs;
          net = foldl dadd 0 mvs;
          cash = foldl dadd 0 (map (\<lambda>(c, _, _, _, total). convert_to_base en total c base)
                   (get_balances p (ss_work (eo_funds s))));
          fees = (if ee_fee ee then dsum (map snd (get_fee_summary en p (ss_work (eo_fees s)))) else 0);
          nav = dsub (dadd net cash) fees;
          real = get_total_shares en (ss_work (eo_funds s));
          shares = (if ee_capital ee \<and> 0 < real then real else 1000)
      in \<lparr>nv_portfolio = p, nv_date = d, nv_gross = gross, nv_net = net, nv_cash = cash, nv_fees = fees,
          nv_nav = nav, nv_per_share = ddiv nav shares, nv_shares = shares, nv_currency = base\<rparr>)"

definition calculate_nav :: "eod_env \<Rightarrow> uuid \<Rightarrow> date \<Rightarrow> string \<Rightarrow> (eod_state, nav_row) sm" where
  "calculate_nav ee p d base = bindS (getS (nav_of ee p d base)) (\<lambda>r.
     thenS (on_eod (upsert_nav (ee_ledger ee) r)) (retS r))"

section \<open>Profit and loss\<close>

definition pnl_key :: "pnl_row \<Rightarrow> uuid \<times> date" where
  "pnl_key r = (pl_portfolio r, pl_date r)"

definition upsert_pnl :: "ledger_env \<Rightarrow> pnl_row \<Rightarrow> ('a eod_tables_scheme, unit) op" where
  "upsert_pnl en r = bindS (liftS (bindE (le_col en 18 2 (pl_realized r)) (\<lambda>a.
       bindE (le_col en 18 2 (pl_unrealized r)) (\<lambda>b. bindE (le_col en 18 2 (pl_total r)) (\<lambda>c.
       Inr (r\<lparr>pl_realized := a, pl_unrealized := b, pl_total := c\<rparr>)))))) (\<lambda>q.
     thenS (writeT (\<lambda>t. t\<lparr>et_pnls := put_row_by pnl_key q (et_pnls t)\<rparr>)) commit)"

definition daily_key :: "daily_row \<Rightarrow> uuid \<times> string \<times> date" where
  "daily_key r = (dp_portfolio r, dp_instrument r, dp_date r)"

definition stored_daily :: "ledger_env \<Rightarrow> daily_row \<Rightarrow> daily_row res" where
  "stored_daily en r =
     bindE (le_col en 18 8 (dp_quantity r)) (\<lambda>a. bindE (le_col en 18 8 (dp_price r)) (\<lambda>b.
     bindE (le_col en 18 8 (dp_value r)) (\<lambda>c. bindE (le_col en 18 8 (dp_cost r)) (\<lambda>d.
     bindE (le_col en 18 8 (dp_unrealized r)) (\<lambda>e. bindE (le_col en 18 8 (dp_realized r)) (\<lambda>f.
     bindE (le_col en 18 8 (dp_daily r)) (\<lambda>g.
     Inr (r\<lparr>dp_quantity := a, dp_price := b, dp_value := c, dp_cost := d, dp_unrealized := e,
            dp_realized := f, dp_daily := g\<rparr>))))))))"

definition upsert_batch :: "ledger_env \<Rightarrow> daily_row list \<Rightarrow> ('a eod_tables_scheme, unit) op" where
  \<comment> \<open>\<open>session.merge\<close> of records without a primary key inserts them; the flush checks the unique key\<close>
  "upsert_batch en rs =
     bindS (liftS (mapE (stored_daily en) rs)) (\<lambda>qs.
     bindS (readT (\<lambda>t. distinct (map daily_key (et_daily t @ qs)))) (\<lambda>fresh.
     if \<not> fresh then raiseS IntegrityError
     else thenS (writeT (\<lambda>t. t\<lparr>et_daily := et_daily t @ qs\<rparr>)) commit))"

definition daily_of :: "ledger_env \<Rightarrow> uuid \<Rightarrow> date \<Rightarrow> string \<Rightarrow> current_position \<Rightarrow> daily_row" where
  "daily_of en p d base r = \<lparr>dp_portfolio = p, dp_instrument = snd (cp_id r), dp_date = d,
     dp_quantity = cp_quantity r, dp_price = cp_market_price r, dp_value = cp_market_value r,
     dp_cost = cp_cost_basis r, dp_unrealized = cp_unrealized r, dp_realized = 0,
     dp_daily = convert_to_base en (cp_unrealized r) (cp_currency r) base, dp_currency = cp_currency r\<rparr>"

definition snapshot_pnl :: "eod_env \<Rightarrow> uuid \<Rightarrow> date \<Rightarrow> string \<Rightarrow> (eod_state, dec) sm" where
  "snapshot_pnl ee p d base = bindS (getS (\<lambda>s. positions_of p (eo_store s))) (\<lambda>positions.
     let en = ee_ledger ee;
         unrealized = foldl (\<lambda>a r. dadd a (convert_to_base en (cp_unrealized r) (cp_currency r) base)) 0 positions;
         total = dadd 0 unrealized
     in thenS (on_eod (upsert_pnl en \<lparr>pl_portfolio = p, pl_date = d, pl_realized = 0, pl_unrealized = unrealized,
                pl_total = total, pl_count = length positions, pl_details = positions\<rparr>))
       (thenS (whenS (positions \<noteq> []) (on_eod (upsert_batch en (map (daily_of en p d base) positions))))
          (retS total)))"

section \<open>Runs\<close>

definition insert_run :: "run_row \<Rightarrow> ('a eod_tables_scheme, unit) op" where
  "insert_run r = bindS (readT (\<lambda>t. find_row ru_id (ru_id r) (et_runs t))) (\<lambda>old.
     if old \<noteq> None then raiseS IntegrityError
     else thenS (writeT (\<lambda>t. t\<lparr>et_runs := et_runs t @ [r]\<rparr>)) commit)"

definition complete_run :: "uuid \<Rightarrow> bool \<Rightarrow> timestamp \<Rightarrow> ('a eod_tables_scheme, unit) op" where
  "complete_run i ok now = thenS (writeT (\<lambda>t. t\<lparr>et_runs :=
     update_rows ru_id i (\<lambda>r. r\<lparr>ru_successful := ok, ru_completed := Some now\<rparr>) (et_runs t)\<rparr>)) commit"

definition get_latest_run :: "ledger_env \<Rightarrow> date \<Rightarrow> string \<Rightarrow> 'a eod_tables_scheme \<Rightarrow> run_row option" where
  "get_latest_run en d fund t = first_of_list (sort_key (\<lambda>r. - ru_started r) (scan en ru_id
     (filter (\<lambda>r. ru_date r = d \<and> ru_fund r = fund) (et_runs t))))"

definition step_key :: "uuid \<times> step_result \<Rightarrow> uuid \<times> step_name" where
  "step_key x = (fst x, sp_step (snd x))"

definition upsert_step :: "uuid \<Rightarrow> step_result \<Rightarrow> ('a eod_tables_scheme, unit) op" where
  \<comment> \<open>on conflict the start is kept\<close>
  "upsert_step i r = thenS (writeT (\<lambda>t. t\<lparr>et_steps :=
     (if find_row step_key (i, sp_step r) (et_steps t) = None then et_steps t @ [(i, r)]
      else update_rows step_key (i, sp_step r) (\<lambda>x. (i, r\<lparr>sp_started := sp_started (snd x)\<rparr>)) (et_steps t))\<rparr>)) commit"

definition get_steps :: "ledger_env \<Rightarrow> uuid \<Rightarrow> 'a eod_tables_scheme \<Rightarrow> step_result list" where
  "get_steps en i t = map snd (scan en fst (filter (\<lambda>x. fst x = i) (et_steps t)))"

section \<open>Steps\<close>

record step_data =
  sd_navs :: "(uuid \<times> nav_row) list option"
  sd_pnl :: "dec option"
  sd_mgmt :: "dec option"
  sd_perf :: "dec option"
  sd_class_fees :: "(string \<times> dec \<times> dec) list option"

definition no_data :: step_data where
  "no_data = \<lparr>sd_navs = None, sd_pnl = None, sd_mgmt = None, sd_perf = None, sd_class_fees = None\<rparr>"

definition suppress :: "'a \<Rightarrow> ('s, 'a) sm \<Rightarrow> ('s, 'a) sm" where
  "suppress x m = tryS m (\<lambda>_. retS x)"

type_synonym fee_totals = "dec \<times> dec \<times> (string \<times> dec \<times> dec) list"

definition add_accruals :: "string \<Rightarrow> fee_accrual list \<Rightarrow> fee_totals \<Rightarrow> fee_totals" where
  "add_accruals cls rows acc = (case acc of (m, f, fees) \<Rightarrow>
     let mg = map fa_amount (filter (\<lambda>r. fa_type r = ManagementFee) rows);
         pf = map fa_amount (filter (\<lambda>r. fa_type r = PerformanceFee) rows);
         prev = or_else (map_of fees cls) (0, 0)
     in (foldl dadd m mg, foldl dadd f pf,
         AList.update cls (dadd (fst prev) (foldl dadd 0 mg), dadd (snd prev) (foldl dadd 0 pf)) fees))"

definition class_nav :: "eod_env \<Rightarrow> string list \<Rightarrow> string \<Rightarrow> dec \<Rightarrow> eod_state \<Rightarrow> dec" where
  "class_nav ee classes cls nav s =
     (if ee_capital ee \<and> 1 < length classes
      then let t = ss_work (eo_funds s); en = ee_ledger ee;
               aum = fst (get_share_class_nav en cls t); total = dsum (map ca_ending (get_latest_by_fund en t))
           in if 0 < total then ddiv (dmul nav aum) total else nav
      else nav)"

fun accrue_classes ::
  "eod_env \<Rightarrow> string \<Rightarrow> date \<Rightarrow> uuid \<Rightarrow> dec \<Rightarrow> string list \<Rightarrow> string list \<Rightarrow> fee_totals
     \<Rightarrow> (eod_state, fee_totals \<times> bool) sm" where
  \<comment> \<open>one portfolio; the totals keep what was added before an exception\<close>
  "accrue_classes ee fund d p nav all [] acc = retS (acc, True)"
| "accrue_classes ee fund d p nav all (cls # rest) acc =
     bindS (suppress None (bindS (getS (class_nav ee all cls nav)) (\<lambda>n.
        bindS (on_fees (accrue_daily_fees (ee_ledger ee) p fund n d cls)) (\<lambda>rows. retS (Some rows))))) (\<lambda>rows.
     case rows of None \<Rightarrow> retS (acc, False)
     | Some rs \<Rightarrow> accrue_classes ee fund d p nav all rest (add_accruals cls rs acc))"

fun accrue_portfolios ::
  "eod_env \<Rightarrow> string \<Rightarrow> date \<Rightarrow> (uuid \<Rightarrow> dec) \<Rightarrow> string list \<Rightarrow> uuid list \<Rightarrow> fee_totals
     \<Rightarrow> (eod_state, fee_totals \<times> (uuid \<times> bool) list) sm" where
  "accrue_portfolios ee fund d nav classes [] acc = retS (acc, [])"
| "accrue_portfolios ee fund d nav classes (p # ps) acc =
     bindS (accrue_classes ee fund d p (nav p) classes classes acc) (\<lambda>(acc', ok).
     bindS (accrue_portfolios ee fund d nav classes ps acc') (\<lambda>(acc'', oks). retS (acc'', (p, ok) # oks)))"

definition fee_step :: "eod_env \<Rightarrow> string \<Rightarrow> date \<Rightarrow> uuid list \<Rightarrow> step_data \<Rightarrow> (eod_state, step_detail \<times> step_data) sm" where
  "fee_step ee fund d ps sd =
     (if \<not> ee_fee ee then retS (Message ''fee_service_not_configured'', sd)
      else let navs = or_else (sd_navs sd) [];
               nav = (\<lambda>p. case map_of navs p of None \<Rightarrow> 0 | Some r \<Rightarrow> nv_nav r)
           in bindS (getS (\<lambda>s. if ee_capital ee then list_share_classes (ee_ledger ee) (ss_work (eo_funds s)) else []))
                (\<lambda>listed.
              bindS (accrue_portfolios ee fund d nav (if listed = [] then [''default''] else listed) ps (0, 0, []))
                (\<lambda>((m, f, fees), oks).
              retS (Outcomes oks, sd\<lparr>sd_mgmt := Some m, sd_perf := Some f, sd_class_fees := Some fees\<rparr>))))"

definition fund_nav_per_share :: "step_data \<Rightarrow> dec option" where
  \<comment> \<open>the same lines in the two steps that need a price per share; none without shares\<close>
  "fund_nav_per_share sd =
     (let navs = map snd (or_else (sd_navs sd) []);
          total_nav = foldl (\<lambda>a r. dadd a (nv_nav r)) 0 navs;
          total_shares = foldl (\<lambda>a r. dadd a (nv_shares r)) 0 navs
      in if total_shares \<le> 0 then None else Some (ddiv total_nav total_shares))"

definition capital_step :: "eod_env \<Rightarrow> date \<Rightarrow> step_data \<Rightarrow> (eod_state, step_detail) sm" where
  "capital_step ee d sd =
     (if \<not> ee_capital_txn ee then retS (Message ''capital_transaction_service_not_configured'')
      else case fund_nav_per_share sd of None \<Rightarrow> retS NoSharesOutstanding
      | Some nps \<Rightarrow> bindS (on_funds (request (allocate_daily (ee_ledger ee) (or_else (sd_pnl sd) 0)
            (or_else (sd_mgmt sd) 0) (or_else (sd_perf sd) 0) nps d (sd_class_fees sd)))) (\<lambda>n. retS (Allocated n)))"

definition dealing_step :: "eod_env \<Rightarrow> date \<Rightarrow> uuid list \<Rightarrow> step_data \<Rightarrow> (eod_state, step_detail) sm" where
  "dealing_step ee d ps sd =
     (if \<not> ee_subs ee \<and> \<not> ee_reds ee then retS (Message ''investor_ops_services_not_configured'')
      else case fund_nav_per_share sd of None \<Rightarrow> retS NoSharesOutstanding
      | Some nps \<Rightarrow> (case ps of [] \<Rightarrow> retS (Message ''no_portfolios_for_dealing_execution'')
        | p # _ \<Rightarrow>
          bindS (if ee_subs ee then on_funds (execute_subscriptions (ee_ledger ee) False d nps p) else retS []) (\<lambda>subs.
          bindS (if ee_reds ee then on_funds (execute_redemptions (ee_ledger ee) False d nps p) else retS []) (\<lambda>reds.
          retS (Dealt (length subs) (length reds) nps)))))"

definition recon_one :: "eod_env \<Rightarrow> date \<Rightarrow> uuid \<Rightarrow> (eod_state, uuid \<times> int \<times> int \<times> nat \<times> bool) sm" where
  "recon_one ee d p = bindS (getS (\<lambda>s. (map (\<lambda>r. (snd (cp_id r), cp_quantity r)) (positions_of p (eo_store s)),
        map (\<lambda>(c, _, _, _, total). (c, total)) (get_balances p (ss_work (eo_funds s)))))) (\<lambda>(positions, balances).
     bindS (on_eod (reconcile (ee_recon ee) positions balances p d)) (\<lambda>r.
     retS (p, rs_total r, rs_matched r, length (rs_breaks r), rs_clean r)))"

definition execute_step ::
  "eod_env \<Rightarrow> step_name \<Rightarrow> string \<Rightarrow> date \<Rightarrow> uuid list \<Rightarrow> string \<Rightarrow> step_data
     \<Rightarrow> (eod_state, step_detail \<times> step_data) sm" where
  "execute_step ee st fund d ps base sd = (case st of
       MarketClose \<Rightarrow> retS (Message ''market_close_acknowledged'', sd)
     | PriceFinalization \<Rightarrow> bindS (finalize_prices ee d) (\<lambda>(n, missing).
         retS (PriceCounts n (length missing) (missing = []), sd))
     | CorporateActionProcessing \<Rightarrow> (case ee_actions ee of
         None \<Rightarrow> retS (Message ''corporate_actions_service_not_configured'', sd)
       | Some process \<Rightarrow> bindS (mapS (\<lambda>p. bindS (on_store (process fund p d)) (\<lambda>types. retS (p, types))) ps)
           (\<lambda>xs. retS (ActionCounts xs, sd)))
     | PositionRecon \<Rightarrow> bindS (mapS (recon_one ee d) ps) (\<lambda>xs. retS (ReconCounts xs, sd))
     | NavCalculation \<Rightarrow> bindS (mapS (\<lambda>p. calculate_nav ee p d base) ps) (\<lambda>navs.
         retS (Amounts (map (\<lambda>r. (nv_portfolio r, nv_nav r)) navs),
               sd\<lparr>sd_navs := Some (map (\<lambda>r. (nv_portfolio r, r)) navs)\<rparr>))
     | PnlSnapshot \<Rightarrow> bindS (mapS (\<lambda>p. snapshot_pnl ee p d base) ps) (\<lambda>xs.
         retS (Amounts (zip ps xs), sd\<lparr>sd_pnl := Some (foldl dadd 0 xs)\<rparr>))
     | EodRisk \<Rightarrow> bindS (mapS (\<lambda>p. suppress () (liftS (case ee_risk ee p fund of None \<Rightarrow> Inr () | Some e \<Rightarrow> Inl e))) ps)
         (\<lambda>_. retS (Processed (length ps), sd))
     | FeeAccrualStep \<Rightarrow> fee_step ee fund d ps sd
     | CapitalAllocationStep \<Rightarrow> bindS (capital_step ee d sd) (\<lambda>x. retS (x, sd))
     | DealingDateExecution \<Rightarrow> bindS (dealing_step ee d ps sd) (\<lambda>x. retS (x, sd))
     | PerformanceAttribution \<Rightarrow> (case ee_attribution ee of
         None \<Rightarrow> retS (Message ''attribution_service_not_configured'', sd)
       | Some calc \<Rightarrow> bindS (mapS (\<lambda>p. suppress (p, False)
             (liftS (case calc p d of None \<Rightarrow> Inr (p, True) | Some e \<Rightarrow> Inl e))) ps) (\<lambda>xs. retS (Outcomes xs, sd)))
     | ReportGeneration \<Rightarrow> (case ee_report ee of
         None \<Rightarrow> retS (Message ''report_generator_not_configured'', sd)
       | Some r \<Rightarrow> bindS (liftS r) (\<lambda>(sections, warnings). retS (Reported sections warnings, sd))))"

section \<open>The orchestrator\<close>

definition STEP_ORDER :: "step_name list" where
  "STEP_ORDER = [MarketClose, PriceFinalization, CorporateActionProcessing, PositionRecon, NavCalculation,
     FeeAccrualStep, PnlSnapshot, CapitalAllocationStep, DealingDateExecution, EodRisk, PerformanceAttribution,
     ReportGeneration]"

definition run_step ::
  "eod_env \<Rightarrow> step_name \<Rightarrow> string \<Rightarrow> date \<Rightarrow> uuid list \<Rightarrow> string \<Rightarrow> step_data
     \<Rightarrow> (eod_state, step_result \<times> step_data) sm" where
  \<comment> \<open>\<open>step_data=step_data or {}\<close>: an empty dictionary is replaced by a new one, and what the step
    puts into the new one is lost to the caller\<close>
  "run_step ee st fund d ps base sd =
     (let now = le_now (ee_ledger ee);
          result = (\<lambda>status err det. \<lparr>sp_step = st, sp_status = status, sp_started = now, sp_completed = Some now,
                      sp_error = err, sp_details = det\<rparr>)
      in tryS (bindS (execute_step ee st fund d ps base sd) (\<lambda>(det, sd').
             retS (result StepCompleted None (Some det), if sd = no_data then sd else sd')))
           (\<lambda>e. retS (result StepFailed (Some e) None, sd)))"

fun run_steps ::
  "eod_env \<Rightarrow> uuid \<Rightarrow> string \<Rightarrow> date \<Rightarrow> uuid list \<Rightarrow> string \<Rightarrow> step_name list \<Rightarrow> step_data
     \<Rightarrow> (eod_state, step_result list) sm" where
  "run_steps ee i fund d ps base [] sd = retS []"
| "run_steps ee i fund d ps base (st # rest) sd =
     bindS (run_step ee st fund d ps base sd) (\<lambda>(r, sd').
     thenS (on_eod (upsert_step i r))
       (if sp_status r = StepFailed then retS [r]
        else bindS (run_steps ee i fund d ps base rest sd') (\<lambda>rs. retS (r # rs))))"

record run_result =
  rn_id :: uuid
  rn_completed :: "timestamp option"
  rn_steps :: "step_result list"
  rn_successful :: bool

definition failed_result :: "uuid \<Rightarrow> timestamp \<Rightarrow> run_result" where
  "failed_result i now = \<lparr>rn_id = i, rn_completed = Some now,
     rn_steps = [\<lparr>sp_step = MarketClose, sp_status = StepFailed, sp_started = now, sp_completed = None,
                  sp_error = Some LookupError, sp_details = None\<rparr>], rn_successful = False\<rparr>"

definition start_run :: "eod_env \<Rightarrow> string \<Rightarrow> date \<Rightarrow> (eod_state, run_result) sm" where
  "start_run ee fund d =
     (let now = le_now (ee_ledger ee)
      in bindS (on_eod (new_uuid (ee_ledger ee))) (\<lambda>i.
         thenS (on_eod (insert_run \<lparr>ru_id = i, ru_date = d, ru_fund = fund, ru_started = now,
                  ru_completed = None, ru_successful = False\<rparr>))
        (case ee_fund ee fund of None \<Rightarrow> retS (failed_result i now)
         | Some (f, ccy) \<Rightarrow>
             let base = (if truthy ccy then the ccy else ''USD'')
             in bindS (run_steps ee i fund d (ee_portfolios ee f) base STEP_ORDER no_data) (\<lambda>rs.
                let ok = list_all (\<lambda>r. sp_status r \<noteq> StepFailed) rs
                in thenS (on_eod (complete_run i ok now))
                     (retS \<lparr>rn_id = i, rn_completed = Some now, rn_steps = rs, rn_successful = ok\<rparr>)))))"

definition run_eod :: "eod_env \<Rightarrow> string \<Rightarrow> date \<Rightarrow> (eod_state, run_result) sm" where
  "run_eod ee fund d = bindS (getS (\<lambda>s. get_latest_run (ee_ledger ee) d fund (ss_work (eo_eod s)))) (\<lambda>prior.
     case prior of
       Some r \<Rightarrow> if ru_successful r
         then bindS (getS (\<lambda>s. get_steps (ee_ledger ee) (ru_id r) (ss_work (eo_eod s)))) (\<lambda>steps.
              retS \<lparr>rn_id = ru_id r, rn_completed = ru_completed r,
                    rn_steps = map (\<lambda>x. x\<lparr>sp_details := None\<rparr>) steps, rn_successful = True\<rparr>)
         else start_run ee fund d
     | None \<Rightarrow> start_run ee fund d)"

end
