(* ===== verification/FeesInv.thy ===== *)
theory FeesInv
  imports Fees CapitalInv
begin

text \<open>
  What fee accounting promises: the fee of a day is ordered and at its rate, running totals are
  exact over every sequence of operations, approval transitions each accrual once, a summary is the
  exact total; and what crystallizing does to the high water mark.
\<close>

section \<open>The fee of a day\<close>

lemma quantize_up_mono: "quantize_upE k x = Inr a \<Longrightarrow> quantize_upE k y = Inr b \<Longrightarrow> x \<le> y \<Longrightarrow> a \<le> b"
  by (auto simp: quantize_upE_def Let_def divide_right_mono round_up_mono mult_right_mono split: if_splits)

lemma quantize_up_0 [simp]: "quantize_upE k 0 = Inr 0"
  by (simp add: quantize_upE_def Let_def round_up_def floor_eq_iff)

lemma ddiv_mono: "0 < c \<Longrightarrow> x \<le> y \<Longrightarrow> ddiv x c \<le> ddiv y c"
  by (simp add: ddiv_def fix28_mono divide_right_mono)

lemma performance_fee_step:
  assumes "0 \<le> pct" "n1 \<le> n2" "calculate_performance_fee n1 h pct hu k = Inr f1"
    "calculate_performance_fee n2 h pct hu k = Inr f2"
  shows "0 \<le> f1 \<and> f1 \<le> f2"
proof -
  define g where "g n = dsub n (dmul h (dadd 1 (ddiv (dmul (ddiv hu 100) (of_int k)) 365)))" for n
  define q where "q n = ddiv (dmul (g n) pct) 100" for n
  have calc: "calculate_performance_fee n h pct hu k = (if n \<le> h \<or> g n \<le> 0 then Inr 0 else quantize_upE 2 (q n))" for n
    by (simp add: calculate_performance_fee_def g_def q_def Let_def)
  have pos: "0 \<le> f" if "calculate_performance_fee n h pct hu k = Inr f" for n f
  proof (cases "n \<le> h \<or> g n \<le> 0")
    case False
    then have "0 \<le> q n" using assms(1) by (simp add: q_def ddiv_def dmul_def)
    with False that show ?thesis by (auto simp: calc dest: quantize_up_Inr(3))
  qed (use that in \<open>auto simp: calc\<close>)
  have gm: "g n1 \<le> g n2" using assms(2) by (simp add: g_def dsub_def fix28_mono)
  then have "dmul (g n1) pct \<le> dmul (g n2) pct"
    using assms(1) unfolding dmul_def by (intro fix28_mono mult_right_mono)
  then have qm: "q n1 \<le> q n2" by (simp add: q_def ddiv_mono)
  show ?thesis
  proof (cases "n1 \<le> h \<or> g n1 \<le> 0")
    case True
    then show ?thesis using assms(3,4) pos by (auto simp: calc)
  next
    case False
    then have "\<not> (n2 \<le> h \<or> g n2 \<le> 0)" using assms(2) gm by linarith
    with False assms(3,4) qm show ?thesis using pos[OF assms(3)] by (auto simp: calc intro: quantize_up_mono)
  qed
qed

text \<open>The performance fee is ordered: it is never negative, nothing is charged at or below the
  high water mark, and a higher net asset value never has a lower fee.
\<close>

theorem performance_fee_ordered:
  assumes "0 \<le> pct" "n1 \<le> n2"
    and "calculate_performance_fee n1 h pct hu k = Inr f1" "calculate_performance_fee n2 h pct hu k = Inr f2"
  shows "0 \<le> f1 \<and> f1 \<le> f2 \<and> (n2 \<le> h \<longrightarrow> f2 = 0)"
  using performance_fee_step[OF assms] assms(4) by (auto simp: calculate_performance_fee_def)

lemma performance_fee_example:
  "calculate_performance_fee 110 100 20 0 30 = Inr 2" "calculate_performance_fee 120 100 20 0 30 = Inr 4"
proof -
  have "ddiv 0 100 = 0" "dmul 0 30 = 0" "ddiv 0 365 = 0" "dadd 1 0 = 1" "dmul 100 1 = 100"
    "dsub 110 100 = 10" "dsub 120 100 = 20" "dmul 10 20 = 200" "dmul 20 20 = 400" "ddiv 200 100 = 2" "ddiv 400 100 = 4"
    by (simp_all add: dec_defs fix28_exact[of 0])
  moreover have "quantize_upE 2 2 = Inr 2" "quantize_upE 2 4 = Inr 4"
    by (simp_all add: quantize_upE_def round_up_def Let_def exact_simps)
  ultimately show "calculate_performance_fee 110 100 20 0 30 = Inr 2"
    "calculate_performance_fee 120 100 20 0 30 = Inr 4"
    by (simp_all add: calculate_performance_fee_def)
qed

theorem performance_fee_ordered_witness:
  "calculate_performance_fee 110 100 20 0 30 = Inr 2 \<and> calculate_performance_fee 120 100 20 0 30 = Inr 4 \<and>
    (0::dec) \<le> 2 \<and> (2::dec) \<le> 4"
  using performance_fee_ordered[OF _ _ performance_fee_example] performance_fee_example by simp

text \<open>The accrual of a day is a 365th of the annual rate, to half a cent.\<close>

theorem management_fee_rate:
  assumes "on_grid 2 nav" "\<bar>nav\<bar> \<le> 10 ^ 15" "0 \<le> bps" "bps \<le> 10000"
    and fee: "calculate_daily_management_fee nav bps = Inr f"
  shows "\<bar>f - nav * of_int bps / 3650000\<bar> \<le> 1 / 200 + 1 / 10 ^ 12"
proof -
  have b: "\<bar>of_int bps :: rat\<bar> \<le> 10 ^ 4" using assms(3,4) by simp
  have grid: "on_grid 0 (of_int bps :: rat)" by (rule on_gridI[of _ 0 bps]) simp
  have m: "\<bar>nav * of_int bps\<bar> \<le> 10 ^ 19"
  proof -
    have "\<bar>nav * of_int bps\<bar> = \<bar>nav\<bar> * \<bar>of_int bps\<bar>" by (rule abs_mult)
    also have "\<dots> \<le> 10 ^ 15 * 10 ^ 4" using assms(2) b by (intro mult_mono) auto
    finally show ?thesis by simp
  qed
  have g2: "on_grid 2 (nav * of_int bps)" using on_grid_mult[OF assms(1) grid] by simp
  then obtain n where n: "nav * of_int bps = of_int n / 10 ^ 2" by (rule on_gridE)
  have e1: "dmul nav (of_int bps) = nav * of_int bps"
    unfolding dmul_def by (rule fix28_exact[OF g2]) (use m in simp)
  have "on_grid 6 (nav * of_int bps / 10000)" by (rule on_gridI[of _ 6 n]) (simp add: n)
  then have e2: "ddiv (nav * of_int bps) 10000 = nav * of_int bps / 10000"
    unfolding ddiv_def by (rule fix28_exact) (use m in \<open>simp add: abs_divide\<close>)
  let ?x = "nav * of_int bps / 10000 / 365"
  have fx: "quantize_upE 2 (fix28 ?x) = Inr f"
    using fee unfolding calculate_daily_management_fee_def e1 e2 unfolding ddiv_def by simp
  have "\<bar>?x\<bar> \<le> 10 ^ 15" using m by (simp add: abs_divide)
  then have "\<bar>fix28 ?x - ?x\<bar> \<le> 10 ^ 15 / (2 * 10 ^ 27)"
    using fix28_error[of ?x] by (meson divide_right_mono order_trans zero_le_mult_iff zero_le_numeral zero_le_power)
  then have "\<bar>fix28 ?x - ?x\<bar> \<le> 1 / 10 ^ 12" by (rule order_trans) simp
  moreover have "\<bar>f - fix28 ?x\<bar> \<le> 1 / 200" using quantize_up_Inr(2)[OF fx] by simp
  moreover have "?x = nav * of_int bps / 3650000" by simp
  ultimately show ?thesis by linarith
qed

section \<open>Running totals\<close>

definition accrual_key :: "fee_accrual \<Rightarrow> uuid \<times> string \<times> fee_type" where
  "accrual_key r = (fa_portfolio r, fa_class r, fa_type r)"

definition accrued_to :: "fee_accrual list \<Rightarrow> fee_accrual \<Rightarrow> dec" where
  \<comment> \<open>what has been charged of the row's kind up to its date\<close>
  "accrued_to rs r = sum_list (map fa_amount
     (filter (\<lambda>q. accrual_key q = accrual_key r \<and> fa_date q \<le> fa_date r) rs))"

definition amount_stored :: "dec \<Rightarrow> bool" where
  "amount_stored x \<longleftrightarrow> on_grid 2 x \<and> \<bar>x\<bar> < 10 ^ 18"

definition running_row :: "fee_accrual list \<Rightarrow> fee_accrual \<Rightarrow> bool" where
  "running_row rs r \<longleftrightarrow> fa_cumulative r = accrued_to rs r \<and>
     amount_stored (fa_amount r) \<and> amount_stored (fa_cumulative r)"

type_synonym fee_day = "(uuid \<times> string \<times> fee_type) \<times> date"

definition fee_ok :: "fee_day set \<Rightarrow> 'a fee_tables_scheme \<Rightarrow> bool" where
  "fee_ok D t \<longleftrightarrow> (\<forall>r\<in>set (ft_accruals t). running_row (ft_accruals t) r \<and> (accrual_key r, fa_date r) \<in> D)"

lemma fee_ok_mono: "fee_ok D t \<Longrightarrow> D \<subseteq> D' \<Longrightarrow> fee_ok D' t"
  by (auto simp: fee_ok_def)

lemma latest_is_latest:
  assumes "scan_spec en" "get_latest_by_type en p ty cls t = Some r"
  shows "r \<in> set (ft_accruals t)" "accrual_key r = (p, cls, ty)"
    "\<forall>q\<in>set (ft_accruals t). accrual_key q = (p, cls, ty) \<longrightarrow> fa_date q \<le> fa_date r"
proof -
  let ?rs = "filter (\<lambda>r. fa_portfolio r = p \<and> fa_type r = ty \<and> fa_class r = cls) (ft_accruals t)"
  let ?so = "sort_key (\<lambda>r. - fa_date r) (scan en fa_id ?rs)"
  obtain rest where so: "?so = r # rest"
    using assms(2) by (auto simp: get_latest_by_type_def first_of_list_def split: list.splits)
  have set: "set ?so = set ?rs" using assms(1) by simp
  have mem: "r \<in> set ?rs" unfolding set[symmetric] so by simp
  then show "r \<in> set (ft_accruals t)" "accrual_key r = (p, cls, ty)" by (auto simp: accrual_key_def)
  have "sorted (map (\<lambda>r. - fa_date r) (r # rest))" unfolding so[symmetric] by simp
  then have "\<forall>q\<in>set (r # rest). fa_date q \<le> fa_date r" by auto
  then show "\<forall>q\<in>set (ft_accruals t). accrual_key q = (p, cls, ty) \<longrightarrow> fa_date q \<le> fa_date r"
    unfolding so[symmetric] set by (auto simp: accrual_key_def)
qed

lemma no_latest:
  "scan_spec en \<Longrightarrow> get_latest_by_type en p ty cls t = None \<Longrightarrow>
     filter (\<lambda>q. accrual_key q = (p, cls, ty)) (ft_accruals t) = []"
proof -
  assume "scan_spec en" "get_latest_by_type en p ty cls t = None"
  then have "set (sort_key (\<lambda>r. - fa_date r) (scan en fa_id
     (filter (\<lambda>r. fa_portfolio r = p \<and> fa_type r = ty \<and> fa_class r = cls) (ft_accruals t)))) = {}"
    unfolding get_latest_by_type_def first_of_list_def by (simp only: set_empty split: list.splits) simp
  with \<open>scan_spec en\<close> show ?thesis by (auto simp: filter_empty_conv accrual_key_def)
qed

lemma dadd_stored: "amount_stored x \<Longrightarrow> on_grid 2 y \<Longrightarrow> \<bar>y\<bar> < 10 ^ 18 \<Longrightarrow> dadd x y = x + y"
  unfolding dadd_def amount_stored_def by (rule fix28_exact[of 2]) (auto simp: on_grid_add)

lemma accrued_to_old:
  "\<not> (accrual_key q = accrual_key r \<and> fa_date q \<le> fa_date r) \<Longrightarrow> accrued_to (rs @ [q]) r = accrued_to rs r"
  by (auto simp: accrued_to_def)

lemma accrued_to_new:
  assumes "\<forall>r\<in>set rs. accrual_key r = accrual_key q \<longrightarrow> fa_date r \<le> fa_date q"
  shows "accrued_to (rs @ [q]) q = sum_list (map fa_amount (filter (\<lambda>r. accrual_key r = accrual_key q) rs)) + fa_amount q"
proof -
  have "filter (\<lambda>r. accrual_key r = accrual_key q \<and> fa_date r \<le> fa_date q) rs =
      filter (\<lambda>r. accrual_key r = accrual_key q) rs"
    using assms by (intro filter_cong) auto
  then show ?thesis by (simp add: accrued_to_def)
qed

text \<open>A new row of a later day continues the totals.\<close>

lemma fee_ok_append:
  assumes ok: "fee_ok D t" and later: "\<forall>d'. ((p, cls, ty), d') \<in> D \<longrightarrow> d' < d"
    and q: "accrual_key q = (p, cls, ty)" "fa_date q = d" "amount_stored (fa_amount q)" "amount_stored (fa_cumulative q)"
    and cum: "fa_cumulative q = sum_list (map fa_amount (filter (\<lambda>r. accrual_key r = (p, cls, ty)) (ft_accruals t))) + fa_amount q"
  shows "fee_ok (insert ((p, cls, ty), d) D) (t\<lparr>ft_accruals := ft_accruals t @ [q]\<rparr>)"
proof -
  have before: "fa_date r < d" if "r \<in> set (ft_accruals t)" "accrual_key r = (p, cls, ty)" for r
    using ok later that by (auto simp: fee_ok_def)
  have new: "running_row (ft_accruals t @ [q]) q"
    unfolding running_row_def using q cum before by (subst accrued_to_new) (auto intro: less_imp_le)
  have "running_row (ft_accruals t @ [q]) r" if "r \<in> set (ft_accruals t)" for r
  proof -
    have "\<not> (accrual_key q = accrual_key r \<and> fa_date q \<le> fa_date r)" using before[OF that] q by force
    moreover have "running_row (ft_accruals t) r" using ok that by (simp add: fee_ok_def)
    ultimately show ?thesis unfolding running_row_def by (metis accrued_to_old)
  qed
  with new q ok show ?thesis by (auto simp: fee_ok_def)
qed

lemma latest_total:
  assumes "scan_spec en" "fee_ok D t"
  shows "case get_latest_by_type en p ty cls t of
      Some r \<Rightarrow> amount_stored (fa_cumulative r) \<and>
        fa_cumulative r = sum_list (map fa_amount (filter (\<lambda>r. accrual_key r = (p, cls, ty)) (ft_accruals t)))
    | None \<Rightarrow> sum_list (map fa_amount (filter (\<lambda>r. accrual_key r = (p, cls, ty)) (ft_accruals t))) = 0"
proof (cases "get_latest_by_type en p ty cls t")
  case (Some r)
  note l = latest_is_latest[OF assms(1) Some]
  have "filter (\<lambda>q. accrual_key q = accrual_key r \<and> fa_date q \<le> fa_date r) (ft_accruals t) =
      filter (\<lambda>q. accrual_key q = (p, cls, ty)) (ft_accruals t)"
    using l by (intro filter_cong) auto
  moreover have "fa_cumulative r = accrued_to (ft_accruals t) r" "amount_stored (fa_cumulative r)"
    using assms(2) l(1) by (auto simp only: fee_ok_def running_row_def)
  ultimately show ?thesis unfolding accrued_to_def Some option.case by metis
next
  case None
  with no_latest[OF assms(1) None] show ?thesis by simp
qed

lemma accrue_fee_ok:
  assumes "col_spec en" "scan_spec en" "on_grid 2 fee" and later: "\<forall>d'. ((p, cls, ty), d') \<in> D \<longrightarrow> d' < d"
  shows "triple (on_tables (fee_ok D)) (accrue_fee en p cls ty d nav fee)
    (\<lambda>_. on_tables (fee_ok (insert ((p, cls, ty), d) D))) (on_tables (fee_ok (insert ((p, cls, ty), d) D)))"
proof -
  have grow: "on_tables (fee_ok D) s \<Longrightarrow> on_tables (fee_ok (insert ((p, cls, ty), d) D)) s" for s :: "'a fee_tables_scheme session"
    by (auto simp: on_tables_def intro: fee_ok_mono)
  have main: "on_tables (fee_ok (insert ((p, cls, ty), d) D)) (fst (accrue_fee en p cls ty d nav fee s))"
    if ok: "on_tables (fee_ok D) s" for s :: "'a fee_tables_scheme session"
  proof -
    let ?t = "ss_work s"
    let ?cum = "case get_latest_by_type en p ty cls ?t of Some r \<Rightarrow> dadd (fa_cumulative r) fee | None \<Rightarrow> fee"
    have okt: "fee_ok D ?t" using ok by (simp add: on_tables_def)
    obtain res where res: "bindE (le_col en 20 2 nav) (\<lambda>nv. bindE (le_col en 20 2 fee) (\<lambda>am.
       bindE (le_col en 20 2 ?cum) (\<lambda>cum. Inr (nv, am, cum)))) = res" by simp
    show ?thesis
    proof (cases "\<exists>nv am cum. le_col en 20 2 nav = Inr nv \<and> le_col en 20 2 fee = Inr am \<and> le_col en 20 2 ?cum = Inr cum")
      case False
      then have "\<exists>e s'. accrue_fee en p cls ty d nav fee s = (s\<lparr>ss_draws := Suc (ss_draws s)\<rparr>, Inl e)"
        by (cases "le_col en 20 2 nav"; cases "le_col en 20 2 fee"; cases "le_col en 20 2 ?cum")
          (auto simp: accrue_fee_def insert_accrual_def Let_def bindS_def)
      with grow[OF ok] show ?thesis by (auto simp: on_tables_def)
    next
      case True
      then obtain nv am cum where c: "le_col en 20 2 nav = Inr nv" "le_col en 20 2 fee = Inr am" "le_col en 20 2 ?cum = Inr cum"
        by blast
      note am = col_specD[OF assms(1) c(2)]
      note cm = col_specD[OF assms(1) c(3)]
      have [simp]: "am = fee" using am(3)[OF assms(3)] .
      have st: "amount_stored fee" "amount_stored cum" using am cm by (simp_all add: amount_stored_def)
      have cumv: "?cum = sum_list (map fa_amount (filter (\<lambda>r. accrual_key r = (p, cls, ty)) (ft_accruals ?t))) + fee"
        using latest_total[OF assms(2) okt, of p cls ty] st(1) assms(3)
        by (auto simp: amount_stored_def dadd_stored split: option.splits)
      have "on_grid 2 ?cum"
        using latest_total[OF assms(2) okt, of p cls ty] assms(3)
        by (auto simp: amount_stored_def split: option.splits)
      then have [simp]: "cum = ?cum" using cm(3) by simp
      define q where "q = \<lparr>fa_id = le_uuid en (ss_draws s), fa_portfolio = p, fa_class = cls, fa_type = ty,
        fa_date = d, fa_nav = nv, fa_amount = fee, fa_cumulative = ?cum, fa_status = FeeAccrued\<rparr>"
      have "fee_ok (insert ((p, cls, ty), d) D) (?t\<lparr>ft_accruals := ft_accruals ?t @ [q]\<rparr>)"
        by (rule fee_ok_append[OF okt later]) (use st cumv in \<open>simp_all add: q_def accrual_key_def\<close>)
      with grow[OF ok] c show ?thesis
        by (cases "find_row fa_id (le_uuid en (ss_draws s)) (ft_accruals ?t)")
          (auto simp: accrue_fee_def insert_accrual_def Let_def bindS_def thenS_def on_tables_def q_def)
    qed
  qed
  show ?thesis
    by (rule tripleI) (use main in \<open>metis fst_conv\<close>)+
qed

lemma calculators_grid:
  "calculate_daily_management_fee nav bps = Inr f \<Longrightarrow> on_grid 2 f"
  "calculate_performance_fee n h pct hu k = Inr f \<Longrightarrow> on_grid 2 f"
  by (auto simp: calculate_daily_management_fee_def calculate_performance_fee_def Let_def
      dest: quantize_up_Inr(1) split: if_splits)

definition class_days :: "uuid \<Rightarrow> string \<Rightarrow> date \<Rightarrow> fee_day set" where
  "class_days p cls d = {((p, cls, ManagementFee), d), ((p, cls, PerformanceFee), d)}"

lemma accrue_daily_ok:
  assumes en: "col_spec en" "scan_spec en" and later: "\<forall>ty d'. ((p, cls, ty), d') \<in> D \<longrightarrow> d' < d"
  shows "triple (on_tables (fee_ok D)) (accrue_daily_fees en p fund nav d cls)
    (\<lambda>_. on_tables (fee_ok (D \<union> class_days p cls d))) (on_tables (fee_ok (D \<union> class_days p cls d)))"
proof -
  let ?M = "insert ((p, cls, ManagementFee), d) D"
  let ?E = "on_tables (fee_ok (D \<union> class_days p cls d)) :: 'a fee_tables_scheme session \<Rightarrow> bool"
  have E: "on_tables (fee_ok D) s \<Longrightarrow> ?E s" "on_tables (fee_ok ?M) s \<Longrightarrow> ?E s"
    "on_tables (fee_ok (insert ((p, cls, PerformanceFee), d) ?M)) s \<Longrightarrow> ?E s" for s
    by (auto simp: on_tables_def class_days_def intro: fee_ok_mono)
  have mgmt: "triple (on_tables (fee_ok D)) (accrue_fee en p cls ManagementFee d nav fee)
      (\<lambda>_. on_tables (fee_ok ?M)) ?E" if "on_grid 2 fee" for fee
    by (rule triple_conseq[OF accrue_fee_ok[OF en that, of p cls ManagementFee D d]]) (use later E in auto)
  have perf: "triple (on_tables (fee_ok ?M)) (accrue_fee en p cls PerformanceFee d nav fee) (\<lambda>_. ?E) ?E"
    if "on_grid 2 fee" for fee
    by (rule triple_conseq[OF accrue_fee_ok[OF en that, of p cls PerformanceFee ?M d]]) (use later E in auto)
  have keepE: "triple ?E (emit en topic ev) (\<lambda>_. ?E) ?E" for topic ev by (rule on_tables_basic)
  show ?thesis
    unfolding accrue_daily_fees_def
  proof (rule triple_bind[where R = "\<lambda>_. on_tables (fee_ok D)"])
    show "triple (on_tables (fee_ok D)) (schedule_for fund cls) (\<lambda>_. on_tables (fee_ok D)) ?E"
      using E(1) by (auto simp: schedule_for_def triple_def bindS_def split: option.splits)
    fix sched :: "fee_schedule option"
    show "triple (on_tables (fee_ok D)) (case sched of None \<Rightarrow> retS [] | Some sc \<Rightarrow>
         bindS (liftS (calculate_daily_management_fee nav (fs_mgmt_bps sc))) (\<lambda>mgmt_fee.
         bindS (accrue_fee en p cls ManagementFee d nav mgmt_fee) (\<lambda>mgmt.
         bindS (readT (get_latest_mark en p cls)) (\<lambda>mark.
         let hwm_nav = (case mark of Some m \<Rightarrow> wm_nav m | None \<Rightarrow> nav);
             days = (case mark of Some m \<Rightarrow> d - wm_date m | None \<Rightarrow> 0)
         in bindS (liftS (calculate_performance_fee nav hwm_nav (fs_perf_pct sc) (fs_hurdle sc) days)) (\<lambda>perf_fee.
         bindS (if 0 < perf_fee
                then bindS (accrue_fee en p cls PerformanceFee d nav perf_fee) (\<lambda>perf. retS [mgmt, perf])
                else retS [mgmt]) (\<lambda>accruals.
         thenS (emit en (fund_topic fund ''fees.accrued'') (FeesAccrued p cls d mgmt_fee perf_fee nav))
           (retS accruals)))))))
      (\<lambda>_. ?E) ?E"
    proof (rule triple_option)
      fix sc :: fee_schedule
      show "triple (on_tables (fee_ok D))
         (bindS (liftS (calculate_daily_management_fee nav (fs_mgmt_bps sc))) (\<lambda>mgmt_fee.
         bindS (accrue_fee en p cls ManagementFee d nav mgmt_fee) (\<lambda>mgmt.
         bindS (readT (get_latest_mark en p cls)) (\<lambda>mark.
         let hwm_nav = (case mark of Some m \<Rightarrow> wm_nav m | None \<Rightarrow> nav);
             days = (case mark of Some m \<Rightarrow> d - wm_date m | None \<Rightarrow> 0)
         in bindS (liftS (calculate_performance_fee nav hwm_nav (fs_perf_pct sc) (fs_hurdle sc) days)) (\<lambda>perf_fee.
         bindS (if 0 < perf_fee
                then bindS (accrue_fee en p cls PerformanceFee d nav perf_fee) (\<lambda>perf. retS [mgmt, perf])
                else retS [mgmt]) (\<lambda>accruals.
         thenS (emit en (fund_topic fund ''fees.accrued'') (FeesAccrued p cls d mgmt_fee perf_fee nav))
           (retS accruals)))))))
      (\<lambda>_. ?E) ?E"
        unfolding Let_def
        apply (rule triple_bind_fact[where R = "\<lambda>_. on_tables (fee_ok D)" and F = "on_grid 2"])
         apply (rule triple_lift; simp add: E(1) calculators_grid)
        apply (rule triple_bind[where R = "\<lambda>_. on_tables (fee_ok ?M)"], erule mgmt)
        apply (rule triple_bind[where R = "\<lambda>_. on_tables (fee_ok ?M)"])
         apply (auto simp: triple_def E(2))[1]
        apply (rule triple_bind_fact[where R = "\<lambda>_. on_tables (fee_ok ?M)" and F = "on_grid 2"])
         apply (rule triple_lift; simp add: E(2) calculators_grid)
        apply (rule triple_bind[where R = "\<lambda>_. ?E"])
         apply (rule triple_if)
          apply (rule triple_bind[where R = "\<lambda>_. ?E"], erule perf)
          apply (rule triple_ret, assumption)
         apply (rule triple_ret, erule E(2))
        apply (rule triple_then[OF keepE])
        apply (rule triple_ret, assumption)
        done
    qed (auto intro: triple_ret E)
  qed
qed

text \<open>Nothing else touches an amount.\<close>

lemma accrued_to_status:
  "accrued_to (update_rows fa_id i (\<lambda>r. r\<lparr>fa_status := st\<rparr>) rs) r = accrued_to rs r"
  by (induction rs) (auto simp: accrued_to_def update_rows_def accrual_key_def)

lemma fee_ok_status:
  "fee_ok D t \<Longrightarrow>
     fee_ok D (t\<lparr>ft_accruals := update_rows fa_id i (\<lambda>r. r\<lparr>fa_status := st\<rparr>) (ft_accruals t)\<rparr>)"
proof -
  assume ok: "fee_ok D t"
  have "running_row (update_rows fa_id i (\<lambda>r. r\<lparr>fa_status := st\<rparr>) (ft_accruals t)) r \<and> (accrual_key r, fa_date r) \<in> D"
    if mem: "r \<in> set (update_rows fa_id i (\<lambda>r. r\<lparr>fa_status := st\<rparr>) (ft_accruals t))" for r
  proof -
    obtain q where q: "q \<in> set (ft_accruals t)" "r = (if fa_id q = i then q\<lparr>fa_status := st\<rparr> else q)"
      using set_update_rows[OF mem] by blast
    then have same: "accrual_key r = accrual_key q" "fa_date r = fa_date q" "fa_amount r = fa_amount q"
      "fa_cumulative r = fa_cumulative q" by (simp_all add: accrual_key_def)
    then have "accrued_to rs r = accrued_to rs q" for rs by (simp add: accrued_to_def)
    with ok q(1) same show ?thesis by (auto simp: fee_ok_def running_row_def accrued_to_status)
  qed
  then show ?thesis by (simp add: fee_ok_def)
qed

lemma fee_ok_frame [simp]:
  "fee_ok D (t\<lparr>ft_marks := m\<rparr>) = fee_ok D t" "fee_ok D (t\<lparr>ft_schedules := x\<rparr>) = fee_ok D t"
  by (simp_all add: fee_ok_def)

lemma accrual_status_keeps: "keeps (on_tables (fee_ok D)) (set_accrual_status i st)"
  unfolding set_accrual_status_def
  by (intro keeps_then on_tables_write on_tables_basic fee_ok_status)

lemma schedule_for_keeps: "keeps I (schedule_for fund cls :: ('a fee_tables_scheme, _) op)"
  unfolding schedule_for_def readT_def by (intro keeps_bind keeps_option keeps_basic)

lemma insert_mark_keeps: "keeps (on_tables (fee_ok D)) (insert_mark en r)"
  unfolding insert_mark_def
  by (intro keeps_bind keeps_if keeps_then keeps_basic on_tables_basic on_tables_write) simp

lemma crystallize_keeps: "keeps (on_tables (fee_ok D)) (crystallize_fees en p fund d cls)"
  unfolding crystallize_fees_def Let_def
  by (intro keeps_bind keeps_option keeps_if keeps_then keeps_for keeps_when keeps_basic on_tables_basic
      schedule_for_keeps accrual_status_keeps insert_mark_keeps)

lemma approve_keeps: "keeps (on_tables (fee_ok D)) (approve_accruals en ids fund)"
  unfolding approve_accruals_def approve_one_def Let_def
  by (intro keeps_bind keeps_option keeps_if keeps_then keeps_map keeps_when keeps_basic on_tables_basic accrual_status_keeps)

lemma upsert_schedule_keeps: "keeps (on_tables (fee_ok D)) (upsert_schedule en r)"
  unfolding upsert_schedule_def
  by (intro keeps_bind keeps_then keeps_basic on_tables_basic on_tables_write) simp

datatype fee_command =
    Accrue uuid string dec date string
  | Crystallize uuid string date string
  | Approve "uuid list" "string option"
  | PutSchedule fee_schedule

fun fee_exec :: "ledger_env \<Rightarrow> fee_command \<Rightarrow> 'a fee_tables_scheme session \<Rightarrow> 'a fee_tables_scheme session" where
  "fee_exec en (Accrue p fund nav d cls) s = fst (request (accrue_daily_fees en p fund nav d cls) s)"
| "fee_exec en (Crystallize p fund d cls) s = fst (request (crystallize_fees en p fund d cls) s)"
| "fee_exec en (Approve ids fund) s = fst (request (approve_accruals en ids fund) s)"
| "fee_exec en (PutSchedule r) s = fst (request (upsert_schedule en r) s)"

fun accrual_days :: "fee_command list \<Rightarrow> ((uuid \<times> string) \<times> date) list" where
  "accrual_days [] = []"
| "accrual_days (Accrue p fund nav d cls # cs) = ((p, cls), d) # accrual_days cs"
| "accrual_days (_ # cs) = accrual_days cs"

definition days_in_order :: "fee_command list \<Rightarrow> bool" where
  \<comment> \<open>a class of a portfolio is accrued at most once a day, on later and later days\<close>
  "days_in_order cs \<longleftrightarrow> sorted_wrt (\<lambda>a b. fst a = fst b \<longrightarrow> snd a < snd b) (accrual_days cs)"

definition days_done :: "fee_command list \<Rightarrow> fee_day set" where
  "days_done cs = (\<Union>((p, cls), d)\<in>set (accrual_days cs). class_days p cls d)"

lemma accrual_days_append: "accrual_days (cs @ ds) = accrual_days cs @ accrual_days ds"
  by (induction cs rule: accrual_days.induct) auto

lemma run_fee_ok:
  assumes en: "col_spec en" "scan_spec en" and "days_in_order cs"
    and s: "on_tables (fee_ok {}) s"
  shows "on_tables (fee_ok (days_done cs)) (fold (fee_exec en) cs s)"
  using assms(3)
proof (induction cs rule: rev_induct)
  case (snoc c cs)
  let ?s = "fold (fee_exec en) cs s"
  have ord: "days_in_order cs"
    using snoc.prems by (simp add: days_in_order_def accrual_days_append sorted_wrt_append)
  note ok = snoc.IH[OF ord]
  show ?case
  proof (cases c)
    case (Accrue p fund nav d cls)
    have later: "\<forall>ty d'. ((p, cls, ty), d') \<in> days_done cs \<longrightarrow> d' < d"
      using snoc.prems
      by (fastforce simp: days_in_order_def accrual_days_append sorted_wrt_append Accrue days_done_def class_days_def)
    have days: "days_done (cs @ [c]) = days_done cs \<union> class_days p cls d"
      by (auto simp: days_done_def accrual_days_append Accrue)
    have "triple (on_tables (fee_ok (days_done cs))) (accrue_daily_fees en p fund nav d cls)
      (\<lambda>_. on_tables (fee_ok (days_done (cs @ [c])))) (on_tables (fee_ok (days_done (cs @ [c]))))"
      unfolding days by (rule accrue_daily_ok[OF en later])
    with ok have "on_tables (fee_ok (days_done (cs @ [c]))) (fst (accrue_daily_fees en p fund nav d cls ?s))"
      by (cases "accrue_daily_fees en p fund nav d cls ?s"; cases "snd (accrue_daily_fees en p fund nav d cls ?s)")
        (auto dest: tripleD)
    then show ?thesis by (auto simp: Accrue on_tables_def request_def split: prod.splits)
  qed (use ok in \<open>auto simp: days_done_def accrual_days_append
      intro!: keeps_fst[OF on_tables_request] crystallize_keeps approve_keeps upsert_schedule_keeps\<close>)
qed (use s in \<open>simp add: days_done_def\<close>)

text \<open>C19. Running totals are exact.  As long as a class of a portfolio is accrued once a day on later
  and later days, the cumulative amount of every accrual row is, to the cent, the sum of everything
  charged of its kind up to its date, whatever crystallizations, approvals and schedule changes happen
  in between and whichever of the operations fail.
\<close>

theorem running_totals_exact:
  assumes "col_spec en" "scan_spec en" "days_in_order cs"
    and "ft_accruals (ss_work s) = []" "ft_accruals (ss_disk s) = []"
  shows "\<forall>r\<in>set (ft_accruals (ss_disk (fold (fee_exec en) cs s))).
    fa_cumulative r = accrued_to (ft_accruals (ss_disk (fold (fee_exec en) cs s))) r"
  using run_fee_ok[OF assms(1-3), of s] assms(4,5) by (simp add: on_tables_def fee_ok_def running_row_def)

theorem running_totals_exact_witness:
  "let rs = ft_accruals (ss_disk (fold (fee_exec demo_ledger)
     [PutSchedule \<lparr>fs_fund = ''alpha'', fs_class = ''default'', fs_mgmt_bps = 200, fs_perf_pct = 20, fs_hurdle = 0,
        fs_high_water = True, fs_crystal = ''annual'', fs_payment = ''quarterly''\<rparr>,
      Accrue 7 ''alpha'' 1000000 738886 ''default'', Approve [2] None,
      Accrue 7 ''alpha'' 2000000 738887 ''default''] \<lparr>ss_work = \<lparr>ft_schedules = [], ft_accruals = [], ft_marks = []\<rparr>,
        ss_disk = \<lparr>ft_schedules = [], ft_accruals = [], ft_marks = []\<rparr>, ss_events = [], ss_draws = 0\<rparr>))
   in list_all (\<lambda>r. fa_cumulative r = accrued_to rs r) rs"
  unfolding Let_def list_all_iff
  by (rule running_totals_exact[OF demo_col demo_scan]) (simp_all add: days_in_order_def)

section \<open>Approval\<close>

definition approved_rows :: "uuid set \<Rightarrow> fee_accrual list \<Rightarrow> fee_accrual list" where
  "approved_rows ids rs =
     map (\<lambda>r. if fa_id r \<in> ids \<and> fa_status r = FeeAccrued then r\<lparr>fa_status := FeeCrystallized\<rparr> else r) rs"

definition approvable :: "uuid set \<Rightarrow> fee_accrual list \<Rightarrow> nat" where
  "approvable ids rs = length (filter (\<lambda>r. fa_id r \<in> ids \<and> fa_status r = FeeAccrued) rs)"

lemma approved_rows_simps [simp]:
  "approved_rows {} rs = rs" "map fa_id (approved_rows I rs) = map fa_id rs"
  "approved_rows J (approved_rows I rs) = approved_rows (I \<union> J) rs"
  by (induction rs) (auto simp: approved_rows_def)

lemma approvable_again [simp]: "approvable I (approved_rows I rs) = 0"
  by (auto simp: approvable_def approved_rows_def filter_empty_conv)

lemma approvable_insert:
  "approvable I rs + approvable J (approved_rows I rs) = approvable (I \<union> J) rs"
  by (induction rs) (auto simp: approvable_def approved_rows_def)

lemma approve_one_spec:
  assumes "distinct (map fa_id (ft_accruals (ss_work s)))"
  shows "\<exists>s'. approve_one i s = (s', Inr (approvable {i} (ft_accruals (ss_work s)) = 1)) \<and>
    ss_work s' = (ss_work s)\<lparr>ft_accruals := approved_rows {i} (ft_accruals (ss_work s))\<rparr> \<and>
    (approvable {i} (ft_accruals (ss_work s)) = 0 \<longrightarrow> s' = s) \<and> approvable {i} (ft_accruals (ss_work s)) \<le> 1"
proof -
  let ?rs = "ft_accruals (ss_work s)"
  show ?thesis
  proof (cases "find_row fa_id i ?rs")
    case None
    then have "approvable {i} ?rs = 0" "approved_rows {i} ?rs = ?rs"
      by (auto simp: find_row_None approvable_def approved_rows_def filter_empty_conv intro!: map_idI)
    with None show ?thesis by (simp add: approve_one_def)
  next
    case (Some a)
    note a = find_row_Some[OF Some]
    have only: "r = a" if "r \<in> set ?rs" "fa_id r = i" for r
      using assms a that by (metis distinct_map inj_onD)
    have one: "filter (\<lambda>r. fa_id r = i) ?rs = [a]"
    proof -
      obtain xs ys where xs: "?rs = xs @ a # ys" using a split_list by fast
      moreover have "distinct ?rs" using assms by (simp add: distinct_map)
      ultimately have "a \<notin> set xs" "a \<notin> set ys" by auto
      moreover have "set ?rs = insert a (set xs \<union> set ys)" by (simp add: xs)
      ultimately have "fa_id r \<noteq> i" if "r \<in> set xs \<union> set ys" for r
        using only[of r] that by blast
      then have "filter (\<lambda>r. fa_id r = i) xs = []" "filter (\<lambda>r. fa_id r = i) ys = []"
        by (simp_all add: filter_empty_conv)
      then show ?thesis using a by (simp add: xs)
    qed
    have "approvable {i} ?rs = length (filter (\<lambda>r. fa_status r = FeeAccrued) (filter (\<lambda>r. fa_id r = i) ?rs))"
      by (simp add: approvable_def)
    then have n: "approvable {i} ?rs = (if fa_status a = FeeAccrued then 1 else 0)" unfolding one by simp
    show ?thesis
    proof (cases "fa_status a = FeeAccrued")
      case True
      then have "approved_rows {i} ?rs = update_rows fa_id i (\<lambda>r. r\<lparr>fa_status := FeeCrystallized\<rparr>) ?rs"
        unfolding approved_rows_def update_rows_def by (intro map_cong) (auto dest: only)
      with True n Some show ?thesis by (simp add: approve_one_def set_accrual_status_def thenS_def bindS_def)
    next
      case False
      then have "approved_rows {i} ?rs = ?rs"
        unfolding approved_rows_def by (intro map_idI) (auto dest: only)
      with False n Some show ?thesis by (simp add: approve_one_def)
    qed
  qed
qed

lemma approve_all_spec:
  "distinct (map fa_id (ft_accruals (ss_work s))) \<Longrightarrow>
   \<exists>s' ok. mapS approve_one ids s = (s', Inr ok) \<and> length ok = length ids \<and>
     ss_work s' = (ss_work s)\<lparr>ft_accruals := approved_rows (set ids) (ft_accruals (ss_work s))\<rparr> \<and>
     length (filter snd (zip ids ok)) = approvable (set ids) (ft_accruals (ss_work s)) \<and>
     (approvable (set ids) (ft_accruals (ss_work s)) = 0 \<longrightarrow> s' = s)"
proof (induction ids arbitrary: s)
  case Nil
  then show ?case by (simp add: approvable_def)
next
  case (Cons i ids)
  let ?rs = "ft_accruals (ss_work s)"
  let ?b = "approvable {i} ?rs = 1"
  obtain s1 where s1: "approve_one i s = (s1, Inr ?b)"
    "ss_work s1 = (ss_work s)\<lparr>ft_accruals := approved_rows {i} ?rs\<rparr>"
    "approvable {i} ?rs = 0 \<longrightarrow> s1 = s" "approvable {i} ?rs \<le> 1"
    using approve_one_spec[OF Cons.prems, of i] by (elim exE conjE) (rule that; assumption)
  have "distinct (map fa_id (ft_accruals (ss_work s1)))" using Cons.prems by (simp add: s1(2))
  from Cons.IH[OF this] obtain s2 ok where s2: "mapS approve_one ids s1 = (s2, Inr ok)" "length ok = length ids"
    "ss_work s2 = (ss_work s1)\<lparr>ft_accruals := approved_rows (set ids) (ft_accruals (ss_work s1))\<rparr>"
    "length (filter snd (zip ids ok)) = approvable (set ids) (ft_accruals (ss_work s1))"
    "approvable (set ids) (ft_accruals (ss_work s1)) = 0 \<longrightarrow> s2 = s1" by (elim exE conjE) (rule that; assumption)
  have sum: "approvable {i} ?rs + approvable (set ids) (approved_rows {i} ?rs) = approvable (set (i # ids)) ?rs"
    using approvable_insert[of "{i}" ?rs "set ids"] by simp
  have run: "mapS approve_one (i # ids) s = (s2, Inr (?b # ok))"
    using s1(1) s2(1) by (simp add: bindS_def)
  show ?case
  proof (intro exI conjI impI)
    show "mapS approve_one (i # ids) s = (s2, Inr (?b # ok))" by (rule run)
    show "length (filter snd (zip (i # ids) (?b # ok))) = approvable (set (i # ids)) ?rs"
      using s1(2,4) s2(4) sum by auto
    show "s2 = s" if "approvable (set (i # ids)) ?rs = 0"
      using that s1(2,3) s2(5) sum by simp
  qed (use s1(2) s2(2,3) in simp_all)
qed

lemma approve_spec:
  assumes "distinct (map fa_id (ft_accruals (ss_work s)))"
    and run: "approve_accruals en ids fund s = (s', Inr n)"
  shows "ft_accruals (ss_work s') = approved_rows (set ids) (ft_accruals (ss_work s)) \<and>
    n = approvable (set ids) (ft_accruals (ss_work s)) \<and>
    (approvable (set ids) (ft_accruals (ss_work s)) = 0 \<longrightarrow> s' = s)"
proof -
  let ?rs = "ft_accruals (ss_work s)"
  obtain s1 ok where s1: "mapS approve_one ids s = (s1, Inr ok)"
    "ss_work s1 = (ss_work s)\<lparr>ft_accruals := approved_rows (set ids) ?rs\<rparr>"
    "length (filter snd (zip ids ok)) = approvable (set ids) ?rs" "approvable (set ids) ?rs = 0 \<longrightarrow> s1 = s"
    using approve_all_spec[OF assms(1), of ids] by (elim exE conjE) (rule that; assumption)
  have "n = length (filter snd (zip ids ok)) \<and> ss_work s' = ss_work s1 \<and> (filter snd (zip ids ok) = [] \<longrightarrow> s' = s1)"
  proof (cases fund)
    case None
    then show ?thesis using run by (auto simp: approve_accruals_def bindS_def s1(1) Let_def)
  next
    case (Some f)
    let ?a = "map fst (filter snd (zip ids ok))"
    have "thenS (whenS (?a \<noteq> []) (emit en (fund_topic f ''fees.approved'') (FeesApproved ?a))) (retS (length ?a)) s1 = (s', Inr n)"
      using run by (simp add: approve_accruals_def bindS_def s1(1) Let_def Some)
    then show ?thesis
      by (cases "?a = []") (auto simp: thenS_def bindS_def dest: emit_work split: prod.splits sum.splits)
  qed
  with s1 show ?thesis by auto
qed

text \<open>Approving is exact and idempotent.  On a table with unique identifiers and a working bus, a
  batch transitions precisely the listed accruals still in the accrued state and reports their number,
  repeated and unknown identifiers counting nothing; replaying the batch transitions nothing,
  publishes nothing and reports zero.
\<close>

theorem approval_is_idempotent:
  assumes "distinct (map fa_id (ft_accruals (ss_work s)))"
    and run: "approve_accruals en ids fund s = (s', Inr n)"
  shows "ft_accruals (ss_work s') = approved_rows (set ids) (ft_accruals (ss_work s)) \<and>
    n = approvable (set ids) (ft_accruals (ss_work s)) \<and>
    approve_accruals en ids fund s' = (s', Inr 0)"
proof -
  note first = approve_spec[OF assms]
  then have d: "distinct (map fa_id (ft_accruals (ss_work s')))" using assms(1) by simp
  have none: "approvable (set ids) (ft_accruals (ss_work s')) = 0" using first by simp
  obtain ok where ok: "mapS approve_one ids s' = (s', Inr ok)" "filter snd (zip ids ok) = []"
    using approve_all_spec[OF d, of ids] none by (metis length_0_conv)
  have "approve_accruals en ids fund s' = (s', Inr 0)"
    by (cases fund) (simp_all add: approve_accruals_def bindS_def ok Let_def)
  with first show ?thesis by simp
qed

definition demo_fees :: "fee_tables session" where
  "demo_fees = (let t = \<lparr>ft_schedules = [\<lparr>fs_fund = ''alpha'', fs_class = ''default'', fs_mgmt_bps = 0,
        fs_perf_pct = 20, fs_hurdle = 0, fs_high_water = True, fs_crystal = ''annual'', fs_payment = ''annual''\<rparr>],
      ft_accruals = [\<lparr>fa_id = 90, fa_portfolio = 7, fa_class = ''default'', fa_type = ManagementFee, fa_date = 365,
        fa_nav = 100, fa_amount = 3, fa_cumulative = 3, fa_status = FeeAccrued\<rparr>],
      ft_marks = [\<lparr>wm_id = 91, wm_portfolio = 7, wm_class = ''default'', wm_date = 1, wm_nav = 120, wm_peak = 120\<rparr>]\<rparr>
    in \<lparr>ss_work = t, ss_disk = t, ss_events = [], ss_draws = 0\<rparr>)"

theorem approval_is_idempotent_witness:
  "\<exists>s'. approve_accruals demo_ledger [90, 5, 90] (Some ''alpha'') demo_fees = (s', Inr 1) \<and>
     map fa_status (ft_accruals (ss_work s')) = [FeeCrystallized] \<and>
     approve_accruals demo_ledger [90, 5, 90] (Some ''alpha'') s' = (s', Inr 0)"
proof -
  obtain s' n where run: "approve_accruals demo_ledger [90, 5, 90] (Some ''alpha'') demo_fees = (s', Inr n)"
    by (simp add: approve_accruals_def approve_one_def set_accrual_status_def demo_fees_def demo_ledger_def
        Let_def bindS_def thenS_def emit_def update_rows_def whenS_def)
  have "distinct (map fa_id (ft_accruals (ss_work demo_fees)))" by (simp add: demo_fees_def Let_def)
  from approval_is_idempotent[OF this run] run show ?thesis
    by (auto simp: demo_fees_def Let_def approved_rows_def approvable_def)
qed

section \<open>Summaries\<close>

lemma total_add_lookup:
  "map_of (total_add k x m) j = (if j = k then Some (dadd (or_else (map_of m k) 0) x) else map_of m j)"
  by (induction k x m rule: total_add.induct) auto

lemma total_fold_lookup:
  "map_of (foldl (\<lambda>m r. total_add (f r) (g r) m) [] rs) k =
     (if filter (\<lambda>r. f r = k) rs = [] then None else Some (dsum (map g (filter (\<lambda>r. f r = k) rs))))"
  by (induction rs rule: rev_induct) (auto simp: total_add_lookup dsum_snoc)

lemma mset_sums:
  fixes f :: "'r \<Rightarrow> rat"
  assumes "mset xs = mset ys"
  shows "sum_list (map f xs) = sum_list (map f ys)" "xs = [] \<longleftrightarrow> ys = []"
proof -
  have "sum_mset (image_mset f (mset xs)) = sum_mset (image_mset f (mset ys))" by (simp only: assms)
  then show "sum_list (map f xs) = sum_list (map f ys)" by (simp only: mset_map[symmetric] sum_mset_sum_list)
  show "xs = [] \<longleftrightarrow> ys = []" using assms by (metis mset_zero_iff)
qed

lemma sum_list_filter_le:
  "(\<And>x. 0 \<le> f x) \<Longrightarrow> sum_list (map f (filter P xs)) \<le> (sum_list (map f xs) :: rat)"
  by (induction xs) (auto intro: add_increasing)

lemma portfolio_rows:
  "scan_spec en \<Longrightarrow> mset (get_by_portfolio en p None None t) = mset (filter (\<lambda>r. fa_portfolio r = p) (ft_accruals t))"
  by (simp add: get_by_portfolio_def mset_scan)

text \<open>A summary is the exact total.  For every fee type the summary of a portfolio reports the sum of
  all amounts ever accrued for it, whatever their class and status and in whatever order the database
  returns them, and has no entry for a type that was never accrued.
\<close>

theorem fee_summary_exact:
  assumes "scan_spec en" "\<forall>r\<in>set (ft_accruals t). on_grid 2 (fa_amount r)"
    and "(\<Sum>r\<leftarrow>ft_accruals t. \<bar>fa_amount r\<bar>) \<le> 10 ^ 26"
  shows "map_of (get_fee_summary en p t) ty =
    (let rs = filter (\<lambda>r. fa_portfolio r = p \<and> fa_type r = ty) (ft_accruals t)
     in if rs = [] then None else Some (sum_list (map fa_amount rs)))"
proof -
  let ?rs = "filter (\<lambda>r. fa_portfolio r = p \<and> fa_type r = ty) (ft_accruals t)"
  let ?qs = "filter (\<lambda>r. fa_type r = ty) (get_by_portfolio en p None None t)"
  have ms: "mset ?qs = mset ?rs"
    by (simp add: portfolio_rows[OF assms(1)] filter_filter_mset)
  note sums = mset_sums(1)[OF ms] and emp = mset_sums(2)[OF ms]
  have "sum_list (map (\<lambda>r. \<bar>fa_amount r\<bar>) ?rs) \<le> (\<Sum>r\<leftarrow>ft_accruals t. \<bar>fa_amount r\<bar>)"
    by (rule sum_list_filter_le) simp
  then have "sum_list (map (\<lambda>r. \<bar>fa_amount r\<bar>) ?qs) \<le> 10 ^ 26" using assms(3) sums by simp
  moreover have "\<forall>r\<in>set ?qs. on_grid 2 (fa_amount r)" using assms(2)
    unfolding mset_eq_setD[OF ms] by simp
  ultimately have "dsum (map fa_amount ?qs) = sum_list (map fa_amount ?qs)"
    by (intro dsum_exact[of _ 2]) (auto simp: o_def)
  then show ?thesis unfolding get_fee_summary_def total_fold_lookup by (simp add: emp sums Let_def)
qed

theorem fee_summary_exact_witness:
  "map_of (get_fee_summary demo_ledger 7 (ss_work demo_fees)) ManagementFee = Some 3 \<and>
    map_of (get_fee_summary demo_ledger 7 (ss_work demo_fees)) PerformanceFee = None"
proof -
  have "\<forall>r\<in>set (ft_accruals (ss_work demo_fees)). on_grid 2 (fa_amount r)"
    "(\<Sum>r\<leftarrow>ft_accruals (ss_work demo_fees). \<bar>fa_amount r\<bar>) \<le> 10 ^ 26"
    by (simp_all add: demo_fees_def Let_def)
  from fee_summary_exact[OF demo_scan this, of 7] show ?thesis by (simp add: demo_fees_def Let_def)
qed

section \<open>Crystallization and the high water mark\<close>

lemma first_of_None: "first_of_list xs = None \<longleftrightarrow> xs = []"
  by (cases xs) (simp_all add: first_of_list_def)

lemma first_by_date:
  assumes "scan_spec en"
  shows "first_of_list (sort_key (\<lambda>r. - (f r :: int)) (scan en key rs)) = Some r \<Longrightarrow>
      r \<in> set rs \<and> (\<forall>q\<in>set rs. f q \<le> f r)"
    and "first_of_list (sort_key (\<lambda>r. - (f r :: int)) (scan en key rs)) = None \<longleftrightarrow> rs = []"
proof -
  let ?so = "sort_key (\<lambda>r. - f r) (scan en key rs)"
  have set: "set ?so = set rs" using assms by simp
  { assume "first_of_list ?so = Some r"
    then obtain rest where so: "?so = r # rest" by (auto simp: first_of_list_def split: list.splits)
    have "sorted (map (\<lambda>r. - f r) (r # rest))" unfolding so[symmetric] by simp
    then have "\<forall>q\<in>set (r # rest). f q \<le> f r" by auto
    then show "r \<in> set rs \<and> (\<forall>q\<in>set rs. f q \<le> f r)"
      unfolding so[symmetric] set using set so by (metis list.set_intros(1)) }
  show "first_of_list ?so = None \<longleftrightarrow> rs = []" unfolding first_of_None using set by (metis set_empty)
qed

definition crystallized_rows :: "uuid \<Rightarrow> string \<Rightarrow> fee_accrual list \<Rightarrow> fee_accrual list" where
  "crystallized_rows p cls rs = map (\<lambda>r. if fa_portfolio r = p \<and> fa_class r = cls \<and> fa_status r = FeeAccrued
     then r\<lparr>fa_status := FeeCrystallized\<rparr> else r) rs"

lemma status_loop:
  "\<exists>s'. forS (\<lambda>r. whenS (P r) (set_accrual_status (fa_id r) FeeCrystallized)) as s = (s', Inr ()) \<and>
     ss_work s' = (ss_work s)\<lparr>ft_accruals := map (\<lambda>r. if fa_id r \<in> fa_id ` (set as \<inter> Collect P)
       then r\<lparr>fa_status := FeeCrystallized\<rparr> else r) (ft_accruals (ss_work s))\<rparr>"
proof (induction as arbitrary: s)
  case (Cons a as)
  let ?s1 = "if P a then fst (set_accrual_status (fa_id a) FeeCrystallized s) else s"
  obtain s' where s': "forS (\<lambda>r. whenS (P r) (set_accrual_status (fa_id r) FeeCrystallized)) as ?s1 = (s', Inr ())"
    "ss_work s' = (ss_work ?s1)\<lparr>ft_accruals := map (\<lambda>r. if fa_id r \<in> fa_id ` (set as \<inter> Collect P)
       then r\<lparr>fa_status := FeeCrystallized\<rparr> else r) (ft_accruals (ss_work ?s1))\<rparr>"
    using Cons.IH[of ?s1] by (elim exE conjE) (rule that; assumption)
  have "forS (\<lambda>r. whenS (P r) (set_accrual_status (fa_id r) FeeCrystallized)) (a # as) s = (s', Inr ())"
    using s'(1) by (simp add: set_accrual_status_def thenS_def bindS_def split: if_splits)
  moreover have "ss_work s' = (ss_work s)\<lparr>ft_accruals := map (\<lambda>r. if fa_id r \<in> fa_id ` (set (a # as) \<inter> Collect P)
       then r\<lparr>fa_status := FeeCrystallized\<rparr> else r) (ft_accruals (ss_work s))\<rparr>"
    by (auto simp: s'(2) set_accrual_status_def update_rows_def thenS_def bindS_def)
  ultimately show ?case by blast
qed simp

lemma crystallized_loop:
  assumes "distinct (map fa_id rs)" "set as = set (filter (\<lambda>r. fa_portfolio r = p) rs)"
  shows "map (\<lambda>r. if fa_id r \<in> fa_id ` (set as \<inter> {r. fa_status r = FeeAccrued \<and> fa_class r = cls})
       then r\<lparr>fa_status := FeeCrystallized\<rparr> else r) rs = crystallized_rows p cls rs"
proof -
  have "fa_id r \<in> fa_id ` (set as \<inter> {r. fa_status r = FeeAccrued \<and> fa_class r = cls}) \<longleftrightarrow>
      fa_portfolio r = p \<and> fa_class r = cls \<and> fa_status r = FeeAccrued" if r: "r \<in> set rs" for r
  proof -
    have "q = r" if "q \<in> set rs" "fa_id q = fa_id r" for q
      using assms(1) r that by (metis distinct_map inj_onD)
    then show ?thesis using r unfolding assms(2) by (auto simp: image_iff)
  qed
  then show ?thesis unfolding crystallized_rows_def by (intro map_cong) simp_all
qed

text \<open>Crystallization, in full.  On a crystallization date every accrual of the portfolio's class
  still in the accrued state is crystallized, and nothing else is; and the net asset value of the
  latest accrual becomes the high water mark, whether or not it is higher than the mark before.  A
  fund that crystallizes below its mark pays the performance fee again for the recovery.
\<close>

theorem crystallization_resets_mark:
  assumes "col_spec en" "scan_spec en" "distinct (map fa_id (ft_accruals (ss_work s)))"
    and sched: "get_by_fund_slug fund cls (ss_work s) = Some sc" "should_crystallize (fs_crystal sc) d = Inr True"
    and latest: "first_of_list (filter (\<lambda>r. fa_class r = cls) (get_by_portfolio en p None None (ss_work s))) = Some r"
    and nav: "on_grid 2 (fa_nav r)"
    and marks: "\<forall>m\<in>set (ft_marks (ss_work s)). wm_portfolio m = p \<and> wm_class m = cls \<longrightarrow> wm_date m < d"
    and run: "crystallize_fees en p fund d cls s = (s', Inr ())"
  shows "ft_accruals (ss_work s') = crystallized_rows p cls (ft_accruals (ss_work s)) \<and>
    (\<exists>m. get_latest_mark en p cls (ss_work s') = Some m \<and> wm_nav m = fa_nav r)"
proof -
  let ?as = "get_by_portfolio en p None None (ss_work s)"
  let ?t = "ss_work s"
  obtain s1 where s1: "forS (\<lambda>r. whenS (fa_status r = FeeAccrued \<and> fa_class r = cls)
      (set_accrual_status (fa_id r) FeeCrystallized)) ?as s = (s1, Inr ())"
    "ss_work s1 = ?t\<lparr>ft_accruals := map (\<lambda>r. if fa_id r \<in> fa_id ` (set ?as \<inter> {r. fa_status r = FeeAccrued \<and> fa_class r = cls})
       then r\<lparr>fa_status := FeeCrystallized\<rparr> else r) (ft_accruals ?t)\<rparr>"
    using status_loop[of "\<lambda>r. fa_status r = FeeAccrued \<and> fa_class r = cls" ?as s]
    by (elim exE conjE) (rule that; assumption)
  have "set ?as = set (filter (\<lambda>r. fa_portfolio r = p) (ft_accruals ?t))"
    by (rule mset_eq_setD[OF portfolio_rows[OF assms(2)]])
  from crystallized_loop[OF assms(3) this] have w1: "ss_work s1 = ?t\<lparr>ft_accruals := crystallized_rows p cls (ft_accruals ?t)\<rparr>"
    by (simp add: s1(2))
  let ?m = "\<lambda>peak. \<lparr>wm_id = le_uuid en (ss_draws s1), wm_portfolio = p, wm_class = cls, wm_date = d,
     wm_nav = fa_nav r, wm_peak = peak\<rparr>"
  let ?peak = "case get_latest_mark en p cls (ss_work s1) of Some m \<Rightarrow> max (fa_nav r) (wm_peak m) | None \<Rightarrow> fa_nav r"
  have "thenS (insert_mark en (?m ?peak)) (emit en (fund_topic fund ''fees.crystallized'') (FeesCrystallized p cls d))
      (s1\<lparr>ss_draws := Suc (ss_draws s1)\<rparr>) = (s', Inr ())"
    using run by (simp add: crystallize_fees_def schedule_for_def sched bindS_def thenS_def s1(1) latest Let_def)
  then obtain s2 where s2: "insert_mark en (?m ?peak) (s1\<lparr>ss_draws := Suc (ss_draws s1)\<rparr>) = (s2, Inr ())"
    and "ss_work s' = ss_work s2"
    by (auto simp: thenS_def bindS_def dest: emit_work split: prod.splits sum.splits)
  obtain nv pk where c: "le_col en 20 2 (fa_nav r) = Inr nv" "le_col en 20 2 ?peak = Inr pk"
    using s2 by (cases "le_col en 20 2 (fa_nav r)"; cases "le_col en 20 2 ?peak")
      (auto simp: insert_mark_def bindS_def)
  have "nv = fa_nav r" using col_specD(3)[OF assms(1) c(1) nav] .
  with s2 c have w2: "ss_work s2 = (ss_work s1)\<lparr>ft_marks := ft_marks (ss_work s1) @ [?m pk]\<rparr>"
    by (auto simp: insert_mark_def bindS_def thenS_def split: if_splits)
  let ?ms = "filter (\<lambda>r. wm_portfolio r = p \<and> wm_class r = cls) (ft_marks (ss_work s'))"
  have ms: "set ?ms = insert (?m pk) (set (filter (\<lambda>r. wm_portfolio r = p \<and> wm_class r = cls) (ft_marks ?t)))"
    by (auto simp: \<open>ss_work s' = ss_work s2\<close> w2 w1)
  obtain m where m: "get_latest_mark en p cls (ss_work s') = Some m"
    using first_by_date(2)[OF assms(2), of wm_date wm_id ?ms] ms
    unfolding get_latest_mark_def by (cases "first_of_list (sort_key (\<lambda>r. - wm_date r) (scan en wm_id ?ms))") auto
  then have "m \<in> set ?ms \<and> (\<forall>q\<in>set ?ms. wm_date q \<le> wm_date m)"
    unfolding get_latest_mark_def by (rule first_by_date(1)[OF assms(2)])
  then have "m = ?m pk" using marks unfolding ms by fastforce
  with m show ?thesis by (simp add: \<open>ss_work s' = ss_work s2\<close> w2 w1)
qed

lemma demo_year_end: "should_crystallize ''annual'' 365 = Inr True"
proof -
  have "year_of 365 = 1" by (simp add: year_of_def Let_def)
  moreover have "month_of 365 = 12"
    by (simp add: month_of_def calculation first_of_def year_start_def before_month_def leap_def upto.simps)
  ultimately have "day_of 365 = 31" by (simp add: day_of_def first_of_def year_start_def before_month_def leap_def)
  with \<open>month_of 365 = 12\<close> show ?thesis by (simp add: should_crystallize_def)
qed

theorem crystallization_resets_mark_witness:
  "\<exists>s' m. crystallize_fees demo_ledger 7 ''alpha'' 365 ''default'' demo_fees = (s', Inr ()) \<and>
     map fa_status (ft_accruals (ss_work s')) = [FeeCrystallized] \<and>
     map wm_nav (ft_marks (ss_work demo_fees)) = [120] \<and>
     get_latest_mark demo_ledger 7 ''default'' (ss_work s') = Some m \<and> wm_nav m = 100"
proof -
  let ?r = "\<lparr>fa_id = 90, fa_portfolio = 7, fa_class = ''default'', fa_type = ManagementFee, fa_date = 365,
        fa_nav = 100, fa_amount = 3, fa_cumulative = 3, fa_status = FeeAccrued\<rparr>"
  let ?sc = "\<lparr>fs_fund = ''alpha'', fs_class = ''default'', fs_mgmt_bps = 0,
        fs_perf_pct = 20, fs_hurdle = 0, fs_high_water = True, fs_crystal = ''annual'', fs_payment = ''annual''\<rparr>"
  have sched: "get_by_fund_slug ''alpha'' ''default'' (ss_work demo_fees) = Some ?sc"
    by (simp add: get_by_fund_slug_def demo_fees_def Let_def schedule_key_def)
  have rows: "get_by_portfolio demo_ledger 7 None None (ss_work demo_fees) = [?r]"
    by (simp add: get_by_portfolio_def scan_def demo_ledger_def demo_fees_def Let_def)
  have grid: "pg_numeric 20 2 100 = Inr 100" "pg_numeric 20 2 120 = Inr 120" by (rule pg_numeric_store; simp)+
  obtain s' where run: "crystallize_fees demo_ledger 7 ''alpha'' 365 ''default'' demo_fees = (s', Inr ())"
    by (simp add: demo_fees_def Let_def crystallize_fees_def schedule_for_def get_by_fund_slug_def schedule_key_def
        bindS_def thenS_def get_by_portfolio_def first_of_list_def scan_def get_latest_mark_def demo_year_end
        set_accrual_status_def update_rows_def insert_mark_def emit_def whenS_def demo_ledger_def grid)
  have "distinct (map fa_id (ft_accruals (ss_work demo_fees)))"
    "first_of_list (filter (\<lambda>r. fa_class r = ''default'') (get_by_portfolio demo_ledger 7 None None (ss_work demo_fees))) = Some ?r"
    "\<forall>m\<in>set (ft_marks (ss_work demo_fees)). wm_portfolio m = 7 \<and> wm_class m = ''default'' \<longrightarrow> wm_date m < 365"
    by (simp_all add: rows first_of_list_def) (simp_all add: demo_fees_def Let_def)
  from crystallization_resets_mark[OF demo_col demo_scan this(1) sched _ this(2) _ this(3) run] run
  show ?thesis by (auto simp: demo_year_end crystallized_rows_def demo_fees_def Let_def)
qed

section \<open>A gain is charged every day\<close>

definition perf_charged :: "uuid \<Rightarrow> string \<Rightarrow> 'a fee_tables_scheme \<Rightarrow> dec" where
  "perf_charged p cls t =
     sum_list (map fa_amount (filter (\<lambda>r. accrual_key r = (p, cls, PerformanceFee)) (ft_accruals t)))"

lemma accrue_fee_effect:
  assumes "col_spec en" "on_grid 2 fee" "accrue_fee en p cls ty d nav fee s = (s', Inr q)"
  shows "\<exists>r. ss_work s' = (ss_work s)\<lparr>ft_accruals := ft_accruals (ss_work s) @ [r]\<rparr> \<and>
    accrual_key r = (p, cls, ty) \<and> fa_amount r = fee"
proof -
  let ?cum = "case get_latest_by_type en p ty cls (ss_work s) of Some r \<Rightarrow> dadd (fa_cumulative r) fee | None \<Rightarrow> fee"
  obtain nv am cum where c: "le_col en 20 2 nav = Inr nv" "le_col en 20 2 fee = Inr am" "le_col en 20 2 ?cum = Inr cum"
    using assms(3) by (cases "le_col en 20 2 nav"; cases "le_col en 20 2 fee"; cases "le_col en 20 2 ?cum")
      (auto simp: accrue_fee_def insert_accrual_def Let_def bindS_def)
  have "am = fee" using col_specD(3)[OF assms(1) c(2) assms(2)] .
  with assms(3) c show ?thesis
    by (auto simp: accrue_fee_def insert_accrual_def Let_def bindS_def thenS_def accrual_key_def split: if_splits)
qed

lemma fee_without_hurdle: "calculate_performance_fee n h pct 0 k = calculate_performance_fee n h pct 0 j"
  by (simp add: calculate_performance_fee_def ddiv_def dmul_def Let_def)

lemma accrue_daily_flat:
  assumes en: "col_spec en" and sched: "get_by_fund_slug fund cls (ss_work s) = Some sc" "fs_hurdle sc = 0"
    and mark: "get_latest_mark en p cls (ss_work s) = Some m"
    and fee: "calculate_performance_fee nav (wm_nav m) (fs_perf_pct sc) 0 0 = Inr f" "0 < f"
    and run: "accrue_daily_fees en p fund nav d cls s = (s', Inr rows)"
  shows "perf_charged p cls (ss_work s') = perf_charged p cls (ss_work s) + f \<and>
    ft_schedules (ss_work s') = ft_schedules (ss_work s) \<and> ft_marks (ss_work s') = ft_marks (ss_work s)"
proof -
  obtain mf where mf: "calculate_daily_management_fee nav (fs_mgmt_bps sc) = Inr mf"
    using run by (cases "calculate_daily_management_fee nav (fs_mgmt_bps sc)")
      (auto simp: accrue_daily_fees_def schedule_for_def sched bindS_def)
  obtain s1 q1 where s1: "accrue_fee en p cls ManagementFee d nav mf s = (s1, Inr q1)"
    using run by (cases "accrue_fee en p cls ManagementFee d nav mf s"; cases "snd (accrue_fee en p cls ManagementFee d nav mf s)")
      (auto simp: accrue_daily_fees_def schedule_for_def sched bindS_def mf)
  obtain r1 where r1: "ss_work s1 = (ss_work s)\<lparr>ft_accruals := ft_accruals (ss_work s) @ [r1]\<rparr>"
    "accrual_key r1 = (p, cls, ManagementFee)"
    using accrue_fee_effect[OF en calculators_grid(1)[OF mf] s1] by (elim exE conjE) (rule that; assumption)
  have mark1: "get_latest_mark en p cls (ss_work s1) = Some m" using mark by (simp add: get_latest_mark_def r1)
  have f: "calculate_performance_fee nav (wm_nav m) (fs_perf_pct sc) (fs_hurdle sc) (d - wm_date m) = Inr f"
    unfolding sched(2) fee_without_hurdle[of _ _ _ "d - wm_date m" 0] by (rule fee(1))
  let ?P = "accrue_fee en p cls PerformanceFee d nav f s1"
  obtain s2 q2 where s2: "?P = (s2, Inr q2)"
    using run by (cases ?P; cases "snd ?P")
      (auto simp: accrue_daily_fees_def schedule_for_def sched(1) bindS_def mf s1 mark1 f fee(2))
  obtain r2 where r2: "ss_work s2 = (ss_work s1)\<lparr>ft_accruals := ft_accruals (ss_work s1) @ [r2]\<rparr>"
    "accrual_key r2 = (p, cls, PerformanceFee)" "fa_amount r2 = f"
    using accrue_fee_effect[OF en calculators_grid(2)[OF fee(1)] s2] by (elim exE conjE) (rule that; assumption)
  have "ss_work s' = ss_work s2"
    using run by (auto simp: accrue_daily_fees_def schedule_for_def sched(1) bindS_def thenS_def mf s1 mark1 f fee(2) s2
        dest: emit_work split: prod.splits sum.splits)
  then show ?thesis by (simp add: perf_charged_def r1 r2)
qed

text \<open>A gain is charged every day.  While the net asset value stays above the high water mark, each
  daily accrual charges the performance fee on the whole gain again: after any number of days at the
  same value, with no hurdle, the performance fee charged is that many times the fee of one day.
\<close>

theorem gain_charged_every_day:
  assumes en: "col_spec en" and sched: "get_by_fund_slug fund cls (ss_work s) = Some sc" "fs_hurdle sc = 0"
    and mark: "get_latest_mark en p cls (ss_work s) = Some m"
    and fee: "calculate_performance_fee nav (wm_nav m) (fs_perf_pct sc) 0 0 = Inr f" "0 < f"
    and run: "mapS (\<lambda>d. accrue_daily_fees en p fund nav d cls) ds s = (s', Inr rows)"
  shows "perf_charged p cls (ss_work s') = perf_charged p cls (ss_work s) + of_nat (length ds) * f"
  using sched(1) mark run
proof (induction ds arbitrary: s rows)
  case (Cons d ds)
  obtain s1 r1 rs where s1: "accrue_daily_fees en p fund nav d cls s = (s1, Inr r1)"
    "mapS (\<lambda>d. accrue_daily_fees en p fund nav d cls) ds s1 = (s', Inr rs)"
    using Cons.prems(3) by (auto simp: bindS_def split: prod.splits sum.splits)
  note one = accrue_daily_flat[OF en Cons.prems(1) sched(2) Cons.prems(2) fee s1(1)]
  have "get_by_fund_slug fund cls (ss_work s1) = Some sc" "get_latest_mark en p cls (ss_work s1) = Some m"
    using Cons.prems(1,2) one by (simp_all add: get_by_fund_slug_def get_latest_mark_def)
  from Cons.IH[OF this s1(2)] one show ?case by (simp add: algebra_simps)
qed simp

theorem gain_charged_every_day_witness:
  "\<exists>s' rows. mapS (\<lambda>d. accrue_daily_fees demo_ledger 7 ''alpha'' 130 d ''default'') [738886, 738887] demo_fees
     = (s', Inr rows) \<and> perf_charged 7 ''default'' (ss_work s') = 4"
proof -
  have fee: "calculate_performance_fee 130 120 20 0 k = Inr 2" for k
  proof -
    have "dmul (ddiv 0 100) (of_int k) = 0" "ddiv 0 365 = 0" "dadd 1 0 = 1" "dmul 120 1 = 120"
      "dsub 130 120 = 10" "dmul 10 20 = 200" "ddiv 200 100 = 2"
      by (simp_all add: dec_defs fix28_exact[of 0])
    moreover have "quantize_upE 2 2 = Inr 2" by (simp add: quantize_upE_def round_up_def Let_def exact_simps)
    ultimately show ?thesis by (simp add: calculate_performance_fee_def)
  qed
  have none: "calculate_daily_management_fee 130 0 = Inr 0"
    by (simp add: calculate_daily_management_fee_def dmul_def ddiv_def)
  let ?sc = "\<lparr>fs_fund = ''alpha'', fs_class = ''default'', fs_mgmt_bps = 0,
        fs_perf_pct = 20, fs_hurdle = 0, fs_high_water = True, fs_crystal = ''annual'', fs_payment = ''annual''\<rparr>"
  let ?m = "\<lparr>wm_id = 91, wm_portfolio = 7, wm_class = ''default'', wm_date = 1, wm_nav = 120, wm_peak = 120\<rparr>"
  have sched: "get_by_fund_slug ''alpha'' ''default'' (ss_work demo_fees) = Some ?sc"
    by (simp add: get_by_fund_slug_def demo_fees_def Let_def schedule_key_def)
  have mark: "get_latest_mark demo_ledger 7 ''default'' (ss_work demo_fees) = Some ?m"
    by (simp add: get_latest_mark_def first_of_list_def scan_def demo_ledger_def demo_fees_def Let_def)
  have grid: "pg_numeric 20 2 130 = Inr 130" "pg_numeric 20 2 0 = Inr 0" "pg_numeric 20 2 2 = Inr 2"
    "pg_numeric 20 2 3 = Inr 3" "pg_numeric 20 2 4 = Inr 4" by (rule pg_numeric_store; simp)+
  have add: "dadd 3 0 = 3" "dadd 2 2 = 4" by (simp_all add: dadd_def fix28_exact[of 0])
  obtain s' rows where run: "mapS (\<lambda>d. accrue_daily_fees demo_ledger 7 ''alpha'' 130 d ''default'') [738886, 738887] demo_fees
     = (s', Inr rows)"
    by (simp add: demo_fees_def Let_def accrue_daily_fees_def schedule_for_def get_by_fund_slug_def schedule_key_def
        bindS_def thenS_def none fee accrue_fee_def insert_accrual_def get_latest_by_type_def get_latest_mark_def
        first_of_list_def scan_def demo_ledger_def grid add emit_def)
  have f0: "calculate_performance_fee 130 (wm_nav ?m) (fs_perf_pct ?sc) 0 0 = Inr 2" using fee by simp
  from gain_charged_every_day[OF demo_col sched _ mark f0 _ run] run show ?thesis
    by (simp add: perf_charged_def demo_fees_def Let_def accrual_key_def)
qed

end
