(* ===== verification/ReconInv.thy ===== *)
theory ReconInv
  imports Recon FeesInv
begin

text \<open>
  What reconciliation promises: a clean result is agreement of every source, every difference against
  broker and administrator is recorded, the rules touch exactly the open breaks they match, service
  levels only ever get worse with age; and the differences the materiality of a break does not see.
\<close>

section \<open>Matching\<close>

definition arranges :: "(string list \<Rightarrow> string list) \<Rightarrow> bool" where
  "arranges f \<longleftrightarrow> (\<forall>xs. mset (f xs) = mset xs)"

lemma set_arranged: "arranges f \<Longrightarrow> set (f xs) = set xs"
  by (metis arranges_def set_mset_mset)

lemma quantity_outside: "i \<notin> fst ` set m \<Longrightarrow> quantity_of m i = 0"
  by (simp add: quantity_of_def map_of_eq_None_iff[THEN iffD2])

lemma breaks_of_instrument:
  "first_break i a b q @ second_break i a b q = [] \<longleftrightarrow> a = b \<and> (\<forall>x. q = Some x \<longrightarrow> x = a)"
  by (auto simp: first_break_def second_break_def split: option.splits)

text \<open>C34. A clean position match is three-way agreement.  Matching finds no break exactly when internal,
  broker and, where its statement is available, administrator quantities agree for every instrument, one
  that a source does not list counting as zero.
\<close>

theorem match_clean_iff_agree:
  assumes "arranges f"
  shows "match_positions f internal broker admin = [] \<longleftrightarrow>
    (\<forall>i. quantity_of internal i = quantity_of broker i \<and>
      (\<forall>m. admin = Some m \<longrightarrow> quantity_of m i = quantity_of internal i))"
proof -
  have "match_positions f internal broker admin = [] \<longleftrightarrow>
      (\<forall>i\<in>set (all_keys internal broker admin). quantity_of internal i = quantity_of broker i \<and>
        (\<forall>m. admin = Some m \<longrightarrow> quantity_of m i = quantity_of internal i))"
    by (auto simp: match_positions_def Let_def breaks_of_instrument set_arranged[OF assms] simp del: append_is_Nil_conv)
  also have "\<dots> \<longleftrightarrow> (\<forall>i. quantity_of internal i = quantity_of broker i \<and>
      (\<forall>m. admin = Some m \<longrightarrow> quantity_of m i = quantity_of internal i))"
  proof -
    have "quantity_of internal i = 0 \<and> quantity_of broker i = 0 \<and> (\<forall>m. admin = Some m \<longrightarrow> quantity_of m i = 0)"
      if "i \<notin> set (all_keys internal broker admin)" for i
      using that by (auto simp: all_keys_def intro!: quantity_outside)
    then show ?thesis by (metis (no_types, lifting))
  qed
  finally show ?thesis .
qed

theorem match_clean_iff_agree_witness:
  "match_positions id [(''AAPL'', 5)] [(''AAPL'', 5), (''MSFT'', 0)] (Some [(''AAPL'', 5)]) = []"
  by (subst match_clean_iff_agree) (auto simp: arranges_def quantity_of_def)

text \<open>Differences with the administrator are invisible.  When internal and broker quantities agree and the
  administrator's is any other number, however far off, the break that is recorded has difference zero,
  counts as immaterial, and the first of the standard rules resolves it as a rounding difference.
\<close>

theorem admin_break_resolved_as_rounding:
  assumes "arranges f" "quantity_of internal i = quantity_of broker i" "quantity_of m i \<noteq> quantity_of internal i"
  shows "\<exists>b\<in>set (match_positions f internal broker (Some m)).
    br_instrument b = i \<and> br_admin b = Some (quantity_of m i) \<and> br_difference b = 0 \<and> \<not> br_material b \<and>
    List.find (\<lambda>rule. rule_matches now recurring rule (position_row now p d b k)) default_rules
      = Some RoundingDifferenceRule"
proof -
  let ?a = "quantity_of internal i" and ?q = "quantity_of m i"
  define ty where "ty = (if ?q = 0 then MissingAdmin else InternalAdminMismatch)"
  have "first_break i ?a (quantity_of broker i) (Some ?q) = [make_break i ty ?a ?a (Some ?q)]"
    using assms(2,3) by (auto simp: first_break_def ty_def)
  moreover have "i \<in> set (all_keys internal broker (Some m))"
    using assms(2,3) quantity_outside[of i internal] quantity_outside[of i m] by (auto simp: all_keys_def)
  ultimately have "make_break i ty ?a ?a (Some ?q) \<in> set (match_positions f internal broker (Some m))"
    by (auto simp: match_positions_def Let_def set_arranged[OF assms(1)] intro!: bexI[of _ i])
  then show ?thesis
    by (rule bexI[rotated]) (simp add: make_break_def dsub_def material_def dabs_def position_row_def default_rules_def)
qed

theorem admin_break_resolved_as_rounding_witness:
  "\<exists>b\<in>set (match_positions id [(''AAPL'', 5)] [(''AAPL'', 5)] (Some [(''AAPL'', 1000000)])).
    br_admin b = Some 1000000 \<and> br_difference b = 0"
proof -
  have "arranges id" by (simp add: arranges_def)
  from admin_break_resolved_as_rounding[OF this, of "[(''AAPL'', 5)]" "''AAPL''" "[(''AAPL'', 5)]" "[(''AAPL'', 1000000)]"]
  show ?thesis by (force simp: quantity_of_def)
qed

text \<open>One instrument can have two breaks, and the number of matched positions is then below zero.\<close>

lemma matched_below_zero:
  "\<exists>b c. match_positions id [(''AAPL'', 5)] [(''AAPL'', 3)] (Some [(''AAPL'', 7)]) = [b, c] \<and>
     int (length (all_keys [(''AAPL'', 5)] [(''AAPL'', 3)] (Some [(''AAPL'', 7)]))) - int (length [b, c]) = - 1"
  by (simp add: match_positions_def all_keys_def first_break_def second_break_def quantity_of_def Let_def)

section \<open>Automatic resolution\<close>

definition settled :: "ledger_env \<Rightarrow> auto_rule \<Rightarrow> break_row \<Rightarrow> break_row" where
  "settled en rule r = r\<lparr>bk_status := target_status rule, bk_note := Some (resolution_note rule r),
     bk_resolved := (if target_status rule = BResolved then Some (le_now en) else bk_resolved r)\<rparr>"

definition chosen ::
  "ledger_env \<Rightarrow> (string option \<times> break_type) set \<Rightarrow> auto_rule list \<Rightarrow> break_row \<Rightarrow> auto_rule option" where
  "chosen en recurring rules r = List.find (\<lambda>rule. rule_matches (le_now en) recurring rule r) rules"

definition after_rules ::
  "ledger_env \<Rightarrow> (string option \<times> break_type) set \<Rightarrow> auto_rule list \<Rightarrow> break_row \<Rightarrow> break_row" where
  "after_rules en recurring rules r = (case chosen en recurring rules r of None \<Rightarrow> r | Some rule \<Rightarrow> settled en rule r)"

lemma only_open_chosen: "chosen en recurring rules r = Some rule \<Longrightarrow> bk_status r = BOpen"
  unfolding chosen_def by (drule find_Some_iff[THEN iffD1]) (metis rule_matches.elims(2))

lemma after_rules_id [simp]:
  "bk_id (after_rules en recurring rules r) = bk_id r"
  "bk_portfolio (after_rules en recurring rules r) = bk_portfolio r"
  by (simp_all add: after_rules_def settled_def split: option.split)

lemma update_rows_at:
  assumes "distinct (map key rows)" "r \<in> set rows"
  shows "update_rows key (key r) f rows = map (\<lambda>q. if q = r then f r else q) rows"
proof -
  have "key q = key r \<longleftrightarrow> q = r" if "q \<in> set rows" for q
    using assms that by (auto simp: distinct_map inj_on_def)
  then show ?thesis unfolding update_rows_def by (intro map_cong) auto
qed

lemma find_row_at: "distinct (map key rows) \<Longrightarrow> r \<in> set rows \<Longrightarrow> find_row key (key r) rows = Some r"
  by (induction rows) (auto simp: image_iff)

lemma process_one_spec:
  assumes "distinct (map bk_id (rt_breaks (ss_work s)))" "r \<in> set (rt_breaks (ss_work s))"
  shows "\<exists>s'. process_one en recurring rules r s = (s', Inr (chosen en recurring rules r)) \<and>
    ss_work s' = (ss_work s)\<lparr>rt_breaks := map (\<lambda>q. if q = r then after_rules en recurring rules q else q)
      (rt_breaks (ss_work s))\<rparr>"
proof (cases "chosen en recurring rules r")
  case None
  then show ?thesis by (simp add: process_one_def after_rules_def chosen_def cong: if_cong)
next
  case (Some rule)
  let ?resolved = "if target_status rule = BResolved then Some (le_now en) else None"
  have row: "find_row bk_id (bk_id r) (rt_breaks (ss_work s)) = Some r" by (rule find_row_at[OF assms])
  have "\<exists>s' q. update_break (bk_id r) (target_status rule) None (Some (resolution_note rule r)) ?resolved s = (s', Inr q) \<and>
    ss_work s' = (ss_work s)\<lparr>rt_breaks := map (\<lambda>q. if q = r then settled en rule q else q) (rt_breaks (ss_work s))\<rparr>"
    unfolding update_break_def session_binds row option.case Let_def update_rows_at[OF assms]
    by (auto simp: thenS_def bindS_def settled_def intro!: map_cong)
  then obtain s1 q where "update_break (bk_id r) (target_status rule) None (Some (resolution_note rule r)) ?resolved s = (s1, Inr q)"
    "ss_work s1 = (ss_work s)\<lparr>rt_breaks := map (\<lambda>q. if q = r then settled en rule q else q) (rt_breaks (ss_work s))\<rparr>"
    by (elim exE conjE) (rule that; assumption)
  moreover have "map (\<lambda>q. if q = r then settled en rule q else q) rows = map (\<lambda>q. if q = r then after_rules en recurring rules q else q) rows" for rows
    using Some by (intro map_cong) (auto simp: after_rules_def)
  ultimately show ?thesis using Some
    by (simp add: process_one_def chosen_def apply_rule_def bindS_def thenS_def)
qed

lemma process_all_spec:
  "distinct (map bk_id (rt_breaks (ss_work s))) \<Longrightarrow> set rs \<subseteq> set (rt_breaks (ss_work s)) \<Longrightarrow> distinct rs \<Longrightarrow>
   \<exists>s'. mapS (process_one en recurring rules) rs s = (s', Inr (map (chosen en recurring rules) rs)) \<and>
     ss_work s' = (ss_work s)\<lparr>rt_breaks := map (\<lambda>q. if q \<in> set rs then after_rules en recurring rules q else q)
       (rt_breaks (ss_work s))\<rparr>"
proof (induction rs arbitrary: s)
  case Nil
  then show ?case by simp
next
  case (Cons r rs)
  let ?T = "rt_breaks (ss_work s)"
  have mem: "r \<in> set ?T" using Cons.prems(2) by simp
  obtain s1 where s1: "process_one en recurring rules r s = (s1, Inr (chosen en recurring rules r))"
    "ss_work s1 = (ss_work s)\<lparr>rt_breaks := map (\<lambda>q. if q = r then after_rules en recurring rules q else q) ?T\<rparr>"
    using process_one_spec[OF Cons.prems(1) mem, of en recurring rules] by (elim exE conjE) (rule that; assumption)
  have "map bk_id (rt_breaks (ss_work s1)) = map bk_id ?T" by (auto simp: s1(2))
  then have ids: "distinct (map bk_id (rt_breaks (ss_work s1)))" using Cons.prems(1) by simp
  have dist: "distinct rs" using Cons.prems(3) by simp
  have sub: "set rs \<subseteq> set (rt_breaks (ss_work s1))" using Cons.prems(2,3) by (auto simp: s1(2))
  obtain s2 where s2: "mapS (process_one en recurring rules) rs s1 = (s2, Inr (map (chosen en recurring rules) rs))"
    "ss_work s2 = (ss_work s1)\<lparr>rt_breaks := map (\<lambda>q. if q \<in> set rs then after_rules en recurring rules q else q)
       (rt_breaks (ss_work s1))\<rparr>"
    using Cons.IH[OF ids sub dist] by (elim exE conjE) (rule that; assumption)
  have other: "after_rules en recurring rules r \<notin> set rs"
    if "after_rules en recurring rules r \<noteq> r"
  proof
    assume "after_rules en recurring rules r \<in> set rs"
    then have "after_rules en recurring rules r \<in> set ?T" using Cons.prems(2) by auto
    moreover have "r \<in> set ?T" using Cons.prems(2) by simp
    ultimately have "after_rules en recurring rules r = r"
      using Cons.prems(1) by (metis after_rules_id(1) distinct_map inj_onD)
    with that show False ..
  qed
  have "(if (if q = r then after_rules en recurring rules q else q) \<in> set rs
         then after_rules en recurring rules (if q = r then after_rules en recurring rules q else q)
         else (if q = r then after_rules en recurring rules q else q)) =
      (if q \<in> set (r # rs) then after_rules en recurring rules q else q)" for q
    using other Cons.prems(3) by (cases "q = r"; cases "after_rules en recurring rules r = r") auto
  then have "ss_work s2 = (ss_work s)\<lparr>rt_breaks := map (\<lambda>q. if q \<in> set (r # rs) then after_rules en recurring rules q else q) ?T\<rparr>"
    by (simp add: s1(2) s2(2) cong: if_cong)
  then show ?case using s1(1) s2(1) by (auto simp: bindS_def)
qed

definition recurring_keys :: "auto_rule list \<Rightarrow> uuid \<Rightarrow> date \<Rightarrow> break_row list \<Rightarrow> (string option \<times> break_type) set" where
  "recurring_keys rules p d rows = (if DuplicateBreakRule \<in> set rules
     then {(bk_instrument r, bk_type r) | r. r \<in> set rows \<and> bk_portfolio r = p \<and> bk_status r = BResolved \<and> d - 3 \<le> bk_date r}
     else {})"

text \<open>C35. Automatic resolution is exact.  A run over a portfolio settles precisely its open breaks that some
  rule matches, each by the first rule in order, and leaves every other break of the table as it was:
  those of other portfolios, those under investigation or escalated, and those already resolved.
\<close>

theorem auto_resolution_exact:
  assumes "scan_spec en" "distinct (map bk_id (rt_breaks (ss_work s)))"
    and run: "process_breaks en rules p d s = (s', Inr res)"
  shows "rt_breaks (ss_work s') = map (\<lambda>r. if bk_portfolio r = p
      then after_rules en (recurring_keys rules p d (rt_breaks (ss_work s))) rules r else r) (rt_breaks (ss_work s))"
proof -
  let ?T = "rt_breaks (ss_work s)" and ?K = "recurring_keys rules p d (rt_breaks (ss_work s))"
  let ?open = "list_open en p (ss_work s)"
  have open_set: "set ?open = {r \<in> set ?T. bk_portfolio r = p \<and> bk_status r \<in> {BOpen, BInvestigating, BEscalated}}"
    by (simp only: list_open_def set_sort set_scan[OF assms(1)] set_filter)
  have keys: "resolved_keys en rules p d s = (s, Inr ?K) \<or> (\<exists>e. resolved_keys en rules p d s = (s, Inl e))"
  proof (cases "DuplicateBreakRule \<in> set rules")
    case True
    show ?thesis
    proof (cases "add_days d (- 3)")
      case (Inr e)
      then have "e = d - 3" by simp
      then have "(\<lambda>r. (bk_instrument r, bk_type r)) ` set (list_recently_resolved en p e (ss_work s)) = ?K"
        using True by (auto simp: recurring_keys_def list_recently_resolved_def assms(1))
      then show ?thesis using True by (simp add: resolved_keys_def bindS_def Inr del: add_days_Inr)
    qed (use True in \<open>simp add: resolved_keys_def bindS_def\<close>)
  qed (simp add: resolved_keys_def recurring_keys_def)
  have rk: "resolved_keys en rules p d s = (s, Inr ?K)"
    using keys run by (auto simp: process_breaks_def bindS_def)
  have "mset (map bk_id ?open) =
      mset (map bk_id (filter (\<lambda>r. bk_portfolio r = p \<and> bk_status r \<in> {BOpen, BInvestigating, BEscalated}) ?T))"
    by (simp only: list_open_def mset_map mset_sort mset_scan[OF assms(1)])
  from mset_eq_imp_distinct_iff[OF this] have "distinct (map bk_id ?open)"
    using distinct_map_filter[OF assms(2)] by blast
  then have "distinct ?open" by (simp add: distinct_map)
  have sub: "set ?open \<subseteq> set ?T" unfolding open_set by auto
  obtain s1 where s1: "mapS (process_one en ?K rules) ?open s = (s1, Inr (map (chosen en ?K rules) ?open))"
    "ss_work s1 = (ss_work s)\<lparr>rt_breaks := map (\<lambda>q. if q \<in> set ?open then after_rules en ?K rules q else q) ?T\<rparr>"
    using process_all_spec[OF assms(2) sub \<open>distinct ?open\<close>, of en ?K rules] by (elim exE conjE) (rule that; assumption)
  have "s' = s1" using run by (simp add: process_breaks_def bindS_def rk s1(1) Let_def)
  moreover have "(if q \<in> set ?open then after_rules en ?K rules q else q) =
      (if bk_portfolio q = p then after_rules en ?K rules q else q)" if "q \<in> set ?T" for q
  proof (cases "chosen en ?K rules q")
    case (Some rule)
    from only_open_chosen[OF this] that show ?thesis unfolding open_set by auto
  qed (simp add: after_rules_def)
  ultimately show ?thesis by (simp add: s1(2))
qed

definition demo_break :: break_row where
  "demo_break = \<lparr>bk_id = 61, bk_portfolio = 7, bk_date = 738886, bk_instrument = Some ''AAPL'',
     bk_type = QuantityMismatch, bk_internal = 5, bk_broker = 3, bk_admin = None, bk_difference = 2,
     bk_material = True, bk_currency = None, bk_internal_balance = None, bk_admin_balance = None,
     bk_status = BOpen, bk_assigned = None, bk_note = None, bk_created = - (6 * day_micros), bk_resolved = None\<rparr>"

definition demo_recon :: "recon_tables session" where
  "demo_recon = (let t = \<lparr>rt_results = [], rt_breaks = [demo_break, demo_break\<lparr>bk_id := 62, bk_created := 0\<rparr>]\<rparr>
    in \<lparr>ss_work = t, ss_disk = t, ss_events = [], ss_draws = 0\<rparr>)"

theorem auto_resolution_exact_witness:
  "\<exists>s'. process_breaks demo_ledger default_rules 7 738886 demo_recon = (s', Inr (0, 1, [StaleBreakRule 5])) \<and>
     map bk_status (rt_breaks (ss_work s')) = [BEscalated, BOpen]"
proof -
  have open_now: "list_open demo_ledger 7 (ss_work demo_recon) = [demo_break, demo_break\<lparr>bk_id := 62, bk_created := 0\<rparr>]"
    by (simp add: list_open_def demo_recon_def Let_def scan_def demo_ledger_def demo_break_def day_micros_def)
  have keys: "resolved_keys demo_ledger default_rules 7 738886 demo_recon = (demo_recon, Inr {})"
    by (simp add: resolved_keys_def default_rules_def bindS_def add_days_def max_date_def list_recently_resolved_def
        demo_recon_def Let_def demo_break_def scan_def demo_ledger_def)
  have abs2: "dabs 2 = 2" by (simp add: dabs_def fix28_exact[of 0])
  have pick: "List.find (\<lambda>rule. rule_matches 0 {} rule demo_break) default_rules = Some (StaleBreakRule 5)"
    "List.find (\<lambda>rule. rule_matches 0 {} rule (demo_break\<lparr>bk_id := 62, bk_created := 0\<rparr>)) default_rules = None"
    by (simp_all add: default_rules_def demo_break_def abs2 day_micros_def)
  have now: "le_now demo_ledger = 0" by (simp add: demo_ledger_def)
  obtain s' where run: "process_breaks demo_ledger default_rules 7 738886 demo_recon = (s', Inr (0, 1, [StaleBreakRule 5]))"
    by (simp add: process_breaks_def bindS_def thenS_def open_now keys process_one_def now pick apply_rule_def update_break_def Let_def)
      (simp add: demo_recon_def Let_def demo_break_def)
  have d: "distinct (map bk_id (rt_breaks (ss_work demo_recon)))" by (simp add: demo_recon_def Let_def demo_break_def)
  have none: "recurring_keys default_rules 7 738886 (rt_breaks (ss_work demo_recon)) = {}"
    by (auto simp: recurring_keys_def demo_recon_def Let_def demo_break_def)
  from auto_resolution_exact[OF demo_scan d run] run show ?thesis
    unfolding none after_rules_def chosen_def now
    by (simp add: demo_recon_def Let_def pick settled_def) (simp add: demo_break_def)
qed

text \<open>A break that is material, not a small cash difference and no recurrence waits five days for a person.\<close>

lemma material_break_waits:
  assumes "bk_status r = BOpen" "bk_material r" "5 / 1000 < dabs (bk_difference r)" "bk_type r \<noteq> CashMismatch"
    and "(bk_instrument r, bk_type r) \<notin> recurring" "le_now en - bk_created r \<le> 5 * day_micros"
  shows "after_rules en recurring default_rules r = r"
  using assms by (simp add: after_rules_def chosen_def default_rules_def)

text \<open>A recurrence is resolved however large it is, with a note that calls it immaterial.\<close>

lemma recurring_break_resolved:
  assumes "bk_status r = BOpen" "bk_material r" "5 / 1000 < dabs (bk_difference r)" "bk_type r \<noteq> CashMismatch"
    and "(bk_instrument r, bk_type r) \<in> recurring"
  shows "bk_status (after_rules en recurring default_rules r) = BResolved \<and>
    bk_note (after_rules en recurring default_rules r) = Some RecurringNote"
  using assms by (simp add: after_rules_def chosen_def default_rules_def settled_def)

section \<open>What a reconciliation stores\<close>

definition break_label :: "break_row \<Rightarrow> uuid \<times> date \<times> string option \<times> string option \<times> break_type \<times> break_status" where
  "break_label r = (bk_portfolio r, bk_date r, bk_instrument r, bk_currency r, bk_type r, bk_status r)"

definition result_labels :: "uuid \<Rightarrow> date \<Rightarrow> recon_result
    \<Rightarrow> (uuid \<times> date \<times> string option \<times> string option \<times> break_type \<times> break_status) list" where
  "result_labels p d res = map (\<lambda>b. (p, d, Some (br_instrument b), None, br_type b, BOpen)) (rs_breaks res) @
     map (\<lambda>b. (p, d, None, Some (cx_currency b), CashMismatch, BOpen)) (rs_cash res)"

lemma draw_rows:
  assumes "\<And>f i. f \<in> set fs \<Longrightarrow> break_label (f i) = lab f"
  shows "\<exists>s' rs. mapS (\<lambda>f. bindS (new_uuid en) (\<lambda>i. retS (f i))) fs s = (s', Inr rs) \<and>
    ss_work s' = ss_work s \<and> ss_disk s' = ss_disk s \<and> map break_label rs = map lab fs"
  using assms
proof (induction fs arbitrary: s)
  case (Cons f fs)
  let ?s1 = "s\<lparr>ss_draws := Suc (ss_draws s)\<rparr>"
  have "\<exists>s' rs. mapS (\<lambda>f. bindS (new_uuid en) (\<lambda>i. retS (f i))) fs ?s1 = (s', Inr rs) \<and>
    ss_work s' = ss_work ?s1 \<and> ss_disk s' = ss_disk ?s1 \<and> map break_label rs = map lab fs"
    by (rule Cons.IH) (rule Cons.prems, simp)
  then obtain s' rs where s': "mapS (\<lambda>f. bindS (new_uuid en) (\<lambda>i. retS (f i))) fs ?s1 = (s', Inr rs)"
    "ss_work s' = ss_work ?s1" "ss_disk s' = ss_disk ?s1" "map break_label rs = map lab fs"
    by (elim exE conjE) (rule that; assumption)
  have "mapS (\<lambda>f. bindS (new_uuid en) (\<lambda>i. retS (f i))) (f # fs) s = (s', Inr (f (le_uuid en (ss_draws s)) # rs))"
    using s'(1) by (simp add: bindS_def)
  then show ?case using s'(2-4) Cons.prems[of f] by (intro exI conjI) (assumption, simp_all)
qed simp

lemma stored_break_label: "stored_break en r = Inr q \<Longrightarrow> break_label q = break_label r"
  by (auto simp: stored_break_def bindE_Inr_iff break_label_def)

lemma stored_breaks_labels: "mapE (stored_break en) rs = Inr qs \<Longrightarrow> map break_label qs = map break_label rs"
  by (induction rs arbitrary: qs) (auto simp: bindE_Inr_iff dest: stored_break_label)

lemma persist_labels:
  assumes "persist_breaks en p d bs cs s = (s', Inr u)"
  shows "\<exists>rows. rt_breaks (ss_work s') = rt_breaks (ss_work s) @ rows \<and> map break_label rows =
      map (\<lambda>b. (p, d, Some (br_instrument b), None, br_type b, BOpen)) bs @
      map (\<lambda>b. (p, d, None, Some (cx_currency b), CashMismatch, BOpen)) cs \<and>
      rt_results (ss_work s') = rt_results (ss_work s)"
proof -
  let ?fs = "map (position_row (le_now en) p d) bs @ map (cash_row (le_now en) p d) cs"
  have "\<exists>s1 rs. mapS (\<lambda>f. bindS (new_uuid en) (\<lambda>i. retS (f i))) ?fs s = (s1, Inr rs) \<and>
    ss_work s1 = ss_work s \<and> ss_disk s1 = ss_disk s \<and> map break_label rs = map (\<lambda>f. break_label (f 0)) ?fs"
    by (rule draw_rows) (auto simp: break_label_def position_row_def cash_row_def)
  then obtain s1 rs where s1: "mapS (\<lambda>f. bindS (new_uuid en) (\<lambda>i. retS (f i))) ?fs s = (s1, Inr rs)"
    "ss_work s1 = ss_work s" "map break_label rs = map (\<lambda>f. break_label (f 0)) ?fs" by auto
  then have labels: "map break_label rs = map (\<lambda>b. (p, d, Some (br_instrument b), None, br_type b, BOpen)) bs @
      map (\<lambda>b. (p, d, None, Some (cx_currency b), CashMismatch, BOpen)) cs"
    by (simp add: break_label_def position_row_def cash_row_def o_def)
  show ?thesis
  proof (cases "rs = []")
    case True
    then have "s' = s1" using assms s1(1) by (simp add: persist_breaks_def bindS_def)
    with labels True show ?thesis by (simp add: s1(2))
  next
    case False
    then have run: "insert_breaks en rs s1 = (s', Inr u)" using assms s1(1) by (simp add: persist_breaks_def bindS_def)
    then obtain qs where qs: "mapE (stored_break en) rs = Inr qs"
      by (cases "mapE (stored_break en) rs") (auto simp: insert_breaks_def bindS_def)
    with run have "ss_work s' = (ss_work s1)\<lparr>rt_breaks := rt_breaks (ss_work s1) @ qs\<rparr>"
      by (auto simp: insert_breaks_def bindS_def thenS_def split: if_splits)
    with stored_breaks_labels[OF qs] labels show ?thesis by (simp add: s1(2))
  qed
qed

text \<open>Reconciling is recorded, and recorded again.  A successful reconciliation stores its summary, clean
  exactly when there is no break of either kind, and, when tracking is on and no rules run, appends an open
  break for every difference it found; a second reconciliation of the same portfolio and date appends all
  of them once more, so that each difference is tracked twice.
\<close>

theorem reconciliation_tracks_breaks:
  assumes "rc_breaks rc" "rc_resolver rc = None"
    and one: "reconcile rc positions balances p d s = (s1, Inr res)"
    and two: "reconcile rc positions balances p d s1 = (s2, Inr res')"
  shows "(\<exists>r. find_row result_key (p, d) (rt_results (ss_work s1)) = Some r \<and> rr_clean r = (rs_breaks res = [] \<and> rs_cash res = [])) \<and>
    res' = res \<and>
    map break_label (rt_breaks (ss_work s1)) = map break_label (rt_breaks (ss_work s)) @ result_labels p d res \<and>
    map break_label (rt_breaks (ss_work s2)) =
      map break_label (rt_breaks (ss_work s)) @ result_labels p d res @ result_labels p d res"
proof -
  have each: "(\<exists>r. find_row result_key (p, d) (rt_results (ss_work t')) = Some r \<and> rr_clean r = (rs_breaks x = [] \<and> rs_cash x = [])) \<and>
      map break_label (rt_breaks (ss_work t')) = map break_label (rt_breaks (ss_work t)) @ result_labels p d x"
    if run: "reconcile rc positions balances p d t = (t', Inr x)" for t t' x
  proof -
    let ?int = "foldl (\<lambda>m (i, q). AList.update i q m) [] positions"
    obtain b a cs where b: "rc_broker rc p d = Inr b" "admin_positions rc = Inr a" "reconcile_cash rc balances = Inr cs"
      using run by (cases "rc_broker rc p d"; cases "admin_positions rc"; cases "reconcile_cash rc balances")
        (auto simp: reconcile_def bindS_def Let_def)
    let ?bs = "match_positions (rc_arrange rc) ?int b a"
    obtain t1 where t1: "upsert_result \<lparr>rr_portfolio = p, rr_date = d, rr_total = int (length (all_keys ?int b a)),
         rr_matched = int (length (all_keys ?int b a)) - int (length ?bs), rr_clean = (?bs = [] \<and> cs = []), rr_breaks = ?bs\<rparr> t
         = (t1, Inr ())" "rt_breaks (ss_work t1) = rt_breaks (ss_work t)"
      "\<exists>r. find_row result_key (p, d) (rt_results (ss_work t1)) = Some r \<and> rr_clean r = (?bs = [] \<and> cs = [])"
      by (simp add: upsert_result_def thenS_def bindS_def find_put_row result_key_def)
    have x: "rs_breaks x = ?bs" "rs_cash x = cs"
      and rest: "whenS (?bs \<noteq> [] \<or> cs \<noteq> []) (persist_breaks (rc_ledger rc) p d ?bs cs) t1 = (t', Inr ())"
      using run assms(1,2) by (auto simp: reconcile_def bindS_def thenS_def Let_def b t1(1) split: prod.splits sum.splits)
    show ?thesis
    proof (cases "?bs \<noteq> [] \<or> cs \<noteq> []")
      case True
      with rest have "persist_breaks (rc_ledger rc) p d ?bs cs t1 = (t', Inr ())" by (simp only: if_True whenS_def)
      from persist_labels[OF this] t1(2,3) x show ?thesis by (auto simp: result_labels_def)
    next
      case False
      with rest t1(2,3) x show ?thesis by (simp add: result_labels_def)
    qed
  qed
  have same: "res' = res"
    using one two by (cases "rc_broker rc p d"; cases "admin_positions rc"; cases "reconcile_cash rc balances")
      (auto simp: reconcile_def bindS_def thenS_def Let_def split: prod.splits sum.splits)
  from each[OF one] each[OF two] same show ?thesis by simp
qed

definition demo_rc :: recon_env where
  "demo_rc = \<lparr>rc_ledger = demo_ledger, rc_arrange = id, rc_broker = (\<lambda>_ _. Inr [(''AAPL'', 3)]), rc_admin = None,
     rc_cash = False, rc_breaks = True, rc_resolver = None\<rparr>"

definition empty_recon :: "recon_tables session" where
  "empty_recon = \<lparr>ss_work = \<lparr>rt_results = [], rt_breaks = []\<rparr>, ss_disk = \<lparr>rt_results = [], rt_breaks = []\<rparr>,
     ss_events = [], ss_draws = 0\<rparr>"

theorem reconciliation_tracks_breaks_witness:
  "\<exists>s1 s2 res. reconcile demo_rc [(''AAPL'', 5)] [] 7 738886 empty_recon = (s1, Inr res) \<and>
     reconcile demo_rc [(''AAPL'', 5)] [] 7 738886 s1 = (s2, Inr res) \<and>
     map br_type (rs_breaks res) = [QuantityMismatch] \<and>
     map bk_type (rt_breaks (ss_work s2)) = [QuantityMismatch, QuantityMismatch]"
proof -
  let ?b = "make_break ''AAPL'' QuantityMismatch 5 3 None"
  have match: "match_positions id [(''AAPL'', 5)] [(''AAPL'', 3)] None = [?b]"
    by (simp add: match_positions_def all_keys_def first_break_def second_break_def quantity_of_def Let_def)
  have store: "stored_break demo_ledger (position_row 0 7 738886 ?b i) = Inr (position_row 0 7 738886 ?b i)" for i
  proof -
    have "pg_numeric 18 8 x = Inr x" if "x \<in> {5, 3, 2}" for x by (rule pg_numeric_store) (use that in auto)
    moreover have "dsub 5 3 = 2" by (simp add: dsub_def fix28_exact[of 0])
    ultimately show ?thesis by (simp add: stored_break_def position_row_def make_break_def opt_col_def demo_ledger_def Let_def)
  qed
  have ids: "le_now demo_ledger = 0" "le_uuid demo_ledger n = int n + 1" "bk_id (position_row t q e b i) = i" for n t q e b i
    by (simp_all add: demo_ledger_def position_row_def)
  have once: "\<exists>s' res. reconcile demo_rc [(''AAPL'', 5)] [] 7 738886 s = (s', Inr res) \<and> rs_breaks res = [?b] \<and>
      rs_cash res = [] \<and> ss_draws s' = Suc (ss_draws s) \<and>
      rt_breaks (ss_work s') = rt_breaks (ss_work s) @ [position_row 0 7 738886 ?b (int (ss_draws s) + 1)]"
    if "int (ss_draws s) + 1 \<notin> bk_id ` set (rt_breaks (ss_work s))" "distinct (map bk_id (rt_breaks (ss_work s)))" for s
    using that store[of "int (ss_draws s) + 1"] match ids
    by (simp add: reconcile_def demo_rc_def admin_positions_def reconcile_cash_def Let_def upsert_result_def
        bindS_def thenS_def persist_breaks_def insert_breaks_def)
  obtain s1 res where one: "reconcile demo_rc [(''AAPL'', 5)] [] 7 738886 empty_recon = (s1, Inr res)"
    "rs_breaks res = [?b]" "rs_cash res = []" "ss_draws s1 = 1" "rt_breaks (ss_work s1) = [position_row 0 7 738886 ?b 1]"
    using once[of empty_recon] by (auto simp: empty_recon_def)
  obtain s2 res' where two: "reconcile demo_rc [(''AAPL'', 5)] [] 7 738886 s1 = (s2, Inr res')"
    using once[of s1] by (auto simp: one position_row_def)
  have "rc_breaks demo_rc" "rc_resolver demo_rc = None" by (simp_all add: demo_rc_def)
  from reconciliation_tracks_breaks[OF this one(1) two] one two show ?thesis
    by (auto simp: empty_recon_def result_labels_def break_label_def make_break_def Let_def map_eq_Cons_conv)
qed

section \<open>Ages\<close>

fun sla_rank :: "sla_status \<Rightarrow> nat" where
  "sla_rank WithinSla = 0" | "sla_rank SlaWarning = 1" | "sla_rank SlaBreached = 2"

lemma age_mono: "now \<le> later \<Longrightarrow> age_hours now r \<le> age_hours later r"
  by (auto simp: age_hours_def fdiv_int_def intro!: fl64_mono divide_right_mono)

lemma bucket_cases:
  "0 \<le> age \<Longrightarrow> bucket_of age = Some (if age < 1 then ''<1h'' else if age < 4 then ''1-4h'' else if age < 24 then ''4-24h'' else ''>24h'')"
  by (simp add: bucket_of_def aging_buckets_def)

text \<open>Ageing is consistent.  The service level of a break only ever gets worse as time passes, whatever the
  policy, and the ageing summary counts every break that was not created in the future in exactly one of
  its four buckets.
\<close>

theorem ageing_consistent:
  assumes "now \<le> later" "\<forall>r\<in>set rs. bk_created r \<le> now"
  shows "sla_rank (check_sla ep now r) \<le> sla_rank (check_sla ep later r) \<and>
    (\<Sum>(_, n, _)\<leftarrow>ag_buckets (get_aging_summary ep now rs). n) = length rs"
proof
  show "sla_rank (check_sla ep now r) \<le> sla_rank (check_sla ep later r)"
    using age_mono[OF assms(1), of r] by (auto simp: check_sla_def Let_def)
  have age: "0 \<le> age_hours now q" if "q \<in> set rs" for q
    using assms(2) that unfolding age_hours_def fdiv_int_def by (intro fl64_nonneg divide_nonneg_nonneg) auto
  have "(\<Sum>(_, n, _)\<leftarrow>ag_buckets (get_aging_summary ep now qs). n) = length qs" if "set qs \<subseteq> set rs" for qs
    using that
  proof (induction qs)
    case (Cons q qs)
    have "bucket_of (age_hours now q) = Some (if age_hours now q < 1 then ''<1h'' else if age_hours now q < 4 then ''1-4h''
        else if age_hours now q < 24 then ''4-24h'' else ''>24h'')"
      by (rule bucket_cases) (use age Cons.prems in auto)
    with Cons show ?case by (simp add: get_aging_summary_def aging_buckets_def Let_def)
  qed (simp add: get_aging_summary_def aging_buckets_def Let_def)
  from this[of rs] show "(\<Sum>(_, n, _)\<leftarrow>ag_buckets (get_aging_summary ep now rs). n) = length rs" by simp
qed

theorem ageing_consistent_witness:
  "sla_rank (check_sla default_policy 0 demo_break) \<le> sla_rank (check_sla default_policy day_micros demo_break) \<and>
    (\<Sum>(_, n, _)\<leftarrow>ag_buckets (get_aging_summary default_policy 0 [demo_break]). n) = 1"
  using ageing_consistent[of 0 day_micros "[demo_break]" default_policy demo_break]
  by (simp add: demo_break_def day_micros_def)

end
