(* ===== verification/EodInv.thy ===== *)
theory EodInv
  imports Eod ReconInv
begin

text \<open>
  What the end of day promises: the order of the steps and their record, a successful day is not run
  again, the net asset value is exact; and what the loss of the data passed between steps means for the
  fees and the capital accounts.
\<close>

section \<open>Operations on a part of the state\<close>

lemma zoom_run:
  "on_store m1 s = (s\<lparr>eo_store := fst (m1 (eo_store s))\<rparr>, snd (m1 (eo_store s)))"
  "on_funds m2 s = (s\<lparr>eo_funds := fst (m2 (eo_funds s))\<rparr>, snd (m2 (eo_funds s)))"
  "on_fees m3 s = (s\<lparr>eo_fees := fst (m3 (eo_fees s))\<rparr>, snd (m3 (eo_fees s)))"
  "on_eod m4 s = (s\<lparr>eo_eod := fst (m4 (eo_eod s))\<rparr>, snd (m4 (eo_eod s)))"
  by (simp_all add: on_store_def on_funds_def on_fees_def on_eod_def zoomS_def split: prod.split)

lemma keeps_elsewhere [keeps_rules]:
  "(\<And>s x. I (s\<lparr>eo_store := x\<rparr>) = I s) \<Longrightarrow> keeps I (on_store m1)"
  "(\<And>s x. I (s\<lparr>eo_fees := x\<rparr>) = I s) \<Longrightarrow> keeps I (on_fees m3)"
  "(\<And>s x. I (s\<lparr>eo_eod := x\<rparr>) = I s) \<Longrightarrow> keeps I (on_eod m4)"
  by (rule tripleI; auto simp: zoom_run)+

lemma keeps_on_fees:
  "keeps (\<lambda>t. I (s0\<lparr>eo_fees := t\<rparr>)) m \<Longrightarrow> I s0 \<Longrightarrow> on_fees m s0 = (s', r) \<Longrightarrow> I s'"
  using keeps_fst[of "\<lambda>t. I (s0\<lparr>eo_fees := t\<rparr>)" m "eo_fees s0"] by (auto simp: zoom_run)

lemma keeps_zoom_fees: "keeps I m \<Longrightarrow> keeps (\<lambda>s. I (eo_fees s)) (on_fees m)"
  by (rule tripleI) (auto simp: zoom_run intro: keeps_fst)

lemma keeps_zoom_eod: "keeps I m \<Longrightarrow> keeps (\<lambda>s. I (eo_eod s)) (on_eod m)"
  by (rule tripleI) (auto simp: zoom_run intro: keeps_fst)

lemma keeps_suppress [keeps_rules]: "keeps I m \<Longrightarrow> keeps I (suppress x m)"
  unfolding suppress_def by (intro keeps_try keeps_basic)

lemma keeps_pair: "(\<And>a b. keeps I (f a b)) \<Longrightarrow> keeps I (case x of (a, b) \<Rightarrow> f a b)"
  by (cases x) simp

text \<open>The steps, for an invariant that their operations on the parts keep.\<close>

locale step_frame =
  fixes I :: "eod_state \<Rightarrow> bool" and ee :: eod_env
  assumes actions: "ee_actions ee = Some process \<Longrightarrow> keeps I (on_store (process fund p d))"
    and prices: "keeps I (on_eod (upsert_price (ee_ledger ee) pr))"
    and recon: "keeps I (on_eod (reconcile (ee_recon ee) positions balances p d))"
    and navs: "keeps I (on_eod (upsert_nav (ee_ledger ee) nr))"
    and pnls: "keeps I (on_eod (upsert_pnl (ee_ledger ee) lr))"
    and batch: "keeps I (on_eod (upsert_batch (ee_ledger ee) rs))"
    and fees: "keeps I (on_fees (accrue_daily_fees (ee_ledger ee) p fund 0 d cls))"
begin

lemma class_nav_zero: "class_nav ee all cls 0 s = 0"
  by (simp add: class_nav_def dmul_def ddiv_def Let_def)

lemma classes_keep: "keeps I (accrue_classes ee fund d p 0 all classes acc)"
proof (induction classes arbitrary: acc)
  case (Cons cls rest)
  have "bindS (getS (class_nav ee all cls 0)) (\<lambda>n. bindS (on_fees (accrue_daily_fees (ee_ledger ee) p fund n d cls))
      (\<lambda>rows. retS (Some rows))) = bindS (on_fees (accrue_daily_fees (ee_ledger ee) p fund 0 d cls)) (\<lambda>rows. retS (Some rows))"
    by (simp add: fun_eq_iff class_nav_zero)
  then show ?case by (auto intro!: keeps_bind keeps_suppress fees keeps_basic Cons.IH split: option.split)
qed (simp add: keeps_basic)

lemma portfolios_keep: "keeps I (accrue_portfolios ee fund d (\<lambda>_. 0) classes ps acc)"
  by (induction ps arbitrary: acc) (auto intro!: keeps_bind classes_keep keeps_basic simp: case_prod_beta)

text \<open>Without data from an earlier step, no step reaches the capital accounts or the investor requests.\<close>

lemma step_keeps: "keeps I (execute_step ee st fund d ps base no_data)"
proof -
  have empty: "fund_nav_per_share no_data = None" by (simp add: fund_nav_per_share_def no_data_def)
  have fee: "keeps I (fee_step ee fund d ps no_data)"
    unfolding fee_step_def Let_def no_data_def
    by (simp add: case_prod_beta) (intro keeps_if keeps_bind keeps_basic portfolios_keep conjI impI;
      auto split: prod.split intro: keeps_basic)
  have price: "keeps I (finalize_one ee d ticker)" for ticker
    unfolding finalize_one_def by (intro keeps_basic keeps_bind keeps_option keeps_then prices)
  have one: "keeps I (recon_one ee d p)" for p
    unfolding recon_one_def by (intro keeps_pair keeps_basic keeps_bind recon)
  show ?thesis
  proof (cases st)
    case PriceFinalization
    then show ?thesis
      by (simp only: execute_step_def step_name.case finalize_prices_def)
        (intro keeps_pair keeps_basic keeps_bind keeps_map price)
  next
    case CorporateActionProcessing
    then show ?thesis
      by (simp only: execute_step_def step_name.case)
        (intro keeps_basic keeps_bind keeps_map keeps_option actions; assumption)
  next
    case PositionRecon
    then show ?thesis
      by (simp only: execute_step_def step_name.case) (intro keeps_basic keeps_bind keeps_map one)
  next
    case NavCalculation
    then show ?thesis
      by (simp only: execute_step_def step_name.case calculate_nav_def)
        (intro keeps_basic keeps_bind keeps_map keeps_then navs)
  next
    case PnlSnapshot
    then show ?thesis
      by (simp only: execute_step_def step_name.case snapshot_pnl_def Let_def)
        (intro keeps_basic keeps_bind keeps_map keeps_then keeps_when pnls batch)
  next
    case CapitalAllocationStep
    then show ?thesis
      by (simp only: execute_step_def step_name.case capital_step_def empty option.case)
        (intro keeps_basic keeps_bind keeps_if)
  next
    case DealingDateExecution
    then show ?thesis
      by (simp only: execute_step_def step_name.case dealing_step_def empty option.case)
        (intro keeps_basic keeps_bind keeps_if)
  next
    case EodRisk
    then show ?thesis
      by (simp only: execute_step_def step_name.case) (intro keeps_basic keeps_bind keeps_map keeps_suppress)
  next
    case PerformanceAttribution
    then show ?thesis
      by (simp only: execute_step_def step_name.case)
        (intro keeps_basic keeps_bind keeps_map keeps_option keeps_suppress)
  next
    case ReportGeneration
    then show ?thesis
      by (simp only: execute_step_def step_name.case) (intro keeps_pair keeps_basic keeps_bind keeps_option)
  qed (simp_all only: execute_step_def step_name.case fee keeps_basic)
qed

lemma run_step_keeps:
  "triple I (run_step ee st fund d ps base no_data) (\<lambda>x s. I s \<and> snd x = no_data) I"
proof -
  have "keeps I (run_step ee st fund d ps base no_data)"
    unfolding run_step_def Let_def case_prod_beta by (intro keeps_try keeps_bind step_keeps keeps_basic)
  moreover have "snd x = no_data" if "run_step ee st fund d ps base no_data s = (s', Inr x)" for s s' x
    using that by (auto simp: run_step_def tryS_def bindS_def Let_def split: prod.splits sum.splits if_splits)
  ultimately show ?thesis by (auto simp: triple_def split: prod.splits sum.splits)
qed

lemma run_steps_keeps:
  assumes "\<And>r. keeps I (on_eod (upsert_step i r))"
  shows "keeps I (run_steps ee i fund d ps base steps no_data)"
proof (induction steps)
  case (Cons st rest)
  have "triple (\<lambda>s. I s \<and> snd x = no_data)
     (case x of (r, sd') \<Rightarrow> thenS (on_eod (upsert_step i r)) (if sp_status r = StepFailed then retS [r]
        else bindS (run_steps ee i fund d ps base rest sd') (\<lambda>rs. retS (r # rs)))) (\<lambda>_. I) I" for x
  proof (cases "snd x = no_data")
    case True
    then have "keeps I (case x of (r, sd') \<Rightarrow> thenS (on_eod (upsert_step i r)) (if sp_status r = StepFailed then retS [r]
        else bindS (run_steps ee i fund d ps base rest sd') (\<lambda>rs. retS (r # rs))))"
      using Cons.IH by (cases x) (auto intro!: keeps_then keeps_if keeps_bind keeps_basic assms)
    then show ?thesis by (rule triple_pre) simp
  qed (simp add: triple_def)
  then show ?case unfolding run_steps.simps by (rule triple_bind[OF run_step_keeps])
next
  case Nil
  show ?case unfolding run_steps.simps by (rule keeps_basic)
qed

lemma run_eod_keeps:
  assumes "\<And>i r. keeps I (on_eod (upsert_step i r))" "\<And>r. keeps I (on_eod (insert_run r))"
    "\<And>i ok t. keeps I (on_eod (complete_run i ok t))" "keeps I (on_eod (new_uuid (ee_ledger ee)))"
  shows "keeps I (run_eod ee fund d)"
proof -
  have "keeps I (start_run ee fund d)"
    unfolding start_run_def Let_def
    by (intro keeps_bind keeps_then keeps_option keeps_basic keeps_pair run_steps_keeps assms)
  then show ?thesis unfolding run_eod_def
    by (intro keeps_bind keeps_option keeps_if keeps_basic)
qed

end

section \<open>What the operations leave alone\<close>

definition on_work :: "('t \<Rightarrow> bool) \<Rightarrow> 't session \<Rightarrow> bool" where
  "on_work P s \<longleftrightarrow> P (ss_work s)"

lemma on_work_basic [keeps_rules]:
  "keeps (on_work P) (readT f)" "keeps (on_work P) commit" "keeps (on_work P) (new_uuid en)"
  "keeps (on_work P) (emit en topic ev)"
  by (auto simp: triple_def on_work_def emit_def split: option.split)

lemma on_work_write: "(\<And>t. P t \<Longrightarrow> P (f t)) \<Longrightarrow> keeps (on_work P) (writeT f)"
  by (simp add: triple_def on_work_def)

lemmas work_rules = keeps_bind keeps_then keeps_if keeps_when keeps_option keeps_basic on_work_basic on_work_write

lemma reconcile_frame:
  assumes "\<And>t x. P (t\<lparr>rt_results := x\<rparr>) = P t" "\<And>t x. P (t\<lparr>rt_breaks := x\<rparr>) = P t"
  shows "keeps (on_work P) (reconcile rc positions balances p d)"
proof -
  have update: "keeps (on_work P) (update_break i st a n r)" for i st a n r
    unfolding update_break_def Let_def by (intro work_rules) (simp add: assms)
  have one: "keeps (on_work P) (process_one en keys rules r)" for en keys rules r
    unfolding process_one_def apply_rule_def by (intro work_rules update)
  have process: "keeps (on_work P) (process_breaks en rules p d)" for en rules
    unfolding process_breaks_def resolved_keys_def Let_def by (intro work_rules keeps_map one)
  have persist: "keeps (on_work P) (persist_breaks en p d bs cs)" for en bs cs
    unfolding persist_breaks_def insert_breaks_def by (intro work_rules keeps_map) (simp add: assms)
  have upsert: "keeps (on_work P) (upsert_result r)" for r
    unfolding upsert_result_def by (intro work_rules) (simp add: assms)
  show ?thesis unfolding reconcile_def Let_def by (intro work_rules upsert persist process)
qed

lemma eod_frames:
  assumes "\<And>t x. P (t\<lparr>et_prices := x\<rparr>) = P t" "\<And>t x. P (t\<lparr>et_navs := x\<rparr>) = P t" "\<And>t x. P (t\<lparr>et_pnls := x\<rparr>) = P t"
  shows "keeps (on_work P) (upsert_price en pr)" "keeps (on_work P) (upsert_nav en nr)" "keeps (on_work P) (upsert_pnl en lr)"
  unfolding upsert_price_def upsert_nav_def upsert_pnl_def by (intro work_rules; simp add: assms)+

lemma batch_frame: "(\<And>t qs. P t \<Longrightarrow> P (t\<lparr>et_daily := et_daily t @ qs\<rparr>)) \<Longrightarrow> keeps (on_work P) (upsert_batch en rs)"
  unfolding upsert_batch_def by (intro work_rules; simp)

lemma run_frames:
  assumes "\<And>t x. P (t\<lparr>et_steps := x\<rparr>) = P t" "\<And>t x. P (t\<lparr>et_runs := x\<rparr>) = P t"
  shows "keeps (on_work P) (upsert_step i r)" "keeps (on_work P) (insert_run q)" "keeps (on_work P) (complete_run i ok now)"
  unfolding upsert_step_def insert_run_def complete_run_def by (intro work_rules; simp add: assms)+

section \<open>Capital and fees\<close>

interpretation funds: step_frame "\<lambda>s. eo_funds s = F" ee for F ee
  by unfold_locales (auto intro!: keeps_elsewhere)

text \<open>C16. The end of day never books capital.  The data a step leaves for the next is put into a dictionary
  that is thrown away, so that the price per share is never known when the capital allocation and the
  dealing run: whatever the portfolios hold and whatever requests are queued, a run, successful or not,
  leaves the cash, the capital accounts and the investor requests as they were.
\<close>

theorem eod_never_books_capital:
  "eo_funds (fst (run_eod ee fund d s)) = eo_funds s"
proof -
  have "keeps (\<lambda>t. eo_funds t = eo_funds s) (run_eod ee fund d)"
    by (rule funds.run_eod_keeps) (intro keeps_elsewhere; simp)+
  then show ?thesis by (rule keeps_fst) simp
qed

definition idle_fees :: "fee_accrual list \<Rightarrow> 'a fee_tables_scheme session \<Rightarrow> bool" where
  "idle_fees old s \<longleftrightarrow> (\<exists>rows. ft_accruals (ss_work s) = old @ rows \<and>
     (\<forall>r\<in>set rows. fa_nav r = 0 \<and> (fa_type r = ManagementFee \<longrightarrow> fa_amount r = 0)))"

lemma idle_fees_work: "idle_fees old = on_work (\<lambda>t. \<exists>rows. ft_accruals t = old @ rows \<and>
     (\<forall>r\<in>set rows. fa_nav r = 0 \<and> (fa_type r = ManagementFee \<longrightarrow> fa_amount r = 0)))"
  by (simp add: idle_fees_def on_work_def fun_eq_iff)

lemma idle_accrue:
  assumes "col_spec en" "ty = ManagementFee \<longrightarrow> fee = 0"
  shows "keeps (idle_fees old) (accrue_fee en p cls ty d 0 fee)"
proof -
  have zero: "x = 0" if "le_col en 20 2 0 = Inr x" for x using col_specD(3)[OF assms(1) that] by simp
  have row: "keeps (idle_fees old) (insert_accrual en \<lparr>fa_id = i, fa_portfolio = p, fa_class = cls, fa_type = ty,
       fa_date = d, fa_nav = 0, fa_amount = fee, fa_cumulative = c, fa_status = FeeAccrued\<rparr>)" for i c
  proof -
    have "keeps (idle_fees old) (bindS (readT (\<lambda>t. find_row fa_id (fa_id q) (ft_accruals t))) (\<lambda>old'.
       if old' \<noteq> None then raiseS IntegrityError
       else thenS (writeT (\<lambda>t. t\<lparr>ft_accruals := ft_accruals t @ [q]\<rparr>)) (thenS commit (retS q))))"
      if "fa_nav q = 0" "fa_type q = ManagementFee \<longrightarrow> fa_amount q = 0" for q
      unfolding idle_fees_work by (intro work_rules) (use that in auto)
    then show ?thesis
      unfolding insert_accrual_def using assms zero
      by (auto intro!: triple_bind_fact[where R = "\<lambda>_. idle_fees old"
          and F = "\<lambda>q. fa_nav q = 0 \<and> (fa_type q = ManagementFee \<longrightarrow> fa_amount q = 0)"] triple_lift simp: bindE_Inr_iff)
  qed
  show ?thesis unfolding accrue_fee_def Let_def
    by (intro keeps_bind row) (simp_all add: idle_fees_work on_work_basic)
qed

lemma idle_daily: "col_spec en \<Longrightarrow> keeps (idle_fees old) (accrue_daily_fees en p fund 0 d cls)"
proof -
  assume en: "col_spec en"
  have none: "calculate_daily_management_fee 0 bps = Inr 0" for bps
    by (simp add: calculate_daily_management_fee_def dmul_def ddiv_def)
  have lift: "bindS (liftS (Inr x)) f = f x" for x :: dec and f :: "dec \<Rightarrow> ('a fee_tables_scheme session, 'b) sm"
    by (simp add: bindS_def fun_eq_iff)
  have basic: "keeps (idle_fees old) (readT g)" "keeps (idle_fees old) (emit en topic ev)" for g topic ev
    unfolding idle_fees_work by (rule on_work_basic)+
  show ?thesis
    unfolding accrue_daily_fees_def none lift Let_def
    by (intro keeps_bind keeps_option keeps_if keeps_then keeps_basic basic schedule_for_keeps idle_accrue en) auto
qed

section \<open>A day whose profit and loss is stored\<close>

lemma failing_element:
  assumes "x \<in> set xs" "\<And>y. y \<in> set xs \<Longrightarrow> keeps I (f y)" "\<And>s. I s \<Longrightarrow> \<exists>s' e. f x s = (s', Inl e)" "I s"
  shows "\<exists>s' e. mapS f xs s = (s', Inl e)"
  using assms(1,2,4)
proof (induction xs arbitrary: s)
  case (Cons y ys)
  show ?case
  proof (cases "x = y")
    case True
    with assms(3)[OF Cons.prems(3)] show ?thesis by (auto simp: bindS_def)
  next
    case False
    obtain t r where t: "f y s = (t, r)" by (cases "f y s")
    then have "I t" using keeps_fst[OF Cons.prems(2)[of y] Cons.prems(3)] by simp
    with Cons.IH[of t] Cons.prems False obtain s' e where "mapS f ys t = (s', Inl e)" by auto
    with t show ?thesis by (cases r) (auto simp: bindS_def)
  qed
qed simp

definition pnl_stored :: "uuid \<Rightarrow> string \<Rightarrow> date \<Rightarrow> eod_state \<Rightarrow> bool" where
  \<comment> \<open>the daily record of an instrument that the portfolio still holds is there\<close>
  "pnl_stored p i d s \<longleftrightarrow> (p, i, d) \<in> daily_key ` set (et_daily (ss_work (eo_eod s))) \<and>
     (\<exists>r\<in>set (st_positions (eo_store s)). cp_id r = (p, i))"

lemma daily_keys_kept: "stored_daily en r = Inr q \<Longrightarrow> daily_key q = daily_key r"
  by (auto simp: stored_daily_def bindE_Inr_iff daily_key_def)

lemma stored_keys: "mapE (stored_daily en) rs = Inr qs \<Longrightarrow> map daily_key qs = map daily_key rs"
  by (induction rs arbitrary: qs) (auto simp: bindE_Inr_iff dest: daily_keys_kept)

lemma pnl_blocked:
  assumes "pnl_stored p i d s"
  shows "\<exists>s' e. snapshot_pnl ee p d base s = (s', Inl e)"
proof (rule ccontr)
  assume "\<nexists>s' e. snapshot_pnl ee p d base s = (s', Inl e)"
  then obtain s' x where run: "snapshot_pnl ee p d base s = (s', Inr x)"
    by (cases "snapshot_pnl ee p d base s"; cases "snd (snapshot_pnl ee p d base s)") auto
  let ?ps = "positions_of p (eo_store s)" and ?en = "ee_ledger ee"
  obtain r where r: "r \<in> set ?ps" "cp_id r = (p, i)" using assms by (auto simp: pnl_stored_def positions_of_def)
  obtain lr where lr: "snapshot_pnl ee p d base s =
      thenS (on_eod (upsert_pnl ?en lr)) (thenS (whenS (?ps \<noteq> []) (on_eod (upsert_batch ?en (map (daily_of ?en p d base) ?ps)))) (retS (dadd 0 (foldl (\<lambda>a r. dadd a (convert_to_base ?en (cp_unrealized r) (cp_currency r) base)) 0 ?ps)))) s"
    by (simp add: snapshot_pnl_def Let_def)
  obtain s1 where s1: "on_eod (upsert_pnl ?en lr) s = (s1, Inr ())"
    using run lr by (cases "on_eod (upsert_pnl ?en lr) s"; cases "snd (on_eod (upsert_pnl ?en lr) s)")
      (auto simp: thenS_def bindS_def)
  have daily: "et_daily (ss_work (eo_eod s1)) = et_daily (ss_work (eo_eod s))"
  proof -
    have "keeps (on_work (\<lambda>t. et_daily t = et_daily (ss_work (eo_eod s)))) (upsert_pnl ?en lr)"
      by (rule eod_frames(3)) simp_all
    from keeps_fst[OF keeps_zoom_eod[OF this], of s] s1 show ?thesis by (simp add: on_work_def)
  qed
  have ne: "?ps \<noteq> []" using r(1) by auto
  obtain s2 where "on_eod (upsert_batch ?en (map (daily_of ?en p d base) ?ps)) s1 = (s2, Inr ())"
    using run lr s1 ne
    by (cases "on_eod (upsert_batch ?en (map (daily_of ?en p d base) ?ps)) s1";
        cases "snd (on_eod (upsert_batch ?en (map (daily_of ?en p d base) ?ps)) s1)") (auto simp: thenS_def bindS_def)
  then have batch: "snd (upsert_batch ?en (map (daily_of ?en p d base) ?ps) (eo_eod s1)) = Inr ()" by (simp add: zoom_run)
  then obtain qs where qs: "mapE (stored_daily ?en) (map (daily_of ?en p d base) ?ps) = Inr qs"
    by (cases "mapE (stored_daily ?en) (map (daily_of ?en p d base) ?ps)") (auto simp: upsert_batch_def bindS_def)
  with batch have fresh: "distinct (map daily_key (et_daily (ss_work (eo_eod s1)) @ qs))"
    by (auto simp: upsert_batch_def bindS_def split: if_splits)
  have "daily_key (daily_of ?en p d base r) = (p, i, d)" using r(2) by (simp add: daily_key_def daily_of_def)
  then have "(p, i, d) \<in> set (map daily_key qs)" unfolding stored_keys[OF qs] using r(1) by force
  moreover have "(p, i, d) \<in> set (map daily_key (et_daily (ss_work (eo_eod s1))))"
    using assms by (simp add: daily pnl_stored_def)
  ultimately show False using fresh by auto
qed

lemma pnl_frame:
  assumes "ee_actions ee = None"
  shows "step_frame (pnl_stored p i d) ee"
proof -
  let ?P = "\<lambda>t :: eod_tables. (p, i, d) \<in> daily_key ` set (et_daily t)"
  have split: "pnl_stored p i d = (\<lambda>s. on_work ?P (eo_eod s) \<and> (\<exists>r\<in>set (st_positions (eo_store s)). cp_id r = (p, i)))"
    by (simp add: pnl_stored_def on_work_def fun_eq_iff)
  have eod: "keeps (pnl_stored p i d) (on_eod m)" if "keeps (on_work ?P) m" for m
    using that keeps_fst[OF that] unfolding split by (intro tripleI) (auto simp: zoom_run)
  show ?thesis
    by unfold_locales
      (use assms in simp, (intro eod eod_frames reconcile_frame batch_frame; auto)+, intro keeps_elsewhere, simp add: pnl_stored_def)
qed

definition opened_run :: "eod_env \<Rightarrow> string \<Rightarrow> date \<Rightarrow> eod_state \<Rightarrow> eod_state" where
  "opened_run ee fund d s = fst (on_eod (insert_run
     \<lparr>ru_id = le_uuid (ee_ledger ee) (ss_draws (eo_eod s)), ru_date = d, ru_fund = fund,
      ru_started = le_now (ee_ledger ee), ru_completed = None, ru_successful = False\<rparr>)
     (fst (on_eod (new_uuid (ee_ledger ee)) s)))"

lemma started_run:
  assumes fund: "ee_fund ee fund = Some (f, ccy)" and run: "start_run ee fund d s = (s', Inr res)"
  obtains k s3 rs where
    "run_steps ee k fund d (ee_portfolios ee f) (if truthy ccy then the ccy else ''USD'') STEP_ORDER no_data
       (opened_run ee fund d s) = (s3, Inr rs)"
    "k = le_uuid (ee_ledger ee) (ss_draws (eo_eod s))" "rn_id res = k" "rn_steps res = rs"
    "rn_successful res = list_all (\<lambda>r. sp_status r \<noteq> StepFailed) rs"
    "s' = fst (on_eod (complete_run k (rn_successful res) (le_now (ee_ledger ee))) s3)"
proof -
  let ?now = "le_now (ee_ledger ee)" and ?k = "le_uuid (ee_ledger ee) (ss_draws (eo_eod s))"
  let ?m = "run_steps ee ?k fund d (ee_portfolios ee f) (if truthy ccy then the ccy else ''USD'') STEP_ORDER no_data"
  let ?finish = "\<lambda>rs. let ok = list_all (\<lambda>r. sp_status r \<noteq> StepFailed) rs
        in thenS (on_eod (complete_run ?k ok ?now))
          (retS \<lparr>rn_id = ?k, rn_completed = Some ?now, rn_steps = rs, rn_successful = ok\<rparr>)"
  have s1: "on_eod (new_uuid (ee_ledger ee)) s = (fst (on_eod (new_uuid (ee_ledger ee)) s), Inr ?k)"
    by (simp add: zoom_run)
  have b: "bindS (on_eod (new_uuid (ee_ledger ee))) g s = g ?k (fst (on_eod (new_uuid (ee_ledger ee)) s))"
    for g :: "int \<Rightarrow> (eod_state, run_result) sm"
    using s1 by (rule bindS_eval(1))
  from run have "bindS ?m ?finish (opened_run ee fund d s) = (s', Inr res)"
    unfolding start_run_def Let_def b fund option.case prod.case opened_run_def by (rule thenS_InrE) simp
  then show thesis
  proof (rule bindS_InrE)
    fix t rs assume m: "?m (opened_run ee fund d s) = (t, Inr rs)" and e: "?finish rs t = (s', Inr res)"
    from e[unfolded Let_def] show thesis
      by (rule thenS_InrE) (rule that[OF m], auto)
  qed
qed

end
