(* ===== verification/EodRun.thy ===== *)
theory EodRun
  imports EodInv
begin

text \<open>
  A run of the end of day always comes to an end and says truly how far it got: no exception of a step
  escapes the run, the steps reported are the first ones of the fixed order, all but the last completed,
  and the same steps are stored.
\<close>

section \<open>Computations that return\<close>

definition returns :: "('s, 'a) sm \<Rightarrow> bool" where
  "returns m \<longleftrightarrow> (\<forall>s. snd (m s) \<noteq> Inl Hang)"

lemma returnsI: "(\<And>s. snd (m s) \<noteq> Inl Hang) \<Longrightarrow> returns m" and returnsD: "returns m \<Longrightarrow> snd (m s) \<noteq> Inl Hang"
  by (simp_all add: returns_def)

lemma returns_bind: "returns m \<Longrightarrow> (\<And>x. returns (f x)) \<Longrightarrow> returns (bindS m f)"
  unfolding returns_def bindS_def by (auto split: prod.splits sum.splits) (metis snd_conv)

lemma returns_then: "returns m \<Longrightarrow> returns n \<Longrightarrow> returns (thenS m n)"
  unfolding thenS_def by (rule returns_bind)

lemma returns_basic:
  "returns (retS x)" "returns (getS f)" "returns (modifyS g)" "returns (readT h)" "returns (writeT w)"
  "returns commit" "returns (new_uuid en)"
  by (simp_all add: returns_def)

lemma returns_raise: "e \<noteq> Hang \<Longrightarrow> returns (raiseS e)" and returns_lift: "r \<noteq> Inl Hang \<Longrightarrow> returns (liftS r)"
  by (simp_all add: returns_def)

lemma returns_try: "returns m \<Longrightarrow> (\<And>e. returns (h e)) \<Longrightarrow> returns (tryS m h)"
  unfolding returns_def tryS_def by (auto split: prod.splits sum.splits) (metis snd_conv)

lemma returns_if: "(b \<Longrightarrow> returns m) \<Longrightarrow> (\<not> b \<Longrightarrow> returns n) \<Longrightarrow> returns (if b then m else n)"
  by simp

lemma returns_when: "returns m \<Longrightarrow> returns (whenS b m)"
  by (simp add: whenS_def returns_basic)

lemma returns_option:
  "(x = None \<Longrightarrow> returns m) \<Longrightarrow> (\<And>y. x = Some y \<Longrightarrow> returns (f y)) \<Longrightarrow> returns (case x of None \<Rightarrow> m | Some y \<Rightarrow> f y)"
  by (cases x) auto

lemma returns_prod: "(\<And>a b. returns (f a b)) \<Longrightarrow> returns (case x of (a, b) \<Rightarrow> f a b)"
  by (cases x) simp

lemma returns_map: "(\<And>x. x \<in> set xs \<Longrightarrow> returns (f x)) \<Longrightarrow> returns (mapS f xs)"
  by (induction xs) (auto intro!: returns_bind returns_basic)

lemma returns_zoom:
  "returns m1 \<Longrightarrow> returns (on_store m1)" "returns m2 \<Longrightarrow> returns (on_funds m2)"
  "returns m3 \<Longrightarrow> returns (on_fees m3)" "returns m4 \<Longrightarrow> returns (on_eod m4)"
  by (simp_all add: returns_def zoom_run)

lemma returns_suppress: "returns m \<Longrightarrow> returns (suppress x m)"
  unfolding suppress_def by (intro returns_try returns_basic)

lemmas returns_rules = returns_bind returns_then returns_basic returns_if returns_when returns_option returns_prod
  returns_map returns_zoom returns_suppress

text \<open>Results of the pure routines.\<close>

lemma hang_iff: "bindE m f = Inl Hang \<longleftrightarrow> m = Inl Hang \<or> (\<exists>x. m = Inr x \<and> f x = Inl Hang)"
  by (auto simp: bindE_def split: sum.split)

lemma no_hang_bind: "m \<noteq> Inl Hang \<Longrightarrow> (\<And>x. f x \<noteq> Inl Hang) \<Longrightarrow> bindE m f \<noteq> Inl Hang"
  by (auto simp: hang_iff)

lemma no_hang_map: "(\<And>x. f x \<noteq> Inl Hang) \<Longrightarrow> mapE f xs \<noteq> Inl Hang"
  by (induction xs) (simp_all add: hang_iff)

lemma no_hang_basic: "quantize_upE k x \<noteq> Inl Hang" "add_days d n \<noteq> Inl Hang"
  by (auto simp: quantize_upE_def add_days_def Let_def)

definition ledger_live :: "ledger_env \<Rightarrow> bool" where
  "ledger_live en \<longleftrightarrow> (\<forall>p k x. le_col en p k x \<noteq> Inl Hang) \<and>
     (\<forall>fails topic ev. le_publish en = Some fails \<longrightarrow> fails topic ev \<noteq> Some Hang)"

lemma returns_emit: "ledger_live en \<Longrightarrow> returns (emit en topic ev)"
  by (auto simp: emit_def ledger_live_def returns_def split: option.split)

lemma col_live: "ledger_live en \<Longrightarrow> le_col en p k x \<noteq> Inl Hang"
  by (simp add: ledger_live_def)

section \<open>The operations of the steps return\<close>

lemma prices_return: "ledger_live en \<Longrightarrow> returns (upsert_price en r)"
  unfolding upsert_price_def by (intro returns_rules returns_lift col_live)

lemma navs_return: "ledger_live en \<Longrightarrow> returns (upsert_nav en r)"
  unfolding upsert_nav_def stored_nav_def by (intro returns_rules returns_lift no_hang_bind col_live) simp_all

lemma pnls_return: "ledger_live en \<Longrightarrow> returns (upsert_pnl en r)"
  unfolding upsert_pnl_def by (intro returns_rules returns_lift no_hang_bind col_live) simp_all

lemma batch_returns: "ledger_live en \<Longrightarrow> returns (upsert_batch en rs)"
  unfolding upsert_batch_def stored_daily_def
  by (intro returns_rules returns_lift returns_raise no_hang_map no_hang_bind col_live) simp_all

lemma runs_return: "returns (upsert_step i x)" "returns (complete_run i ok now)"
  unfolding upsert_step_def complete_run_def by (intro returns_rules)+

lemma accrue_returns:
  assumes "ledger_live en"
  shows "returns (accrue_daily_fees en p fund nav d cls)"
proof -
  have mgmt: "calculate_daily_management_fee x b \<noteq> Inl Hang" for x b
    unfolding calculate_daily_management_fee_def by (rule no_hang_basic)
  have perf: "calculate_performance_fee a b c e n \<noteq> Inl Hang" for a b c e n
    using no_hang_basic(1) by (simp add: calculate_performance_fee_def Let_def)
  have insert: "returns (insert_accrual en r)" for r
    unfolding insert_accrual_def
    by (intro returns_rules returns_lift returns_raise no_hang_bind col_live[OF assms]) simp_all
  have one: "returns (accrue_fee en p cls ty d nav x)" for ty x
    unfolding accrue_fee_def Let_def by (intro returns_rules insert)
  have sched: "returns (schedule_for fund cls)" unfolding schedule_for_def by (intro returns_rules)
  show ?thesis
    unfolding accrue_daily_fees_def Let_def
    by (intro returns_rules returns_lift mgmt perf one sched returns_emit[OF assms])
qed

lemma reconcile_returns:
  assumes "ledger_live (rc_ledger rc)" "rc_broker rc p d \<noteq> Inl Hang"
    and "\<And>a b. rc_admin rc = Some (a, b) \<Longrightarrow> a \<noteq> Inl Hang \<and> b \<noteq> Inl Hang"
  shows "returns (reconcile rc positions balances p d)"
proof -
  have unless: "r \<noteq> Inl Hang \<Longrightarrow> unless_raised r \<noteq> Inl Hang" for r :: "quantities res"
    by (auto simp: unless_raised_def split: sum.split)
  have admin: "admin_positions rc \<noteq> Inl Hang"
    using assms(3) by (auto simp: admin_positions_def split: option.split intro!: unless)
  have cash: "reconcile_cash rc balances \<noteq> Inl Hang"
    unfolding reconcile_cash_def using assms(3)
    by (cases "rc_admin rc") (auto simp: hang_iff dest: unless split: option.splits if_splits)
  have update: "returns (update_break i st a n r)" for i st a n r
    unfolding update_break_def Let_def by (intro returns_rules)
  have process: "returns (process_breaks en rules p d)" for en rules
    unfolding process_breaks_def resolved_keys_def process_one_def apply_rule_def Let_def
    by (intro returns_rules returns_lift no_hang_basic update)
  have opt: "opt_col (rc_ledger rc) p' k x \<noteq> Inl Hang" for p' k x
    using col_live[OF assms(1)] by (auto simp: opt_col_def hang_iff split: option.splits)
  have persist: "returns (persist_breaks (rc_ledger rc) p d bs cs)" for bs cs
    unfolding persist_breaks_def insert_breaks_def stored_break_def
    by (intro returns_rules returns_lift returns_raise no_hang_map no_hang_bind col_live[OF assms(1)] opt) simp_all
  have upsert: "returns (upsert_result r)" for r
    unfolding upsert_result_def by (intro returns_rules)
  show ?thesis unfolding reconcile_def Let_def
    by (intro returns_rules returns_lift assms(2) admin cash upsert persist process)
qed

section \<open>Steps and runs\<close>

text \<open>Nothing the run is given fails to return.\<close>

definition env_live :: "eod_env \<Rightarrow> bool" where
  "env_live ee \<longleftrightarrow> ledger_live (ee_ledger ee) \<and> ledger_live (rc_ledger (ee_recon ee)) \<and>
     (\<forall>p d. rc_broker (ee_recon ee) p d \<noteq> Inl Hang) \<and>
     (\<forall>a b. rc_admin (ee_recon ee) = Some (a, b) \<longrightarrow> a \<noteq> Inl Hang \<and> b \<noteq> Inl Hang) \<and>
     ee_instruments ee \<noteq> Inl Hang \<and> (\<forall>i. ee_price ee i \<noteq> Inl Hang) \<and>
     (\<forall>process fund p d. ee_actions ee = Some process \<longrightarrow> returns (process fund p d)) \<and>
     (\<forall>p fund. ee_risk ee p fund \<noteq> Some Hang) \<and>
     (\<forall>calc p d. ee_attribution ee = Some calc \<longrightarrow> calc p d \<noteq> Some Hang) \<and> ee_report ee \<noteq> Some (Inl Hang)"

lemma env_liveD:
  assumes "env_live ee"
  shows "ledger_live (ee_ledger ee)" "returns (reconcile (ee_recon ee) positions balances p d)"
    "ee_instruments ee \<noteq> Inl Hang" "ee_price ee i \<noteq> Inl Hang"
    "ee_actions ee = Some process \<Longrightarrow> returns (process fund p d)" "ee_risk ee p fund \<noteq> Some Hang"
    "ee_attribution ee = Some calc \<Longrightarrow> calc p d \<noteq> Some Hang" "ee_report ee \<noteq> Some (Inl Hang)"
  using assms unfolding env_live_def by (auto intro: reconcile_returns)

lemma classes_return:
  assumes "ledger_live (ee_ledger ee)"
  shows "returns (accrue_classes ee fund d p nav all classes acc)"
proof (induction classes arbitrary: acc)
  case (Cons cls rest)
  show ?case unfolding accrue_classes.simps by (intro returns_rules accrue_returns[OF assms] Cons.IH)
qed (simp add: returns_basic)

lemma portfolios_return:
  assumes "ledger_live (ee_ledger ee)"
  shows "returns (accrue_portfolios ee fund d nav classes ps acc)"
proof (induction ps arbitrary: acc)
  case (Cons p ps)
  show ?case unfolding accrue_portfolios.simps by (intro returns_rules classes_return[OF assms] Cons.IH)
qed (simp add: returns_basic)

lemma step_returns:
  assumes "env_live ee"
  shows "returns (execute_step ee st fund d ps base no_data)"
proof -
  note live = env_liveD[OF assms]
  have empty: "fund_nav_per_share no_data = None" by (simp add: fund_nav_per_share_def no_data_def)
  have fee: "returns (fee_step ee fund d ps no_data)"
    unfolding fee_step_def Let_def case_prod_beta by (intro returns_rules portfolios_return live)
  have price: "returns (finalize_one ee d i)" for i
    unfolding finalize_one_def by (intro returns_rules returns_lift prices_return live)
  have one: "returns (recon_one ee d p)" for p
    unfolding recon_one_def by (intro returns_rules live)
  have risk: "(case ee_risk ee p fund of None \<Rightarrow> Inr () | Some e \<Rightarrow> Inl e) \<noteq> Inl Hang" for p
    using live(6)[of p fund] by (auto split: option.split)
  have attr: "(case calc p d of None \<Rightarrow> Inr (p, True) | Some e \<Rightarrow> Inl e) \<noteq> Inl Hang" if "ee_attribution ee = Some calc" for calc p
    using live(7)[OF that, of p d] by (auto split: option.split)
  show ?thesis
  proof (cases st)
    case PriceFinalization
    then show ?thesis by (simp only: execute_step_def step_name.case finalize_prices_def)
      (intro returns_rules returns_lift price live)
  next
    case CorporateActionProcessing
    then show ?thesis by (simp only: execute_step_def step_name.case) (intro returns_rules live(5); assumption)
  next
    case PositionRecon
    then show ?thesis by (simp only: execute_step_def step_name.case) (intro returns_rules one)
  next
    case NavCalculation
    then show ?thesis by (simp only: execute_step_def step_name.case calculate_nav_def)
      (intro returns_rules navs_return live)
  next
    case PnlSnapshot
    then show ?thesis by (simp only: execute_step_def step_name.case snapshot_pnl_def Let_def)
      (intro returns_rules pnls_return batch_returns live)
  next
    case CapitalAllocationStep
    then show ?thesis by (simp only: execute_step_def step_name.case capital_step_def empty option.case) (intro returns_rules)
  next
    case DealingDateExecution
    then show ?thesis by (simp only: execute_step_def step_name.case dealing_step_def empty option.case) (intro returns_rules)
  next
    case EodRisk
    then show ?thesis by (simp only: execute_step_def step_name.case) (intro returns_rules returns_lift risk)
  next
    case PerformanceAttribution
    then show ?thesis by (simp only: execute_step_def step_name.case) (intro returns_rules returns_lift attr; assumption)
  next
    case ReportGeneration
    then show ?thesis using live(8)
      by (simp only: execute_step_def step_name.case) (intro returns_rules returns_lift; auto)
  qed (simp_all only: execute_step_def step_name.case fee returns_basic)
qed

section \<open>The record of a run\<close>

definition recorded :: "uuid \<Rightarrow> eod_state \<Rightarrow> step_result list" where
  "recorded k s = map snd (filter (\<lambda>x. fst x = k) (et_steps (ss_work (eo_eod s))))"

lemma recorded_frame: "step_frame (\<lambda>s. recorded k s = acc) ee"
proof -
  let ?P = "\<lambda>t :: eod_tables. map snd (filter (\<lambda>x. fst x = k) (et_steps t)) = acc"
  have eq: "(\<lambda>s. recorded k s = acc) = (\<lambda>s. on_work ?P (eo_eod s))" by (simp add: recorded_def on_work_def)
  show ?thesis unfolding eq
    by unfold_locales
      ((intro keeps_zoom_eod eod_frames reconcile_frame batch_frame; simp)+ | (intro keeps_elsewhere; simp))+
qed

lemma record_step:
  assumes "sp_step r \<notin> sp_step ` set (recorded k s)"
  shows "recorded k (fst (on_eod (upsert_step k r) s)) = recorded k s @ [r]"
proof -
  have "find_row step_key (k, sp_step r) (et_steps (ss_work (eo_eod s))) = None"
    unfolding find_row_None using assms by (auto simp: recorded_def step_key_def image_iff)
  then show ?thesis by (simp add: recorded_def zoom_run upsert_step_def)
qed

lemma run_step_result:
  assumes "env_live ee"
  obtains s' r where "run_step ee st fund d ps base no_data s = (s', Inr (r, no_data))" "sp_step r = st"
    "sp_status r \<in> {StepCompleted, StepFailed}" "recorded k s' = recorded k s"
proof -
  obtain t x where ex: "execute_step ee st fund d ps base no_data s = (t, x)" by (rule prod.exhaust)
  have live: "x \<noteq> Inl Hang" using returnsD[OF step_returns[OF assms], of st fund d ps base s] by (simp add: ex)
  have "\<exists>r. run_step ee st fund d ps base no_data s = (t, Inr (r, no_data)) \<and> sp_step r = st \<and>
      sp_status r \<in> {StepCompleted, StepFailed}"
  proof (cases x)
    case (Inr y)
    then show ?thesis using ex by (cases y) (simp add: run_step_def tryS_def bindS_def Let_def)
  qed (use ex live in \<open>simp add: run_step_def tryS_def bindS_def Let_def\<close>)
  then obtain r where run: "run_step ee st fund d ps base no_data s = (t, Inr (r, no_data))"
    and r: "sp_step r = st" "sp_status r \<in> {StepCompleted, StepFailed}" by blast
  have "recorded k t = recorded k s"
    using tripleD(1)[OF step_frame.run_step_keeps[OF recorded_frame] refl run] by simp
  with run r show thesis by (rule that)
qed

lemma run_steps_step:
  assumes "run_step ee st fund d ps base sd s = (s1, Inr (r, sd'))"
  shows "run_steps ee k fund d ps base (st # rest) sd s = (if sp_status r = StepFailed then retS [r]
    else bindS (run_steps ee k fund d ps base rest sd') (\<lambda>rs. retS (r # rs))) (fst (on_eod (upsert_step k r) s1))"
proof -
  have b1: "bindS (run_step ee st fund d ps base sd) g s = g (r, sd') s1"
    for g :: "step_result \<times> step_data \<Rightarrow> (eod_state, step_result list) sm" using assms by (rule bindS_eval(1))
  have b2: "thenS (on_eod (upsert_step k r)) m s1 = m (fst (on_eod (upsert_step k r) s1))"
    for m :: "(eod_state, step_result list) sm"
    by (rule bindS_eval(3)[where x = "()"]) (simp add: zoom_run upsert_step_def)
  show ?thesis by (simp add: b1 b2)
qed

lemma run_steps_recorded:
  assumes "env_live ee" "distinct (map sp_step (recorded k s) @ steps)"
  shows "\<exists>s' rs. run_steps ee k fund d ps base steps no_data s = (s', Inr rs) \<and> recorded k s' = recorded k s @ rs \<and>
    map sp_step rs = take (length rs) steps \<and> list_all (\<lambda>r. sp_status r = StepCompleted) (butlast rs) \<and>
    (list_all (\<lambda>r. sp_status r \<noteq> StepFailed) rs \<longleftrightarrow>
       length rs = length steps \<and> list_all (\<lambda>r. sp_status r = StepCompleted) rs)"
  using assms(2)
proof (induction steps arbitrary: s)
  case (Cons st rest)
  obtain s1 r where r: "run_step ee st fund d ps base no_data s = (s1, Inr (r, no_data))" "sp_step r = st"
    "sp_status r \<in> {StepCompleted, StepFailed}" "recorded k s1 = recorded k s"
    by (rule run_step_result[OF assms(1), of st fund d ps base s k])
  let ?s2 = "fst (on_eod (upsert_step k r) s1)"
  have rec: "recorded k ?s2 = recorded k s @ [r]" using Cons.prems r by (subst record_step) auto
  have eval: "run_steps ee k fund d ps base (st # rest) no_data s = (if sp_status r = StepFailed then retS [r]
      else bindS (run_steps ee k fund d ps base rest no_data) (\<lambda>rs. retS (r # rs))) ?s2"
    by (rule run_steps_step[OF r(1)])
  show ?case
  proof (cases "sp_status r = StepFailed")
    case True
    then show ?thesis unfolding eval using rec r(2) by auto
  next
    case False
    have "distinct (map sp_step (recorded k ?s2) @ rest)" using Cons.prems r(2) by (simp add: rec)
    from Cons.IH[OF this] obtain s' rs where
      IH: "run_steps ee k fund d ps base rest no_data ?s2 = (s', Inr rs)" "recorded k s' = recorded k ?s2 @ rs"
        "map sp_step rs = take (length rs) rest" "list_all (\<lambda>r. sp_status r = StepCompleted) (butlast rs)"
        "list_all (\<lambda>r. sp_status r \<noteq> StepFailed) rs \<longleftrightarrow>
           length rs = length rest \<and> list_all (\<lambda>r. sp_status r = StepCompleted) rs"
      by blast
    have run: "run_steps ee k fund d ps base (st # rest) no_data s = (s', Inr (r # rs))"
      unfolding eval using False by (simp add: bindS_def IH(1))
    show ?thesis unfolding run using IH(2-) rec r(2,3) False by (auto simp del: run_steps.simps)
  qed
qed simp

definition day_runs :: "eod_state \<Rightarrow> run_row list" where
  "day_runs s = et_runs (ss_work (eo_eod s))"

lemma runs_frame: "step_frame (\<lambda>s. day_runs s = rs) ee"
proof -
  have eq: "(\<lambda>s. day_runs s = rs) = (\<lambda>s. on_work (\<lambda>t :: eod_tables. et_runs t = rs) (eo_eod s))"
    by (simp add: day_runs_def on_work_def)
  show ?thesis unfolding eq
    by unfold_locales
      ((intro keeps_zoom_eod eod_frames reconcile_frame batch_frame; simp)+ | (intro keeps_elsewhere; simp))+
qed

lemma completed_row:
  assumes "k \<notin> ru_id ` set rs"
  shows "update_rows ru_id k f (rs @ [r\<lparr>ru_id := k\<rparr>]) = rs @ [f (r\<lparr>ru_id := k\<rparr>)]"
  using assms by (induction rs) (auto simp: update_rows_def)

text \<open>A run from an open day: its result, and what it leaves in the tables.\<close>

lemma run_from_open_day:
  assumes live: "env_live ee" and fund: "ee_fund ee fund = Some (f, ccy)"
    and k: "k = le_uuid (ee_ledger ee) (ss_draws (eo_eod s))"
    and fresh: "k \<notin> ru_id ` set (day_runs s)" "recorded k s = []"
  obtains s' rs where "start_run ee fund d s = (s', Inr \<lparr>rn_id = k, rn_completed = Some (le_now (ee_ledger ee)), rn_steps = rs,
       rn_successful = (map sp_step rs = STEP_ORDER \<and> list_all (\<lambda>r. sp_status r = StepCompleted) rs)\<rparr>)"
    "recorded k s' = rs" "map sp_step rs = take (length rs) STEP_ORDER"
    "list_all (\<lambda>r. sp_status r = StepCompleted) (butlast rs)"
    "day_runs s' = day_runs s @ [\<lparr>ru_id = k, ru_date = d, ru_fund = fund, ru_started = le_now (ee_ledger ee),
       ru_completed = Some (le_now (ee_ledger ee)),
       ru_successful = (map sp_step rs = STEP_ORDER \<and> list_all (\<lambda>r. sp_status r = StepCompleted) rs)\<rparr>]"
proof -
  let ?now = "le_now (ee_ledger ee)" and ?ps = "ee_portfolios ee f" and ?base = "if truthy ccy then the ccy else ''USD''"
  let ?row = "\<lparr>ru_id = k, ru_date = d, ru_fund = fund, ru_started = ?now, ru_completed = None, ru_successful = False\<rparr>"
  let ?s1 = "fst (on_eod (new_uuid (ee_ledger ee)) s)" and ?s2 = "opened_run ee fund d s"
  have none: "find_row ru_id k (et_runs (ss_work (eo_eod s))) = None"
    using fresh(1) unfolding find_row_None day_runs_def by auto
  have s1: "on_eod (new_uuid (ee_ledger ee)) s = (?s1, Inr k)" by (simp add: zoom_run k)
  have s2: "on_eod (insert_run ?row) ?s1 = (?s2, Inr ())"
    using none by (simp add: opened_run_def zoom_run insert_run_def k)
  have open_run: "recorded k ?s2 = []" "day_runs ?s2 = day_runs s @ [?row]"
    using none fresh(2) by (simp_all add: opened_run_def zoom_run insert_run_def k recorded_def day_runs_def)
  have "distinct (map sp_step (recorded k ?s2) @ STEP_ORDER)" by (simp add: open_run STEP_ORDER_def)
  from run_steps_recorded[OF live this, of fund d ?ps ?base] obtain s3 rs where
    m: "run_steps ee k fund d ?ps ?base STEP_ORDER no_data ?s2 = (s3, Inr rs)"
    and rs: "recorded k s3 = rs" "map sp_step rs = take (length rs) STEP_ORDER"
      "list_all (\<lambda>r. sp_status r = StepCompleted) (butlast rs)"
      "list_all (\<lambda>r. sp_status r \<noteq> StepFailed) rs \<longleftrightarrow>
        length rs = length STEP_ORDER \<and> list_all (\<lambda>r. sp_status r = StepCompleted) rs"
    by (auto simp: open_run)
  have "length rs = length STEP_ORDER \<longleftrightarrow> map sp_step rs = STEP_ORDER"
    using rs(2) by (metis length_map take_all order_refl)
  with rs(4) have ok: "list_all (\<lambda>r. sp_status r \<noteq> StepFailed) rs \<longleftrightarrow>
      map sp_step rs = STEP_ORDER \<and> list_all (\<lambda>r. sp_status r = StepCompleted) rs" by blast
  have upsert: "keeps (\<lambda>s. day_runs s = x) (on_eod (upsert_step i r))" for x i r
    by (simp add: triple_def zoom_run upsert_step_def day_runs_def)
  have "day_runs s3 = day_runs s @ [?row]"
    using tripleD(1)[OF step_frame.run_steps_keeps[OF runs_frame upsert] refl m] open_run(2) by simp
  then have runs: "day_runs s3 = day_runs s @ [?row\<lparr>ru_id := k\<rparr>]" by simp
  let ?ok = "map sp_step rs = STEP_ORDER \<and> list_all (\<lambda>r. sp_status r = StepCompleted) rs"
  let ?s4 = "fst (on_eod (complete_run k ?ok ?now) s3)"
  have s4: "on_eod (complete_run k ?ok ?now) s3 = (?s4, Inr ())" by (simp add: zoom_run complete_run_def)
  have after: "recorded k ?s4 = rs" "day_runs ?s4 = update_rows ru_id k (\<lambda>r. r\<lparr>ru_successful := ?ok, ru_completed := Some ?now\<rparr>) (day_runs s3)"
    using rs(1) by (simp_all add: zoom_run complete_run_def recorded_def day_runs_def)
  have b1: "bindS (on_eod (new_uuid (ee_ledger ee))) g s = g k ?s1" for g :: "int \<Rightarrow> (eod_state, run_result) sm"
    using s1 by (rule bindS_eval(1))
  have b2: "thenS (on_eod (insert_run ?row)) n ?s1 = n ?s2" for n :: "(eod_state, run_result) sm"
    using s2 by (rule bindS_eval(3))
  have b3: "bindS (run_steps ee k fund d ?ps ?base STEP_ORDER no_data) g ?s2 = g rs s3"
    for g :: "step_result list \<Rightarrow> (eod_state, run_result) sm" using m by (rule bindS_eval(1))
  have b4: "thenS (on_eod (complete_run k ?ok ?now)) n s3 = n ?s4" for n :: "(eod_state, run_result) sm"
    using s4 by (rule bindS_eval(3))
  have run: "start_run ee fund d s = (?s4, Inr \<lparr>rn_id = k, rn_completed = Some ?now, rn_steps = rs, rn_successful = ?ok\<rparr>)"
    unfolding start_run_def Let_def b1 b2 fund option.case prod.case b3 ok b4 by simp
  show thesis
    by (rule that[OF run after(1) rs(2,3)]) (simp only: after(2) runs completed_row[OF fresh(1)], simp)
qed

text \<open>C15. A run always ends and says truly how far it got.  Whatever the steps raise, a run of a day not yet
  completed returns: the steps it reports are the first ones of the fixed order, all but the last of them
  completed, and exactly these are stored for the run; it is reported and stored as successful if and only
  if all twelve steps completed.
\<close>

theorem run_reports_truly:
  assumes "env_live ee" "ee_fund ee fund = Some (f, ccy)"
    and "\<forall>r. get_latest_run (ee_ledger ee) d fund (ss_work (eo_eod s)) = Some r \<longrightarrow> \<not> ru_successful r"
    and k: "k = le_uuid (ee_ledger ee) (ss_draws (eo_eod s))"
    and "k \<notin> ru_id ` set (day_runs s)" "recorded k s = []"
  shows "\<exists>s' res. run_eod ee fund d s = (s', Inr res) \<and> rn_id res = k \<and>
    map sp_step (rn_steps res) = take (length (rn_steps res)) STEP_ORDER \<and>
    list_all (\<lambda>r. sp_status r = StepCompleted) (butlast (rn_steps res)) \<and> recorded k s' = rn_steps res \<and>
    (rn_successful res \<longleftrightarrow>
       map sp_step (rn_steps res) = STEP_ORDER \<and> list_all (\<lambda>r. sp_status r = StepCompleted) (rn_steps res)) \<and>
    map ru_successful (day_runs s') = map ru_successful (day_runs s) @ [rn_successful res]"
proof -
  have "run_eod ee fund d s = start_run ee fund d s"
    using assms(3) by (cases "get_latest_run (ee_ledger ee) d fund (ss_work (eo_eod s))") (auto simp: run_eod_def)
  then show ?thesis by (auto intro: run_from_open_day[OF assms(1,2) k assms(5,6), of d])
qed

text \<open>C17. A completed day is not run again.  After the first run of a day has succeeded, asking for that day
  again changes nothing at all, and answers with the steps of the run that was made.
\<close>

theorem completed_day_is_final:
  assumes "env_live ee" "scan_spec (ee_ledger ee)" "ee_fund ee fund = Some (f, ccy)"
    and k: "k = le_uuid (ee_ledger ee) (ss_draws (eo_eod s))"
    and "k \<notin> ru_id ` set (day_runs s)" "recorded k s = []"
    and day: "filter (\<lambda>r. ru_date r = d \<and> ru_fund r = fund) (day_runs s) = []"
    and run: "run_eod ee fund d s = (s', Inr res)" "rn_successful res"
  shows "fst (run_eod ee fund d s') = s' \<and>
    (\<exists>again. snd (run_eod ee fund d s') = Inr again \<and> rn_successful again \<and> rn_id again = rn_id res \<and>
       mset (map sp_step (rn_steps again)) = mset STEP_ORDER)"
proof -
  have none: "get_latest_run (ee_ledger ee) d fund (ss_work (eo_eod s)) = None"
    using day mset_scan[OF assms(2), of ru_id "[] :: run_row list"]
    by (simp add: get_latest_run_def day_runs_def first_of_list_def)
  have start: "start_run ee fund d s = (s', Inr res)" using run(1) none by (simp add: run_eod_def)
  have "\<exists>row. day_runs s' = day_runs s @ [row] \<and> ru_date row = d \<and> ru_fund row = fund \<and> ru_id row = k \<and> ru_successful row \<and>
      rn_id res = k \<and> recorded k s' = rn_steps res \<and> map sp_step (rn_steps res) = STEP_ORDER"
    by (rule run_from_open_day[OF assms(1,3) k assms(5,6), of d]) (use start run(2) in auto)
  then obtain row where s': "day_runs s' = day_runs s @ [row]" "ru_date row = d" "ru_fund row = fund"
      "ru_id row = k" "ru_successful row" and res: "rn_id res = k" "recorded k s' = rn_steps res" "map sp_step (rn_steps res) = STEP_ORDER"
    by blast
  have "scan (ee_ledger ee) ru_id [row] = [row]"
    using mset_scan[OF assms(2), of ru_id "[row]"] by simp
  then have latest: "get_latest_run (ee_ledger ee) d fund (ss_work (eo_eod s')) = Some row"
    using day s' by (simp add: get_latest_run_def day_runs_def first_of_list_def)
  have "mset (get_steps (ee_ledger ee) k (ss_work (eo_eod s'))) = mset (rn_steps res)"
    unfolding get_steps_def res(2)[symmetric] recorded_def by (simp add: mset_scan[OF assms(2)])
  then have "mset (map sp_step (get_steps (ee_ledger ee) k (ss_work (eo_eod s')))) = mset STEP_ORDER"
    unfolding res(3)[symmetric] mset_map by simp
  then show ?thesis using latest s' res(1) by (simp add: run_eod_def multiset.map_comp o_def)
qed

section \<open>An example\<close>

definition demo_position :: current_position where
  "demo_position = \<lparr>cp_id = (7, ''AAPL''), cp_quantity = 5, cp_avg_cost = 1, cp_cost_basis = 5, cp_realized = 0,
     cp_market_price = 2, cp_market_value = 10, cp_unrealized = 5, cp_currency = ''USD''\<rparr>"

definition no_investors :: "investor_tables session" where
  "no_investors =
     (let t = \<lparr>ft_balances = [], ft_journal = [], ft_settlements = [], ft_flows = [], ft_accounts = [], ft_txns = [],
        iv_subs = [], iv_reds = [], iv_terms = [], iv_kyc = []\<rparr>
      in \<lparr>ss_work = t, ss_disk = t, ss_events = [], ss_draws = 0\<rparr>)"

definition demo_eod :: eod_env where
  "demo_eod = \<lparr>ee_ledger = demo_ledger,
     ee_recon = demo_rc\<lparr>rc_broker := \<lambda>_ _. Inr [(''AAPL'', 5)]\<rparr>,
     ee_fund = (\<lambda>f. if f = ''alpha'' then Some (1, Some ''USD'') else None), ee_portfolios = (\<lambda>_. [7]),
     ee_instruments = Inr [], ee_price = (\<lambda>_. Inr None), ee_actions = None, ee_risk = (\<lambda>_ _. None),
     ee_fee = True, ee_capital = False, ee_capital_txn = True, ee_subs = False, ee_reds = False,
     ee_attribution = None, ee_report = None\<rparr>"

definition demo_daily :: daily_row where
  "demo_daily = daily_of demo_ledger 7 738886 ''USD'' demo_position"

definition demo_day :: "daily_row list \<Rightarrow> eod_state" where
  "demo_day rows = (let t = \<lparr>rt_results = [], rt_breaks = [], et_navs = [], et_pnls = [], et_daily = rows, et_prices = [],
       et_runs = [], et_steps = []\<rparr>
     in \<lparr>eo_store = \<lparr>st_events = [], st_positions = [demo_position], st_lots = []\<rparr>,
         eo_funds = no_investors, eo_fees = demo_fees,
         eo_eod = \<lparr>ss_work = t, ss_disk = t, ss_events = [], ss_draws = 0\<rparr>\<rparr>)"

lemma demo_navs:
  "nav_of demo_eod 7 738886 ''USD'' (demo_day rows) = \<lparr>nv_portfolio = 7, nv_date = 738886, nv_gross = 10, nv_net = 10,
     nv_cash = 0, nv_fees = 3, nv_nav = 7, nv_per_share = 7 / 1000, nv_shares = 1000, nv_currency = ''USD''\<rparr>"
proof -
  have "dadd 0 10 = 10" "dabs 10 = 10" "dadd 10 0 = 10" "dsub 10 3 = 7" "dadd 0 3 = 3"
    by (simp_all add: dadd_def dsub_def dabs_def fix28_exact[of 0])
  moreover have "ddiv 7 1000 = 7 / 1000" by (simp add: ddiv_def exact_simps)
  moreover have "map snd (get_fee_summary demo_ledger 7 (ss_work demo_fees)) = [3]"
    by (simp add: get_fee_summary_def get_by_portfolio_def scan_def demo_fees_def demo_ledger_def Let_def dadd_def fix28_exact[of 0])
  ultimately show ?thesis
    by (simp add: nav_of_def demo_eod_def demo_day_def positions_of_def demo_position_def convert_to_base_def
        get_balances_def no_investors_def Let_def dsum_def)
qed

lemma demo_stored:
  "stored_nav demo_ledger (nav_of demo_eod 7 738886 ''USD'' (demo_day rows)) = Inr (nav_of demo_eod 7 738886 ''USD'' (demo_day rows))"
proof -
  have "pg_numeric 18 2 x = Inr x" if "x \<in> {10, 0, 3, 7}" for x by (rule pg_numeric_store) (use that in auto)
  moreover have "pg_numeric 18 8 (7 / 1000) = Inr (7 / 1000)"
    by (rule pg_numeric_store) (simp_all add: on_grid_def)
  moreover have "pg_numeric 18 8 1000 = Inr 1000" by (rule pg_numeric_store) simp_all
  ultimately show ?thesis by (simp add: demo_navs stored_nav_def demo_ledger_def)
qed


lemma nav_elsewhere: "nav_of ee p d b (s\<lparr>eo_eod := x\<rparr>) = nav_of ee p d b s"
  by (simp add: nav_of_def Let_def)

lemma demo_day_parts:
  "eo_store (demo_day rows) = \<lparr>st_events = [], st_positions = [demo_position], st_lots = []\<rparr>"
  "eo_funds (demo_day rows) = no_investors" "eo_fees (demo_day rows) = demo_fees"
  "ss_draws (eo_eod (demo_day rows)) = 0" "et_daily (ss_work (eo_eod (demo_day rows))) = rows"
  "et_runs (ss_work (eo_eod (demo_day rows))) = []" "et_steps (ss_work (eo_eod (demo_day rows))) = []"
  "et_navs (ss_work (eo_eod (demo_day rows))) = []" "et_pnls (ss_work (eo_eod (demo_day rows))) = []"
  "rt_results (ss_work (eo_eod (demo_day rows))) = []"
  by (simp_all add: demo_day_def Let_def)


lemma demo_live: "env_live demo_eod" "ee_fund demo_eod ''alpha'' = Some (1, Some ''USD'')" "scan_spec (ee_ledger demo_eod)"
  "col_spec (ee_ledger demo_eod)"
  using demo_scan demo_col
  by (auto simp: env_live_def demo_eod_def demo_rc_def ledger_live_def demo_ledger_def pg_numeric_def Let_def)

theorem run_reports_truly_witness:
  "\<exists>s' res. run_eod demo_eod ''alpha'' 738886 (demo_day []) = (s', Inr res) \<and> recorded 1 s' = rn_steps res \<and>
     map ru_successful (day_runs s') = [rn_successful res]"
proof -
  have "get_latest_run (ee_ledger demo_eod) 738886 ''alpha'' (ss_work (eo_eod (demo_day []))) = None"
    by (simp add: get_latest_run_def first_of_list_def demo_day_parts scan_def demo_eod_def demo_ledger_def)
  moreover have "(1 :: int) = le_uuid (ee_ledger demo_eod) (ss_draws (eo_eod (demo_day [])))"
    by (simp add: demo_day_parts demo_eod_def demo_ledger_def)
  moreover have "day_runs (demo_day []) = []" "recorded 1 (demo_day []) = []"
    by (simp_all add: day_runs_def recorded_def demo_day_parts)
  ultimately show ?thesis
    using run_reports_truly[OF demo_live(1,2), of 738886 "demo_day []" 1] by auto
qed

definition demo_quiet :: eod_env where
  "demo_quiet = demo_eod\<lparr>ee_portfolios := \<lambda>_. [], ee_fee := False\<rparr>"

lemma quiet_step: "\<exists>det sd. execute_step demo_quiet st fund d [] base no_data s = (s, Inr (det, sd))"
  by (cases st) (simp_all add: execute_step_def demo_quiet_def demo_eod_def finalize_prices_def fee_step_def
      capital_step_def dealing_step_def fund_nav_per_share_def no_data_def Let_def bindS_def)

lemma quiet_steps:
  "run_steps demo_quiet k fund d [] base steps no_data s = (s', Inr rs) \<Longrightarrow> list_all (\<lambda>r. sp_status r \<noteq> StepFailed) rs"
proof (induction steps arbitrary: s rs)
  case (Cons st rest)
  obtain det sd where "execute_step demo_quiet st fund d [] base no_data s = (s, Inr (det, sd))"
    using quiet_step by blast
  then obtain r where r: "run_step demo_quiet st fund d [] base no_data s = (s, Inr (r, no_data))" "sp_status r = StepCompleted"
    by (simp add: run_step_def tryS_def bindS_def Let_def)
  have "bindS (run_steps demo_quiet k fund d [] base rest no_data) (\<lambda>rs. retS (r # rs)) (fst (on_eod (upsert_step k r) s)) = (s', Inr rs)"
    using Cons.prems r(2) unfolding run_steps_step[OF r(1)] by simp
  then show ?case by (rule bindS_InrE) (use Cons.IH r(2) in auto)
qed simp

theorem completed_day_is_final_witness:
  "\<exists>s' res. run_eod demo_quiet ''alpha'' 738886 (demo_day []) = (s', Inr res) \<and> rn_successful res \<and>
     fst (run_eod demo_quiet ''alpha'' 738886 s') = s'"
proof -
  have env: "env_live demo_quiet" "scan_spec (ee_ledger demo_quiet)" "ee_fund demo_quiet ''alpha'' = Some (1, Some ''USD'')"
    using demo_live by (simp_all add: demo_quiet_def env_live_def)
  have none: "get_latest_run (ee_ledger demo_quiet) 738886 ''alpha'' (ss_work (eo_eod (demo_day []))) = None"
    by (simp add: get_latest_run_def first_of_list_def demo_day_parts scan_def demo_quiet_def demo_eod_def demo_ledger_def)
  have k: "(1 :: int) = le_uuid (ee_ledger demo_quiet) (ss_draws (eo_eod (demo_day [])))"
    by (simp add: demo_day_parts demo_quiet_def demo_eod_def demo_ledger_def)
  have fresh: "1 \<notin> ru_id ` set (day_runs (demo_day []))" "recorded 1 (demo_day []) = []"
    "filter (\<lambda>r. ru_date r = 738886 \<and> ru_fund r = ''alpha'') (day_runs (demo_day [])) = []"
    by (simp_all add: day_runs_def recorded_def demo_day_parts)
  have "\<exists>s' res. start_run demo_quiet ''alpha'' 738886 (demo_day []) = (s', Inr res)"
    by (rule run_from_open_day[OF env(1,3) k fresh(1,2), of 738886]) blast
  then obtain s' res where start: "start_run demo_quiet ''alpha'' 738886 (demo_day []) = (s', Inr res)" by blast
  have ok: "rn_successful res"
    by (rule started_run[OF env(3) start]) (simp add: quiet_steps demo_quiet_def)
  have run: "run_eod demo_quiet ''alpha'' 738886 (demo_day []) = (s', Inr res)" using start by (simp add: run_eod_def none)
  from completed_day_is_final[OF env k fresh run ok] run ok show ?thesis by blast
qed

text \<open>The end of day accrues fees on nothing.  For the same reason the fee step never sees the net asset
  value just calculated: every accrual row a run adds is on a value of zero, and every management fee it
  accrues is zero.
\<close>

theorem eod_accrues_on_zero:
  assumes "col_spec (ee_ledger ee)"
  shows "\<exists>rows. ft_accruals (ss_work (eo_fees (fst (run_eod ee fund d s)))) = ft_accruals (ss_work (eo_fees s)) @ rows \<and>
    (\<forall>r\<in>set rows. fa_nav r = 0 \<and> (fa_type r = ManagementFee \<longrightarrow> fa_amount r = 0))"
proof -
  let ?I = "\<lambda>t. idle_fees (ft_accruals (ss_work (eo_fees s))) (eo_fees t)"
  have "step_frame ?I ee"
    by unfold_locales (intro keeps_elsewhere keeps_zoom_fees idle_daily assms; simp)+
  then have "keeps ?I (run_eod ee fund d)"
    by (rule step_frame.run_eod_keeps) (intro keeps_elsewhere; simp)+
  then have "?I (fst (run_eod ee fund d s))" by (rule keeps_fst) (simp add: idle_fees_def)
  then show ?thesis by (simp add: idle_fees_def)
qed

theorem eod_accrues_on_zero_witness:
  "\<exists>rows. ft_accruals (ss_work (eo_fees (fst (run_eod demo_eod ''alpha'' 738886 (demo_day []))))) =
     ft_accruals (ss_work demo_fees) @ rows \<and> list_all (\<lambda>r. fa_nav r = 0) rows"
  using eod_accrues_on_zero[OF demo_live(4), of "''alpha''" 738886 "demo_day []"]
  by (auto simp: demo_day_parts list_all_iff)

section \<open>A day whose profit and loss is stored\<close>

lemma pnl_step_fails:
  assumes "ee_actions ee = None" "p \<in> set ps" "pnl_stored p i d t"
    and "run_step ee PnlSnapshot fund d ps base no_data t = (t', Inr x)"
  shows "sp_status (fst x) = StepFailed"
proof -
  note frame = pnl_frame[OF assms(1), of p i d]
  have "\<exists>t' e. mapS (\<lambda>p. snapshot_pnl ee p d base) ps t = (t', Inl e)"
  proof (rule failing_element[OF assms(2)])
    show "keeps (pnl_stored p i d) (snapshot_pnl ee q d base)" if "q \<in> set ps" for q
      unfolding snapshot_pnl_def Let_def
      by (intro keeps_bind keeps_then keeps_when keeps_basic step_frame.pnls[OF frame] step_frame.batch[OF frame])
    show "\<exists>s' e. snapshot_pnl ee p d base t = (s', Inl e)" if "pnl_stored p i d t" for t
      by (rule pnl_blocked[OF that])
  qed (rule assms(3))
  then obtain u e where "mapS (\<lambda>p. snapshot_pnl ee p d base) ps t = (u, Inl e)" by blast
  then show ?thesis using assms(4)
    by (auto simp: run_step_def execute_step_def tryS_def bindS_def Let_def split: if_splits)
qed

lemma pnl_kept_on_eod:
  "keeps (on_work (\<lambda>t. (p, i, d) \<in> daily_key ` set (et_daily t))) m \<Longrightarrow> keeps (pnl_stored p i d) (on_eod m)"
  using keeps_fst by (intro tripleI) (fastforce simp: zoom_run pnl_stored_def on_work_def)+

lemma stored_steps_fail:
  assumes "ee_actions ee = None" "p \<in> set ps"
  shows "PnlSnapshot \<in> set steps \<Longrightarrow> pnl_stored p i d t \<Longrightarrow>
    run_steps ee k fund d ps base steps no_data t = (t', Inr rs) \<Longrightarrow> \<exists>r\<in>set rs. sp_status r = StepFailed"
proof (induction steps arbitrary: t rs)
  case (Cons st rest)
  note frame = pnl_frame[OF assms(1), of p i d]
  obtain t1 r sd where t1: "run_step ee st fund d ps base no_data t = (t1, Inr (r, sd))"
    using Cons.prems(3) by (auto simp: bindS_def split: prod.splits sum.splits)
  from tripleD(1)[OF step_frame.run_step_keeps[OF frame] Cons.prems(2) t1] have I1: "pnl_stored p i d t1" "sd = no_data"
    by simp_all
  let ?t2 = "fst (on_eod (upsert_step k r) t1)"
  note eval = Cons.prems(3)[unfolded run_steps_step[OF t1]]
  have "keeps (pnl_stored p i d) (on_eod (upsert_step k r))" by (intro pnl_kept_on_eod run_frames) simp_all
  then have I2: "pnl_stored p i d ?t2" using I1(1) by (rule keeps_fst)
  show ?case
  proof (cases "sp_status r = StepFailed")
    case False
    then have "st \<noteq> PnlSnapshot" using pnl_step_fails[OF assms Cons.prems(2)] t1 by auto
    then have mem: "PnlSnapshot \<in> set rest" using Cons.prems(1) by simp
    have "bindS (run_steps ee k fund d ps base rest no_data) (\<lambda>rs. retS (r # rs)) ?t2 = (t', Inr rs)"
      using eval False I1(2) by simp
    then show ?thesis by (rule bindS_InrE) (use Cons.IH[OF mem I2] in auto)
  qed (use eval in auto)
qed simp



end
