(* ===== verification/EodNav.thy ===== *)
theory EodNav
  imports EodRun
begin

text \<open>
  The net asset value the end of day stores, against the plain sums of what the portfolio holds.
\<close>

section \<open>Totals by type\<close>

lemma total_add_exact:
  assumes "\<forall>y\<in>snd ` set m. on_grid k y" "on_grid k x"
    and "(sum_list (map abs (map snd m)) + \<bar>x\<bar>) * 10 ^ k \<le> 10 ^ 28"
  shows "(\<forall>y\<in>snd ` set (total_add j x m). on_grid k y) \<and> sum_list (map snd (total_add j x m)) = sum_list (map snd m) + x \<and>
    sum_list (map abs (map snd (total_add j x m))) \<le> sum_list (map abs (map snd m)) + \<bar>x\<bar>"
  using assms
proof (induction j x m rule: total_add.induct)
  case (1 j x)
  then show ?case by (simp add: dadd_def fix28_exact[of k])
next
  case (2 j x i y rest)
  have nn: "0 \<le> sum_list (map abs (map snd rest))" by (rule sum_list_map_nonneg) simp
  show ?case
  proof (cases "i = j")
    case True
    have "\<bar>y + x\<bar> \<le> sum_list (map abs (map snd ((i, y) # rest))) + \<bar>x\<bar>" using nn by (auto intro: order_trans[OF abs_triangle_ineq])
    then have "\<bar>y + x\<bar> * 10 ^ k \<le> 10 ^ 28"
      using 2(4) by (meson mult_right_mono order_trans zero_le_numeral zero_le_power)
    moreover have "on_grid k (y + x)" using 2(2,3) by auto
    ultimately have "dadd y x = y + x" unfolding dadd_def by (metis fix28_exact)
    then show ?thesis using True 2(2,3) by (auto simp: algebra_simps intro: order_trans[OF abs_triangle_ineq])
  next
    case False
    have "(sum_list (map abs (map snd rest)) + \<bar>x\<bar>) * 10 ^ k \<le> (sum_list (map abs (map snd ((i, y) # rest))) + \<bar>x\<bar>) * 10 ^ k"
      by (intro mult_right_mono) simp_all
    with 2(4) have "(sum_list (map abs (map snd rest)) + \<bar>x\<bar>) * 10 ^ k \<le> 10 ^ 28" by (rule order_trans[rotated])
    with 2(1)[OF False] 2(2,3) False show ?thesis by simp
  qed
qed

lemma total_fold_exact:
  assumes "\<forall>r\<in>set rs. on_grid k (g r)" "sum_list (map (\<lambda>r. \<bar>g r\<bar>) rs) * 10 ^ k \<le> 10 ^ 28"
  shows "dsum (map snd (foldl (\<lambda>m r. total_add (f r) (g r) m) [] rs)) = sum_list (map g rs)"
proof -
  let ?T = "foldl (\<lambda>m r. total_add (f r) (g r) m) [] rs"
  have "(\<forall>y\<in>snd ` set ?T. on_grid k y) \<and> sum_list (map snd ?T) = sum_list (map g rs) \<and>
      sum_list (map abs (map snd ?T)) \<le> sum_list (map (\<lambda>r. \<bar>g r\<bar>) rs)"
    using assms(1,2)
  proof (induction rs rule: rev_induct)
    case (snoc r rs)
    let ?m = "foldl (\<lambda>m r. total_add (f r) (g r) m) [] rs"
    have "sum_list (map (\<lambda>r. \<bar>g r\<bar>) rs) * 10 ^ k \<le> sum_list (map (\<lambda>r. \<bar>g r\<bar>) (rs @ [r])) * 10 ^ k"
      by (intro mult_right_mono) simp_all
    with snoc.prems(2) have "sum_list (map (\<lambda>r. \<bar>g r\<bar>) rs) * 10 ^ k \<le> 10 ^ 28" by (rule order_trans[rotated])
    with snoc have IH: "\<forall>y\<in>snd ` set ?m. on_grid k y" "sum_list (map snd ?m) = sum_list (map g rs)"
      "sum_list (map abs (map snd ?m)) \<le> sum_list (map (\<lambda>r. \<bar>g r\<bar>) rs)" by auto
    have "(sum_list (map abs (map snd ?m)) + \<bar>g r\<bar>) * 10 ^ k \<le> sum_list (map (\<lambda>r. \<bar>g r\<bar>) (rs @ [r])) * 10 ^ k"
      using IH(3) by (intro mult_right_mono) simp_all
    with snoc.prems(2) have "(sum_list (map abs (map snd ?m)) + \<bar>g r\<bar>) * 10 ^ k \<le> 10 ^ 28" by (rule order_trans[rotated])
    with total_add_exact[OF IH(1) _ this, of "f r"] snoc.prems(1) IH(2,3) show ?case by simp
  qed simp
  note T = this[THEN conjunct1] this[THEN conjunct2, THEN conjunct1] this[THEN conjunct2, THEN conjunct2]
  have "sum_list (map abs (map snd ?T)) * 10 ^ k \<le> sum_list (map (\<lambda>r. \<bar>g r\<bar>) rs) * 10 ^ k"
    using T(3) by (intro mult_right_mono) simp_all
  then have le: "sum_list (map abs (map snd ?T)) * 10 ^ k \<le> 10 ^ 28" using assms(2) by (rule order_trans)
  have "dsum (map snd ?T) = sum_list (map snd ?T)"
    by (rule dsum_exact[OF _ le]) (use T(1) in auto)
  with T(2) show ?thesis by simp
qed

section \<open>The net asset value\<close>

lemma abs_le_total:
  fixes f :: "'r \<Rightarrow> rat"
  shows "r \<in> set rs \<Longrightarrow> \<bar>f r\<bar> \<le> (\<Sum>r\<leftarrow>rs. \<bar>f r\<bar>)"
proof (induction rs)
  case (Cons q rs)
  have "0 \<le> (\<Sum>r\<leftarrow>rs. \<bar>f r\<bar>)" by (rule sum_list_map_nonneg) simp
  with Cons show ?case by auto
qed simp

lemma fix28_small: "on_grid 8 x \<Longrightarrow> \<bar>x\<bar> \<le> 10 ^ 20 \<Longrightarrow> fix28 x = x"
  by (rule fix28_exact[of 8]) simp_all



end
