(* ===== verification/CorpActions.thy ===== *)
theory CorpActions
  imports Ledger
begin

text \<open>
  Corporate actions (\<open>app/modules/corporate_actions\<close>): the adjustments an action calls for, the table of
  processed actions, and the service that fetches actions, publishes what they do to a portfolio and
  records them.  The service reads the positions of the read model; what it publishes on
  \<open>trades.executed\<close> reaches the trade handler of \<open>PositionStore\<close>.  The vendor's feed is a parameter.
\<close>

section \<open>Actions and adjustments\<close>

datatype action_type = Dividend | StockSplit | ReverseSplit | Spinoff | Merger
datatype processing_status = ActionPending | ActionProcessed | ActionFailed | ActionSkipped

fun action_name :: "action_type \<Rightarrow> string" where
  "action_name Dividend = ''dividend''"
| "action_name StockSplit = ''stock_split''"
| "action_name ReverseSplit = ''reverse_split''"
| "action_name Spinoff = ''spinoff''"
| "action_name Merger = ''merger''"

definition parse_action :: "string \<Rightarrow> action_type option" where
  "parse_action x = List.find (\<lambda>t. action_name t = x) [Dividend, StockSplit, ReverseSplit, Spinoff, Merger]"

fun processing_name :: "processing_status \<Rightarrow> string" where
  "processing_name ActionPending = ''pending''"
| "processing_name ActionProcessed = ''processed''"
| "processing_name ActionFailed = ''failed''"
| "processing_name ActionSkipped = ''skipped''"

record corp_action =
  co_id :: string
  co_instrument :: string
  co_type :: string
  co_ex :: date
  co_amount :: "dec option"
  co_currency :: string

record adjustment =
  aj_instrument :: string
  aj_quantity :: dec
  aj_basis :: dec
  aj_cash :: dec

definition amount_or :: "corp_action \<Rightarrow> dec \<Rightarrow> dec" where
  \<comment> \<open>\<open>action.amount or default\<close>: zero counts as missing\<close>
  "amount_or a other = (case co_amount a of None \<Rightarrow> other | Some x \<Rightarrow> if x = 0 then other else x)"

definition split_ratio :: "corp_action \<Rightarrow> dec" where
  "split_ratio a = (case co_amount a of None \<Rightarrow> 1 | Some x \<Rightarrow> if 0 < x then x else 1)"

definition dividend_adj :: "corp_action \<Rightarrow> dec \<Rightarrow> adjustment list" where
  "dividend_adj a q = [\<lparr>aj_instrument = co_instrument a, aj_quantity = 0, aj_basis = 0,
     aj_cash = dmul q (amount_or a 0)\<rparr>]"

definition stock_split_adj :: "corp_action \<Rightarrow> dec \<Rightarrow> dec \<Rightarrow> adjustment list" where
  "stock_split_adj a q cb = (let ratio = split_ratio a
     in [\<lparr>aj_instrument = co_instrument a, aj_quantity = dmul q (dsub ratio 1),
          aj_basis = dmul cb (dsub (ddiv 1 ratio) 1), aj_cash = 0\<rparr>])"

definition reverse_split_adj :: "corp_action \<Rightarrow> dec \<Rightarrow> dec \<Rightarrow> adjustment list" where
  "reverse_split_adj a q cb = (let ratio = split_ratio a
     in [\<lparr>aj_instrument = co_instrument a, aj_quantity = dmul q (dsub (ddiv 1 ratio) 1),
          aj_basis = dmul cb (dsub ratio 1), aj_cash = 0\<rparr>])"

definition spinoff_adj :: "corp_action \<Rightarrow> dec \<Rightarrow> dec \<Rightarrow> adjustment list" where
  "spinoff_adj a q cb = (let allocated = dmul cb (amount_or a (2 / 10))
     in [\<lparr>aj_instrument = co_instrument a, aj_quantity = 0, aj_basis = dneg allocated, aj_cash = 0\<rparr>,
         \<lparr>aj_instrument = co_instrument a @ ''-SPINOFF'', aj_quantity = q, aj_basis = allocated, aj_cash = 0\<rparr>])"

definition merger_adj :: "corp_action \<Rightarrow> dec \<Rightarrow> dec \<Rightarrow> adjustment list" where
  "merger_adj a q cb = [\<lparr>aj_instrument = co_instrument a, aj_quantity = dneg q, aj_basis = dneg cb,
     aj_cash = dmul q (amount_or a 0)\<rparr>]"

definition compute_adjustments :: "corp_action \<Rightarrow> dec \<Rightarrow> dec \<Rightarrow> adjustment list res" where
  "compute_adjustments a q cb = (case parse_action (co_type a) of
     None \<Rightarrow> Inl ValueError
   | Some ty \<Rightarrow> Inr (if q = 0 then []
       else case ty of
         Dividend \<Rightarrow> dividend_adj a q
       | StockSplit \<Rightarrow> stock_split_adj a q cb
       | ReverseSplit \<Rightarrow> reverse_split_adj a q cb
       | Spinoff \<Rightarrow> spinoff_adj a q cb
       | Merger \<Rightarrow> merger_adj a q cb))"

section \<open>Processed actions\<close>

record action_row =
  cr_id :: uuid
  cr_action :: string
  cr_instrument :: string
  cr_type :: string
  cr_ex :: date
  cr_status :: processing_status
  cr_adjustments :: "adjustment list option"
  cr_error :: "exn option"

text \<open>The tables of the positions schema: the processed actions and what the position module keeps.\<close>

record action_tables =
  ct_rows :: "action_row list"
  ct_store :: store

definition get_by_action_id :: "string \<Rightarrow> 'a action_tables_scheme \<Rightarrow> action_row option" where
  "get_by_action_id i t = find_row cr_action i (ct_rows t)"

definition insert_action :: "action_row \<Rightarrow> ('a action_tables_scheme, action_row) op" where
  "insert_action r = bindS (readT (\<lambda>t. find_row cr_id (cr_id r) (ct_rows t) \<noteq> None \<or> get_by_action_id (cr_action r) t \<noteq> None))
     (\<lambda>clash. if clash then raiseS IntegrityError
      else thenS (writeT (\<lambda>t. t\<lparr>ct_rows := ct_rows t @ [r]\<rparr>)) (thenS commit (retS r)))"

definition get_pending :: "string option \<Rightarrow> 'a action_tables_scheme \<Rightarrow> action_row list" where
  "get_pending i t = rev (filter (\<lambda>r. cr_status r = ActionPending \<and> (i = None \<or> i = Some (cr_instrument r))) (ct_rows t))"

record processed_action =
  pa_id :: uuid
  pa_action :: string
  pa_instrument :: string
  pa_type :: action_type
  pa_ex :: date
  pa_status :: processing_status
  pa_error :: "exn option"

definition to_processed_action :: "action_row \<Rightarrow> processed_action res" where
  \<comment> \<open>\<open>ActionType(record.action_type)\<close> raises on a type the enumeration does not have\<close>
  "to_processed_action r = (case parse_action (cr_type r) of
     None \<Rightarrow> Inl ValueError
   | Some ty \<Rightarrow> Inr \<lparr>pa_id = cr_id r, pa_action = cr_action r, pa_instrument = cr_instrument r, pa_type = ty,
       pa_ex = cr_ex r, pa_status = cr_status r, pa_error = cr_error r\<rparr>)"

section \<open>The service\<close>

definition position_figures :: "uuid \<Rightarrow> string \<Rightarrow> 'a action_tables_scheme \<Rightarrow> dec \<times> dec" where
  "position_figures p i t = (case find_row cp_id (p, i) (st_positions (ct_store t)) of
     None \<Rightarrow> (0, 0) | Some r \<Rightarrow> (cp_quantity r, cp_cost_basis r))"

definition record_of :: "corp_action \<Rightarrow> processing_status \<Rightarrow> adjustment list option \<Rightarrow> exn option \<Rightarrow> uuid \<Rightarrow> action_row" where
  "record_of a st adjs e i = \<lparr>cr_id = i, cr_action = co_id a, cr_instrument = co_instrument a, cr_type = co_type a,
     cr_ex = co_ex a, cr_status = st, cr_adjustments = adjs, cr_error = e\<rparr>"

definition publish_adjustment ::
  "ledger_env \<Rightarrow> string \<Rightarrow> uuid \<Rightarrow> corp_action \<Rightarrow> action_type \<Rightarrow> adjustment \<Rightarrow> ('a action_tables_scheme, unit) op" where
  "publish_adjustment en fund p a ty adj =
     thenS (if aj_quantity adj = 0 then retS ()
            else bindS (new_uuid en) (\<lambda>tid. emit en (fund_topic fund ''trades.executed'')
                   (CorporateTrade (action_name ty) p (aj_instrument adj) (if 0 < aj_quantity adj then ''buy'' else ''sell'')
                      (dabs (aj_quantity adj)) tid (co_currency a) (co_id a))))
       (if aj_cash adj = 0 then retS ()
        else emit en (fund_topic fund ''cash.settlement.created'')
               (CorporateCash (action_name ty) p (aj_instrument adj) (aj_cash adj) (co_currency a) (co_id a)))"

definition process_single ::
  "ledger_env \<Rightarrow> string \<Rightarrow> uuid \<Rightarrow> corp_action \<Rightarrow> ('a action_tables_scheme, processed_action) op" where
  "process_single en fund p a = bindS (readT (get_by_action_id (co_id a))) (\<lambda>existing. case existing of
       Some r \<Rightarrow> liftS (to_processed_action r)
     | None \<Rightarrow> bindS (readT (position_figures p (co_instrument a))) (\<lambda>(q, cb).
         case parse_action (co_type a) of
           None \<Rightarrow> bindS (new_uuid en) (\<lambda>i. bindS (insert_action (record_of a ActionFailed None (Some ValueError) i))
                     (\<lambda>r. liftS (to_processed_action r)))
         | Some ty \<Rightarrow> (case compute_adjustments a q cb of
             Inl e \<Rightarrow> bindS (new_uuid en) (\<lambda>i. bindS (insert_action (record_of a ActionFailed None (Some e) i))
                       (\<lambda>r. liftS (to_processed_action r)))
           | Inr adjs \<Rightarrow>
               let status = (if adjs = [] then ActionSkipped else ActionProcessed)
               in thenS (forS (publish_adjustment en fund p a ty) adjs)
                 (bindS (new_uuid en) (\<lambda>i.
                  bindS (insert_action (record_of a status (if adjs = [] then None else Some adjs) None i)) (\<lambda>r.
                  thenS (emit en (fund_topic fund ''corporate_actions.processed'')
                           (CorporateProcessed (co_id a) (co_instrument a) (co_type a) (processing_name status)))
                    (liftS (to_processed_action r))))))))"

definition fetch_and_process ::
  "ledger_env \<Rightarrow> (date \<Rightarrow> date \<Rightarrow> corp_action list res) \<Rightarrow> string \<Rightarrow> uuid \<Rightarrow> date \<Rightarrow> date
     \<Rightarrow> ('a action_tables_scheme, processed_action list) op" where
  "fetch_and_process en feed fund p start stop =
     bindS (liftS (feed start stop)) (\<lambda>actions. mapS (process_single en fund p) actions)"

definition list_processed :: "('a action_tables_scheme, processed_action list) op" where
  "list_processed = bindS (readT (\<lambda>t. rev (ct_rows t))) (\<lambda>rs. liftS (mapE to_processed_action rs))"

section \<open>What the trade handler receives\<close>

definition decoded_trade :: "(string \<Rightarrow> uuid option) \<Rightarrow> string \<Rightarrow> ledger_event \<Rightarrow> bus_event option" where
  \<comment> \<open>the event with \<open>source = corporate_action\<close>; its identifier must be that of a \<open>UUID\<close>\<close>
  "decoded_trade uid fund ev = (case ev of
     CorporateTrade ty p i side q tid ccy aid \<Rightarrow> (case uid aid of None \<Rightarrow> None
       | Some k \<Rightarrow> Some \<lparr>be_type = ''corporate_action.'' @ ty,
           be_data = ActionMsg \<lparr>am_portfolio = p, am_instrument = i, am_action_id = Some k, am_currency = Some ccy,
             am_quantity = Some q\<rparr>, be_actor = None, be_fund = Some fund\<rparr>)
   | _ \<Rightarrow> None)"

end
