(* ===== verification/CorpActionsInv.thy ===== *)
theory CorpActionsInv
  imports CorpActions CashInv
begin

text \<open>
  What processing a corporate action does: the adjustments conserve shares and cost, an action is
  processed once, and what reaches the positions when the trade handler receives what was published.
\<close>

section \<open>Adjustments\<close>

lemma parse_action_iff: "parse_action x = Some ty \<longleftrightarrow> x = action_name ty"
  by (cases ty) (auto simp: parse_action_def)

lemma amount_or_cases: "amount_or a other = other \<or> co_amount a = Some (amount_or a other)"
  by (auto simp: amount_or_def split: option.split)

lemma compute_by_type:
  assumes "co_type a = action_name ty" "q \<noteq> 0"
  shows "compute_adjustments a q cb = Inr (case ty of Dividend \<Rightarrow> dividend_adj a q
     | StockSplit \<Rightarrow> stock_split_adj a q cb | ReverseSplit \<Rightarrow> reverse_split_adj a q cb
     | Spinoff \<Rightarrow> spinoff_adj a q cb | Merger \<Rightarrow> merger_adj a q cb)"
  using assms by (simp add: compute_adjustments_def parse_action_iff[THEN iffD2])

text \<open>Adjustments conserve what they should.  For a holding that the context represents exactly, a
  merger takes out all the shares and all the cost; a spinoff moves cost from the parent to a child
  with as many shares, creating and losing none; a dividend changes neither; nothing is adjusted for
  an empty position; and only a dividend and a merger pay cash.
\<close>

theorem adjustments_conserve:
  assumes "compute_adjustments a q cb = Inr adjs" "fix28 q = q" "fix28 cb = cb"
  shows "(q = 0 \<longrightarrow> adjs = []) \<and>
    (co_type a = ''merger'' \<and> q \<noteq> 0 \<longrightarrow> q + (\<Sum>x\<leftarrow>adjs. aj_quantity x) = 0 \<and> cb + (\<Sum>x\<leftarrow>adjs. aj_basis x) = 0) \<and>
    (co_type a = ''spinoff'' \<longrightarrow> (\<Sum>x\<leftarrow>adjs. aj_basis x) = 0 \<and> (\<Sum>x\<leftarrow>adjs. aj_quantity x) = q) \<and>
    (co_type a = ''dividend'' \<longrightarrow> list_all (\<lambda>x. aj_quantity x = 0 \<and> aj_basis x = 0) adjs) \<and>
    (co_type a \<notin> {''dividend'', ''merger''} \<longrightarrow> list_all (\<lambda>x. aj_cash x = 0) adjs)"
proof -
  have ty: "\<exists>ty. co_type a = action_name ty"
    using assms(1) by (auto simp: compute_adjustments_def parse_action_iff split: option.splits)
  have neg: "dneg x = - x" if "fix28 x = x" for x using that by (simp add: dneg_def)
  have idem: "fix28 (dmul x y) = dmul x y" for x y by (simp add: dmul_def fix28_idem)
  show ?thesis
  proof (cases "q = 0")
    case True
    then show ?thesis using assms(1) by (auto simp: compute_adjustments_def split: option.splits)
  next
    case False
    from ty obtain t where t: "co_type a = action_name t" by blast
    have adjs: "adjs = (case t of Dividend \<Rightarrow> dividend_adj a q | StockSplit \<Rightarrow> stock_split_adj a q cb
      | ReverseSplit \<Rightarrow> reverse_split_adj a q cb | Spinoff \<Rightarrow> spinoff_adj a q cb | Merger \<Rightarrow> merger_adj a q cb)"
      using assms(1) compute_by_type[OF t False, of cb] by simp
    show ?thesis using False neg[OF assms(2)] neg[OF assms(3)] neg[OF idem]
      by (cases t) (simp_all add: t adjs dividend_adj_def stock_split_adj_def reverse_split_adj_def spinoff_adj_def
          merger_adj_def Let_def)
  qed
qed

theorem adjustments_conserve_witness:
  "\<exists>adjs. compute_adjustments \<lparr>co_id = ''s1'', co_instrument = ''AAPL'', co_type = ''spinoff'', co_ex = 738886,
       co_amount = None, co_currency = ''USD''\<rparr> 100 1000 = Inr adjs \<and>
     (\<Sum>x\<leftarrow>adjs. aj_basis x) = 0 \<and> (\<Sum>x\<leftarrow>adjs. aj_quantity x) = 100"
proof -
  let ?a = "\<lparr>co_id = ''s1'', co_instrument = ''AAPL'', co_type = ''spinoff'', co_ex = 738886, co_amount = None, co_currency = ''USD''\<rparr>"
  have ty: "co_type ?a = action_name Spinoff" by simp
  note run = compute_by_type[OF ty, of 100 1000]
  from adjustments_conserve[of ?a 100 1000] run show ?thesis by (simp add: fix28_exact[of 0])
qed

section \<open>Processing\<close>

lemma publish_frame: "keeps (\<lambda>s. ss_work s = w) (publish_adjustment en fund p a ty adj)"
proof -
  have e: "keeps (\<lambda>s. ss_work s = w) (emit en topic ev)" for topic ev
    by (auto simp: triple_def emit_def split: option.split)
  have n: "keeps (\<lambda>s. ss_work s = w) (new_uuid en)" by (simp add: triple_def)
  show ?thesis unfolding publish_adjustment_def by (intro keeps_then keeps_if keeps_bind keeps_basic e n)
qed

lemma insert_records:
  assumes "insert_action r s = (s', Inr q)"
  shows "q = r \<and> ct_rows (ss_work s') = ct_rows (ss_work s) @ [r] \<and> ct_store (ss_work s') = ct_store (ss_work s) \<and>
    get_by_action_id (cr_action r) (ss_work s) = None \<and> ss_events s' = ss_events s"
  using assms by (auto simp: insert_action_def split: if_splits)

lemma recorded_action:
  assumes "insert_action r s = (s', Inr q)"
  shows "get_by_action_id (cr_action r) (ss_work s') = Some r"
  using insert_records[OF assms] by (simp add: get_by_action_id_def find_row_append)

text \<open>After a run that returned, the action is in the table and has a known type.\<close>

lemma processed_is_recorded:
  assumes "process_single en fund p a s = (s', Inr res)"
  shows "\<exists>r. get_by_action_id (co_id a) (ss_work s') = Some r \<and> to_processed_action r = Inr res"
proof (cases "get_by_action_id (co_id a) (ss_work s)")
  case (Some r)
  then show ?thesis using assms by (auto simp: process_single_def)
next
  case None
  obtain q cb where qc: "position_figures p (co_instrument a) (ss_work s) = (q, cb)" by (rule prod.exhaust)
  have failed: "\<exists>r. get_by_action_id (co_id a) (ss_work s') = Some r \<and> to_processed_action r = Inr res"
    if "bindS (new_uuid en) (\<lambda>i. bindS (insert_action (record_of a st adjs e i)) (\<lambda>r. liftS (to_processed_action r))) s = (s', Inr res)"
    for st adjs e
  proof -
    from that obtain t i where "bindS (insert_action (record_of a st adjs e i)) (\<lambda>r. liftS (to_processed_action r)) t = (s', Inr res)"
      by (rule bindS_InrE)
    then obtain u r where ins: "insert_action (record_of a st adjs e i) t = (u, Inr r)" "liftS (to_processed_action r) u = (s', Inr res)"
      by (rule bindS_InrE)
    with recorded_action[OF ins(1)] insert_records[OF ins(1)] show ?thesis by (auto simp: record_of_def)
  qed
  show ?thesis
  proof (cases "parse_action (co_type a)")
    case None': None
    then show ?thesis using assms None qc by (intro failed) (simp add: process_single_def)
  next
    case (Some ty)
    show ?thesis
    proof (cases "compute_adjustments a q cb")
      case (Inl e)
      then show ?thesis using assms None qc Some by (intro failed) (simp add: process_single_def)
    next
      case (Inr adjs)
      let ?row = "record_of a (if adjs = [] then ActionSkipped else ActionProcessed) (if adjs = [] then None else Some adjs) None"
      let ?tail = "bindS (new_uuid en) (\<lambda>i. bindS (insert_action (?row i)) (\<lambda>r.
         thenS (emit en (fund_topic fund ''corporate_actions.processed'')
           (CorporateProcessed (co_id a) (co_instrument a) (co_type a) (processing_name (if adjs = [] then ActionSkipped else ActionProcessed))))
          (liftS (to_processed_action r))))"
      have "thenS (forS (publish_adjustment en fund p a ty) adjs) ?tail s = (s', Inr res)"
        using assms None qc Some Inr by (simp add: process_single_def Let_def)
      then obtain s1 where "?tail s1 = (s', Inr res)" by (rule thenS_InrE)
      then obtain s2 i where "bindS (insert_action (?row i)) (\<lambda>r.
         thenS (emit en (fund_topic fund ''corporate_actions.processed'')
           (CorporateProcessed (co_id a) (co_instrument a) (co_type a) (processing_name (if adjs = [] then ActionSkipped else ActionProcessed))))
          (liftS (to_processed_action r))) s2 = (s', Inr res)"
        by (rule bindS_InrE)
      then obtain s3 r where ins: "insert_action (?row i) s2 = (s3, Inr r)"
        and rest: "thenS (emit en (fund_topic fund ''corporate_actions.processed'')
           (CorporateProcessed (co_id a) (co_instrument a) (co_type a) (processing_name (if adjs = [] then ActionSkipped else ActionProcessed))))
          (liftS (to_processed_action r)) s3 = (s', Inr res)"
        by (rule bindS_InrE)
      have "ss_work s' = ss_work s3" "to_processed_action r = Inr res"
        using rest by (auto simp: thenS_def bindS_def dest: emit_work split: prod.splits sum.splits)
      then show ?thesis using recorded_action[OF ins] insert_records[OF ins] by (auto simp: record_of_def)
    qed
  qed
qed

text \<open>C27. An action is processed once, for one portfolio.  After an action has been processed, processing it
  again, for the same portfolio or for any other and whatever it holds, publishes nothing, changes
  nothing and reports the first result: repeated fetches are harmless, and of the portfolios of a
  fund that hold the instrument only the first has its position adjusted.
\<close>

theorem action_processed_once:
  assumes "process_single en fund p a s = (s', Inr res)"
    and "ct_rows (ss_work t) = ct_rows (ss_work s')" "co_id b = co_id a"
  shows "process_single en fund' p' b t = (t, Inr res)"
proof -
  obtain r where r: "get_by_action_id (co_id a) (ss_work s') = Some r" "to_processed_action r = Inr res"
    using processed_is_recorded[OF assms(1)] by blast
  then have "get_by_action_id (co_id b) (ss_work t) = Some r"
    using assms(2,3) by (simp add: get_by_action_id_def)
  with r(2) show ?thesis by (simp add: process_single_def)
qed

text \<open>One unknown type stops a feed for good.  An action whose type the enumeration does not have is
  recorded as failed and then raises; from then on every fetch whose feed still contains it raises too,
  before any action that comes after it, and so does the list of processed actions.
\<close>

theorem unknown_action_blocks:
  assumes "parse_action (co_type a) = None" "get_by_action_id (co_id a) (ss_work s) = None"
    and "find_row cr_id (le_uuid en (ss_draws s)) (ct_rows (ss_work s)) = None"
    and "feed d1 d2 = Inr (a # rest)"
  shows "\<exists>s'. process_single en fund p a s = (s', Inl ValueError) \<and>
    fetch_and_process en feed fund' p' d1 d2 s' = (s', Inl ValueError) \<and>
    snd (list_processed s') = Inl ValueError"
proof -
  let ?r = "record_of a ActionFailed None (Some ValueError) (le_uuid en (ss_draws s))"
  let ?t = "(ss_work s)\<lparr>ct_rows := ct_rows (ss_work s) @ [?r]\<rparr>"
  let ?s' = "s\<lparr>ss_draws := Suc (ss_draws s), ss_work := ?t, ss_disk := ?t\<rparr>"
  have bad: "to_processed_action ?r = Inl ValueError" using assms(1) by (simp add: to_processed_action_def record_of_def)
  have fresh: "find_row cr_id (cr_id ?r) (ct_rows (ss_work s)) = None" "get_by_action_id (cr_action ?r) (ss_work s) = None"
    using assms(2,3) by (simp_all add: record_of_def)
  have run: "process_single en fund p a s = (?s', Inl ValueError)"
    using assms(1,2) fresh bad by (simp add: process_single_def insert_action_def case_prod_beta thenS_def bindS_def)
  have found: "get_by_action_id (co_id a) (ss_work ?s') = Some ?r"
    using assms(2) by (simp add: get_by_action_id_def find_row_append record_of_def)
  then have again: "process_single en fund' p' a ?s' = (?s', Inl ValueError)"
    using bad by (simp add: process_single_def)
  have "fetch_and_process en feed fund' p' d1 d2 ?s' = (?s', Inl ValueError)"
    using again by (simp add: fetch_and_process_def assms(4) bindS_def)
  moreover have "snd (list_processed ?s') = Inl ValueError"
    using bad by (simp add: list_processed_def bindE_def)
  ultimately show ?thesis using run by blast
qed

section \<open>What reaches the positions\<close>

text \<open>The trade handler on a quiet system, for a message of a corporate action.\<close>

lemma handled_action:
  assumes agg: "from_events (en_uuid5 pe) p i (get_by_aggregate st (p, i) None) = Inr pos"
    and quiet: "\<And>k s. en_others pe k s = s" "\<not> en_conflict pe 1"
    and key: "\<not> (truthy (Some (ca_key k p i)) \<and> has_idempotency_key st (ca_key k p i))"
    and ev: "be_data ev = ActionMsg \<lparr>am_portfolio = p, am_instrument = i, am_action_id = Some k, am_currency = Some ccy,
        am_quantity = Some x\<rparr>" "truthy (be_fund ev)" "0 < x"
  shows "\<exists>row. find_row cp_id (p, i) (st_positions (fst (handle_trade_event pe us ca_key fresh ev st))) = Some row \<and>
    cp_quantity row = (if contains_str ''split'' (be_type ev) then dmul (pos_quantity pos) x else pos_quantity pos) \<and>
    cp_realized row = (if contains_str ''split'' (be_type ev) then pos_realized pos else dadd (pos_realized pos) x)"
proof -
  let ?e = "corporate_event pe (be_type ev) \<lparr>am_portfolio = p, am_instrument = i, am_action_id = Some k,
      am_currency = Some ccy, am_quantity = Some x\<rparr> k"
  have ids: "pos_portfolio pos = p" "pos_instrument pos = i" using from_events_ids[OF agg] by simp_all
  have split: "ddivE l x = Inr (ddiv l x)" for l using ev(3) by (simp add: ddivE_def)
  have pure: "mapE (\<lambda>l. Inr (g l)) ls = Inr (map g ls)" for g :: "lot_state \<Rightarrow> lot_state" and ls
    by (rule mapE_pure) simp
  have "\<exists>a' ds. apply_event (en_uuid5 pe) pos ?e = Inr (a', ds) \<and>
      pos_quantity a' = (if contains_str ''split'' (be_type ev) then dmul (pos_quantity pos) x else pos_quantity pos) \<and>
      pos_realized a' = (if contains_str ''split'' (be_type ev) then pos_realized pos else dadd (pos_realized pos) x)"
    using ev(3) by (cases "contains_str ''split'' (be_type ev)")
      (simp_all add: corporate_event_def apply_event_def apply_split_def apply_dividend_def Let_def split pure)
  then obtain a' ds where app: "apply_event (en_uuid5 pe) pos ?e = Inr (a', ds)"
    and q: "pos_quantity a' = (if contains_str ''split'' (be_type ev) then dmul (pos_quantity pos) x else pos_quantity pos)"
      "pos_realized a' = (if contains_str ''split'' (be_type ev) then pos_realized pos else dadd (pos_realized pos) x)"
    by blast
  have ids': "pos_portfolio a' = p" "pos_instrument a' = i" using apply_event_ids[OF app] ids by simp_all
  have "attempt pe (p, i) ?e (Some (ca_key k p i)) ccy st = Inr (Some ds, project a' ccy
      (append_event (p, i) ?e (if truthy (Some (ca_key k p i)) then Some (ca_key k p i) else None) (en_created pe) st))"
    using key agg app by (simp add: attempt_def bindE_def)
  then have h: "fst (handle_trade_event pe us ca_key fresh ev st) = project a' ccy
      (append_event (p, i) ?e (if truthy (Some (ca_key k p i)) then Some (ca_key k p i) else None) (en_created pe) st)"
    using quiet ev(1,2) by (simp add: handle_trade_event_def apply_corporate_action_def numeral_3_eq_3 Let_def)
  show ?thesis unfolding h q[symmetric] using find_position_project[OF ids'] by blast
qed

lemma split_names: "contains_str ''split'' (''corporate_action.'' @ action_name ty) \<longleftrightarrow> ty \<in> {StockSplit, ReverseSplit}"
  by (cases ty) simp_all

text \<open>The message published for an action that adjusts shares.\<close>

lemma published_trade:
  assumes bus: "le_publish en = Some (\<lambda>_ _. None)" and ty: "co_type a = action_name ty"
    and adj: "compute_adjustments a (cp_quantity r) (cp_cost_basis r) = Inr [adj]" "aj_quantity adj \<noteq> 0"
    and row: "find_row cp_id (p, co_instrument a) (st_positions (ct_store (ss_work s))) = Some r"
    and new: "get_by_action_id (co_id a) (ss_work s) = None"
    and run: "process_single en fund p a s = (s', Inr res)"
  shows "\<exists>tid. (fund_topic fund ''trades.executed'', CorporateTrade (action_name ty) p (aj_instrument adj)
      (if 0 < aj_quantity adj then ''buy'' else ''sell'') (dabs (aj_quantity adj)) tid (co_currency a) (co_id a)) \<in> set (ss_events s')"
proof -
  have emit: "emit en t e u = (u\<lparr>ss_events := ss_events u @ [(t, e)]\<rparr>, Inr ())" for t e and u :: "'b action_tables_scheme session"
    by (simp add: emit_def bus)
  note run' = run[unfolded process_single_def, simplified new position_figures_def row ty parse_action_iff[THEN iffD2, OF refl] adj
      session_binds option.case prod.case Let_def sum.case]
  show ?thesis using run' adj(2)
    by (auto simp: publish_adjustment_def thenS_def bindS_def emit insert_action_def split: if_splits)
qed

text \<open>A handler on a quiet system that has not seen the action, and whose replay agrees with the read model.\<close>

definition ready_handler :: "env \<Rightarrow> (uuid \<Rightarrow> uuid \<Rightarrow> string \<Rightarrow> string) \<Rightarrow> uuid \<Rightarrow> uuid \<Rightarrow> string \<Rightarrow> store \<Rightarrow> position \<Rightarrow> bool" where
  "ready_handler pe ca_key k p i st pos \<longleftrightarrow>
     from_events (en_uuid5 pe) p i (get_by_aggregate st (p, i) None) = Inr pos \<and>
     (\<forall>k s. en_others pe k s = s) \<and> \<not> en_conflict pe 1 \<and> \<not> has_idempotency_key st (ca_key k p i)"

lemma consumed_action:
  assumes bus: "le_publish en = Some (\<lambda>_ _. None)" and ty: "co_type a = action_name ty"
    and adj: "compute_adjustments a (cp_quantity r) (cp_cost_basis r) = Inr [adj]" "aj_quantity adj \<noteq> 0"
      "aj_instrument adj = co_instrument a" "fix28 (aj_quantity adj) = aj_quantity adj"
    and row: "find_row cp_id (p, co_instrument a) (st_positions (ct_store (ss_work s))) = Some r"
    and new: "get_by_action_id (co_id a) (ss_work s) = None"
    and run: "process_single en fund p a s = (s', Inr res)"
    and handler: "uid (co_id a) = Some k" "fund \<noteq> ''''" "ready_handler pe ca_key k p (co_instrument a) st pos"
  shows "\<exists>ev m row'. (fund_topic fund ''trades.executed'', ev) \<in> set (ss_events s') \<and> decoded_trade uid fund ev = Some m \<and>
    find_row cp_id (p, co_instrument a) (st_positions (fst (handle_trade_event pe us ca_key fresh m st))) = Some row' \<and>
    cp_quantity row' = (if ty \<in> {StockSplit, ReverseSplit} then dmul (pos_quantity pos) \<bar>aj_quantity adj\<bar> else pos_quantity pos) \<and>
    cp_realized row' = (if ty \<in> {StockSplit, ReverseSplit} then pos_realized pos else dadd (pos_realized pos) \<bar>aj_quantity adj\<bar>)"
proof -
  obtain tid where ev: "(fund_topic fund ''trades.executed'', CorporateTrade (action_name ty) p (aj_instrument adj)
      (if 0 < aj_quantity adj then ''buy'' else ''sell'') (dabs (aj_quantity adj)) tid (co_currency a) (co_id a)) \<in> set (ss_events s')"
    using published_trade[OF bus ty adj(1,2) row new run] by blast
  have x: "dabs (aj_quantity adj) = \<bar>aj_quantity adj\<bar>" "0 < \<bar>aj_quantity adj\<bar>"
    using adj(2,4) by (auto simp: dabs_def abs_if)
  let ?m = "\<lparr>be_type = ''corporate_action.'' @ action_name ty, be_data = ActionMsg \<lparr>am_portfolio = p,
      am_instrument = co_instrument a, am_action_id = Some k, am_currency = Some (co_currency a),
      am_quantity = Some \<bar>aj_quantity adj\<bar>\<rparr>, be_actor = None, be_fund = Some fund\<rparr>"
  have m: "decoded_trade uid fund (CorporateTrade (action_name ty) p (aj_instrument adj)
      (if 0 < aj_quantity adj then ''buy'' else ''sell'') (dabs (aj_quantity adj)) tid (co_currency a) (co_id a)) = Some ?m"
    using handler(1) adj(3) x(1) by (simp add: decoded_trade_def)
  have h: "from_events (en_uuid5 pe) p (co_instrument a) (get_by_aggregate st (p, co_instrument a) None) = Inr pos"
    "\<And>k s. en_others pe k s = s" "\<not> en_conflict pe 1"
    "\<not> (truthy (Some (ca_key k p (co_instrument a))) \<and> has_idempotency_key st (ca_key k p (co_instrument a)))"
    using handler(3) by (auto simp: ready_handler_def)
  have "\<exists>row. find_row cp_id (p, co_instrument a) (st_positions (fst (handle_trade_event pe us ca_key fresh ?m st))) = Some row \<and>
    cp_quantity row = (if contains_str ''split'' (be_type ?m) then dmul (pos_quantity pos) \<bar>aj_quantity adj\<bar> else pos_quantity pos) \<and>
    cp_realized row = (if contains_str ''split'' (be_type ?m) then pos_realized pos else dadd (pos_realized pos) \<bar>aj_quantity adj\<bar>)"
    by (rule handled_action[where ca_key = ca_key and k = k and i = "co_instrument a" and pos = pos and ccy = "co_currency a"])
      (use h handler(2) x(2) in \<open>auto simp: truthy_def\<close>)
  with ev m show ?thesis unfolding bus_event.simps split_names by blast
qed


text \<open>A merger leaves the position and books its shares as income.  The message of a merger is not a
  split, so the handler takes it for a dividend of as much money as there are shares: the position
  keeps all of its shares, and the realised profit grows by their number.
\<close>

theorem merger_leaves_position:
  assumes bus: "le_publish en = Some (\<lambda>_ _. None)" and ty: "co_type a = ''merger''"
    and row: "find_row cp_id (p, co_instrument a) (st_positions (ct_store (ss_work s))) = Some r" "cp_quantity r \<noteq> 0"
      "fix28 (cp_quantity r) = cp_quantity r"
    and new: "get_by_action_id (co_id a) (ss_work s) = None"
    and run: "process_single en fund p a s = (s', Inr res)"
    and handler: "uid (co_id a) = Some k" "fund \<noteq> ''''" "ready_handler pe ca_key k p (co_instrument a) st pos"
  shows "\<exists>ev m row'. (fund_topic fund ''trades.executed'', ev) \<in> set (ss_events s') \<and> decoded_trade uid fund ev = Some m \<and>
    find_row cp_id (p, co_instrument a) (st_positions (fst (handle_trade_event pe us ca_key fresh m st))) = Some row' \<and>
    cp_quantity row' = pos_quantity pos \<and> cp_realized row' = dadd (pos_realized pos) \<bar>cp_quantity r\<bar>"
proof -
  have t: "co_type a = action_name Merger" using ty by simp
  let ?adj = "hd (merger_adj a (cp_quantity r) (cp_cost_basis r))"
  have adj: "compute_adjustments a (cp_quantity r) (cp_cost_basis r) = Inr [?adj]" "aj_quantity ?adj \<noteq> 0"
    "aj_instrument ?adj = co_instrument a" "fix28 (aj_quantity ?adj) = aj_quantity ?adj" "\<bar>aj_quantity ?adj\<bar> = \<bar>cp_quantity r\<bar>"
    using compute_by_type[OF t row(2)] row(2,3) by (simp_all add: merger_adj_def dneg_def)
  from consumed_action[where uid = uid and ca_key = ca_key and us = us and fresh = fresh, OF bus t adj(1-4) row(1) new run handler] show ?thesis
    unfolding adj(5) by auto
qed

section \<open>An example\<close>

definition demo_action :: "string \<Rightarrow> corp_action" where
  "demo_action ty = \<lparr>co_id = ''a1'', co_instrument = ''AAPL'', co_type = ty, co_ex = 738886, co_amount = Some 2,
     co_currency = ''USD''\<rparr>"

definition demo_env :: env where
  "demo_env = quiet_env (\<lambda>x _. x) 5"

definition demo_bought :: store where
  "demo_bought = fst (apply_trade demo_env 1 ''AAPL'' Buy 100 10 ''USD'' 3 None empty_store)"

definition demo_tables :: "store \<Rightarrow> action_tables session" where
  "demo_tables st = (let t = \<lparr>ct_rows = [], ct_store = st\<rparr> in \<lparr>ss_work = t, ss_disk = t, ss_events = [], ss_draws = 0\<rparr>)"

lemma demo_holding:
  obtains pos r where "ready_handler demo_env (\<lambda>_ _ _. ''ca'') 9 1 ''AAPL'' demo_bought pos" "pos_quantity pos = 100"
    "find_row cp_id (1, ''AAPL'') (st_positions demo_bought) = Some r" "cp_quantity r = 100"
proof -
  let ?d = "\<lparr>td_portfolio = 1, td_instrument = ''AAPL'', td_side = Buy, td_quantity = 100, td_price = 10, td_trade_id = 3,
      td_currency = ''USD''\<rparr> :: trade_event_data"
  have nil: "from_events (\<lambda>x _. x) 1 ''AAPL'' (get_by_aggregate empty_store (1, ''AAPL'') None) = Inr (empty_position 1 ''AAPL'')"
    by (simp add: from_events_def get_by_aggregate_def empty_store_def)
  have run: "apply_trade demo_env 1 ''AAPL'' Buy 100 10 ''USD'' 3 None empty_store =
    (project (fst (apply_buy (\<lambda>x _. x) (empty_position 1 ''AAPL'') ?d 5)) ''USD''
       (append_event (1, ''AAPL'') \<lparr>ev_type = TRADE_BUY, ev_timestamp = 5, ev_data = TradeData ?d\<rparr> None 5 empty_store),
     Inr (Some (snd (apply_buy (\<lambda>x _. x) (empty_position 1 ''AAPL'') ?d 5))))"
    unfolding demo_env_def by (subst quiet_buy[OF nil _ refl]) (simp_all add: truthy_def)
  have oth: "\<And>k s. log_inv s \<Longrightarrow> log_inv (en_others demo_env k s)" by (simp add: demo_env_def quiet_env_def)
  let ?a = "fst (apply_buy (\<lambda>x _. x) (empty_position 1 ''AAPL'') ?d 5)"
  have a: "pos_portfolio ?a = 1" "pos_instrument ?a = ''AAPL''" "pos_quantity ?a = 100"
    by (simp_all add: apply_buy_def Let_def empty_position_def dadd_def exact_simps)
  have st: "demo_bought = project ?a ''USD''
       (append_event (1, ''AAPL'') \<lparr>ev_type = TRADE_BUY, ev_timestamp = 5, ev_data = TradeData ?d\<rparr> None 5 empty_store)"
    unfolding demo_bought_def run by simp
  obtain r where r: "find_row cp_id (1, ''AAPL'') (st_positions demo_bought) = Some r" "cp_quantity r = 100"
    using find_position_project[OF a(1,2)] a(3) unfolding st by metis
  have ev: "get_by_aggregate demo_bought (1, ''AAPL'') None = [\<lparr>ev_type = TRADE_BUY, ev_timestamp = 5, ev_data = TradeData ?d\<rparr>]"
    by (simp add: st get_by_aggregate_def append_event_def empty_store_def deserialize_row_def)
  have rep: "from_events (\<lambda>x _. x) 1 ''AAPL'' (get_by_aggregate demo_bought (1, ''AAPL'') None) = Inr ?a"
    unfolding ev by (simp add: from_events_def replay_step_def apply_event_def bindE_def split: prod.splits)
  have key: "\<not> has_idempotency_key demo_bought ''ca''"
    by (simp add: st has_idempotency_key_def append_event_def empty_store_def)
  have "ready_handler demo_env (\<lambda>_ _ _. ''ca'') 9 1 ''AAPL'' demo_bought ?a"
    using rep key by (simp add: ready_handler_def demo_env_def quiet_env_def)
  from that[OF this a(3) r] show thesis .
qed

lemma demo_figures:
  assumes "find_row cp_id (1, ''AAPL'') (st_positions demo_bought) = Some r" "cp_quantity r = 100" "ty \<in> {StockSplit, Merger}"
  shows "\<exists>s' res. process_single demo_ledger ''alpha'' 1 (demo_action (action_name ty)) (demo_tables demo_bought) = (s', Inr res)"
proof -
  let ?a = "demo_action (action_name ty)"
  have t: "co_type ?a = action_name ty" by (simp add: demo_action_def)
  have emit: "emit demo_ledger tp e u = (u\<lparr>ss_events := ss_events u @ [(tp, e)]\<rparr>, Inr ())" for tp e and u :: "action_tables session"
    by (simp add: emit_def demo_ledger_def)
  have new: "get_by_action_id (co_id ?a) (ss_work (demo_tables demo_bought)) = None"
    by (simp add: get_by_action_id_def demo_tables_def Let_def)
  have pos: "position_figures 1 (co_instrument ?a) (ss_work (demo_tables demo_bought)) = (100, cp_cost_basis r)"
    using assms(1,2) by (simp add: position_figures_def demo_tables_def demo_action_def Let_def)
  obtain adj where adj: "compute_adjustments ?a 100 (cp_cost_basis r) = Inr [adj]"
    using compute_by_type[OF t, of 100 "cp_cost_basis r"] assms(3)
    by (auto simp: stock_split_adj_def merger_adj_def Let_def)
  have parse: "parse_action (co_type ?a) = Some ty" using t parse_action_iff by blast
  have ok: "to_processed_action (record_of ?a st x e i) = Inr \<lparr>pa_id = i, pa_action = ''a1'', pa_instrument = ''AAPL'',
      pa_type = ty, pa_ex = 738886, pa_status = st, pa_error = e\<rparr>" for st x e i
    using parse by (simp add: to_processed_action_def record_of_def demo_action_def)
  show ?thesis
    unfolding process_single_def Let_def
    by (simp add: new pos parse adj ok thenS_def bindS_def publish_adjustment_def emit insert_action_def)
      (simp add: demo_tables_def Let_def get_by_action_id_def)
qed

theorem action_processed_once_witness:
  "\<exists>s' res. process_single demo_ledger ''alpha'' 1 (demo_action ''stock_split'') (demo_tables demo_bought) = (s', Inr res) \<and>
     process_single demo_ledger ''alpha'' 2 (demo_action ''stock_split'') s' = (s', Inr res)"
proof -
  obtain pos r where "find_row cp_id (1, ''AAPL'') (st_positions demo_bought) = Some r" "cp_quantity r = 100"
    by (rule demo_holding) blast
  from demo_figures[OF this, of StockSplit] obtain s' res where
    run: "process_single demo_ledger ''alpha'' 1 (demo_action ''stock_split'') (demo_tables demo_bought) = (s', Inr res)" by auto
  from action_processed_once[OF run refl refl] run show ?thesis by blast
qed

theorem unknown_action_blocks_witness:
  "\<exists>s'. process_single demo_ledger ''alpha'' 1 (demo_action ''rights_issue'') (demo_tables empty_store) = (s', Inl ValueError) \<and>
     fetch_and_process demo_ledger (\<lambda>_ _. Inr [demo_action ''rights_issue'', demo_action ''dividend'']) ''alpha'' 1 738886 738886 s'
       = (s', Inl ValueError)"
proof -
  have "parse_action (co_type (demo_action ''rights_issue'')) = None"
    "get_by_action_id (co_id (demo_action ''rights_issue'')) (ss_work (demo_tables empty_store)) = None"
    "find_row cr_id (le_uuid demo_ledger (ss_draws (demo_tables empty_store))) (ct_rows (ss_work (demo_tables empty_store))) = None"
    by (simp_all add: parse_action_def demo_action_def get_by_action_id_def demo_tables_def Let_def)
  from unknown_action_blocks[OF this, where fund = "''alpha''" and fund' = "''alpha''" and p = 1 and p' = 1, of "\<lambda>_ _. Inr [demo_action ''rights_issue'', demo_action ''dividend'']" 738886 738886 "[demo_action ''dividend'']"]
  show ?thesis by auto
qed


theorem merger_leaves_position_witness:
  "\<exists>s' res ev m row'. process_single demo_ledger ''alpha'' 1 (demo_action ''merger'') (demo_tables demo_bought) = (s', Inr res) \<and>
     (fund_topic ''alpha'' ''trades.executed'', ev) \<in> set (ss_events s') \<and> decoded_trade (\<lambda>_. Some 9) ''alpha'' ev = Some m \<and>
     find_row cp_id (1, ''AAPL'') (st_positions (fst (handle_trade_event demo_env (\<lambda>_. ''t'') (\<lambda>_ _ _. ''ca'') 0 m demo_bought))) = Some row' \<and>
     cp_quantity row' = 100"
proof -
  obtain pos r where h: "ready_handler demo_env (\<lambda>_ _ _. ''ca'') 9 1 ''AAPL'' demo_bought pos" "pos_quantity pos = 100"
    "find_row cp_id (1, ''AAPL'') (st_positions demo_bought) = Some r" "cp_quantity r = 100" by (rule demo_holding)
  from demo_figures[OF h(3,4), of Merger] obtain s' res where
    run: "process_single demo_ledger ''alpha'' 1 (demo_action ''merger'') (demo_tables demo_bought) = (s', Inr res)" by auto
  have bus: "le_publish demo_ledger = Some (\<lambda>_ _. None)" by (simp add: demo_ledger_def)
  have "\<exists>ev m row'. (fund_topic ''alpha'' ''trades.executed'', ev) \<in> set (ss_events s') \<and> decoded_trade (\<lambda>_. Some 9) ''alpha'' ev = Some m \<and>
     find_row cp_id (1, co_instrument (demo_action ''merger'')) (st_positions (fst (handle_trade_event demo_env (\<lambda>_. ''t'') (\<lambda>_ _ _. ''ca'') 0 m demo_bought))) = Some row' \<and>
     cp_quantity row' = pos_quantity pos \<and> cp_realized row' = dadd (pos_realized pos) \<bar>cp_quantity r\<bar>"
    by (rule merger_leaves_position[OF bus _ _ _ _ _ run, where k = 9])
      (use h in \<open>simp_all add: demo_action_def demo_tables_def get_by_action_id_def Let_def fix28_exact[of 0]\<close>)
  with run h(2) show ?thesis by (auto simp: demo_action_def)
qed

end
