(* ===== verification/FxHedge.thy ===== *)
theory FxHedge
  imports Ledger
begin

text \<open>
  FX hedging (\<open>app/modules/fx_hedging\<close>): forward pricing, mark to market, recommendations and the life
  of a forward contract, and the converter that supplies the spot rates
  (\<open>app/modules/market_data/core/fx.py\<close>).

  The tables are those of the positions schema.  Every write of a forward commits; the interest rate
  table is only flushed, so a rate set by a request or by the bus is not stored (\<open>request\<close>).
\<close>

section \<open>The converter\<close>

type_synonym rates = "string \<Rightarrow> dec option"

definition pair_key :: "string \<Rightarrow> string \<Rightarrow> string" where
  "pair_key base quote = base @ ''/'' @ quote"

definition update_rate :: "string \<Rightarrow> string \<Rightarrow> dec \<Rightarrow> rates \<Rightarrow> rates" where
  "update_rate base quote r m = m(pair_key base quote \<mapsto> r)"

definition rate_to_usd :: "rates \<Rightarrow> string \<Rightarrow> dec option" where
  "rate_to_usd m c = (if c = ''USD'' then Some 1
     else case m (pair_key ''USD'' c) of None \<Rightarrow> None | Some u \<Rightarrow> if u = 0 then None else Some (ddiv 1 u))"

definition rate_from_usd :: "rates \<Rightarrow> string \<Rightarrow> dec option" where
  "rate_from_usd m c = (if c = ''USD'' then Some 1 else m (pair_key ''USD'' c))"

definition triangulate :: "rates \<Rightarrow> string \<Rightarrow> string \<Rightarrow> dec option" where
  "triangulate m a b = (case (rate_to_usd m a, rate_from_usd m b) of
     (Some x, Some y) \<Rightarrow> if y = 0 then None else Some (dmul x y)
   | _ \<Rightarrow> None)"

definition get_rate :: "rates \<Rightarrow> string \<Rightarrow> string \<Rightarrow> dec option" where
  "get_rate m a b = (if a = b then Some 1
     else case m (pair_key a b) of
       Some r \<Rightarrow> Some r
     | None \<Rightarrow> (case m (pair_key b a) of
         Some i \<Rightarrow> if i = 0 then triangulate m a b else Some (ddiv 1 i)
       | None \<Rightarrow> triangulate m a b))"

definition fx_convert :: "rates \<Rightarrow> dec \<Rightarrow> string \<Rightarrow> string \<Rightarrow> dec option" where
  "fx_convert m amount a b = map_option (dmul amount) (get_rate m a b)"

section \<open>Pricing\<close>

datatype fwd_direction = FxBuy | FxSell
datatype fwd_status = FwdOpen | FwdClosed | FwdRolled | FwdExpired | FwdSettled

record forward_rate =
  fr_spot :: dec
  fr_forward :: dec
  fr_points :: dec
  fr_domestic :: dec
  fr_foreign :: dec
  fr_tenor :: int

record forward_mtm =
  fm_contract :: dec
  fm_current :: dec
  fm_notional :: dec
  fm_value :: dec
  fm_currency :: string

record carry_pnl =
  ca_spot :: dec
  ca_carry :: dec
  ca_total :: dec

record hedge_rec =
  hr_pair :: string
  hr_base :: string
  hr_quote :: string
  hr_notional :: dec
  hr_direction :: fwd_direction
  hr_ratio :: dec
  hr_tenor :: int
  hr_forward :: dec
  hr_cost :: dec

record roll_cost =
  rl_old :: dec
  rl_new :: dec
  rl_close :: dec
  rl_cost :: dec

definition bps :: dec where "bps = 1 / 10000"

definition sign_of :: "fwd_direction \<Rightarrow> dec" where
  "sign_of d = (if d = FxBuy then 1 else dneg 1)"

definition calculate_forward_rate :: "dec \<Rightarrow> dec \<Rightarrow> dec \<Rightarrow> int \<Rightarrow> forward_rate res" where
  "calculate_forward_rate spot domestic foreign tenor =
     (let t = ddiv (of_int tenor) 360
      in bindE (ddivE (dmul spot (dadd 1 (dmul domestic t))) (dadd 1 (dmul foreign t))) (\<lambda>f.
         bindE (quantizeE 6 f) (\<lambda>f.
         Inr \<lparr>fr_spot = spot, fr_forward = f, fr_points = dsub f spot, fr_domestic = domestic,
           fr_foreign = foreign, fr_tenor = tenor\<rparr>)))"

definition mark_to_market_forward ::
  "dec \<Rightarrow> dec \<Rightarrow> fwd_direction \<Rightarrow> dec \<Rightarrow> dec \<Rightarrow> dec \<Rightarrow> int \<Rightarrow> string \<Rightarrow> forward_mtm res" where
  "mark_to_market_forward contract notional d spot domestic foreign remaining quote =
     bindE (calculate_forward_rate spot domestic foreign remaining) (\<lambda>c.
     bindE (quantizeE 2 (dmul (dmul (sign_of d) notional) (dsub (fr_forward c) contract))) (\<lambda>v.
     Inr \<lparr>fm_contract = contract, fm_current = fr_forward c, fm_notional = notional, fm_value = v,
       fm_currency = quote\<rparr>))"

definition calculate_carry_pnl :: "dec \<Rightarrow> dec \<Rightarrow> dec \<Rightarrow> dec \<Rightarrow> dec \<Rightarrow> fwd_direction \<Rightarrow> carry_pnl res" where
  "calculate_carry_pnl entry spot contract current notional d =
     (let sn = dmul (sign_of d) notional;
          sp = dmul sn (dsub spot entry);
          tot = dmul sn (dsub current contract);
          carry = dsub tot sp
      in bindE (quantizeE 2 sp) (\<lambda>s. bindE (quantizeE 2 carry) (\<lambda>c. bindE (quantizeE 2 tot) (\<lambda>t.
         Inr \<lparr>ca_spot = s, ca_carry = c, ca_total = t\<rparr>))))"

definition recommend_one ::
  "string \<Rightarrow> (string \<Rightarrow> dec option) \<Rightarrow> dec \<Rightarrow> (string \<Rightarrow> dec option) \<Rightarrow> dec \<Rightarrow> int \<Rightarrow> string \<times> dec \<Rightarrow> hedge_rec list res" where
  \<comment> \<open>one turn of the loop of \<open>recommend_hedges\<close>: what it appends\<close>
  "recommend_one base spots domestic rates ratio tenor ce = (case ce of (c, exposure) \<Rightarrow>
     if c = base \<or> exposure = 0 then Inr []
     else case spots c of None \<Rightarrow> Inr [] | Some spot \<Rightarrow>
       if spot \<le> 0 then Inr []
       else bindE (calculate_forward_rate spot domestic (or_else (rates c) 0) tenor) (\<lambda>f.
            bindE (quantizeE 2 (dmul (dabs exposure) ratio)) (\<lambda>n.
            bindE (quantizeE 2 (ddiv (dabs (ddiv (fr_points f) spot)) bps)) (\<lambda>cost.
            Inr [\<lparr>hr_pair = pair_key base c, hr_base = base, hr_quote = c, hr_notional = n,
              hr_direction = (if 0 < exposure then FxSell else FxBuy), hr_ratio = ratio, hr_tenor = tenor,
              hr_forward = fr_forward f, hr_cost = cost\<rparr>]))))"

definition recommend_hedges ::
  "(string \<times> dec) list \<Rightarrow> string \<Rightarrow> (string \<Rightarrow> dec option) \<Rightarrow> dec \<Rightarrow> (string \<Rightarrow> dec option) \<Rightarrow> dec \<Rightarrow> int
     \<Rightarrow> hedge_rec list res" where
  "recommend_hedges exposures base spots domestic rates ratio tenor =
     bindE (mapE (recommend_one base spots domestic rates ratio tenor) exposures) (\<lambda>xs. Inr (concat xs))"

definition identify_expiring_forwards :: "(uuid \<times> date) list \<Rightarrow> date \<Rightarrow> int \<Rightarrow> (uuid \<times> date \<times> int) list res" where
  "identify_expiring_forwards maturities asof ahead = bindE (add_days asof ahead) (\<lambda>cutoff.
     Inr (sort_key (\<lambda>x. snd (snd x))
       (map (\<lambda>(i, m). (i, m, max (m - asof) 0)) (filter (\<lambda>(i, m). m \<le> cutoff) maturities))))"

definition calculate_roll_cost ::
  "dec \<Rightarrow> dec \<Rightarrow> fwd_direction \<Rightarrow> dec \<Rightarrow> dec \<Rightarrow> dec \<Rightarrow> int \<Rightarrow> int \<Rightarrow> roll_cost res" where
  "calculate_roll_cost contract notional d spot domestic foreign remaining tenor =
     bindE (calculate_forward_rate spot domestic foreign remaining) (\<lambda>old.
     bindE (calculate_forward_rate spot domestic foreign tenor) (\<lambda>new.
     bindE (quantizeE 2 (dmul (dmul (sign_of d) notional) (dsub (fr_forward old) contract))) (\<lambda>v.
     bindE (quantizeE 2 (if spot \<le> 0 then 0 else ddiv (dabs (ddiv (fr_points new) spot)) bps)) (\<lambda>cost.
     Inr \<lparr>rl_old = fr_forward old, rl_new = fr_forward new, rl_close = v, rl_cost = cost\<rparr>))))"

section \<open>Tables\<close>

record forward_row =
  fw_id :: uuid
  fw_portfolio :: uuid
  fw_base :: string
  fw_quote :: string
  fw_direction :: fwd_direction
  fw_notional :: dec
  fw_rate :: dec
  fw_spot :: dec
  fw_trade :: date
  fw_maturity :: date
  fw_status :: fwd_status
  fw_counterparty :: "string option"
  fw_roll_from :: "uuid option"
  fw_close_rate :: "dec option"
  fw_close_spot :: "dec option"
  fw_closed_at :: "timestamp option"
  fw_realized :: "dec option"
  fw_mtm :: "dec option"
  fw_mtm_at :: "timestamp option"

record rate_row =
  ir_id :: uuid
  ir_currency :: string
  ir_rate :: dec
  ir_tenor :: int
  ir_source :: string
  ir_updated :: timestamp

record fx_tables =
  xt_forwards :: "forward_row list"
  xt_rates :: "rate_row list"

definition insert_forward :: "ledger_env \<Rightarrow> forward_row \<Rightarrow> ('a fx_tables_scheme, forward_row) op" where
  \<comment> \<open>the database draws the identifier; the object keeps the values it was given\<close>
  "insert_forward en r =
     bindS (liftS (le_col en 18 4 (fw_notional r))) (\<lambda>n.
     bindS (liftS (le_col en 18 8 (fw_rate r))) (\<lambda>cr.
     bindS (liftS (le_col en 18 8 (fw_spot r))) (\<lambda>sp.
     bindS (new_uuid en) (\<lambda>i.
     bindS (readT (\<lambda>t. find_row fw_id i (xt_forwards t))) (\<lambda>clash.
       if clash \<noteq> None then raiseS IntegrityError
       else thenS (writeT (\<lambda>t. t\<lparr>xt_forwards := xt_forwards t @
                [r\<lparr>fw_id := i, fw_notional := n, fw_rate := cr, fw_spot := sp\<rparr>]\<rparr>))
             (thenS commit (retS (r\<lparr>fw_id := i\<rparr>))))))))"

definition get_forward_row :: "uuid \<Rightarrow> 'a fx_tables_scheme \<Rightarrow> forward_row option" where
  "get_forward_row i t = find_row fw_id i (xt_forwards t)"

definition get_forwards_by :: "ledger_env \<Rightarrow> uuid \<Rightarrow> fwd_status option \<Rightarrow> 'a fx_tables_scheme \<Rightarrow> forward_row list" where
  "get_forwards_by en p st t = sort_key fw_maturity
     (filter (\<lambda>r. fw_portfolio r = p \<and> (st = None \<or> st = Some (fw_status r))) (scan en fw_id (xt_forwards t)))"

definition get_open_by_portfolio :: "ledger_env \<Rightarrow> uuid \<Rightarrow> 'a fx_tables_scheme \<Rightarrow> forward_row list" where
  "get_open_by_portfolio en p t = sort_key fw_maturity
     (filter (\<lambda>r. fw_portfolio r = p \<and> fw_status r = FwdOpen) (scan en fw_id (xt_forwards t)))"

definition get_expiring :: "ledger_env \<Rightarrow> date \<Rightarrow> 'a fx_tables_scheme \<Rightarrow> forward_row list" where
  "get_expiring en cutoff t = sort_key fw_maturity
     (filter (\<lambda>r. fw_status r = FwdOpen \<and> fw_maturity r \<le> cutoff) (scan en fw_id (xt_forwards t)))"

definition col_opt :: "ledger_env \<Rightarrow> nat \<Rightarrow> nat \<Rightarrow> dec option \<Rightarrow> dec option res" where
  "col_opt en p k x = (case x of None \<Rightarrow> Inr None | Some y \<Rightarrow> bindE (le_col en p k y) (\<lambda>z. Inr (Some z)))"

definition keep_or :: "'a option \<Rightarrow> 'a option \<Rightarrow> 'a option" where
  "keep_or x y = (case x of None \<Rightarrow> y | Some _ \<Rightarrow> x)"

definition update_fwd_status ::
  "ledger_env \<Rightarrow> uuid \<Rightarrow> fwd_status \<Rightarrow> dec option \<Rightarrow> dec option \<Rightarrow> timestamp option \<Rightarrow> dec option
     \<Rightarrow> ('a fx_tables_scheme, unit) op" where
  "update_fwd_status en i st rate spot ts pnl =
     bindS (liftS (col_opt en 18 8 rate)) (\<lambda>rate.
     bindS (liftS (col_opt en 18 8 spot)) (\<lambda>spot.
     bindS (liftS (col_opt en 18 4 pnl)) (\<lambda>pnl.
     thenS (writeT (\<lambda>t. t\<lparr>xt_forwards := update_rows fw_id i (\<lambda>r. r\<lparr>fw_status := st,
              fw_close_rate := keep_or rate (fw_close_rate r), fw_close_spot := keep_or spot (fw_close_spot r),
              fw_closed_at := keep_or ts (fw_closed_at r), fw_realized := keep_or pnl (fw_realized r)\<rparr>) (xt_forwards t)\<rparr>))
       commit)))"

definition update_mtm :: "ledger_env \<Rightarrow> uuid \<Rightarrow> dec \<Rightarrow> timestamp \<Rightarrow> ('a fx_tables_scheme, unit) op" where
  "update_mtm en i v ts = bindS (liftS (le_col en 18 4 v)) (\<lambda>v.
     thenS (writeT (\<lambda>t. t\<lparr>xt_forwards := update_rows fw_id i (\<lambda>r. r\<lparr>fw_mtm := Some v, fw_mtm_at := Some ts\<rparr>)
              (xt_forwards t)\<rparr>)) commit)"

definition upsert_rate :: "ledger_env \<Rightarrow> rate_row \<Rightarrow> ('a fx_tables_scheme, unit) op" where
  \<comment> \<open>by currency and tenor; \<open>scalar_one_or_none\<close> raises on two rows.  Flushes, does not commit.\<close>
  "upsert_rate en r = bindS (readT (\<lambda>t. filter (\<lambda>q. ir_currency q = ir_currency r \<and> ir_tenor q = ir_tenor r) (xt_rates t)))
     (\<lambda>rows. case rows of
        [] \<Rightarrow> bindS (liftS (le_col en 10 6 (ir_rate r))) (\<lambda>v.
                bindS (new_uuid en) (\<lambda>i. bindS (readT (\<lambda>t. find_row ir_id i (xt_rates t))) (\<lambda>clash.
                if clash \<noteq> None then raiseS IntegrityError
                else writeT (\<lambda>t. t\<lparr>xt_rates := xt_rates t @ [r\<lparr>ir_id := i, ir_rate := v\<rparr>]\<rparr>))))
      | [q] \<Rightarrow> bindS (liftS (le_col en 10 6 (ir_rate r))) (\<lambda>v.
                writeT (\<lambda>t. t\<lparr>xt_rates := update_rows ir_id (ir_id q)
                 (\<lambda>q. q\<lparr>ir_rate := v, ir_source := ir_source r, ir_updated := ir_updated r\<rparr>) (xt_rates t)\<rparr>))
      | _ \<Rightarrow> raiseS OtherError)"

definition get_rate_row :: "ledger_env \<Rightarrow> string \<Rightarrow> 'a fx_tables_scheme \<Rightarrow> rate_row option" where
  "get_rate_row en c t = (case sort_key (\<lambda>r. - ir_updated r)
       (filter (\<lambda>r. ir_currency r = c) (scan en ir_id (xt_rates t))) of [] \<Rightarrow> None | r # _ \<Rightarrow> Some r)"

definition list_rates :: "ledger_env \<Rightarrow> 'a fx_tables_scheme \<Rightarrow> rate_row list" where
  "list_rates en t = sort_key ir_currency (scan en ir_id (xt_rates t))"

section \<open>The service\<close>

record fx_env =
  xe_led :: ledger_env
  xe_rates :: "rates option"
  xe_base :: string

record fwd_contract =
  fc_id :: uuid
  fc_portfolio :: uuid
  fc_base :: string
  fc_quote :: string
  fc_direction :: fwd_direction
  fc_notional :: dec
  fc_rate :: dec
  fc_spot :: dec
  fc_trade :: date
  fc_maturity :: date
  fc_status :: fwd_status
  fc_counterparty :: "string option"
  fc_roll_from :: "uuid option"
  fc_mtm :: "dec option"
  fc_mtm_at :: "timestamp option"

definition to_contract :: "forward_row \<Rightarrow> fwd_contract" where
  "to_contract r = \<lparr>fc_id = fw_id r, fc_portfolio = fw_portfolio r, fc_base = fw_base r, fc_quote = fw_quote r,
     fc_direction = fw_direction r, fc_notional = fw_notional r, fc_rate = fw_rate r, fc_spot = fw_spot r,
     fc_trade = fw_trade r, fc_maturity = fw_maturity r, fc_status = fw_status r,
     fc_counterparty = fw_counterparty r, fc_roll_from = fw_roll_from r, fc_mtm = fw_mtm r, fc_mtm_at = fw_mtm_at r\<rparr>"

record forward_create =
  fo_portfolio :: uuid
  fo_base :: string
  fo_quote :: string
  fo_direction :: fwd_direction
  fo_notional :: dec
  fo_rate :: dec
  fo_spot :: dec
  fo_trade :: date
  fo_maturity :: date
  fo_counterparty :: "string option"

definition direction_name :: "fwd_direction \<Rightarrow> string" where
  "direction_name d = (if d = FxBuy then ''buy'' else ''sell'')"

definition publish_fx :: "fx_env \<Rightarrow> string option \<Rightarrow> ledger_event \<Rightarrow> ('a fx_tables_scheme, unit) op" where
  "publish_fx xe fund ev = whenS (truthy fund) (emit (xe_led xe) (fund_topic (the fund) ''fx-hedging.events'') ev)"

definition get_spot :: "fx_env \<Rightarrow> string \<Rightarrow> string \<Rightarrow> dec option" where
  "get_spot xe base quote = (case xe_rates xe of None \<Rightarrow> None | Some m \<Rightarrow> get_rate m base quote)"

definition rate_for_currency :: "fx_env \<Rightarrow> string \<Rightarrow> 'a fx_tables_scheme \<Rightarrow> dec" where
  "rate_for_currency xe c t = (case get_rate_row (xe_led xe) c t of None \<Rightarrow> 0 | Some r \<Rightarrow> ir_rate r)"

definition domestic_rate :: "fx_env \<Rightarrow> 'a fx_tables_scheme \<Rightarrow> dec" where
  "domestic_rate xe t = rate_for_currency xe (xe_base xe) t"

definition new_forward :: "forward_create \<Rightarrow> forward_row" where
  "new_forward c = \<lparr>fw_id = 0, fw_portfolio = fo_portfolio c, fw_base = fo_base c, fw_quote = fo_quote c,
     fw_direction = fo_direction c, fw_notional = fo_notional c, fw_rate = fo_rate c, fw_spot = fo_spot c,
     fw_trade = fo_trade c, fw_maturity = fo_maturity c, fw_status = FwdOpen, fw_counterparty = fo_counterparty c,
     fw_roll_from = None, fw_close_rate = None, fw_close_spot = None, fw_closed_at = None, fw_realized = None,
     fw_mtm = None, fw_mtm_at = None\<rparr>"

definition open_forward :: "fx_env \<Rightarrow> forward_create \<Rightarrow> string option \<Rightarrow> ('a fx_tables_scheme, fwd_contract) op" where
  "open_forward xe c fund = bindS (insert_forward (xe_led xe) (new_forward c)) (\<lambda>r.
     thenS (publish_fx xe fund (ForwardOpened (fw_id r) (fo_base c) (fo_quote c) (fo_notional c)
              (direction_name (fo_direction c)) (fo_rate c) (fo_maturity c)))
       (retS (to_contract r)))"

definition close_pnl :: "forward_row \<Rightarrow> dec \<Rightarrow> dec" where
  "close_pnl r rate = dmul (dmul (sign_of (fw_direction r)) (fw_notional r)) (dsub rate (fw_rate r))"

definition close_forward :: "fx_env \<Rightarrow> uuid \<Rightarrow> dec \<Rightarrow> dec \<Rightarrow> string option \<Rightarrow> ('a fx_tables_scheme, fwd_contract) op" where
  "close_forward xe i rate spot fund = bindS (readT (get_forward_row i)) (\<lambda>found. case found of
       None \<Rightarrow> raiseS ValueError
     | Some r \<Rightarrow>
         if fw_status r \<noteq> FwdOpen then raiseS ValueError
         else bindS (liftS (quantizeE 2 (close_pnl r rate))) (\<lambda>pnl.
              thenS (update_fwd_status (xe_led xe) i FwdClosed (Some rate) (Some spot) (Some (le_now (xe_led xe))) (Some pnl))
              (thenS (publish_fx xe fund (ForwardClosed i rate (close_pnl r rate)))
              (bindS (readT (get_forward_row i)) (\<lambda>again. case again of
                 None \<Rightarrow> raiseS AttributeError | Some q \<Rightarrow> retS (to_contract q))))))"

definition successor :: "forward_row \<Rightarrow> date \<Rightarrow> dec \<Rightarrow> dec \<Rightarrow> date \<Rightarrow> forward_row" where
  "successor r maturity rate spot today = \<lparr>fw_id = 0, fw_portfolio = fw_portfolio r, fw_base = fw_base r,
     fw_quote = fw_quote r, fw_direction = fw_direction r, fw_notional = fw_notional r, fw_rate = rate,
     fw_spot = spot, fw_trade = today, fw_maturity = maturity, fw_status = FwdOpen,
     fw_counterparty = fw_counterparty r, fw_roll_from = Some (fw_id r), fw_close_rate = None,
     fw_close_spot = None, fw_closed_at = None, fw_realized = None, fw_mtm = None, fw_mtm_at = None\<rparr>"

definition roll_forward ::
  "fx_env \<Rightarrow> uuid \<Rightarrow> date \<Rightarrow> dec \<Rightarrow> dec \<Rightarrow> string option \<Rightarrow> ('a fx_tables_scheme, fwd_contract) op" where
  "roll_forward xe i maturity rate spot fund = bindS (readT (get_forward_row i)) (\<lambda>found. case found of
       None \<Rightarrow> raiseS ValueError
     | Some r \<Rightarrow> bindS (readT (domestic_rate xe)) (\<lambda>rd. bindS (readT (rate_for_currency xe (fw_base r))) (\<lambda>rf.
         bindS (liftS (calculate_forward_rate spot rd rf (max (fw_maturity r - le_today (xe_led xe)) 0))) (\<lambda>c.
         bindS (close_forward xe i (fr_forward c) spot fund) (\<lambda>_.
         thenS (update_fwd_status (xe_led xe) i FwdRolled None None None None)
         (bindS (insert_forward (xe_led xe) (successor r maturity rate spot (le_today (xe_led xe)))) (\<lambda>n.
          thenS (publish_fx xe fund (ForwardRolled i (fw_id n) maturity rate))
            (retS (to_contract n)))))))))"

definition mark_one :: "fx_env \<Rightarrow> dec \<Rightarrow> forward_row \<Rightarrow> ('a fx_tables_scheme, fwd_contract) op" where
  "mark_one xe rd r = (case get_spot xe (fw_base r) (fw_quote r) of
       None \<Rightarrow> retS (to_contract r)
     | Some spot \<Rightarrow> bindS (readT (rate_for_currency xe (fw_base r))) (\<lambda>rf.
         bindS (liftS (mark_to_market_forward (fw_rate r) (fw_notional r) (fw_direction r) spot rd rf
           (max (fw_maturity r - le_today (xe_led xe)) 0) (fw_quote r))) (\<lambda>m.
         thenS (update_mtm (xe_led xe) (fw_id r) (fm_value m) (le_now (xe_led xe)))
           (retS (to_contract (r\<lparr>fw_mtm := Some (fm_value m), fw_mtm_at := Some (le_now (xe_led xe))\<rparr>))))))"

definition mark_to_market_all :: "fx_env \<Rightarrow> uuid \<Rightarrow> string option \<Rightarrow> ('a fx_tables_scheme, fwd_contract list) op" where
  "mark_to_market_all xe p fund = bindS (readT (get_open_by_portfolio (xe_led xe) p)) (\<lambda>rows.
     bindS (readT (domestic_rate xe)) (\<lambda>rd.
     bindS (mapS (mark_one xe rd) rows) (\<lambda>results.
     thenS (publish_fx xe fund (ForwardsMarked p (length results)))
       (retS results))))"

definition fx_get_forward :: "uuid \<Rightarrow> 'a fx_tables_scheme \<Rightarrow> fwd_contract option" where
  "fx_get_forward i t = map_option to_contract (get_forward_row i t)"

definition fx_open_forwards :: "fx_env \<Rightarrow> uuid \<Rightarrow> 'a fx_tables_scheme \<Rightarrow> fwd_contract list" where
  "fx_open_forwards xe p t = map to_contract (get_open_by_portfolio (xe_led xe) p t)"

definition fx_get_forwards :: "fx_env \<Rightarrow> uuid \<Rightarrow> fwd_status option \<Rightarrow> 'a fx_tables_scheme \<Rightarrow> fwd_contract list" where
  "fx_get_forwards xe p st t = map to_contract (get_forwards_by (xe_led xe) p st t)"

record fx_summary =
  fs_open :: nat
  fs_notional :: dec
  fs_mtm :: dec
  fs_breakdown :: "(string \<times> dec) list"
  fs_expiring :: nat

fun add_at :: "string \<Rightarrow> dec \<Rightarrow> (string \<times> dec) list \<Rightarrow> (string \<times> dec) list" where
  \<comment> \<open>\<open>d[k] = d.get(k, ZERO) + x\<close>\<close>
  "add_at k x [] = [(k, dadd 0 x)]"
| "add_at k x ((j, y) # d) = (if j = k then (j, dadd y x) # d else (j, y) # add_at k x d)"

definition summarize :: "date \<Rightarrow> fx_summary \<Rightarrow> forward_row \<Rightarrow> fx_summary" where
  "summarize today s r = \<lparr>fs_open = fs_open s, fs_notional = dadd (fs_notional s) (fw_notional r),
     fs_mtm = dadd (fs_mtm s) (or_else (fw_mtm r) 0),
     fs_breakdown = add_at (pair_key (fw_base r) (fw_quote r)) (fw_notional r) (fs_breakdown s),
     fs_expiring = (if fw_maturity r - today \<le> 5 then Suc (fs_expiring s) else fs_expiring s)\<rparr>"

definition fx_get_summary :: "fx_env \<Rightarrow> uuid \<Rightarrow> 'a fx_tables_scheme \<Rightarrow> fx_summary" where
  "fx_get_summary xe p t = (let rows = get_open_by_portfolio (xe_led xe) p t
     in foldl (summarize (le_today (xe_led xe)))
          \<lparr>fs_open = length rows, fs_notional = 0, fs_mtm = 0, fs_breakdown = [], fs_expiring = 0\<rparr> rows)"

definition get_hedge_recommendations ::
  "fx_env \<Rightarrow> uuid \<Rightarrow> (string \<times> dec) list \<Rightarrow> dec \<Rightarrow> int \<Rightarrow> string option \<Rightarrow> ('a fx_tables_scheme, hedge_rec list) op" where
  "get_hedge_recommendations xe p exposures ratio tenor fund =
     bindS (readT (\<lambda>t. (domestic_rate xe t, \<lambda>c. if c \<in> fst ` set exposures \<and> c \<noteq> xe_base xe
        then Some (rate_for_currency xe c t) else None))) (\<lambda>(rd, rates).
     bindS (liftS (recommend_hedges exposures (xe_base xe)
        (\<lambda>c. if c \<in> fst ` set exposures \<and> c \<noteq> xe_base xe then get_spot xe (xe_base xe) c else None)
        rd rates ratio tenor)) (\<lambda>recs.
     thenS (publish_fx xe fund (HedgesRecommended p (length recs))) (retS recs)))"

record roll_rec =
  ro_forward :: uuid
  ro_maturity :: date
  ro_days :: int
  ro_mtm :: dec
  ro_tenor :: int
  ro_cost :: dec

definition roll_one :: "fx_env \<Rightarrow> 'a fx_tables_scheme \<Rightarrow> forward_row list \<Rightarrow> int \<Rightarrow> uuid \<times> date \<times> int \<Rightarrow> roll_rec list res" where
  "roll_one xe t rows tenor x = (case x of (i, m, days) \<Rightarrow> (case find_row fw_id i rows of
       None \<Rightarrow> Inl RuntimeError
     | Some r \<Rightarrow> (case get_spot xe (fw_base r) (fw_quote r) of
         None \<Rightarrow> Inr []
       | Some spot \<Rightarrow> bindE (calculate_roll_cost (fw_rate r) (fw_notional r) (fw_direction r) spot
             (domestic_rate xe t) (rate_for_currency xe (fw_base r) t) (max days 1) tenor) (\<lambda>c.
           Inr [\<lparr>ro_forward = i, ro_maturity = m, ro_days = days, ro_mtm = rl_close c, ro_tenor = tenor,
             ro_cost = rl_cost c\<rparr>]))))"

definition get_roll_recommendations :: "fx_env \<Rightarrow> uuid \<Rightarrow> int \<Rightarrow> int \<Rightarrow> 'a fx_tables_scheme \<Rightarrow> roll_rec list res" where
  "get_roll_recommendations xe p ahead tenor t = (let rows = get_open_by_portfolio (xe_led xe) p t
     in bindE (identify_expiring_forwards (map (\<lambda>r. (fw_id r, fw_maturity r)) rows) (le_today (xe_led xe)) ahead) (\<lambda>xs.
        bindE (mapE (roll_one xe t rows tenor) xs) (\<lambda>rs. Inr (concat rs))))"

definition set_interest_rate :: "fx_env \<Rightarrow> string \<Rightarrow> dec \<Rightarrow> int \<Rightarrow> string \<Rightarrow> ('a fx_tables_scheme, unit) op" where
  "set_interest_rate xe c rate tenor source = upsert_rate (xe_led xe) \<lparr>ir_id = 0, ir_currency = c, ir_rate = rate,
     ir_tenor = tenor, ir_source = source, ir_updated = le_now (xe_led xe)\<rparr>"

definition get_interest_rates :: "fx_env \<Rightarrow> 'a fx_tables_scheme \<Rightarrow> rate_row list" where
  "get_interest_rates xe t = list_rates (xe_led xe) t"

definition on_interest_rate :: "fx_env \<Rightarrow> string option \<Rightarrow> dec option \<Rightarrow> ('a fx_tables_scheme, unit) op" where
  \<comment> \<open>the handler of the bus; the repository opens a session of its own and every exception is logged\<close>
  "on_interest_rate xe currency rate = (case (currency, rate) of
     (Some c, Some r) \<Rightarrow> request (tryS (set_interest_rate xe c r 30 ''mock-exchange'') (\<lambda>_. retS ()))
   | _ \<Rightarrow> retS ())"

end
