(* ===== verification/FxInv.thy ===== *)
theory FxInv
  imports FxHedge CashInv
begin

text \<open>
  FX hedging: how far a forward rate is from covered parity, what a mark, a close and a roll book, what
  the recommendations do to the exposure, and the life of a forward in every run of the service.
\<close>

section \<open>Accuracy of a forward rate\<close>

text \<open>\<open>near n x y\<close>: \<open>y\<close> is \<open>x\<close> up to \<open>n\<close> roundings of the context.\<close>

definition slack :: rat where "slack = 1 + 1 / 10 ^ 27"

definition near :: "nat \<Rightarrow> rat \<Rightarrow> rat \<Rightarrow> bool" where
  "near n x y \<longleftrightarrow> 0 \<le> x \<and> 0 \<le> y \<and> x \<le> y * slack ^ n \<and> y \<le> x * slack ^ n"

lemma slack_ge: "1 \<le> slack ^ n"
  by (simp add: slack_def)

lemma relative_error:
  fixes x y e :: rat
  shows "\<bar>y - x\<bar> \<le> x * e \<longleftrightarrow> y \<le> x * (1 + e) \<and> x * (1 - e) \<le> y"
  by (auto simp: algebra_simps abs_le_iff)

lemma near_refl: "0 \<le> x \<Longrightarrow> near 0 x x"
  by (simp add: near_def)

lemma near_fix28:
  assumes "near n x y"
  shows "near (Suc n) x (fix28 y)"
proof -
  have y: "0 \<le> y" and xy: "x \<le> y * slack ^ n" "y \<le> x * slack ^ n" and x: "0 \<le> x" using assms by (auto simp: near_def)
  have "\<bar>fix28 y - y\<bar> \<le> y * (1 / (2 * 10 ^ 27))" using fix28_error[of y] y by simp
  then have e: "fix28 y \<le> y * (1 + 1 / (2 * 10 ^ 27))" "y * (1 - 1 / (2 * 10 ^ 27)) \<le> fix28 y"
    unfolding relative_error by blast+
  have "y * (1 + 1 / (2 * 10 ^ 27)) \<le> y * slack" using y by (intro mult_left_mono) (simp_all add: slack_def)
  with e(1) have up: "fix28 y \<le> y * slack" by linarith
  have "y * 1 \<le> y * ((1 - 1 / (2 * 10 ^ 27)) * slack)" using y by (intro mult_left_mono) (simp_all add: slack_def)
  also have "\<dots> \<le> fix28 y * slack" using mult_right_mono[OF e(2), of slack] slack_ge[of 1] by (simp add: mult.assoc)
  finally have lo: "y \<le> fix28 y * slack" by simp
  have s: "0 \<le> slack ^ n" using slack_ge[of n] by linarith
  have "x \<le> fix28 y * slack * slack ^ n" using xy(1) mult_right_mono[OF lo s] by linarith
  moreover have "0 \<le> slack" by (simp add: slack_def)
  then have "fix28 y \<le> x * slack ^ n * slack" by (rule order_trans[OF up mult_right_mono[OF xy(2)]])
  ultimately show ?thesis using x fix28_nonneg[OF y] by (simp add: near_def mult_ac)
qed

lemma near_mult:
  assumes "near n x y" "near m a b"
  shows "near (n + m) (x * a) (y * b)"
proof -
  have "x * a \<le> (y * slack ^ n) * (b * slack ^ m)" "y * b \<le> (x * slack ^ n) * (a * slack ^ m)"
    using assms slack_ge[of n] slack_ge[of m] by (auto simp: near_def intro!: mult_mono)
  with assms show ?thesis by (simp add: near_def power_add mult_ac)
qed

lemma near_add1:
  assumes "near n x y"
  shows "near n (1 + x) (1 + y)"
  using assms slack_ge[of n] by (auto simp: near_def algebra_simps)

lemma near_inverse:
  assumes "near n x y" "0 < x"
  shows "near n (1 / x) (1 / y)"
proof -
  have y: "0 < y" using assms slack_ge[of n] by (auto simp: near_def intro: ccontr)
  then show ?thesis using assms by (simp add: near_def field_simps)
qed

lemma near_pos: "near n x y \<Longrightarrow> 0 < x \<Longrightarrow> 0 < y"
  by (auto simp: near_def intro: ccontr)

definition parity :: "rat \<Rightarrow> rat \<Rightarrow> rat \<Rightarrow> int \<Rightarrow> rat" where
  \<comment> \<open>covered interest rate parity, without any rounding\<close>
  "parity spot domestic foreign tenor =
     spot * (1 + domestic * (of_int tenor / 360)) / (1 + foreign * (of_int tenor / 360))"

lemma growth_near:
  assumes "0 \<le> r" "0 \<le> n"
  shows "near 3 (1 + r * (of_int n / 360)) (dadd 1 (dmul r (ddiv (of_int n) 360)))"
proof -
  have t: "near 1 (of_int n / 360) (fix28 (of_int n / 360))" using near_fix28[OF near_refl] assms(2) by simp
  have "near 2 (r * (of_int n / 360)) (fix28 (r * fix28 (of_int n / 360)))"
    using near_fix28[OF near_mult[OF near_refl[OF assms(1)] t]] by (simp add: numeral_2_eq_2)
  from near_fix28[OF near_add1[OF this]] show ?thesis by (simp add: dec_defs numeral_3_eq_3 numeral_2_eq_2)
qed

lemma growth_pos: "0 \<le> r \<Longrightarrow> 0 \<le> n \<Longrightarrow> 0 < 1 + r * (of_int n / (360::rat))"
  by (simp add: add_pos_nonneg)

lemma raw_forward_near:
  assumes "0 \<le> spot" "0 \<le> rd" "0 \<le> rf" "0 \<le> n"
    and "ddivE (dmul spot (dadd 1 (dmul rd (ddiv (of_int n) 360)))) (dadd 1 (dmul rf (ddiv (of_int n) 360))) = Inr f"
  shows "near 8 (parity spot rd rf n) f"
proof -
  have num: "near 4 (spot * (1 + rd * (of_int n / 360))) (dmul spot (dadd 1 (dmul rd (ddiv (of_int n) 360))))"
    using near_fix28[OF near_mult[OF near_refl[OF assms(1)] growth_near[OF assms(2,4)]]]
    by (simp add: dmul_def)
  have "near 7 (spot * (1 + rd * (of_int n / 360)) * (1 / (1 + rf * (of_int n / 360))))
      (dmul spot (dadd 1 (dmul rd (ddiv (of_int n) 360))) * (1 / dadd 1 (dmul rf (ddiv (of_int n) 360))))"
    using near_mult[OF num near_inverse[OF growth_near[OF assms(3,4)] growth_pos[OF assms(3,4)]]] by simp
  from near_fix28[OF this] assms(5) show ?thesis
    by (auto simp: parity_def ddivE_def ddiv_def split: if_splits)
qed

lemma near_error:
  assumes "near 8 x y"
  shows "\<bar>y - x\<bar> \<le> x / 10 ^ 26"
proof -
  have xy: "0 \<le> x" "0 \<le> y" "x \<le> y * slack ^ 8" "y \<le> x * slack ^ 8" using assms by (auto simp: near_def)
  have c: "slack ^ 8 \<le> 1 + 1 / 10 ^ 26" "1 \<le> (1 + 1 / 10 ^ 26 :: rat) * 1" "(1 - 1 / 10 ^ 26) * slack ^ 8 \<le> 1"
    by (simp_all add: slack_def power_divide field_simps)
  have s: "0 < slack ^ 8" using slack_ge[of 8] by linarith
  have "y \<le> x * (1 + 1 / 10 ^ 26)" using xy(4) mult_left_mono[OF c(1) xy(1)] by linarith
  moreover have "x * (1 - 1 / 10 ^ 26) \<le> y"
  proof (rule ccontr)
    assume "\<not> ?thesis"
    then have "y * slack ^ 8 < x * (1 - 1 / 10 ^ 26) * slack ^ 8" using s by (intro mult_strict_right_mono) auto
    also have "\<dots> \<le> x" using mult_left_mono[OF c(3) xy(1)] by (simp add: mult.assoc)
    finally show False using xy(3) by simp
  qed
  ultimately have "\<bar>y - x\<bar> \<le> x * (1 / 10 ^ 26)" unfolding relative_error by blast
  then show ?thesis by simp
qed


text \<open>C24. A forward rate is covered interest rate parity up to the sixth decimal.  For a nonnegative spot,
  rates and tenor the calculation returns, unless the rate needs more than 28 digits, and the
  returned rate differs from \<open>spot (1 + rd T) / (1 + rf T)\<close> by at most half a unit of the sixth place
  plus what eight roundings of the context can add, a part in \<open>10 ^ 26\<close>.
\<close>

theorem forward_near_parity:
  assumes "0 \<le> spot" "0 \<le> rd" "0 \<le> rf" "0 \<le> n"
  shows "(case calculate_forward_rate spot rd rf n of
     Inr c \<Rightarrow> on_grid 6 (fr_forward c) \<and>
       \<bar>fr_forward c - parity spot rd rf n\<bar> \<le> 1 / (2 * 10 ^ 6) + parity spot rd rf n / 10 ^ 26 \<and>
       fr_points c = fix28 (fr_forward c - spot)
   | Inl e \<Rightarrow> e = InvalidOperation \<and> 10 ^ 21 < parity spot rd rf n)"
proof -
  let ?d = "dadd 1 (dmul rf (ddiv (of_int n) 360))"
  have "0 < ?d" by (rule near_pos[OF growth_near[OF assms(3,4)] growth_pos[OF assms(3,4)]])
  then obtain f where f: "ddivE (dmul spot (dadd 1 (dmul rd (ddiv (of_int n) 360)))) ?d = Inr f"
    by (auto simp: ddivE_def)
  let ?p = "parity spot rd rf n"
  have err: "\<bar>f - ?p\<bar> \<le> ?p / 10 ^ 26" by (rule near_error[OF raw_forward_near[OF assms f]])
  show ?thesis
  proof (cases "quantizeE 6 f")
    case (Inr q)
    have "\<bar>q - ?p\<bar> \<le> 1 / (2 * 10 ^ 6) + ?p / 10 ^ 26" using quantizeE_Inr(2)[OF Inr] err by linarith
    with Inr f quantizeE_Inr(1)[OF Inr] show ?thesis by (simp add: calculate_forward_rate_def Let_def dsub_def)
  next
    case (Inl e)
    then have e: "e = InvalidOperation" "10 ^ 28 \<le> \<bar>round_even (f * 10 ^ 6)\<bar>"
      by (auto simp: quantizeE_def Let_def split: if_splits)
    have p: "0 \<le> ?p" using assms by (simp add: parity_def)
    have "?p / 10 ^ 26 \<le> ?p" using p by simp
    with err have f2: "0 \<le> f" "f \<le> ?p * 2" by linarith+
    have "(10 ^ 28 :: rat) \<le> of_int \<bar>round_even (f * 10 ^ 6)\<bar>" using e(2) by (metis of_int_le_iff of_int_numeral of_int_power)
    moreover have "of_int (round_even (f * 10 ^ 6)) \<le> f * 10 ^ 6 + 1 / 2" by (rule round_even_bounds(1))
    moreover have "0 \<le> round_even (f * 10 ^ 6)" using round_even_mono[of 0 "f * 10 ^ 6"] f2(1) by simp
    ultimately have "10 ^ 28 \<le> f * 10 ^ 6 + 1 / 2" by simp
    with f2(2) have "10 ^ 21 < ?p" by simp
    with Inl f e(1) show ?thesis by (simp add: calculate_forward_rate_def Let_def)
  qed
qed

theorem forward_near_parity_witness:
  "case calculate_forward_rate (11 / 10) (5 / 100) (3 / 100) 90 of
     Inr c \<Rightarrow> \<bar>fr_forward c - 4455 / 4030\<bar> \<le> 1 / 10 ^ 6 | Inl e \<Rightarrow> False"
  using forward_near_parity[of "11 / 10" "5 / 100" "3 / 100" 90]
  by (auto simp: parity_def split: sum.splits)

section \<open>Marks, closes and rolls\<close>

lemma quantize_grid:
  assumes "on_grid k s" "\<bar>x - s\<bar> < 1 / (2 * 10 ^ k)" "\<bar>s\<bar> * 10 ^ k < 10 ^ 28"
  shows "quantizeE k x = Inr s"
proof -
  from assms(1) obtain n where n: "s = of_int n / 10 ^ k" by (rule on_gridE)
  have "\<bar>x * 10 ^ k - of_int n\<bar> = \<bar>x - s\<bar> * 10 ^ k" by (simp add: n abs_mult_pos left_diff_distrib)
  also have "\<dots> < 1 / (2 * 10 ^ k) * 10 ^ k" using assms(2) by (intro mult_strict_right_mono) auto
  finally have d: "\<bar>x * 10 ^ k - of_int n\<bar> < 1 / 2" by simp
  have "round_even (x * 10 ^ k) = n"
    using round_even_bounds[of "x * 10 ^ k"] d by linarith
  moreover have "\<bar>n\<bar> < 10 ^ 28" using assms(3) by (simp add: n flip: of_int_abs of_int_less_iff)
  ultimately show ?thesis by (simp add: quantizeE_def n)
qed

lemma equal_rates_no_points:
  assumes "on_grid 6 s" "0 < s" "s \<le> 10 ^ 18" "0 \<le> r" "0 \<le> n"
  shows "calculate_forward_rate s r r n = Inr \<lparr>fr_spot = s, fr_forward = s, fr_points = 0, fr_domestic = r,
    fr_foreign = r, fr_tenor = n\<rparr>"
proof -
  let ?d = "dadd 1 (dmul r (ddiv (of_int n) 360))"
  have "0 < ?d" by (rule near_pos[OF growth_near[OF assms(4,5)] growth_pos[OF assms(4,5)]])
  then obtain f where f: "ddivE (dmul s ?d) ?d = Inr f" by (auto simp: ddivE_def)
  have p: "parity s r r n = s" using growth_pos[OF assms(4,5)] by (simp add: parity_def)
  have "\<bar>f - s\<bar> \<le> s / 10 ^ 26"
    using near_error[OF raw_forward_near[OF _ assms(4,4,5) f]] assms(2) p by simp
  also have "\<dots> \<le> 10 ^ 18 / 10 ^ 26" using assms(3) by (intro divide_right_mono) auto
  also have "\<dots> < 1 / (2 * 10 ^ 6)" by simp
  finally have "quantizeE 6 f = Inr s" using assms by (intro quantize_grid) auto
  with f show ?thesis by (simp add: calculate_forward_rate_def Let_def dsub_def)
qed

lemma sign_of_simps [simp]: "sign_of FxBuy = 1" "sign_of FxSell = - 1"
  by (simp_all add: sign_of_def dneg_def fix28_exact[of 0])

lemma quantizeE_uminus: "quantizeE k (- x) = (case quantizeE k x of Inl e \<Rightarrow> Inl e | Inr q \<Rightarrow> Inr (- q))"
  by (simp add: quantizeE_def Let_def round_even_uminus)

lemma quantizeE_sign:
  assumes "quantizeE k x = Inr q"
  shows "x \<le> 0 \<Longrightarrow> q \<le> 0" "0 \<le> x \<Longrightarrow> 0 \<le> q"
proof -
  show "q \<le> 0" if "x \<le> 0"
    using quantizeE_Inr(3)[of k "- x" "- q"] assms that by (simp add: quantizeE_uminus)
  show "0 \<le> q" if "0 \<le> x" using quantizeE_Inr(3)[OF assms that] .
qed

lemma dmul_uminus [simp]: "dmul (- x) y = - dmul x y"
  by (simp add: dmul_def)

text \<open>The two sides of a forward cancel: the mark of a contract sold is the mark of the same contract
  bought with the sign changed, and one raises exactly when the other does.
\<close>

theorem mark_antisymmetric:
  "mark_to_market_forward k n FxSell s rd rf d q =
     (case mark_to_market_forward k n FxBuy s rd rf d q of Inl e \<Rightarrow> Inl e
      | Inr m \<Rightarrow> Inr (m\<lparr>fm_value := - fm_value m\<rparr>))"
  by (auto simp: mark_to_market_forward_def bindE_def dmul_def quantizeE_uminus split: sum.splits)

text \<open>C23. A recommended hedge adds to the risk.  Take any recommendation and the exposure it was made for.
  Whenever the exposure loses in the fund's currency, because the rate (quote currency per unit of
  the fund's currency) has moved from the rate of the recommendation, a forward opened as
  recommended does not gain.
\<close>

theorem recommended_hedge_adds_risk:
  assumes "recommend_hedges exposures base spots rd rates ratio tenor = Inr recs" "0 \<le> ratio" "r \<in> set recs"
  shows "hr_base r = base \<and> (\<exists>e. (hr_quote r, e) \<in> set exposures \<and>
    (\<forall>s rd' rf d m. mark_to_market_forward (hr_forward r) (hr_notional r) (hr_direction r) s rd' rf d (hr_quote r) = Inr m \<longrightarrow>
       0 < fm_current m \<longrightarrow> 0 < hr_forward r \<longrightarrow> e / fm_current m < e / hr_forward r \<longrightarrow> fm_value m \<le> 0))"
proof -
  obtain c e where ce: "(c, e) \<in> set exposures" and one: "\<exists>xs. recommend_one base spots rd rates ratio tenor (c, e) = Inr xs \<and> r \<in> set xs"
  proof -
    from assms(1) obtain xss where m: "mapE (recommend_one base spots rd rates ratio tenor) exposures = Inr xss" "recs = concat xss"
      by (auto simp: recommend_hedges_def bindE_Inr_iff)
    with assms(3) obtain xs where "xs \<in> set xss" "r \<in> set xs" by auto
    then obtain i where "i < length xss" "r \<in> set (xss ! i)" by (metis in_set_conv_nth)
    with m show ?thesis using that mapE_Inr_length[OF m(1)] mapE_Inr_nth[OF m(1), of i]
      by (metis nth_mem prod.exhaust)
  qed
  then have "\<exists>n h cost. e \<noteq> 0 \<and> quantizeE 2 (dmul (dabs e) ratio) = Inr n \<and>
    r = \<lparr>hr_pair = pair_key base c, hr_base = base, hr_quote = c, hr_notional = n,
       hr_direction = (if 0 < e then FxSell else FxBuy), hr_ratio = ratio, hr_tenor = tenor,
       hr_forward = h, hr_cost = cost\<rparr>"
    by (auto simp: recommend_one_def bindE_Inr_iff split: if_splits option.splits)
  then obtain n h cost where r: "e \<noteq> 0" "quantizeE 2 (dmul (dabs e) ratio) = Inr n"
    "r = \<lparr>hr_pair = pair_key base c, hr_base = base, hr_quote = c, hr_notional = n,
       hr_direction = (if 0 < e then FxSell else FxBuy), hr_ratio = ratio, hr_tenor = tenor,
       hr_forward = h, hr_cost = cost\<rparr>" by blast
  have n: "0 \<le> n" using quantizeE_Inr(3)[OF r(2)] assms(2) by (simp add: dmul_def dabs_def fix28_nonneg)
  have "fm_value m \<le> 0" if m: "mark_to_market_forward (hr_forward r) n (hr_direction r) s rd' rf d c = Inr m"
    and pos: "0 < fm_current m" "0 < hr_forward r" and loss: "e / fm_current m < e / hr_forward r" for s rd' rf d m
  proof -
    from m obtain v where v: "quantizeE 2 (dmul (dmul (sign_of (hr_direction r)) n) (dsub (fm_current m) (hr_forward r))) = Inr v"
      "fm_value m = v" by (auto simp: mark_to_market_forward_def bindE_Inr_iff)
    have "dmul (dmul (sign_of (hr_direction r)) n) (dsub (fm_current m) (hr_forward r)) \<le> 0"
    proof (cases "0 < e")
      case True
      with loss pos have "hr_forward r < fm_current m" by (simp add: divide_less_cancel field_simps)
      with True n r(3) show ?thesis by (simp add: dmul_def dsub_def mult_le_0_iff fix28_nonneg)
    next
      case False
      with r(1) loss pos have "fm_current m < hr_forward r" by (simp add: field_simps)
      with False n r(3) show ?thesis by (simp add: dmul_def dsub_def mult_le_0_iff fix28_nonneg)
    qed
    with quantizeE_sign(1)[OF v(1)] v(2) show ?thesis by simp
  qed
  with ce r(3) show ?thesis by auto
qed

definition demo_rates :: rates where
  "demo_rates = (\<lambda>_. None)(''USD/EUR'' \<mapsto> 8 / 10)"

theorem recommended_hedge_adds_risk_witness:
  "\<exists>recs r. recommend_hedges [(''EUR'', 1000)] ''USD'' (get_rate demo_rates ''USD'') 0 (\<lambda>_. None) 1 30 = Inr recs \<and>
     r \<in> set recs \<and> hr_direction r = FxSell \<and>
     (case mark_to_market_forward (hr_forward r) (hr_notional r) (hr_direction r) (9 / 10) 0 0 0 ''EUR'' of
        Inr m \<Rightarrow> fm_value m \<le> 0 | Inl _ \<Rightarrow> False)"
proof -
  define r where "r = \<lparr>hr_pair = ''USD/EUR'', hr_base = ''USD'', hr_quote = ''EUR'', hr_notional = 1000,
    hr_direction = FxSell, hr_ratio = 1, hr_tenor = 30, hr_forward = 8 / 10, hr_cost = 0\<rparr>"
  have fwd: "calculate_forward_rate s 0 0 n = Inr \<lparr>fr_spot = s, fr_forward = s, fr_points = 0, fr_domestic = 0,
    fr_foreign = 0, fr_tenor = n\<rparr>" if "s \<in> {8 / 10, 9 / 10}" "0 \<le> n" for s n
    by (rule equal_rates_no_points) (use that in \<open>auto intro: on_gridI[of _ _ 800000] on_gridI[of _ _ 900000]\<close>)
  have spot: "get_rate demo_rates ''USD'' ''EUR'' = Some (8 / 10)" by (simp add: get_rate_def demo_rates_def pair_key_def)
  have q: "quantizeE 2 1000 = Inr 1000" "quantizeE 2 0 = Inr 0" by (simp_all add: quantizeE_def Let_def)
  have recs: "recommend_hedges [(''EUR'', 1000)] ''USD'' (get_rate demo_rates ''USD'') 0 (\<lambda>_. None) 1 30 = Inr [r]"
    using fwd[of "8 / 10" 30]
    by (simp add: recommend_hedges_def recommend_one_def spot q r_def pair_key_def dec_defs fix28_exact[of 0])
  let ?m = "mark_to_market_forward (hr_forward r) (hr_notional r) (hr_direction r) (9 / 10) 0 0 0 ''EUR''"
  have "\<exists>m. ?m = Inr m \<and> fm_current m = 9 / 10"
    using fwd[of "9 / 10" 0]
    by (simp add: mark_to_market_forward_def r_def dec_defs exact_simps quantizeE_def Let_def fix28_exact[of 2] on_gridI[of _ _ 10] on_gridI[of _ _ "- 10000"])
  then obtain m where m: "?m = Inr m" "fm_current m = 9 / 10" by blast
  have rs: "hr_quote r = ''EUR''" "hr_forward r = 8 / 10" by (simp_all add: r_def)
  obtain e where e: "(hr_quote r, e) \<in> set [(''EUR'', 1000)]"
    "mark_to_market_forward (hr_forward r) (hr_notional r) (hr_direction r) (9 / 10) 0 0 0 (hr_quote r) = Inr m \<Longrightarrow>
      0 < fm_current m \<Longrightarrow> 0 < hr_forward r \<Longrightarrow> e / fm_current m < e / hr_forward r \<Longrightarrow> fm_value m \<le> 0"
    using recommended_hedge_adds_risk[OF recs, of r] by auto
  have "fm_value m \<le> 0" by (rule e(2)) (use e(1) m in \<open>simp_all only: rs, simp_all\<close>)
  with recs m show ?thesis by (intro exI[of _ "[r]"] exI[of _ r]) (simp add: r_def)
qed

text \<open>C25. Hedges of the fund's own currency carry no interest.  A forward whose base currency is the fund's,
  as that of every recommendation is, is discounted with one and the same rate on both sides: however
  far the rate of the quote currency is from it, the forward is marked at the spot.
\<close>

theorem home_base_marked_at_spot:
  assumes "fw_base r = xe_base xe" "get_spot xe (fw_base r) (fw_quote r) = Some s"
    "on_grid 6 s" "0 < s" "s \<le> 10 ^ 18" "0 \<le> domestic_rate xe (ss_work st)"
    and "mark_one xe (domestic_rate xe (ss_work st)) r st = (st', Inr c)"
  shows "\<exists>v. quantizeE 2 (dmul (dmul (sign_of (fw_direction r)) (fw_notional r)) (dsub s (fw_rate r))) = Inr v \<and>
    fc_mtm c = Some v"
proof -
  have "calculate_forward_rate s (domestic_rate xe (ss_work st)) (domestic_rate xe (ss_work st))
      (max (fw_maturity r - le_today (xe_led xe)) 0) = Inr \<lparr>fr_spot = s, fr_forward = s, fr_points = 0,
        fr_domestic = domestic_rate xe (ss_work st), fr_foreign = domestic_rate xe (ss_work st),
        fr_tenor = max (fw_maturity r - le_today (xe_led xe)) 0\<rparr>"
    by (rule equal_rates_no_points) (use assms in auto)
  with assms(1,2,7) show ?thesis
    by (auto simp: mark_one_def mark_to_market_forward_def bindE_def domestic_rate_def to_contract_def bindS_def thenS_def
        split: sum.splits prod.splits)
qed

text \<open>Closing at the market, rolling and marking agree: what a roll estimates as the profit of the closing
  leg is the mark of the contract at that moment, and closing at the forward rate of that moment
  realizes it.
\<close>

theorem roll_realizes_mark:
  "(case mark_to_market_forward (fw_rate r) (fw_notional r) (fw_direction r) s rd rf d q of
      Inl e \<Rightarrow> (\<forall>tenor. \<exists>e'. calculate_roll_cost (fw_rate r) (fw_notional r) (fw_direction r) s rd rf d tenor = Inl e')
    | Inr m \<Rightarrow> quantizeE 2 (close_pnl r (fm_current m)) = Inr (fm_value m) \<and>
        (\<forall>tenor c. calculate_roll_cost (fw_rate r) (fw_notional r) (fw_direction r) s rd rf d tenor = Inr c \<longrightarrow>
           rl_close c = fm_value m \<and> rl_old c = fm_current m))"
proof (cases "calculate_forward_rate s rd rf d")
  case (Inl e)
  then show ?thesis by (simp add: mark_to_market_forward_def calculate_roll_cost_def)
next
  case (Inr c)
  then show ?thesis
    by (cases "quantizeE 2 (dmul (dmul (sign_of (fw_direction r)) (fw_notional r)) (dsub (fr_forward c) (fw_rate r)))")
      (auto simp: mark_to_market_forward_def calculate_roll_cost_def close_pnl_def bindE_def split: sum.splits)
qed

section \<open>The life of a forward\<close>

definition row_sound :: "forward_row \<Rightarrow> bool" where
  "row_sound r \<longleftrightarrow> fw_status r \<in> {FwdOpen, FwdClosed, FwdRolled} \<and> (fw_status r = FwdOpen \<longleftrightarrow> fw_realized r = None) \<and>
     on_grid 4 (fw_notional r)"

definition same_terms :: "forward_row \<Rightarrow> forward_row \<Rightarrow> bool" where
  "same_terms q r \<longleftrightarrow> fw_portfolio q = fw_portfolio r \<and> fw_base q = fw_base r \<and> fw_quote q = fw_quote r \<and>
     fw_direction q = fw_direction r \<and> fw_notional q = fw_notional r \<and> fw_counterparty q = fw_counterparty r"

definition rolled_to :: "uuid \<Rightarrow> forward_row list \<Rightarrow> forward_row list" where
  "rolled_to i rows = filter (\<lambda>r. fw_roll_from r = Some i) rows"

definition fx_sound :: "'a fx_tables_scheme \<Rightarrow> bool" where
  "fx_sound t \<longleftrightarrow> distinct (map fw_id (xt_forwards t)) \<and> (\<forall>r\<in>set (xt_forwards t). row_sound r) \<and>
     (\<forall>i. length (rolled_to i (xt_forwards t)) \<le> 1) \<and>
     (\<forall>r\<in>set (xt_forwards t). \<forall>i. fw_roll_from r = Some i \<longrightarrow>
        (\<exists>q\<in>set (xt_forwards t). fw_id q = i \<and> fw_status q = FwdRolled \<and> same_terms q r))"

text \<open>A change of rows that keeps their terms and never reopens a rolled one keeps the tables sound.\<close>

definition keeps_terms :: "(forward_row \<Rightarrow> forward_row) \<Rightarrow> bool" where
  "keeps_terms f \<longleftrightarrow> (\<forall>r. fw_id (f r) = fw_id r \<and> same_terms (f r) r \<and> fw_roll_from (f r) = fw_roll_from r)"

lemma same_terms_refl [simp]: "same_terms r r"
  by (simp add: same_terms_def)

lemma same_terms_trans: "same_terms p q \<Longrightarrow> same_terms q r \<Longrightarrow> same_terms p r"
  by (simp add: same_terms_def)

lemma same_terms_sym: "same_terms p q \<Longrightarrow> same_terms q p"
  by (simp add: same_terms_def)

lemma rolled_to_update:
  "keeps_terms f \<Longrightarrow> length (rolled_to i (update_rows key k f rows)) = length (rolled_to i rows)"
  by (induction rows) (auto simp: rolled_to_def update_rows_def keeps_terms_def)

lemma sound_update:
  assumes t: "fx_sound t" and f: "keeps_terms f"
    and g: "\<And>r. r \<in> set (xt_forwards t) \<Longrightarrow> fw_id r = i \<Longrightarrow> row_sound (f r) \<and> (fw_status r = FwdRolled \<longrightarrow> fw_status (f r) = FwdRolled)"
  shows "fx_sound (t\<lparr>xt_forwards := update_rows fw_id i f (xt_forwards t)\<rparr>)"
proof -
  define h where "h = (\<lambda>r. if fw_id r = i then f r else r)"
  have rows: "update_rows fw_id i f (xt_forwards t) = map h (xt_forwards t)" by (simp add: update_rows_def h_def)
  have h: "fw_id (h x) = fw_id x" "same_terms (h x) x" "fw_roll_from (h x) = fw_roll_from x" for x
    using f by (simp_all add: keeps_terms_def h_def)
  have hs: "row_sound (h x)" "fw_status x = FwdRolled \<Longrightarrow> fw_status (h x) = FwdRolled" if "x \<in> set (xt_forwards t)" for x
    using g[OF that] t that by (auto simp: h_def fx_sound_def)
  have link: "\<exists>q\<in>h ` set (xt_forwards t). fw_id q = k \<and> fw_status q = FwdRolled \<and> same_terms q (h r)"
    if r: "r \<in> set (xt_forwards t)" "fw_roll_from (h r) = Some k" for r k
  proof -
    from t r h(3) obtain q where q: "q \<in> set (xt_forwards t)" "fw_id q = k" "fw_status q = FwdRolled" "same_terms q r"
      unfolding fx_sound_def by metis
    have "same_terms (h q) (h r)" using q(4) h(2) same_terms_trans same_terms_sym by blast
    then show ?thesis using q hs(2)[OF q(1)] h(1)[of q] by (intro bexI[of _ "h q"]) auto
  qed
  have "distinct (map fw_id (map h (xt_forwards t)))" using t h(1) by (simp add: fx_sound_def comp_def)
  moreover have "length (rolled_to k (map h (xt_forwards t))) \<le> 1" for k
    using t rolled_to_update[OF f, of k fw_id i "xt_forwards t"] by (simp add: rows fx_sound_def)
  ultimately show ?thesis using link hs(1) unfolding fx_sound_def rows by simp
qed

lemma sound_append:
  assumes t: "fx_sound t" and new: "find_row fw_id (fw_id r) (xt_forwards t) = None" "row_sound r"
    and link: "\<And>i. fw_roll_from r = Some i \<Longrightarrow> rolled_to i (xt_forwards t) = [] \<and>
      (\<exists>q\<in>set (xt_forwards t). fw_id q = i \<and> fw_status q = FwdRolled \<and> same_terms q r)"
  shows "fx_sound (t\<lparr>xt_forwards := xt_forwards t @ [r]\<rparr>)"
proof -
  have "length (rolled_to i (xt_forwards t @ [r])) \<le> 1" for i
    using t link[of i] by (auto simp: fx_sound_def rolled_to_def)
  moreover have "fw_id r \<notin> fw_id ` set (xt_forwards t)" using new(1) by (auto simp: find_row_None)
  ultimately show ?thesis using t new(2) link unfolding fx_sound_def by auto
qed

definition fx_inv :: "forward_row set \<Rightarrow> fx_tables session \<Rightarrow> bool" where
  \<comment> \<open>everything is committed, the tables are sound, and the rows of \<open>F\<close>, which are not open, are there\<close>
  "fx_inv F s \<longleftrightarrow> ss_work s = ss_disk s \<and> fx_sound (ss_work s) \<and>
     (\<forall>r\<in>F. r \<in> set (xt_forwards (ss_work s)) \<and> fw_status r \<noteq> FwdOpen)"

definition stored :: "(fx_tables \<Rightarrow> fx_tables) \<Rightarrow> fx_tables session \<Rightarrow> fx_tables session" where
  "stored f s = s\<lparr>ss_work := f (ss_work s), ss_disk := f (ss_work s)\<rparr>"

definition change :: "uuid \<Rightarrow> (forward_row \<Rightarrow> forward_row) \<Rightarrow> fx_tables \<Rightarrow> fx_tables" where
  "change i f t = t\<lparr>xt_forwards := update_rows fw_id i f (xt_forwards t)\<rparr>"

definition restatus ::
  "fwd_status \<Rightarrow> dec option \<Rightarrow> dec option \<Rightarrow> timestamp option \<Rightarrow> dec option \<Rightarrow> forward_row \<Rightarrow> forward_row" where
  "restatus st a b c d r = r\<lparr>fw_status := st, fw_close_rate := keep_or a (fw_close_rate r),
     fw_close_spot := keep_or b (fw_close_spot r), fw_closed_at := keep_or c (fw_closed_at r),
     fw_realized := keep_or d (fw_realized r)\<rparr>"

lemma keeps_terms_changes [simp]:
  "keeps_terms (restatus st a b c d)" "keeps_terms (\<lambda>r. r\<lparr>fw_mtm := v, fw_mtm_at := w\<rparr>)"
  by (auto simp: keeps_terms_def restatus_def same_terms_def)

lemma find_change:
  "keeps_terms f \<Longrightarrow> find_row fw_id i (xt_forwards (change i f t)) = map_option f (find_row fw_id i (xt_forwards t))"
  by (simp add: change_def find_row_update keeps_terms_def)

lemma fx_invD:
  assumes "fx_inv F s"
  shows "ss_work s = ss_disk s" "fx_sound (ss_work s)" "distinct (map fw_id (xt_forwards (ss_work s)))"
    "r \<in> set (xt_forwards (ss_work s)) \<Longrightarrow> row_sound r" "z \<in> F \<Longrightarrow> z \<in> set (xt_forwards (ss_work s)) \<and> fw_status z \<noteq> FwdOpen"
  using assms unfolding fx_inv_def fx_sound_def by blast+

lemma change_keeps:
  assumes "fx_inv F s" "keeps_terms f" "\<forall>r\<in>F. fw_id r \<noteq> i"
    and "\<And>r. find_row fw_id i (xt_forwards (ss_work s)) = Some r \<Longrightarrow>
      row_sound (f r) \<and> (fw_status r = FwdRolled \<longrightarrow> fw_status (f r) = FwdRolled)"
  shows "fx_inv F (stored (change i f) s)"
proof -
  have only: "find_row fw_id i (xt_forwards (ss_work s)) = Some r" if "r \<in> set (xt_forwards (ss_work s))" "fw_id r = i" for r
  proof -
    from that fx_invD(3)[OF assms(1)] show ?thesis by (rule find_row_distinct)
  qed
  have "fx_sound (change i f (ss_work s))"
    unfolding change_def using assms(1,2) assms(4)[OF only] by (intro sound_update) (auto simp: fx_inv_def)
  moreover have "r \<in> set (xt_forwards (change i f (ss_work s)))" if "r \<in> F" for r
    using assms(1,3) that by (auto simp: fx_inv_def change_def update_rows_def image_iff)
  ultimately show ?thesis using assms(1) by (auto simp: fx_inv_def stored_def)
qed

lemma lift_case [simp]: "liftS (Inr x) = retS x" "liftS (Inl e) = raiseS e"
  by (simp_all add: fun_eq_iff)

lemma update_status_eq:
  "update_fwd_status en i st a b c d = bindS (liftS (col_opt en 18 8 a)) (\<lambda>a. bindS (liftS (col_opt en 18 8 b)) (\<lambda>b.
     bindS (liftS (col_opt en 18 4 d)) (\<lambda>d. thenS (writeT (change i (restatus st a b c d))) commit)))"
  by (simp add: update_fwd_status_def change_def[abs_def] restatus_def[abs_def])

lemma stored_eq: "thenS (writeT f) commit s = (stored f s, Inr ())"
  by (simp add: stored_def)

lemma col_opt_None: "col_opt en p k x = Inr y \<Longrightarrow> y = None \<longleftrightarrow> x = None"
  by (auto simp: col_opt_def bindE_Inr_iff split: option.splits)

lemma update_status_run:
  assumes "update_fwd_status en i st a b c d s = (s', x)"
  obtains e where "x = Inl e" "s' = s"
  | a' b' d' where "x = Inr ()" "s' = stored (change i (restatus st a' b' c d')) s" "d' = None \<longleftrightarrow> d = None"
proof (cases "col_opt en 18 8 a"; cases "col_opt en 18 8 b"; cases "col_opt en 18 4 d")
  fix a' b' d' assume "col_opt en 18 8 a = Inr a'" "col_opt en 18 8 b = Inr b'" "col_opt en 18 4 d = Inr d'"
  with assms that(2)[of a' b' d'] col_opt_None[of en 18 4 d d'] show thesis
    by (simp add: update_status_eq stored_eq del: session_binds)
qed (use assms that(1) in \<open>auto simp: update_status_eq bindS_def\<close>)

lemma insert_run:
  assumes "insert_forward en r s = (s', x)"
  obtains e where "x = Inl e" "ss_work s' = ss_work s" "ss_disk s' = ss_disk s"
  | n cr sp i where "le_col en 18 4 (fw_notional r) = Inr n" "find_row fw_id i (xt_forwards (ss_work s)) = None"
      "x = Inr (r\<lparr>fw_id := i\<rparr>)"
      "ss_work s' = (ss_work s)\<lparr>xt_forwards := xt_forwards (ss_work s) @ [r\<lparr>fw_id := i, fw_notional := n, fw_rate := cr, fw_spot := sp\<rparr>]\<rparr>"
      "ss_disk s' = ss_work s'"
proof -
  have "(\<exists>e. x = Inl e \<and> ss_work s' = ss_work s \<and> ss_disk s' = ss_disk s) \<or> (\<exists>n cr sp i.
    le_col en 18 4 (fw_notional r) = Inr n \<and> find_row fw_id i (xt_forwards (ss_work s)) = None \<and> x = Inr (r\<lparr>fw_id := i\<rparr>) \<and>
    ss_work s' = (ss_work s)\<lparr>xt_forwards := xt_forwards (ss_work s) @ [r\<lparr>fw_id := i, fw_notional := n, fw_rate := cr, fw_spot := sp\<rparr>]\<rparr> \<and>
    ss_disk s' = ss_work s')"
  proof (cases "le_col en 18 4 (fw_notional r)")
    case (Inr n)
    show ?thesis
    proof (cases "le_col en 18 8 (fw_rate r)")
      case rate: (Inr cr)
      show ?thesis
      proof (cases "le_col en 18 8 (fw_spot r)")
        case spot: (Inr sp)
        let ?i = "le_uuid en (ss_draws s)"
        show ?thesis
        proof (cases "find_row fw_id ?i (xt_forwards (ss_work s))")
          case None
          with assms Inr rate spot have "x = Inr (r\<lparr>fw_id := ?i\<rparr>)" "ss_disk s' = ss_work s'"
            "ss_work s' = (ss_work s)\<lparr>xt_forwards := xt_forwards (ss_work s) @ [r\<lparr>fw_id := ?i, fw_notional := n, fw_rate := cr, fw_spot := sp\<rparr>]\<rparr>"
            by (auto simp: insert_forward_def)
          with Inr None show ?thesis by blast
        qed (use assms Inr rate spot in \<open>auto simp: insert_forward_def\<close>)
      qed (use assms Inr rate in \<open>auto simp: insert_forward_def\<close>)
    qed (use assms Inr in \<open>auto simp: insert_forward_def\<close>)
  qed (use assms in \<open>auto simp: insert_forward_def\<close>)
  with that show thesis by blast
qed

lemma publish_fx_inv: "publish_fx xe fund ev s = (s', x) \<Longrightarrow> ss_work s' = ss_work s \<and> ss_disk s' = ss_disk s"
  by (auto simp: publish_fx_def whenS_def dest: emit_work split: if_splits)

lemma inv_work: "ss_work s' = ss_work s \<Longrightarrow> ss_disk s' = ss_disk s \<Longrightarrow> fx_inv F s' = fx_inv F s"
  by (simp add: fx_inv_def)

text \<open>What a close leaves: the tables as they were, or the open row closed.\<close>

lemma close_run:
  assumes inv: "fx_inv F s" and run: "close_forward xe i rate spot fund s = (s', x)"
  shows "fx_inv F s'"
    and "x = Inr c \<Longrightarrow> \<exists>r q. find_row fw_id i (xt_forwards (ss_work s)) = Some r \<and> fw_status r = FwdOpen \<and>
       find_row fw_id i (xt_forwards (ss_work s')) = Some q \<and> fw_status q = FwdClosed \<and> fw_realized q \<noteq> None \<and>
       same_terms q r \<and> (\<forall>z\<in>F. fw_id z \<noteq> i)"
proof -
  consider (stay) e where "x = Inl e" "ss_work s' = ss_work s" "ss_disk s' = ss_disk s"
    | (went) r a b p where "find_row fw_id i (xt_forwards (ss_work s)) = Some r" "fw_status r = FwdOpen"
        "ss_work s' = ss_work (stored (change i (restatus FwdClosed a b (Some (le_now (xe_led xe))) (Some p))) s)"
        "ss_disk s' = ss_disk (stored (change i (restatus FwdClosed a b (Some (le_now (xe_led xe))) (Some p))) s)"
  proof (cases "find_row fw_id i (xt_forwards (ss_work s))")
    case None
    with run stay show ?thesis by (auto simp: close_forward_def get_forward_row_def)
  next
    case (Some r)
    show ?thesis
    proof (cases "fw_status r = FwdOpen \<and> is_ok (quantizeE 2 (close_pnl r rate))")
      case False
      with Some run stay show ?thesis
        by (cases "quantizeE 2 (close_pnl r rate)")
          (auto simp: close_forward_def get_forward_row_def is_ok_iff bindS_def split: if_splits)
    next
      case True
      then obtain p where p: "quantizeE 2 (close_pnl r rate) = Inr p" by (auto simp: is_ok_iff)
      obtain s1 y where u: "update_fwd_status (xe_led xe) i FwdClosed (Some rate) (Some spot) (Some (le_now (xe_led xe))) (Some p) s = (s1, y)"
        by (rule prod.exhaust)
      show ?thesis
      proof (cases rule: update_status_run[OF u])
        case (1 e)
        with Some True p run u stay show ?thesis by (auto simp: close_forward_def get_forward_row_def thenS_def bindS_def)
      next
        case (2 a b d)
        then obtain p' where d: "d = Some p'" by auto
        have "ss_work s' = ss_work s1 \<and> ss_disk s' = ss_disk s1"
          using Some True p run u 2 by (auto simp: close_forward_def get_forward_row_def thenS_def bindS_def
              dest!: publish_fx_inv split: prod.splits sum.splits option.splits)
        with went Some True 2 d show ?thesis by blast
      qed
    qed
  qed
  note cs = this
  have free: "\<forall>z\<in>F. fw_id z \<noteq> i" if "find_row fw_id i (xt_forwards (ss_work s)) = Some r" "fw_status r = FwdOpen" for r
  proof (intro ballI notI)
    fix z assume z: "z \<in> F" "fw_id z = i"
    have "distinct (map fw_id (xt_forwards (ss_work s)))" by (rule fx_invD(3)[OF inv])
    moreover have "z \<in> set (xt_forwards (ss_work s))" "r \<in> set (xt_forwards (ss_work s))" "fw_id r = i"
      using inv z that find_row_Some[OF that(1)] by (auto simp: fx_inv_def)
    ultimately have "z = r" using z(2) by (auto simp: distinct_map inj_on_def)
    with inv z that show False by (auto simp: fx_inv_def)
  qed
  have ok: "row_sound (restatus FwdClosed a b c (Some p) r)" if "find_row fw_id i (xt_forwards (ss_work s)) = Some r" for r a b c p
    using fx_invD(4)[OF inv, of r] find_row_Some[OF that] by (simp add: row_sound_def restatus_def keep_or_def)
  from cs show "fx_inv F s'"
  proof cases
    case stay
    with inv inv_work[of s' s F] show ?thesis by blast
  next
    case (went r a b p)
    have "fx_inv F (stored (change i (restatus FwdClosed a b (Some (le_now (xe_led xe))) (Some p))) s)"
      by (rule change_keeps[OF inv]) (use went free ok in auto)
    then show ?thesis using inv_work[OF went(3,4)] by blast
  qed
  assume "x = Inr c"
  with cs show "\<exists>r q. find_row fw_id i (xt_forwards (ss_work s)) = Some r \<and> fw_status r = FwdOpen \<and>
       find_row fw_id i (xt_forwards (ss_work s')) = Some q \<and> fw_status q = FwdClosed \<and> fw_realized q \<noteq> None \<and>
       same_terms q r \<and> (\<forall>z\<in>F. fw_id z \<noteq> i)"
  proof cases
    case (went r a b p)
    then have "find_row fw_id i (xt_forwards (ss_work s')) = Some (restatus FwdClosed a b (Some (le_now (xe_led xe))) (Some p) r)"
      by (simp add: stored_def find_change)
    with went free show ?thesis by (auto simp: restatus_def keep_or_def same_terms_def)
  qed simp
qed

text \<open>Open rows are never among the frozen ones.\<close>

lemma open_not_frozen:
  assumes inv: "fx_inv F s" and r: "r \<in> set (xt_forwards (ss_work s))" "fw_status r = FwdOpen" and z: "z \<in> F"
  shows "fw_id z \<noteq> fw_id r"
proof
  assume "fw_id z = fw_id r"
  with fx_invD(3)[OF inv] fx_invD(5)[OF inv z] r(1) have "z = r" by (auto simp: distinct_map inj_on_def)
  with fx_invD(5)[OF inv z] r(2) show False by simp
qed

lemma insert_keeps:
  assumes inv: "fx_inv F s" and col: "col_spec en" and run: "insert_forward en r s = (s', x)"
    and new: "fw_status r = FwdOpen" "fw_realized r = None"
    and link: "\<And>i. fw_roll_from r = Some i \<Longrightarrow> on_grid 4 (fw_notional r) \<and> rolled_to i (xt_forwards (ss_work s)) = [] \<and>
      (\<exists>q\<in>set (xt_forwards (ss_work s)). fw_id q = i \<and> fw_status q = FwdRolled \<and> same_terms q r)"
  shows "fx_inv F s'"
proof (cases rule: insert_run[OF run])
  case (1 e)
  with inv inv_work[of s' s F] show ?thesis by blast
next
  case (2 n cr sp i)
  let ?r = "r\<lparr>fw_id := i, fw_notional := n, fw_rate := cr, fw_spot := sp\<rparr>"
  have "fx_sound ((ss_work s)\<lparr>xt_forwards := xt_forwards (ss_work s) @ [?r]\<rparr>)"
  proof (rule sound_append)
    show "fx_sound (ss_work s)" by (rule fx_invD(2)[OF inv])
    show "row_sound ?r" using new col_specD(1)[OF col 2(1)] by (simp add: row_sound_def)
    show "rolled_to k (xt_forwards (ss_work s)) = [] \<and>
      (\<exists>q\<in>set (xt_forwards (ss_work s)). fw_id q = k \<and> fw_status q = FwdRolled \<and> same_terms q ?r)"
      if "fw_roll_from ?r = Some k" for k
      using link[of k] that col_specD(3)[OF col 2(1)] by (auto simp: same_terms_def)
  qed (use 2 in simp)
  moreover have "z \<in> set (xt_forwards (ss_work s')) \<and> fw_status z \<noteq> FwdOpen" if "z \<in> F" for z
    using fx_invD(5)[OF inv that] by (simp add: 2(4))
  ultimately show ?thesis unfolding fx_inv_def by (simp add: 2(4,5))
qed

lemma publish_keeps: "keeps (fx_inv F) (publish_fx xe fund ev)"
proof (rule keeps_fstI)
  fix s assume inv: "fx_inv F s"
  obtain s' x where p: "publish_fx xe fund ev s = (s', x)" by (rule prod.exhaust)
  from publish_fx_inv[OF p] have "fx_inv F s' = fx_inv F s" by (intro inv_work) auto
  with inv p show "fx_inv F (fst (publish_fx xe fund ev s))" by simp
qed

lemma open_keeps: "col_spec (xe_led xe) \<Longrightarrow> keeps (fx_inv F) (open_forward xe c fund)"
proof (rule keeps_fstI)
  fix s assume col: "col_spec (xe_led xe)" and inv: "fx_inv F s"
  obtain t y where t: "insert_forward (xe_led xe) (new_forward c) s = (t, y)" by (rule prod.exhaust)
  have "fx_inv F t" by (rule insert_keeps[OF inv col t]) (simp_all add: new_forward_def)
  with t show "fx_inv F (fst (open_forward xe c fund s))"
    unfolding open_forward_def by (intro fst_bindI[where I = "fx_inv F"] keeps_then[OF publish_keeps keeps_basic(1)]) simp_all
qed

lemma roll_keeps: "col_spec (xe_led xe) \<Longrightarrow> keeps (fx_inv F) (roll_forward xe i maturity rate spot fund)"
proof (rule keeps_fstI)
  fix s assume col: "col_spec (xe_led xe)" and inv: "fx_inv F s"
  show "fx_inv F (fst (roll_forward xe i maturity rate spot fund s))"
  proof (cases "find_row fw_id i (xt_forwards (ss_work s))")
    case None
    with inv show ?thesis by (simp add: roll_forward_def get_forward_row_def)
  next
    case (Some r)
    let ?c = "calculate_forward_rate spot (domestic_rate xe (ss_work s)) (rate_for_currency xe (fw_base r) (ss_work s))
      (max (fw_maturity r - le_today (xe_led xe)) 0)"
    show ?thesis
    proof (cases ?c)
      case (Inl e)
      with Some inv show ?thesis by (simp add: roll_forward_def get_forward_row_def)
    next
      case c: (Inr c)
      obtain t y where t: "close_forward xe i (fr_forward c) spot fund s = (t, y)" by (rule prod.exhaust)
      have tinv: "fx_inv F t" by (rule close_run(1)[OF inv t])
      show ?thesis
      proof (cases y)
        case (Inl e)
        with Some c t tinv show ?thesis by (simp add: roll_forward_def get_forward_row_def bindS_def)
      next
        case (Inr d)
        from close_run(2)[OF inv t Inr] Some obtain q where
          q: "find_row fw_id i (xt_forwards (ss_work t)) = Some q" "fw_status q = FwdClosed" "fw_realized q \<noteq> None"
            "same_terms q r" "fw_status r = FwdOpen" and free: "\<forall>z\<in>F. fw_id z \<noteq> i" by auto
        let ?f = "restatus FwdRolled None None None None"
        let ?u = "stored (change i ?f) t"
        have u: "update_fwd_status (xe_led xe) i FwdRolled None None None None t = (?u, Inr ())"
          by (simp add: update_status_eq col_opt_def stored_eq del: session_binds)
        have uinv: "fx_inv F ?u"
          by (rule change_keeps[OF tinv _ free])
            (use q fx_invD(4)[OF tinv, of q] find_row_Some[OF q(1)] in \<open>auto simp: row_sound_def restatus_def keep_or_def\<close>)
        have none: "rolled_to i (xt_forwards (ss_work ?u)) = []"
        proof -
          have "rolled_to i (xt_forwards (ss_work t)) = []"
          proof (rule ccontr)
            assume "rolled_to i (xt_forwards (ss_work t)) \<noteq> []"
            then obtain z where "z \<in> set (xt_forwards (ss_work t))" "fw_roll_from z = Some i"
              by (auto simp: rolled_to_def filter_empty_conv)
            with fx_invD(2)[OF tinv] obtain w where "w \<in> set (xt_forwards (ss_work t))" "fw_id w = i" "fw_status w = FwdRolled"
              unfolding fx_sound_def by blast
            with find_row_distinct[OF _ _ fx_invD(3)[OF tinv]] q(1,2) show False by fastforce
          qed
          then show ?thesis using rolled_to_update[of ?f i fw_id i "xt_forwards (ss_work t)"]
            by (simp add: stored_def change_def)
        qed
        have row: "find_row fw_id i (xt_forwards (ss_work ?u)) = Some (?f q)" using q(1) by (simp add: stored_def find_change)
        let ?n = "successor r maturity rate spot (le_today (xe_led xe))"
        obtain v z where v: "insert_forward (xe_led xe) ?n ?u = (v, z)" by (rule prod.exhaust)
        have grid: "on_grid 4 (fw_notional r)" using fx_invD(4)[OF inv] find_row_Some[OF Some] by (simp add: row_sound_def)
        have "fx_inv F v"
        proof (rule insert_keeps[OF uinv col v])
          fix k assume "fw_roll_from ?n = Some k"
          then have k: "k = i" using find_row_Some[OF Some] by (simp add: successor_def)
          show "on_grid 4 (fw_notional ?n) \<and> rolled_to k (xt_forwards (ss_work ?u)) = [] \<and>
            (\<exists>q\<in>set (xt_forwards (ss_work ?u)). fw_id q = k \<and> fw_status q = FwdRolled \<and> same_terms q ?n)"
            unfolding k using grid none find_row_Some[OF row] q(4)
            by (intro conjI bexI[of _ "?f q"]) (auto simp: successor_def restatus_def same_terms_def)
        qed (simp_all add: successor_def)
        then have "fx_inv F (fst (bindS (insert_forward (xe_led xe) ?n) (\<lambda>n. thenS (publish_fx xe fund (ForwardRolled i (fw_id n) maturity rate))
            (retS (to_contract n))) ?u))"
          using v by (intro fst_bindI[where I = "fx_inv F"] keeps_then[OF publish_keeps keeps_basic(1)]) simp_all
        moreover have "close_forward xe i (fr_forward c) spot fund s = (t, Inr d)" using t Inr by simp
        then have "bindS (close_forward xe i (fr_forward c) spot fund) g s = g d t" for g :: "_ \<Rightarrow> (fx_tables, fwd_contract) op"
          by (rule bindS_eval(1))
        moreover have "thenS (update_fwd_status (xe_led xe) i FwdRolled None None None None) g t = g ?u"
          for g :: "(fx_tables, fwd_contract) op" using u by (rule bindS_eval(3))
        ultimately show ?thesis using Some c by (simp add: roll_forward_def get_forward_row_def)
      qed
    qed
  qed
qed

lemma mark_keeps:
  assumes "\<forall>z\<in>F. fw_id z \<noteq> fw_id r"
  shows "keeps (fx_inv F) (mark_one xe rd r)"
proof (rule keeps_fstI)
  fix s assume inv: "fx_inv F s"
  show "fx_inv F (fst (mark_one xe rd r s))"
  proof (cases "get_spot xe (fw_base r) (fw_quote r)")
    case None
    with inv show ?thesis by (simp add: mark_one_def)
  next
    case (Some spot)
    show ?thesis
    proof (cases "mark_to_market_forward (fw_rate r) (fw_notional r) (fw_direction r) spot rd
        (rate_for_currency xe (fw_base r) (ss_work s)) (max (fw_maturity r - le_today (xe_led xe)) 0) (fw_quote r)")
      case (Inl e)
      with Some inv show ?thesis by (simp add: mark_one_def)
    next
      case (Inr m)
      show ?thesis
      proof (cases "le_col (xe_led xe) 18 4 (fm_value m)")
        case (Inl e)
        with Some Inr inv show ?thesis by (simp add: mark_one_def update_mtm_def bindS_eval(4) thenS_def)
      next
        case v: (Inr v)
        let ?f = "\<lambda>q. q\<lparr>fw_mtm := Some v, fw_mtm_at := Some (le_now (xe_led xe))\<rparr>"
        have "fx_inv F (stored (change (fw_id r) ?f) s)"
          by (rule change_keeps[OF inv _ assms]) (use fx_invD(4)[OF inv] in \<open>auto simp: row_sound_def dest!: find_row_Some\<close>)
        moreover have "update_mtm (xe_led xe) (fw_id r) (fm_value m) (le_now (xe_led xe)) s = (stored (change (fw_id r) ?f) s, Inr ())"
          using v by (simp add: update_mtm_def stored_def change_def)
        ultimately show ?thesis using Some Inr by (simp add: mark_one_def thenS_def bindS_def)
      qed
    qed
  qed
qed

lemma mark_all_keeps: "scan_spec (xe_led xe) \<Longrightarrow> keeps (fx_inv F) (mark_to_market_all xe p fund)"
proof (rule keeps_fstI)
  fix s assume sc: "scan_spec (xe_led xe)" and inv: "fx_inv F s"
  let ?rows = "get_open_by_portfolio (xe_led xe) p (ss_work s)"
  have "\<forall>z\<in>F. fw_id z \<noteq> fw_id r" if "r \<in> set ?rows" for r
  proof -
    have "r \<in> set (xt_forwards (ss_work s)) \<and> fw_status r = FwdOpen"
      using that by (simp add: get_open_by_portfolio_def set_scan[OF sc])
    with open_not_frozen[OF inv] show ?thesis by blast
  qed
  then have "keeps (fx_inv F) (mapS (mark_one xe (domestic_rate xe (ss_work s))) ?rows)" by (intro keeps_map mark_keeps)
  from keeps_fst[OF keeps_bind[OF this keeps_then[OF publish_keeps keeps_basic(1)]] inv]
  show "fx_inv F (fst (mark_to_market_all xe p fund s))" by (simp add: mark_to_market_all_def)
qed

text \<open>Every operation of the service as a command; each is a request with a session of its own.\<close>

datatype fx_command =
    OpenForward forward_create "string option"
  | CloseForward uuid dec dec "string option"
  | RollForward uuid date dec dec "string option"
  | MarkForwards uuid "string option"
  | RecommendHedges uuid "(string \<times> dec) list" dec int "string option"
  | SetInterestRate string dec int string
  | InterestRateEvent "string option" "dec option"

definition fx_exec :: "fx_env \<Rightarrow> fx_command \<Rightarrow> fx_tables session \<Rightarrow> fx_tables session" where
  "fx_exec xe c s = (case c of
     OpenForward r fund \<Rightarrow> fst (request (open_forward xe r fund) s)
   | CloseForward i rate spot fund \<Rightarrow> fst (request (close_forward xe i rate spot fund) s)
   | RollForward i m rate spot fund \<Rightarrow> fst (request (roll_forward xe i m rate spot fund) s)
   | MarkForwards p fund \<Rightarrow> fst (request (mark_to_market_all xe p fund) s)
   | RecommendHedges p es ratio tenor fund \<Rightarrow> fst (request (get_hedge_recommendations xe p es ratio tenor fund) s)
   | SetInterestRate c rate tenor source \<Rightarrow> fst (request (set_interest_rate xe c rate tenor source) s)
   | InterestRateEvent c rate \<Rightarrow> fst (on_interest_rate xe c rate s))"

lemma request_keeps: "keeps (fx_inv F) m \<Longrightarrow> fx_inv F s \<Longrightarrow> fx_inv F (fst (request m s))"
  using keeps_fst[of "fx_inv F" m s] by (cases "m s") (auto simp: request_def fx_inv_def)

lemma request_uncommitted:
  assumes "\<And>s. ss_disk (fst (m s)) = ss_disk s" "fx_inv F s"
  shows "fx_inv F (fst (request m s))" "ss_work (fst (request m s)) = ss_work s"
  using assms fx_invD(1)[OF assms(2)] assms(1)[of s] by (cases "m s", simp add: request_def fx_inv_def)+

lemma upsert_uncommitted: "ss_disk (fst (upsert_rate en r s)) = ss_disk s"
proof (cases "filter (\<lambda>q. ir_currency q = ir_currency r \<and> ir_tenor q = ir_tenor r) (xt_rates (ss_work s))")
  case Nil
  then show ?thesis by (cases "le_col en 10 6 (ir_rate r)") (auto simp: upsert_rate_def writeT_def)
next
  case (Cons q qs)
  then show ?thesis by (cases qs; cases "le_col en 10 6 (ir_rate r)") (auto simp: upsert_rate_def writeT_def)
qed

lemma tried_uncommitted: "ss_disk (fst (tryS (set_interest_rate xe c r k src) (\<lambda>_. retS ()) s)) = ss_disk s"
  using upsert_uncommitted[of "xe_led xe" _ s]
  by (auto simp: tryS_def set_interest_rate_def split: prod.split sum.split) (metis fst_conv)+

interpretation fx: command_system "fx_exec xe" "\<lambda>_. col_spec (xe_led xe) \<and> scan_spec (xe_led xe)" "fx_inv F"
  for xe F
proof
  fix cmd s assume env: "col_spec (xe_led xe) \<and> scan_spec (xe_led xe)" and inv: "fx_inv F s"
  have rec: "keeps (fx_inv F) (get_hedge_recommendations xe p es ratio tenor fund)" for p es ratio tenor fund
    unfolding get_hedge_recommendations_def
    by (intro keeps_bind keeps_then keeps_basic publish_keeps) (auto simp: readT_def split: prod.split intro!: keeps_bind keeps_then keeps_basic publish_keeps)
  have close: "keeps (fx_inv F) (close_forward xe i rate spot fund)" for i rate spot fund
    by (rule keeps_fstI) (metis close_run(1) prod.collapse)
  show "fx_inv F (fx_exec xe cmd s)"
  proof (cases cmd)
    case (SetInterestRate c r k src)
    have "fx_inv F (fst (request (set_interest_rate xe c r k src) s))"
      unfolding set_interest_rate_def by (rule request_uncommitted(1)[OF upsert_uncommitted inv])
    then show ?thesis by (simp only: fx_exec_def SetInterestRate fx_command.case)
  next
    case (InterestRateEvent c r)
    with request_uncommitted(1)[OF tried_uncommitted inv] inv show ?thesis
      by (auto simp: fx_exec_def on_interest_rate_def split: option.split)
  qed (use env inv rec close in \<open>auto simp: fx_exec_def intro!: request_keeps open_keeps roll_keeps mark_all_keeps\<close>)
qed

definition fx_start :: "fx_tables session" where
  "fx_start = (let t = \<lparr>xt_forwards = [], xt_rates = []\<rparr> in \<lparr>ss_work = t, ss_disk = t, ss_events = [], ss_draws = 0\<rparr>)"

lemma fx_start_inv: "fx_inv {} fx_start"
  by (simp add: fx_inv_def fx_start_def Let_def fx_sound_def rolled_to_def)

text \<open>C22. The life of a forward, in every run of the service.  Whatever sequence of commands has been
  executed, with any of them failing at any point, the stored forwards have distinct identifiers, are
  open exactly as long as no profit is realized, and form chains: a forward opened by a roll continues
  one rolled forward of the same portfolio, pair, direction and notional, and nothing else continues
  it.  A forward that is no longer open is never changed again.
\<close>

theorem forward_lifecycle:
  assumes "col_spec (xe_led xe)" "scan_spec (xe_led xe)"
  shows "fx_sound (ss_disk (fold (fx_exec xe) cs fx_start)) \<and>
    (\<forall>r\<in>set (xt_forwards (ss_disk (fold (fx_exec xe) cs fx_start))). fw_status r \<noteq> FwdOpen \<longrightarrow>
       r \<in> set (xt_forwards (ss_disk (fold (fx_exec xe) (cs @ cs') fx_start))))"
proof -
  let ?s = "fold (fx_exec xe) cs fx_start"
  let ?F = "{r \<in> set (xt_forwards (ss_work ?s)). fw_status r \<noteq> FwdOpen}"
  have env: "\<forall>c\<in>set cs. col_spec (xe_led xe) \<and> scan_spec (xe_led xe)" for cs :: "fx_command list" using assms by blast
  have s: "fx_inv {} ?s" by (rule fx.run_keeps[OF env fx_start_inv])
  then have "fx_inv ?F ?s" unfolding fx_inv_def by blast
  from fx.run_keeps[OF env this, of cs'] have u: "fx_inv ?F (fold (fx_exec xe) (cs @ cs') fx_start)" by simp
  show ?thesis unfolding fx_invD(1)[OF s, symmetric] fx_invD(1)[OF u, symmetric]
    using fx_invD(2)[OF s] fx_invD(5)[OF u] by simp
qed

text \<open>A rate set by a request, or received from the bus, is not stored: the repository flushes the
  session and nothing commits it, so every forward is priced with rates of zero unless the table was
  filled otherwise.
\<close>

theorem rates_never_stored:
  assumes "ss_work s = ss_disk s"
  shows "ss_work (fx_exec xe (SetInterestRate c rate tenor source) s) = ss_work s \<and>
    ss_work (fx_exec xe (InterestRateEvent c' rate') s) = ss_work s"
proof -
  have req: "ss_work (fst (request m s)) = ss_work s" if "ss_disk (fst (m s)) = ss_disk s" for m :: "(fx_tables, unit) op"
    using that assms by (cases "m s") (simp add: request_def)
  have set: "ss_work (fst (request (set_interest_rate xe c rate tenor source) s)) = ss_work s"
    by (rule req) (simp add: set_interest_rate_def upsert_uncommitted)
  have event: "ss_work (fst (on_interest_rate xe c' rate' s)) = ss_work s"
  proof (cases "c' = None \<or> rate' = None")
    case False
    then obtain k r where "c' = Some k" "rate' = Some r" by auto
    with req[of "tryS (set_interest_rate xe k r 30 ''mock-exchange'') (\<lambda>_. retS ())", OF tried_uncommitted]
    show ?thesis by (simp only: on_interest_rate_def option.case prod.case)
  qed (auto simp: on_interest_rate_def split: option.split)
  from set event show ?thesis by (simp only: fx_exec_def fx_command.case)
qed

definition demo_fx :: fx_env where
  "demo_fx = \<lparr>xe_led = demo_ledger, xe_rates = Some demo_rates, xe_base = ''USD''\<rparr>"

definition demo_forward :: forward_create where
  "demo_forward = \<lparr>fo_portfolio = 1, fo_base = ''USD'', fo_quote = ''EUR'', fo_direction = FxBuy, fo_notional = 1000,
     fo_rate = 8 / 10, fo_spot = 8 / 10, fo_trade = 738886, fo_maturity = 738916, fo_counterparty = None\<rparr>"

lemma demo_fx_ok: "col_spec (xe_led demo_fx)" "scan_spec (xe_led demo_fx)"
  using demo_col by (simp_all add: demo_fx_def) (simp add: scan_spec_def demo_ledger_def)

lemma demo_opened:
  obtains r s' where "open_forward demo_fx demo_forward None fx_start = (s', Inr (to_contract r))"
    "xt_forwards (ss_work s') = [r]" "xt_rates (ss_work s') = []" "ss_disk s' = ss_work s'"
    "fw_id r = 1" "fw_status r = FwdOpen" "fw_rate r = 8 / 10" "fw_notional r = 1000" "fw_direction r = FxBuy"
    "fw_base r = ''USD''" "fw_quote r = ''EUR''" "fw_portfolio r = 1" "fw_maturity r = 738916"
proof -
  have col: "le_col demo_ledger 18 4 1000 = Inr 1000" "le_col demo_ledger 18 8 (8 / 10) = Inr (8 / 10)"
    by (intro col_store[OF demo_col] on_gridI[of _ _ 80000000] on_gridI[of _ _ 10000000]; simp)+
  have st: "xt_forwards (ss_work fx_start) = []" "xt_rates (ss_work fx_start) = []" "ss_draws fx_start = 0"
    by (simp_all add: fx_start_def Let_def)
  let ?r = "(new_forward demo_forward)\<lparr>fw_id := 1\<rparr>"
  have r: "fw_notional (new_forward demo_forward) = 1000" "fw_rate (new_forward demo_forward) = 8 / 10" "fw_spot (new_forward demo_forward) = 8 / 10"
    by (simp_all add: new_forward_def demo_forward_def)
  have u: "le_uuid demo_ledger 0 = 1" by (simp add: demo_ledger_def)
  have same: "(new_forward demo_forward)\<lparr>fw_id := 1, fw_notional := 1000, fw_rate := 8 / 10, fw_spot := 8 / 10\<rparr> = ?r"
    by (simp add: new_forward_def demo_forward_def)
  have "\<exists>s'. insert_forward demo_ledger (new_forward demo_forward) fx_start = (s', Inr ?r) \<and> xt_forwards (ss_work s') = [?r] \<and>
    xt_rates (ss_work s') = [] \<and> ss_disk s' = ss_work s'"
    unfolding insert_forward_def r col lift_case bindS_simps
    by (simp only: session_binds session_ops st u find_row_Nil if_False simp_thms bindS_simps) (simp add: st new_forward_def demo_forward_def)
  then obtain s' where "insert_forward demo_ledger (new_forward demo_forward) fx_start = (s', Inr ?r)" "xt_forwards (ss_work s') = [?r]"
    "xt_rates (ss_work s') = []" "ss_disk s' = ss_work s'" by blast
  with that[of s' ?r] show thesis
    by (auto simp: open_forward_def bindS_def publish_fx_def truthy_def demo_fx_def whenS_def new_forward_def demo_forward_def)
qed

lemma exec_opened:
  obtains r where "xt_forwards (ss_disk (fx_exec demo_fx (OpenForward demo_forward None) fx_start)) = [r]" "fw_status r = FwdOpen"
proof -
  obtain r s' where "open_forward demo_fx demo_forward None fx_start = (s', Inr (to_contract r))"
    "xt_forwards (ss_work s') = [r]" "ss_disk s' = ss_work s'" "fw_status r = FwdOpen" by (rule demo_opened)
  then show thesis by (intro that) (simp_all add: fx_exec_def request_def)
qed

theorem forward_lifecycle_witness:
  "fx_sound (ss_disk (fold (fx_exec demo_fx) [OpenForward demo_forward None] fx_start)) \<and>
   map fw_status (xt_forwards (ss_disk (fold (fx_exec demo_fx) [OpenForward demo_forward None] fx_start))) = [FwdOpen]"
proof -
  obtain r where "xt_forwards (ss_disk (fx_exec demo_fx (OpenForward demo_forward None) fx_start)) = [r]" "fw_status r = FwdOpen"
    by (rule exec_opened)
  with forward_lifecycle[OF demo_fx_ok, of "[OpenForward demo_forward None]" "[]"] show ?thesis by simp
qed

theorem rates_never_stored_witness:
  "ss_work (fx_exec demo_fx (SetInterestRate ''EUR'' (3 / 100) 30 ''manual'') fx_start) = ss_work fx_start"
  using rates_never_stored[of fx_start demo_fx "''EUR''" "3 / 100" 30 "''manual''"] by (simp add: fx_start_def Let_def)

theorem home_base_marked_at_spot_witness:
  "\<exists>r (st :: fx_tables session) st' c. mark_one demo_fx (domestic_rate demo_fx (ss_work st)) r st = (st', Inr c) \<and>
     fw_rate r = 8 / 10 \<and> fc_mtm c = Some 0"
proof -
  obtain r s' where run0: "open_forward demo_fx demo_forward None fx_start = (s', Inr (to_contract r))" and r: "xt_rates (ss_work s') = []"
    "fw_id r = 1" "fw_status r = FwdOpen" "fw_rate r = 8 / 10" "fw_notional r = 1000" "fw_direction r = FxBuy"
    "fw_base r = ''USD''" "fw_quote r = ''EUR''" "fw_maturity r = 738916" by (rule demo_opened)
  have rate: "rate_for_currency demo_fx c (ss_work s') = 0" for c
    using r(1) by (simp add: rate_for_currency_def get_rate_row_def scan_def demo_fx_def demo_ledger_def)
  then have dom: "domestic_rate demo_fx (ss_work s') = 0" by (simp add: domestic_rate_def)
  have spot: "get_spot demo_fx (fw_base r) (fw_quote r) = Some (8 / 10)"
    using r by (simp add: get_spot_def demo_fx_def get_rate_def demo_rates_def pair_key_def)
  have g: "on_grid 6 (8 / 10)" by (rule on_gridI[of _ _ 800000]) simp
  have q0: "quantizeE 2 (dmul (dmul (sign_of (fw_direction r)) (fw_notional r)) (dsub (8 / 10) (fw_rate r))) = Inr 0"
    by (simp add: r dec_defs quantizeE_def Let_def)
  have "calculate_forward_rate (8 / 10) 0 0 n = Inr \<lparr>fr_spot = 8 / 10, fr_forward = 8 / 10, fr_points = 0, fr_domestic = 0,
    fr_foreign = 0, fr_tenor = n\<rparr>" if "0 \<le> n" for n
    by (rule equal_rates_no_points) (use g that in auto)
  then have mtm: "\<exists>m. mark_to_market_forward (fw_rate r) (fw_notional r) (fw_direction r) (8 / 10) 0 0
      (max (fw_maturity r - le_today (xe_led demo_fx)) 0) (fw_quote r) = Inr m \<and> fm_value m = 0"
    using q0 by (simp add: mark_to_market_forward_def)
  have "le_col (xe_led demo_fx) 18 4 0 = Inr 0" by (rule col_store) (use demo_fx_ok in auto)
  with mtm spot rate dom obtain st' c where run: "mark_one demo_fx (domestic_rate demo_fx (ss_work s')) r s' = (st', Inr c)"
    by (auto simp: mark_one_def update_mtm_def thenS_def bindS_def)
  have "\<exists>v. quantizeE 2 (dmul (dmul (sign_of (fw_direction r)) (fw_notional r)) (dsub (8 / 10) (fw_rate r))) = Inr v \<and> fc_mtm c = Some v"
    by (rule home_base_marked_at_spot[OF _ spot g _ _ _ run]) (use r dom in \<open>simp_all add: demo_fx_def\<close>)
  then have "fc_mtm c = Some 0" using q0 by (metis sum.inject(2))
  with run r(4) show ?thesis by blast
qed

end
