(* ===== verification/Blocks.thy ===== *)
theory Blocks
  imports Orders
begin

text \<open>
  Block trades (\<open>app/modules/orders/services/allocation.py\<close>, \<open>repositories/allocation.py\<close>): an order for
  several funds at once, executed in one of them and distributed over the legs.

  The two tables are in the platform schema; every repository method commits in a session of its own,
  so the state keeps what is stored.  The order service is the one of \<open>Orders\<close>, on its own part of the
  state (\<open>at_orders\<close>).  Legs are listed in the order of their insertion, which is that of their
  \<open>created_at\<close>.  What the column of the percentages keeps is a parameter.
\<close>

datatype alloc_state = AlDraft | AlPendingCompliance | AlApproved | AlRejected | AlExecuting | AlAllocated | AlCancelled

record leg_request =
  lq_fund :: string
  lq_portfolio :: uuid
  lq_pct :: dec

record block_request =
  bq_instrument :: string
  bq_side :: order_side
  bq_quantity :: dec
  bq_type :: order_type
  bq_limit :: "dec option"
  bq_algo :: "algo_type option"
  bq_params :: "algo_params option"
  bq_legs :: "leg_request list"

record leg_row =
  lg_id :: uuid
  lg_block :: uuid
  lg_fund :: string
  lg_portfolio :: uuid
  lg_pct :: dec
  lg_target :: dec
  lg_filled :: dec
  lg_avg :: "dec option"
  lg_state :: alloc_state
  lg_results :: "compliance_row list option"

record block_row =
  bl_id :: uuid
  bl_instrument :: string
  bl_side :: order_side
  bl_total :: dec
  bl_filled :: dec
  bl_avg :: "dec option"
  bl_state :: alloc_state
  bl_type :: order_type
  bl_limit :: "dec option"
  bl_algo :: "algo_type option"
  bl_params :: "algo_params option"
  bl_exec_fund :: "string option"
  bl_exec_order :: "uuid option"
  bl_by :: string

record block_world =
  bk_world :: world
  bk_blocks :: "block_row list"
  bk_legs :: "leg_row list"

record block_env =
  be_orders :: oenv
  be_pct :: "dec \<Rightarrow> dec"

type_synonym 'a bm = "(block_world, 'a) sm"

definition at_orders :: "'a om \<Rightarrow> 'a bm" where
  "at_orders m s = (case m (bk_world s) of (w, r) \<Rightarrow> (s\<lparr>bk_world := w\<rparr>, r))"

section \<open>The repository\<close>

definition insert_allocation :: "block_env \<Rightarrow> block_row \<Rightarrow> block_row bm" where
  \<comment> \<open>\<open>refresh\<close> returns what the columns keep\<close>
  "insert_allocation be b =
     (let col = en_col (be_orders be);
          b = b\<lparr>bl_total := col (bl_total b), bl_filled := col (bl_filled b), bl_limit := map_option col (bl_limit b)\<rparr>
      in if \<not> en_json_ok (be_orders be) (bl_params b) then raiseS TypeError
         else bindS (getS (\<lambda>s. find_row bl_id (bl_id b) (bk_blocks s))) (\<lambda>old.
           if old \<noteq> None then raiseS IntegrityError
           else thenS (modifyS (\<lambda>s. s\<lparr>bk_blocks := bk_blocks s @ [b]\<rparr>)) (retS b)))"

definition insert_leg :: "block_env \<Rightarrow> leg_row \<Rightarrow> leg_row bm" where
  "insert_leg be l =
     (let l = l\<lparr>lg_pct := be_pct be (lg_pct l), lg_target := en_col (be_orders be) (lg_target l),
               lg_filled := en_col (be_orders be) (lg_filled l)\<rparr>
      in bindS (getS (\<lambda>s. find_row lg_id (lg_id l) (bk_legs s))) (\<lambda>old.
           if old \<noteq> None then raiseS IntegrityError
           else thenS (modifyS (\<lambda>s. s\<lparr>bk_legs := bk_legs s @ [l]\<rparr>)) (retS l)))"

definition get_allocation_by_id :: "uuid \<Rightarrow> block_world \<Rightarrow> block_row option" where
  "get_allocation_by_id i s = find_row bl_id i (bk_blocks s)"

definition get_legs :: "uuid \<Rightarrow> block_world \<Rightarrow> leg_row list" where
  "get_legs i s = filter (\<lambda>l. lg_block l = i) (bk_legs s)"

definition given :: "'a option \<Rightarrow> 'a option \<Rightarrow> 'a option" where
  "given x y = (if x = None then y else x)"

definition update_allocation_state ::
  "block_env \<Rightarrow> uuid \<Rightarrow> alloc_state \<Rightarrow> dec option \<Rightarrow> dec option \<Rightarrow> string option \<Rightarrow> uuid option \<Rightarrow> unit bm" where
  "update_allocation_state be i st filled avg fund order = modifyS (\<lambda>s. s\<lparr>bk_blocks := update_rows bl_id i
     (\<lambda>b. b\<lparr>bl_state := st, bl_filled := or_else (map_option (en_col (be_orders be)) filled) (bl_filled b),
        bl_avg := given (map_option (en_col (be_orders be)) avg) (bl_avg b),
        bl_exec_fund := given fund (bl_exec_fund b), bl_exec_order := given order (bl_exec_order b)\<rparr>) (bk_blocks s)\<rparr>)"

definition update_leg ::
  "block_env \<Rightarrow> uuid \<Rightarrow> dec option \<Rightarrow> dec option \<Rightarrow> alloc_state option \<Rightarrow> compliance_row list option \<Rightarrow> unit bm" where
  "update_leg be i filled avg st results = modifyS (\<lambda>s. s\<lparr>bk_legs := update_rows lg_id i
     (\<lambda>l. l\<lparr>lg_filled := or_else (map_option (en_col (be_orders be)) filled) (lg_filled l),
        lg_avg := given (map_option (en_col (be_orders be)) avg) (lg_avg l),
        lg_state := or_else st (lg_state l), lg_results := given results (lg_results l)\<rparr>) (bk_legs s)\<rparr>)"

section \<open>The service\<close>

record leg_summary =
  ls_id :: uuid
  ls_fund :: string
  ls_portfolio :: uuid
  ls_pct :: dec
  ls_target :: dec
  ls_filled :: dec
  ls_avg :: "dec option"
  ls_state :: alloc_state

record block_summary =
  bs_id :: uuid
  bs_instrument :: string
  bs_side :: order_side
  bs_total :: dec
  bs_filled :: dec
  bs_avg :: "dec option"
  bs_state :: alloc_state
  bs_algo :: "algo_type option"
  bs_legs :: "leg_summary list"
  bs_by :: string

definition to_block_summary :: "block_row \<Rightarrow> leg_row list \<Rightarrow> block_summary" where
  "to_block_summary b legs = \<lparr>bs_id = bl_id b, bs_instrument = bl_instrument b, bs_side = bl_side b,
     bs_total = bl_total b, bs_filled = bl_filled b, bs_avg = bl_avg b, bs_state = bl_state b, bs_algo = bl_algo b,
     bs_legs = map (\<lambda>l. \<lparr>ls_id = lg_id l, ls_fund = lg_fund l, ls_portfolio = lg_portfolio l, ls_pct = lg_pct l,
        ls_target = lg_target l, ls_filled = lg_filled l, ls_avg = lg_avg l, ls_state = lg_state l\<rparr>) legs,
     bs_by = bl_by b\<rparr>"

definition get_allocation :: "uuid \<Rightarrow> block_summary bm" where
  "get_allocation i = bindS (getS (get_allocation_by_id i)) (\<lambda>found. case found of
       None \<Rightarrow> raiseS LookupError
     | Some b \<Rightarrow> bindS (getS (get_legs i)) (\<lambda>legs. retS (to_block_summary b legs)))"

definition new_leg :: "uuid \<Rightarrow> uuid \<Rightarrow> leg_request \<Rightarrow> dec \<Rightarrow> leg_row" where
  "new_leg b i q target = \<lparr>lg_id = i, lg_block = b, lg_fund = lq_fund q, lg_portfolio = lq_portfolio q,
     lg_pct = lq_pct q, lg_target = target, lg_filled = 0, lg_avg = None, lg_state = AlPendingCompliance, lg_results = None\<rparr>"

text \<open>The share of a leg; the last one takes what is left.\<close>

definition share_of :: "dec \<Rightarrow> dec \<Rightarrow> bool \<Rightarrow> dec \<Rightarrow> dec res" where
  "share_of tot allocated is_last pct =
     (if is_last then Inr (dsub tot allocated) else quantizeE 8 (dmul tot pct))"

fun make_legs :: "block_env \<Rightarrow> uuid \<Rightarrow> dec \<Rightarrow> dec \<Rightarrow> leg_request list \<Rightarrow> leg_row list bm" where
  "make_legs be b tot allocated [] = retS []"
| "make_legs be b tot allocated (q # rest) =
     bindS (liftS (share_of tot allocated (rest = []) (lq_pct q))) (\<lambda>target.
     bindS (at_orders (draw_uuid (be_orders be))) (\<lambda>i.
     bindS (insert_leg be (new_leg b i q target)) (\<lambda>leg.
     bindS (make_legs be b tot (dadd allocated target) rest) (\<lambda>legs.
     retS (leg # legs)))))"

definition leg_check :: "block_request \<Rightarrow> leg_row \<Rightarrow> trade_check" where
  "leg_check rq l = \<lparr>tc_portfolio = lg_portfolio l, tc_instrument = bq_instrument rq, tc_side = bq_side rq,
     tc_quantity = lg_target l, tc_price = dec_or (bq_limit rq) 100\<rparr>"

definition check_leg :: "block_env \<Rightarrow> block_request \<Rightarrow> leg_row \<Rightarrow> bool bm" where
  "check_leg be rq l = bindS (liftS (en_check (be_orders be) (leg_check rq l))) (\<lambda>d.
     thenS (update_leg be (lg_id l) None None (Some (if dc_approved d then AlApproved else AlRejected))
              (Some (map result_row (dc_results d))))
       (retS (dc_approved d)))"

fun largest_leg :: "leg_row \<Rightarrow> leg_row list \<Rightarrow> leg_row" where
  \<comment> \<open>\<open>max\<close> with a key: the first of the largest\<close>
  "largest_leg best [] = best"
| "largest_leg best (l # ls) = largest_leg (if lg_target best < lg_target l then l else best) ls"

definition execution_request :: "block_request \<Rightarrow> uuid \<Rightarrow> order_request" where
  "execution_request rq p = \<lparr>rq_portfolio = p, rq_instrument = bq_instrument rq, rq_side = bq_side rq,
     rq_type = bq_type rq, rq_quantity = bq_quantity rq, rq_limit = bq_limit rq, rq_stop = None, rq_tif = Day\<rparr>"

definition execution_algo :: "block_request \<Rightarrow> uuid \<Rightarrow> algo_type \<Rightarrow> algo_request" where
  "execution_algo rq p a = \<lparr>aq_portfolio = p, aq_instrument = bq_instrument rq, aq_side = bq_side rq,
     aq_type = bq_type rq, aq_quantity = bq_quantity rq, aq_limit = bq_limit rq, aq_tif = Day, aq_algo = a,
     aq_params = or_else (bq_params rq) default_algo_params\<rparr>"

definition execute_block :: "block_env \<Rightarrow> block_request \<Rightarrow> leg_row \<Rightarrow> string \<Rightarrow> order bm" where
  "execute_block be rq l actor = at_orders (case bq_algo rq of
       Some a \<Rightarrow> create_algo_order (be_orders be) (execution_algo rq (lg_portfolio l) a) (lg_fund l) actor
     | None \<Rightarrow> create_order (be_orders be) (execution_request rq (lg_portfolio l)) (lg_fund l) actor)"

fun fill_shares :: "dec \<Rightarrow> dec \<Rightarrow> leg_row list \<Rightarrow> (leg_row \<times> dec) list res" where
  "fill_shares tot allocated [] = Inr []"
| "fill_shares tot allocated (l # rest) =
     bindE (share_of tot allocated (rest = []) (lg_pct l)) (\<lambda>q.
     bindE (fill_shares tot (dadd allocated q) rest) (\<lambda>xs. Inr ((l, q) # xs)))"

definition allocate_leg :: "block_env \<Rightarrow> block_row \<Rightarrow> dec \<Rightarrow> leg_row \<times> dec \<Rightarrow> unit bm" where
  "allocate_leg be b price lq = (case lq of (l, q) \<Rightarrow>
     if q \<le> 0 then retS ()
     else thenS (update_leg be (lg_id l) (Some q) (Some price) (Some AlAllocated) None)
         (bindS (at_orders (draw_uuid (be_orders be))) (\<lambda>tid.
          at_orders (publish (be_orders be) (lg_fund l) ''trades.executed''
            \<lparr>oe_type = (if bl_side b = OBuy then ''trade.buy'' else ''trade.sell''),
             oe_payload = TradeExecuted \<lparr>tm_portfolio = lg_portfolio l, tm_instrument = bl_instrument b,
                tm_side = side_str (bl_side b), tm_quantity = q, tm_price = price, tm_trade_id = Some tid,
                tm_currency = Some ''USD''\<rparr>,
             oe_fund = lg_fund l\<rparr>))))"

definition allocate_fills :: "block_env \<Rightarrow> uuid \<Rightarrow> unit bm" where
  "allocate_fills be i = bindS (getS (get_allocation_by_id i)) (\<lambda>found. case found of
       None \<Rightarrow> retS ()
     | Some b \<Rightarrow> (case (bl_exec_order b, bl_exec_fund b) of
         (Some oid, Some fund) \<Rightarrow> bindS (at_orders (get_by_id fund oid)) (\<lambda>od. case od of
             None \<Rightarrow> retS ()
           | Some od \<Rightarrow>
               if od_filled od \<le> 0 then retS ()
               else let price = dec_or (od_avg od) 0
                    in bindS (getS (get_legs i)) (\<lambda>legs.
                       bindS (liftS (fill_shares (od_filled od) 0 legs)) (\<lambda>shares.
                       thenS (forS (allocate_leg be b price) shares)
                         (update_allocation_state be i AlAllocated (Some (od_filled od)) (Some price) None None))))
       | _ \<Rightarrow> retS ()))"

definition new_block :: "uuid \<Rightarrow> block_request \<Rightarrow> string \<Rightarrow> block_row" where
  "new_block i rq actor = \<lparr>bl_id = i, bl_instrument = bq_instrument rq, bl_side = bq_side rq,
     bl_total = bq_quantity rq, bl_filled = 0, bl_avg = None, bl_state = AlDraft, bl_type = bq_type rq,
     bl_limit = bq_limit rq, bl_algo = bq_algo rq, bl_params = bq_params rq, bl_exec_fund = None,
     bl_exec_order = None, bl_by = actor\<rparr>"

definition total_pct :: "leg_request list \<Rightarrow> dec" where
  "total_pct legs = foldl (\<lambda>a q. dadd a (lq_pct q)) 0 legs"

definition place_block :: "block_env \<Rightarrow> block_request \<Rightarrow> uuid \<Rightarrow> leg_row list \<Rightarrow> string \<Rightarrow> block_summary bm" where
  \<comment> \<open>all legs are approved: execute in the fund of the largest\<close>
  "place_block be rq i legs actor = thenS (update_allocation_state be i AlApproved None None None None)
     (let l = largest_leg (hd legs) (tl legs)
      in bindS (execute_block be rq l actor) (\<lambda>od.
         thenS (update_allocation_state be i AlExecuting None None (Some (lg_fund l)) (Some (od_id od)))
        (thenS (whenS (od_state od = Filled \<or> od_state od = PartiallyFilled) (allocate_fills be i))
           (get_allocation i))))"

definition create_block_allocation :: "block_env \<Rightarrow> block_request \<Rightarrow> string \<Rightarrow> block_summary bm" where
  "create_block_allocation be rq actor =
     (if 1 / 10000 < dabs (dsub (total_pct (bq_legs rq)) 1) then raiseS ValueError
      else if bq_legs rq = [] then raiseS ValueError
      else bindS (at_orders (draw_uuid (be_orders be))) (\<lambda>i.
        bindS (insert_allocation be (new_block i rq actor)) (\<lambda>_.
        bindS (make_legs be i (bq_quantity rq) 0 (bq_legs rq)) (\<lambda>legs.
        thenS (update_allocation_state be i AlPendingCompliance None None None None)
       (bindS (mapS (check_leg be rq) legs) (\<lambda>approved.
        if \<not> list_all id approved
        then thenS (update_allocation_state be i AlRejected None None None None) (get_allocation i)
        else place_block be rq i legs actor))))))"

definition cancel_leg :: "block_env \<Rightarrow> leg_row \<Rightarrow> unit bm" where
  "cancel_leg be l = whenS (lg_state l \<notin> {AlAllocated, AlCancelled})
     (update_leg be (lg_id l) None None (Some AlCancelled) None)"

definition cancel_execution :: "block_env \<Rightarrow> block_row \<Rightarrow> string \<Rightarrow> unit bm" where
  \<comment> \<open>empty strings are falsy; an exception is logged\<close>
  "cancel_execution be b actor = (case (bl_exec_order b, bl_exec_fund b) of
     (Some oid, Some fund) \<Rightarrow> whenS (fund \<noteq> '''')
        (tryS (thenS (at_orders (cancel_order (be_orders be) oid fund actor)) (retS ())) (\<lambda>_. retS ()))
   | _ \<Rightarrow> retS ())"

definition cancel_allocation :: "block_env \<Rightarrow> uuid \<Rightarrow> string \<Rightarrow> block_summary bm" where
  "cancel_allocation be i actor = bindS (getS (get_allocation_by_id i)) (\<lambda>found. case found of
       None \<Rightarrow> raiseS LookupError
     | Some b \<Rightarrow>
         if bl_state b \<in> {AlAllocated, AlCancelled, AlRejected} then raiseS ValueError
         else thenS (cancel_execution be b actor)
             (bindS (getS (get_legs i)) (\<lambda>legs.
              thenS (forS (cancel_leg be) legs)
             (thenS (update_allocation_state be i AlCancelled None None None None)
               (get_allocation i)))))"

end
