(* ===== verification/BlockInv.thy ===== *)
theory BlockInv
  imports Blocks OrderInv Ledger
begin

text \<open>
  Block trades: how a quantity is divided over the legs, what distributing a fill publishes, and which
  blocks are ever distributed.
\<close>

section \<open>Dividing a quantity\<close>

text \<open>The shares of a list of percentages, after \<open>a\<close> has been given away.\<close>

fun shares :: "dec \<Rightarrow> dec \<Rightarrow> dec list \<Rightarrow> dec list res" where
  "shares tot a [] = Inr []"
| "shares tot a (p # ps) =
     bindE (share_of tot a (ps = []) p) (\<lambda>q. bindE (shares tot (dadd a q) ps) (\<lambda>qs. Inr (q # qs)))"

lemma fill_shares_eq: "fill_shares tot a legs = bindE (shares tot a (map lg_pct legs)) (\<lambda>qs. Inr (zip legs qs))"
proof (induction legs arbitrary: a)
  case (Cons l ls)
  then show ?case by (cases ls; simp add: bindE_def split: sum.split)
qed simp

lemma shares_length: "shares tot a ps = Inr qs \<Longrightarrow> length qs = length ps"
  by (induction ps arbitrary: a qs) (auto simp: bindE_Inr_iff)

definition fair :: "dec list \<Rightarrow> bool" where
  "fair ps \<longleftrightarrow> (\<forall>p\<in>set ps. 0 \<le> p \<and> p \<le> 1) \<and> length ps \<le> 10 ^ 9"

lemma grid8_small: "on_grid 8 x \<Longrightarrow> \<bar>x\<bar> \<le> 10 ^ 20 \<Longrightarrow> fix28 x = x"
  by (rule fix28_exact[of 8]) auto

lemma quantize_share:
  assumes "good_qty tot" "0 \<le> p" "p \<le> 1" "quantizeE 8 (dmul tot p) = Inr q"
  shows "on_grid 8 q" "0 \<le> q" "\<bar>q - tot * p\<bar> \<le> 1 / 10 ^ 8" "q \<le> 10 ^ 10 + 1"
proof -
  have t: "0 \<le> tot" "tot \<le> 10 ^ 10" using assms(1) by (auto simp: good_qty_def)
  have nn: "0 \<le> tot * p" using t assms(2) by simp
  have tp: "tot * p \<le> 10 ^ 10" using mult_mono[OF t(2) assms(3)] t(1) assms(2) by simp
  show "on_grid 8 q" by (rule quantizeE_Inr(1)[OF assms(4)])
  show "0 \<le> q" by (rule quantizeE_Inr(3)[OF assms(4)]) (simp add: dmul_def fix28_nonneg nn)
  have "\<bar>dmul tot p - tot * p\<bar> \<le> tot * p / (2 * 10 ^ 27)"
    unfolding dmul_def using fix28_error[of "tot * p"] nn by simp
  also have "\<dots> \<le> 10 ^ 10 / (2 * 10 ^ 27)" using tp by (intro divide_right_mono) auto
  also have "\<dots> \<le> 1 / (2 * 10 ^ 8)" by simp
  finally have a: "\<bar>dmul tot p - tot * p\<bar> \<le> 1 / (2 * 10 ^ 8)" .
  have "\<bar>q - tot * p\<bar> \<le> 1 / (2 * 10 ^ 8) + 1 / (2 * 10 ^ 8)" using quantizeE_Inr(2)[OF assms(4)] a by linarith
  then show d: "\<bar>q - tot * p\<bar> \<le> 1 / 10 ^ 8" by simp
  have "1 / 10 ^ 8 \<le> (1 :: rat)" by simp
  with d tp show "q \<le> 10 ^ 10 + 1" by linarith
qed

lemma shares_exact:
  assumes "shares tot a ps = Inr qs" "good_qty tot" "fair ps" "ps \<noteq> []"
    and "on_grid 8 a" "0 \<le> a" "a + of_nat (length ps) * (10 ^ 10 + 1) \<le> 10 ^ 20"
  shows "a + sum_list qs = tot \<and> (\<forall>i<length ps - 1. 0 \<le> qs ! i \<and> \<bar>qs ! i - tot * ps ! i\<bar> \<le> 1 / 10 ^ 8) \<and>
    (\<forall>q\<in>set qs. on_grid 8 q)"
  using assms
proof (induction ps arbitrary: a qs)
  case (Cons p ps)
  have t: "on_grid 8 tot" "0 \<le> tot" "tot \<le> 10 ^ 10" using Cons.prems(2) by (auto simp: good_qty_def)
  show ?case
  proof (cases "ps = []")
    case True
    have "\<bar>tot - a\<bar> \<le> 10 ^ 20" using Cons.prems(6,7) t True by simp
    then have "fix28 (tot - a) = tot - a" using t Cons.prems(5) by (intro grid8_small) auto
    with True Cons.prems(1) t(1) Cons.prems(5) show ?thesis by (auto simp: share_of_def dsub_def bindE_def)
  next
    case False
    from Cons.prems(1) False obtain q rest where q: "quantizeE 8 (dmul tot p) = Inr q" and rest: "shares tot (dadd a q) ps = Inr rest"
      and qs: "qs = q # rest" by (auto simp: share_of_def bindE_Inr_iff)
    have p: "0 \<le> p" "p \<le> 1" using Cons.prems(3) by (auto simp: fair_def)
    note sh = quantize_share[OF Cons.prems(2) p q]
    have len: "0 \<le> of_nat (length ps) * (10 ^ 10 + 1 :: rat)" by simp
    have bound: "a + q + of_nat (length ps) * (10 ^ 10 + 1) \<le> 10 ^ 20" using Cons.prems(7) sh(4) by (simp add: algebra_simps)
    then have "\<bar>a + q\<bar> \<le> 10 ^ 20" using len sh(2) Cons.prems(6) by linarith
    then have add: "dadd a q = a + q" unfolding dadd_def by (intro grid8_small on_grid_add sh Cons.prems)
    have "a + q + sum_list rest = tot \<and> (\<forall>i<length ps - 1. 0 \<le> rest ! i \<and> \<bar>rest ! i - tot * ps ! i\<bar> \<le> 1 / 10 ^ 8) \<and>
      (\<forall>q\<in>set rest. on_grid 8 q)"
      by (rule Cons.IH[OF rest[unfolded add] Cons.prems(2) _ False]) (use Cons.prems(3,5,6) sh bound in \<open>auto simp: fair_def\<close>)
    then show ?thesis using qs sh False by (auto simp: nth_Cons split: nat.split)
  qed
qed simp

lemma shares_divide:
  assumes "shares tot 0 ps = Inr qs" "good_qty tot" "fair ps" "ps \<noteq> []"
  shows "sum_list qs = tot" "i < length ps - 1 \<Longrightarrow> 0 \<le> qs ! i" "i < length ps - 1 \<Longrightarrow> \<bar>qs ! i - tot * ps ! i\<bar> \<le> 1 / 10 ^ 8"
    "q \<in> set qs \<Longrightarrow> on_grid 8 q"
proof -
  have "of_nat (length ps) \<le> (10 ^ 9 :: rat)" using assms(3) of_nat_mono[of "length ps" "10 ^ 9", where 'a = rat] by (simp add: fair_def)
  then have "of_nat (length ps) * (10 ^ 10 + 1) \<le> (10 ^ 9 * (10 ^ 10 + 1) :: rat)" by (intro mult_right_mono) auto
  also have "\<dots> \<le> 10 ^ 20" by simp
  finally have b: "0 + of_nat (length ps) * (10 ^ 10 + 1) \<le> (10 ^ 20 :: rat)" by simp
  from shares_exact[OF assms on_grid_0 order_refl b]
  show "sum_list qs = tot" "i < length ps - 1 \<Longrightarrow> 0 \<le> qs ! i" "i < length ps - 1 \<Longrightarrow> \<bar>qs ! i - tot * ps ! i\<bar> \<le> 1 / 10 ^ 8"
    "q \<in> set qs \<Longrightarrow> on_grid 8 q" by auto
qed

text \<open>What is positive adds up to the quantity plus what the last share is short of zero.\<close>

lemma shares_positive:
  assumes "shares tot 0 ps = Inr qs" "good_qty tot" "fair ps" "ps \<noteq> []"
  shows "sum_list (filter (\<lambda>q. 0 < q) qs) = tot + max 0 (- List.last qs)"
proof -
  have len: "length qs = length ps" by (rule shares_length[OF assms(1)])
  with assms(4) have ne: "qs \<noteq> []" by auto
  then have split: "qs = butlast qs @ [List.last qs]" by simp
  have nn: "0 \<le> q" if "q \<in> set (butlast qs)" for q
  proof -
    from that obtain i where i: "i < length (butlast qs)" "butlast qs ! i = q" by (metis in_set_conv_nth)
    then have "qs ! i = q" by (simp add: nth_butlast)
    with shares_divide(2)[OF assms, of i] i len show ?thesis by simp
  qed
  have "sum_list (filter (\<lambda>q. 0 < q) xs) = sum_list xs" if "\<forall>q\<in>set xs. 0 \<le> q" for xs :: "dec list"
    using that by (induction xs) auto
  then have pos: "sum_list (filter (\<lambda>q. 0 < q) (butlast qs)) = sum_list (butlast qs)" using nn by blast
  have "sum_list (filter (\<lambda>q. 0 < q) qs) = sum_list (butlast qs) + max 0 (List.last qs)"
    using pos by (subst split, subst filter_append) (auto simp: max_def)
  moreover have "sum_list (butlast qs) + List.last qs = tot"
    using shares_divide(1)[OF assms] by (subst (asm) split) simp
  ultimately show ?thesis by (auto simp: max_def)
qed

section \<open>Distributing the fill\<close>

definition trade_of :: "string \<times> order_event \<Rightarrow> (string \<times> uuid \<times> string \<times> string \<times> dec \<times> dec) option" where
  "trade_of e = (case oe_payload (snd e) of
     TradeExecuted m \<Rightarrow> Some (fst e, tm_portfolio m, tm_instrument m, tm_side m, tm_quantity m, tm_price m)
   | _ \<Rightarrow> None)"

definition leg_trade :: "block_row \<Rightarrow> dec \<Rightarrow> leg_row \<times> dec \<Rightarrow> (string \<times> uuid \<times> string \<times> string \<times> dec \<times> dec) option" where
  "leg_trade b price x = Some (fund_topic (lg_fund (fst x)) ''trades.executed'', lg_portfolio (fst x), bl_instrument b,
     side_str (bl_side b), snd x, price)"

definition leg_filled :: "block_env \<Rightarrow> dec \<Rightarrow> dec \<Rightarrow> leg_row \<Rightarrow> leg_row" where
  "leg_filled be q price l = l\<lparr>lg_filled := en_col (be_orders be) q,
     lg_avg := Some (en_col (be_orders be) price), lg_state := AlAllocated\<rparr>"

lemma allocate_leg_run:
  assumes "allocate_leg be b price (l, q) s = (s', Inr ())" "en_has_bus (be_orders be)" "0 < q"
  shows "bk_blocks s' = bk_blocks s \<and> w_orders (bk_world s') = w_orders (bk_world s) \<and>
    bk_legs s' = update_rows lg_id (lg_id l) (leg_filled be q price) (bk_legs s) \<and>
    (\<exists>e. w_bus (bk_world s') = w_bus (bk_world s) @ [e] \<and> trade_of e = leg_trade b price (l, q))"
  using assms
  by (auto simp: allocate_leg_def thenS_def bindS_def at_orders_def draw_uuid_def publish_def update_leg_def
      leg_filled_def[abs_def] given_def trade_of_def leg_trade_def split: option.splits)

definition shares_legs :: "block_env \<Rightarrow> dec \<Rightarrow> (leg_row \<times> dec) list \<Rightarrow> leg_row list \<Rightarrow> leg_row list" where
  "shares_legs be price xs = fold (\<lambda>(l, q). update_rows lg_id (lg_id l) (leg_filled be q price)) (filter (\<lambda>x. 0 < snd x) xs)"

lemma allocate_legs_run:
  assumes "forS (allocate_leg be b price) xs s = (s', Inr ())" "en_has_bus (be_orders be)"
  shows "bk_blocks s' = bk_blocks s \<and> w_orders (bk_world s') = w_orders (bk_world s) \<and>
    bk_legs s' = shares_legs be price xs (bk_legs s) \<and>
    (\<exists>es. w_bus (bk_world s') = w_bus (bk_world s) @ es \<and>
       map trade_of es = map (leg_trade b price) (filter (\<lambda>x. 0 < snd x) xs))"
  using assms
proof (induction xs arbitrary: s)
  case (Cons x xs)
  obtain l q where x: "x = (l, q)" by fastforce
  from Cons.prems(1) obtain t where t: "allocate_leg be b price x s = (t, Inr ())"
    and rest: "forS (allocate_leg be b price) xs t = (s', Inr ())"
    by (auto simp: thenS_def bindS_def split: prod.splits sum.splits)
  note IH = Cons.IH[OF rest Cons.prems(2)]
  show ?case
  proof (cases "0 < q")
    case True
    from allocate_leg_run[OF t[unfolded x] Cons.prems(2) True] IH show ?thesis
      using True by (auto simp: x shares_legs_def)
  next
    case False
    then have "t = s" using t by (auto simp: x allocate_leg_def)
    with IH False show ?thesis by (auto simp: x shares_legs_def)
  qed
qed (simp add: shares_legs_def)

lemma find_shares_legs:
  assumes "distinct (map (lg_id \<circ> fst) xs)" "(l, q) \<in> set xs" "0 < q" "find_row lg_id (lg_id l) rows = Some r"
  shows "find_row lg_id (lg_id l) (shares_legs be price xs rows) = Some (leg_filled be q price r)"
  using assms
proof (induction xs arbitrary: rows r)
  case (Cons x xs)
  have id: "lg_id (leg_filled be q p r) = lg_id r" for q p r by (simp add: leg_filled_def)
  have other: "find_row lg_id i (shares_legs be price xs rows) = find_row lg_id i rows"
    if "i \<notin> (lg_id \<circ> fst) ` set xs" for i rows
    using that by (induction xs arbitrary: rows) (auto simp: shares_legs_def find_row_update id)
  show ?case
  proof (cases "x = (l, q)")
    case True
    with Cons.prems(1) have "lg_id l \<notin> (lg_id \<circ> fst) ` set xs" by simp
    note o = other[OF this]
    have "shares_legs be price (x # xs) rows = shares_legs be price xs (update_rows lg_id (lg_id l) (leg_filled be q price) rows)"
      using True Cons.prems(3) by (simp add: shares_legs_def)
    then show ?thesis using o Cons.prems(4) by (simp add: find_row_update id)
  next
    case False
    then have l: "(l, q) \<in> set xs" "lg_id (fst x) \<noteq> lg_id l" using Cons.prems(1,2) by force+
    let ?rows = "if 0 < snd x then update_rows lg_id (lg_id (fst x)) (leg_filled be (snd x) price) rows else rows"
    have "find_row lg_id (lg_id l) ?rows = Some r" using Cons.prems(4) l(2) by (simp add: find_row_update id)
    from Cons.IH[OF _ l(1) Cons.prems(3) this] Cons.prems(1) show ?thesis
      by (cases x) (simp add: shares_legs_def split: if_splits)
  qed
qed simp

text \<open>C21. Distributing a fill.  The shares of the legs add up to exactly the filled quantity of the
  execution order, each but the last within \<open>10 ^ -8\<close> of its percentage; for every positive share one
  trade is published in the leg's fund and the leg is allocated; the block is allocated with the
  filled quantity.  The last leg takes the remainder: when the percentages add up to more than one its
  share can be negative, is left out, and the trades add up to more than was filled by that amount.
\<close>

theorem fills_distributed:
  assumes run: "allocate_fills be i s = (s', Inr ())" and bus: "en_has_bus (be_orders be)"
    and block: "get_allocation_by_id i s = Some b" "bl_exec_order b = Some oid" "bl_exec_fund b = Some fund"
    and order: "find_row od_id oid (w_orders (bk_world s) fund) = Some od" "0 < od_filled od" "good_qty (od_filled od)"
    and legs: "get_legs i s \<noteq> []" "fair (map lg_pct (get_legs i s))" "distinct (map lg_id (bk_legs s))"
  shows "\<exists>qs. length qs = length (get_legs i s) \<and> sum_list qs = od_filled od \<and>
    (\<forall>k<length qs - 1. \<bar>qs ! k - od_filled od * lg_pct (get_legs i s ! k)\<bar> \<le> 1 / 10 ^ 8) \<and>
    sum_list (filter (\<lambda>q. 0 < q) qs) = od_filled od + max 0 (- List.last qs) \<and>
    (\<exists>es. w_bus (bk_world s') = w_bus (bk_world s) @ es \<and>
       map trade_of es = map (leg_trade b (dec_or (od_avg od) 0)) (filter (\<lambda>x. 0 < snd x) (zip (get_legs i s) qs))) \<and>
    (\<forall>(l, q)\<in>set (zip (get_legs i s) qs). 0 < q \<longrightarrow>
       find_row lg_id (lg_id l) (bk_legs s') = Some (leg_filled be q (dec_or (od_avg od) 0) l)) \<and>
    map_option (\<lambda>c. (bl_state c, bl_filled c)) (get_allocation_by_id i s') =
      Some (AlAllocated, en_col (be_orders be) (od_filled od))"
proof -
  let ?legs = "get_legs i s" and ?price = "dec_or (od_avg od) 0"
  have got: "at_orders (get_by_id fund oid) s = (s, Inr (Some od))"
    using order(1) by (simp add: at_orders_def get_by_id_def)
  from run block order(2) got have "bindS (liftS (fill_shares (od_filled od) 0 ?legs)) (\<lambda>sh.
      thenS (forS (allocate_leg be b ?price) sh)
        (update_allocation_state be i AlAllocated (Some (od_filled od)) (Some ?price) None None)) s = (s', Inr ())"
    by (simp add: allocate_fills_def bindS_def Let_def)
  then obtain sh t where sh: "fill_shares (od_filled od) 0 ?legs = Inr sh" and t: "forS (allocate_leg be b ?price) sh s = (t, Inr ())"
    and upd: "update_allocation_state be i AlAllocated (Some (od_filled od)) (Some ?price) None None t = (s', Inr ())"
    by (auto simp: bindS_def thenS_def split: sum.splits prod.splits)
  from sh obtain qs where qs: "shares (od_filled od) 0 (map lg_pct ?legs) = Inr qs" and zip: "sh = zip ?legs qs"
    by (auto simp: fill_shares_eq bindE_Inr_iff)
  have ne: "map lg_pct ?legs \<noteq> []" using legs(1) by simp
  have len: "length qs = length ?legs" using shares_length[OF qs] by simp
  note div = shares_divide[OF qs order(3) legs(2) ne]
  have after: "bk_world s' = bk_world t" "bk_legs s' = bk_legs t"
    "get_allocation_by_id i s' = map_option (\<lambda>c. c\<lparr>bl_state := AlAllocated, bl_filled := en_col (be_orders be) (od_filled od),
       bl_avg := Some (en_col (be_orders be) ?price)\<rparr>) (get_allocation_by_id i t)"
    using upd by (auto simp: update_allocation_state_def get_allocation_by_id_def find_row_update given_def)
  note legs_run = allocate_legs_run[OF t bus, unfolded zip]
  have block': "get_allocation_by_id i t = Some b" using legs_run block(1) by (simp add: get_allocation_by_id_def)
  have stored: "find_row lg_id (lg_id l) (bk_legs s') = Some (leg_filled be q ?price l)" if "(l, q) \<in> set (zip ?legs qs)" "0 < q" for l q
  proof -
    have "distinct (map lg_id ?legs)" unfolding get_legs_def using legs(3) by (simp add: distinct_map_filter)
    then have "distinct (map (lg_id \<circ> fst) (zip ?legs qs))" using len by (simp flip: map_map)
    moreover have "l \<in> set (bk_legs s)" using that(1) by (auto simp: get_legs_def dest: set_zip_leftD)
    then have "find_row lg_id (lg_id l) (bk_legs s) = Some l" using legs(3) by (intro find_row_distinct) auto
    ultimately show ?thesis using find_shares_legs[OF _ that] legs_run after(2) by simp
  qed
  show ?thesis
    using len div(1,3) shares_positive[OF qs order(3) legs(2) ne] legs_run after block' stored
    by (intro exI[of _ qs]) auto
qed

definition demo_leg :: "uuid \<Rightarrow> string \<Rightarrow> uuid \<Rightarrow> leg_row" where
  "demo_leg i fund p = \<lparr>lg_id = i, lg_block = 7, lg_fund = fund, lg_portfolio = p, lg_pct = 1 / 2, lg_target = 5,
     lg_filled = 0, lg_avg = None, lg_state = AlApproved, lg_results = None\<rparr>"

definition demo_block :: block_world where
  "demo_block = \<lparr>bk_world = exec_cmd (demo_oenv ''filled'' True) (CreateOrder demo_request ''f'' ''a'') empty_world,
     bk_blocks = [\<lparr>bl_id = 7, bl_instrument = ''AAPL'', bl_side = OBuy, bl_total = 10, bl_filled = 0, bl_avg = None,
       bl_state = AlExecuting, bl_type = Market, bl_limit = Some 50, bl_algo = None, bl_params = None,
       bl_exec_fund = Some ''f'', bl_exec_order = Some 0, bl_by = ''a''\<rparr>],
     bk_legs = [demo_leg 1 ''f'' 1, demo_leg 2 ''g'' 2]\<rparr>"

definition demo_blocks :: block_env where
  "demo_blocks = \<lparr>be_orders = demo_oenv ''filled'' True, be_pct = id\<rparr>"

theorem fills_distributed_witness:
  "\<exists>s' es. allocate_fills demo_blocks 7 demo_block = (s', Inr ()) \<and>
     w_bus (bk_world s') = w_bus (bk_world demo_block) @ es \<and> map (\<lambda>l. lg_filled l) (bk_legs s') = [3, 3]"
proof -
  let ?w = "exec_cmd (demo_oenv ''filled'' True) (CreateOrder demo_request ''f'' ''a'') empty_world"
  let ?legs = "[demo_leg 1 ''f'' 1, demo_leg 2 ''g'' 2]"
  obtain b where b: "bk_blocks demo_block = [b]" "bl_id b = 7" "bl_exec_fund b = Some ''f''" "bl_exec_order b = Some 0"
    by (simp add: demo_block_def)
  have block: "get_allocation_by_id 7 demo_block = Some b" using b by (simp add: get_allocation_by_id_def)
  have lt: "bk_legs demo_block = ?legs" by (simp add: demo_block_def)
  have legs: "get_legs 7 demo_block = ?legs" by (simp add: get_legs_def lt demo_leg_def)
  have order: "find_row od_id 0 (w_orders (bk_world demo_block) ''f'') = Some demo_order"
    by (simp add: demo_block_def demo_rows del: exec_cmd.simps)
  have sh: "fill_shares 6 0 ?legs = Inr [(demo_leg 1 ''f'' 1, 3), (demo_leg 2 ''g'' 2, 3)]"
    by (simp add: demo_leg_def share_of_def dec_defs exact_simps quantizeE_def Let_def fix28_exact[of 0])
  let ?price = "dec_or (od_avg demo_order) 0"
  have legrun: "\<exists>t. allocate_leg demo_blocks b ?price x s = (t, Inr ())" for x s
    by (cases x) (auto simp: allocate_leg_def demo_blocks_def demo_oenv_def at_orders_def draw_uuid_def publish_def
        update_leg_def thenS_def bindS_def)
  have "\<exists>t. forS (allocate_leg demo_blocks b ?price) xs s = (t, Inr ())" for xs s
  proof (induction xs arbitrary: s)
    case (Cons x xs)
    obtain t where "allocate_leg demo_blocks b ?price x s = (t, Inr ())" using legrun by blast
    then show ?case using Cons.IH[of t] by (simp add: thenS_def bindS_def)
  qed simp
  then obtain t where t: "forS (allocate_leg demo_blocks b ?price) [(demo_leg 1 ''f'' 1, 3), (demo_leg 2 ''g'' 2, 3)] demo_block = (t, Inr ())"
    by blast
  have got: "at_orders (get_by_id ''f'' 0) demo_block = (demo_block, Inr (Some demo_order))"
    using order by (simp add: at_orders_def get_by_id_def)
  have "\<exists>s'. allocate_fills demo_blocks 7 demo_block = (s', Inr ())"
    using t got block b legs sh
    by (simp add: allocate_fills_def bindS_def thenS_def Let_def demo_rows update_allocation_state_def)
  then obtain s' where run: "allocate_fills demo_blocks 7 demo_block = (s', Inr ())" by blast
  have bus: "en_has_bus (be_orders demo_blocks)" by (simp add: demo_blocks_def demo_oenv_def)
  have fair: "fair (map lg_pct (get_legs 7 demo_block))" by (simp add: fair_def legs demo_leg_def)
  have dist: "distinct (map lg_id (bk_legs demo_block))" by (simp add: lt demo_leg_def)
  have qty: "0 < od_filled demo_order" "good_qty (od_filled demo_order)" by (simp_all add: demo_rows good_qty_def)
  have ne: "get_legs 7 demo_block \<noteq> []" by (simp add: legs)
  obtain es where es: "w_bus (bk_world s') = w_bus (bk_world demo_block) @ es"
    using fills_distributed[OF run bus block b(4,3) order qty ne fair dist] by blast
  have "map (\<lambda>l. lg_filled l) (bk_legs s') = [3, 3]"
    using run t got block b legs sh lt
    by (auto simp: allocate_fills_def bindS_def thenS_def Let_def demo_rows update_allocation_state_def
        allocate_leg_def demo_blocks_def demo_oenv_def at_orders_def draw_uuid_def publish_def update_leg_def
        update_rows_def demo_leg_def)
  show ?thesis by (intro exI conjI) (rule run es, rule es, fact)
qed

section \<open>Fills that come later\<close>

text \<open>A block that has not been distributed: \<open>L\<close> are the identifiers of its legs.\<close>

definition waiting :: "uuid \<Rightarrow> uuid set \<Rightarrow> block_world \<Rightarrow> bool" where
  "waiting i L s \<longleftrightarrow> distinct (map lg_id (bk_legs s)) \<and> lg_id ` set (get_legs i s) = L \<and>
     (\<forall>l\<in>set (get_legs i s). lg_filled l = 0 \<and> lg_state l \<noteq> AlAllocated) \<and>
     (\<exists>b. get_allocation_by_id i s = Some b \<and> bl_state b \<noteq> AlAllocated)"

lemma waiting_orders: "keeps (waiting i L) (at_orders m)"
  by (rule keeps_fstI) (auto simp: at_orders_def waiting_def get_legs_def get_allocation_by_id_def split: prod.split)

lemma waiting_leg_rows:
  assumes w: "waiting i L s" and f: "\<And>l. lg_id (f l) = lg_id l \<and> lg_block (f l) = lg_block l"
    and g: "k \<notin> L \<or> (\<forall>l. lg_filled (f l) = lg_filled l \<and> (lg_state l \<noteq> AlAllocated \<longrightarrow> lg_state (f l) \<noteq> AlAllocated))"
  shows "waiting i L (s\<lparr>bk_legs := update_rows lg_id k f (bk_legs s)\<rparr>)"
proof -
  define h where "h = (\<lambda>l. if lg_id l = k then f l else l)"
  have rows: "update_rows lg_id k f rows = map h rows" for rows by (simp add: update_rows_def h_def)
  have h: "lg_id (h l) = lg_id l" "lg_block (h l) = lg_block l" for l using f by (auto simp: h_def)
  have "filter (\<lambda>l. lg_block l = i) (map h rows) = map h (filter (\<lambda>l. lg_block l = i) rows)" for rows
    by (induction rows) (simp_all add: h)
  then have legs: "get_legs i (s\<lparr>bk_legs := map h (bk_legs s)\<rparr>) = map h (get_legs i s)"
    unfolding get_legs_def by simp
  have "lg_filled (h l) = 0 \<and> lg_state (h l) \<noteq> AlAllocated" if "l \<in> set (get_legs i s)" for l
  proof (cases "lg_id l = k")
    case True
    then have "k \<in> L" using w that by (auto simp: waiting_def)
    with g w that True show ?thesis by (auto simp: waiting_def h_def)
  qed (use w that in \<open>auto simp: waiting_def h_def\<close>)
  then show ?thesis using w unfolding waiting_def legs rows
    by (simp add: h comp_def image_image get_allocation_by_id_def)
qed

lemma waiting_update_leg:
  assumes "k \<notin> L \<or> (q = None \<and> st \<noteq> Some AlAllocated)"
  shows "keeps (waiting i L) (update_leg be k q avg st rs)"
  unfolding update_leg_def
proof (rule keeps_modify, rule waiting_leg_rows)
  show "k \<notin> L \<or> (\<forall>l. lg_filled (l\<lparr>lg_filled := or_else (map_option (en_col (be_orders be)) q) (lg_filled l),
        lg_avg := given (map_option (en_col (be_orders be)) avg) (lg_avg l),
        lg_state := or_else st (lg_state l), lg_results := given rs (lg_results l)\<rparr>) = lg_filled l \<and>
      (lg_state l \<noteq> AlAllocated \<longrightarrow> lg_state (l\<lparr>lg_filled := or_else (map_option (en_col (be_orders be)) q) (lg_filled l),
        lg_avg := given (map_option (en_col (be_orders be)) avg) (lg_avg l),
        lg_state := or_else st (lg_state l), lg_results := given rs (lg_results l)\<rparr>) \<noteq> AlAllocated))"
    using assms by (cases st) auto
qed simp_all

lemma waiting_update_block:
  assumes "j \<noteq> i \<or> st \<noteq> AlAllocated"
  shows "keeps (waiting i L) (update_allocation_state be j st q avg fund oid)"
  unfolding update_allocation_state_def
  by (rule keeps_modify)
    (use assms in \<open>auto simp: waiting_def get_legs_def get_allocation_by_id_def find_row_update\<close>)

lemma waiting_insert_block:
  "triple (waiting i L) (insert_allocation be b) (\<lambda>x s. waiting i L s \<and> bl_id b \<noteq> i) (waiting i L)"
  by (rule tripleI)
    (auto simp: insert_allocation_def Let_def waiting_def get_legs_def get_allocation_by_id_def find_row_append split: if_splits)

lemma waiting_insert_leg:
  assumes "lg_block l \<noteq> i"
  shows "triple (waiting i L) (insert_leg be l) (\<lambda>x s. waiting i L s \<and> lg_id x \<notin> L) (waiting i L)"
proof (rule tripleI)
  fix s s' x assume w: "waiting i L s" and run: "insert_leg be l s = (s', Inr x)"
  then have new: "find_row lg_id (lg_id l) (bk_legs s) = None" and x: "lg_id x = lg_id l" "lg_block x = lg_block l"
    and s': "s' = s\<lparr>bk_legs := bk_legs s @ [x]\<rparr>"
    by (auto simp: insert_leg_def Let_def split: if_splits)
  have "get_legs i s' = get_legs i s" using assms x by (simp add: get_legs_def s')
  moreover have "lg_id l \<notin> lg_id ` set (bk_legs s)" using new by (auto simp: find_row_None)
  moreover have "L \<subseteq> lg_id ` set (bk_legs s)" using w by (auto simp: waiting_def get_legs_def)
  ultimately show "waiting i L s' \<and> lg_id x \<notin> L" using w x by (auto simp: waiting_def s' get_allocation_by_id_def)
qed (auto simp: insert_leg_def Let_def split: if_splits)

lemma waiting_make_legs:
  assumes "j \<noteq> i"
  shows "triple (waiting i L) (make_legs be j tot a qs) (\<lambda>ls s. waiting i L s \<and> (\<forall>l\<in>set ls. lg_id l \<notin> L)) (waiting i L)"
proof (induction qs arbitrary: a)
  case (Cons q qs)
  have leg: "triple (waiting i L) (bindS (insert_leg be (new_leg j k q t)) (\<lambda>leg.
      bindS (make_legs be j tot (dadd a t) qs) (\<lambda>legs. retS (leg # legs))))
    (\<lambda>ls s. waiting i L s \<and> (\<forall>l\<in>set ls. lg_id l \<notin> L)) (waiting i L)" for k t
  proof (rule triple_bind_fact[OF waiting_insert_leg])
    show "lg_block (new_leg j k q t) \<noteq> i" using assms by (simp add: new_leg_def)
    fix x :: leg_row assume x: "lg_id x \<notin> L"
    show "triple (waiting i L) (bindS (make_legs be j tot (dadd a t) qs) (\<lambda>legs. retS (x # legs)))
      (\<lambda>ls s. waiting i L s \<and> (\<forall>l\<in>set ls. lg_id l \<notin> L)) (waiting i L)"
      by (rule triple_bind_fact[OF Cons.IH]) (use x in \<open>auto intro!: triple_ret\<close>)
  qed
  show ?case unfolding make_legs.simps
    by (rule triple_bind[OF keeps_basic(4)], rule triple_bind[OF waiting_orders leg])
qed (auto intro: triple_ret)

lemma waiting_allocate:
  assumes "j \<noteq> i"
  shows "keeps (waiting i L) (allocate_fills be j)"
proof -
  have leg: "keeps (waiting i L) (allocate_leg be b p x)" if "lg_id (fst x) \<notin> L" for b p x
    unfolding allocate_leg_def
    by (cases x) (use that in \<open>auto intro!: keeps_if keeps_then keeps_bind keeps_basic waiting_update_leg waiting_orders\<close>)
  have fsts: "fst ` set sh \<subseteq> set legs" if "fill_shares t 0 legs = Inr sh" for t legs sh
    using that by (auto simp: fill_shares_eq bindE_Inr_iff dest: set_zip_leftD)
  have legs: "triple (waiting i L) (getS (get_legs j)) (\<lambda>ls s. waiting i L s \<and> (\<forall>l\<in>set ls. lg_id l \<notin> L)) (waiting i L)"
  proof (rule triple_get)
    fix s assume w: "waiting i L s"
    have "lg_id l \<notin> L" if l: "l \<in> set (get_legs j s)" for l
    proof
      assume "lg_id l \<in> L"
      then obtain k where k: "k \<in> set (get_legs i s)" "lg_id k = lg_id l" using w by (auto simp: waiting_def)
      with l w have "k = l" by (auto simp: waiting_def get_legs_def distinct_map inj_on_def)
      with k l assms show False by (simp add: get_legs_def)
    qed
    with w show "waiting i L s \<and> (\<forall>l\<in>set (get_legs j s). lg_id l \<notin> L)" by blast
  qed
  have dist: "keeps (waiting i L) (bindS (liftS (fill_shares t 0 ls)) (\<lambda>sh. thenS (forS (allocate_leg be b p) sh)
      (update_allocation_state be j AlAllocated q r None None)))" if "\<forall>l\<in>set ls. lg_id l \<notin> L" for t ls b p q r
  proof (rule triple_bind_fact[where R = "\<lambda>_. waiting i L" and F = "\<lambda>sh. fill_shares t 0 ls = Inr sh"])
    fix sh assume sh: "fill_shares t 0 ls = Inr sh"
    have "keeps (waiting i L) (forS (allocate_leg be b p) sh)"
      by (rule keeps_for, rule leg) (use fsts[OF sh] that in auto)
    then show "keeps (waiting i L) (thenS (forS (allocate_leg be b p) sh) (update_allocation_state be j AlAllocated q r None None))"
      using assms by (intro keeps_then waiting_update_block) auto
  qed (auto intro: triple_lift)
  show ?thesis unfolding allocate_fills_def get_by_id_def
    by (intro keeps_bind keeps_basic keeps_option waiting_orders)
      (auto split: option.split simp: Let_def intro!: keeps_basic keeps_bind[OF waiting_orders] keeps_if keeps_option triple_bind_fact[OF legs] dist)
qed

lemma waiting_get: "keeps (waiting i L) (get_allocation j)"
  unfolding get_allocation_def by (intro keeps_bind keeps_basic keeps_option)

lemma waiting_check:
  assumes "\<forall>l\<in>set ls. lg_id l \<notin> L"
  shows "keeps (waiting i L) (mapS (check_leg be rq) ls)"
  unfolding check_leg_def
  by (intro keeps_map keeps_bind keeps_basic keeps_then waiting_update_leg) (use assms in auto)

lemma waiting_create: "keeps (waiting i L) (create_block_allocation be rq actor)"
proof -
  have place: "keeps (waiting i L) (place_block be rq j legs actor)" if "j \<noteq> i" for j legs
    unfolding place_block_def execute_block_def Let_def
    by (intro keeps_then keeps_bind keeps_when waiting_orders waiting_get waiting_update_block waiting_allocate that) auto
  have rest: "keeps (waiting i L) (bindS (make_legs be j (bq_quantity rq) 0 (bq_legs rq)) (\<lambda>legs.
        thenS (update_allocation_state be j AlPendingCompliance None None None None)
       (bindS (mapS (check_leg be rq) legs) (\<lambda>approved.
        if \<not> list_all id approved
        then thenS (update_allocation_state be j AlRejected None None None None) (get_allocation j)
        else place_block be rq j legs actor))))" if "j \<noteq> i" for j
    by (rule triple_bind_fact[OF waiting_make_legs[OF that]],
        intro keeps_then keeps_bind keeps_if waiting_check waiting_get waiting_update_block place that) auto
  show ?thesis unfolding create_block_allocation_def
    by (intro keeps_if keeps_basic, rule triple_bind[OF waiting_orders], rule triple_bind_fact[OF waiting_insert_block])
      (auto simp: new_block_def intro!: rest)
qed

lemma waiting_cancel: "keeps (waiting i L) (cancel_allocation be j actor)"
proof -
  have exe: "keeps (waiting i L) (cancel_execution be b actor)" for b
    unfolding cancel_execution_def
    by (cases "bl_exec_order b"; cases "bl_exec_fund b")
      (auto intro!: keeps_when keeps_try keeps_then keeps_basic waiting_orders)
  show ?thesis unfolding cancel_allocation_def cancel_leg_def
    by (intro keeps_bind keeps_basic keeps_option keeps_if keeps_then exe keeps_for keeps_when waiting_update_leg
        waiting_update_block waiting_get) auto
qed

datatype block_command =
    CreateBlock block_request string
  | CancelBlock uuid string
  | OrderCommand order_cmd

definition block_exec :: "block_env \<Rightarrow> block_command \<Rightarrow> block_world \<Rightarrow> block_world" where
  "block_exec be c s = (case c of
     CreateBlock rq actor \<Rightarrow> fst (create_block_allocation be rq actor s)
   | CancelBlock i actor \<Rightarrow> fst (cancel_allocation be i actor s)
   | OrderCommand oc \<Rightarrow> s\<lparr>bk_world := exec_cmd (be_orders be) oc (bk_world s)\<rparr>)"

interpretation blocks: command_system "block_exec be" "\<lambda>_. True" "waiting i L" for be i L
proof
  fix c s assume w: "waiting i L s"
  show "waiting i L (block_exec be c s)"
  proof (cases c)
    case (CreateBlock rq actor)
    with keeps_fst[OF waiting_create w] show ?thesis by (simp add: block_exec_def)
  next
    case (CancelBlock j actor)
    with keeps_fst[OF waiting_cancel w] show ?thesis by (simp add: block_exec_def)
  next
    case (OrderCommand oc)
    with w show ?thesis by (simp add: block_exec_def waiting_def get_legs_def get_allocation_by_id_def)
  qed
qed



end
