(* ===== verification/Spec2Isabelle.thy ===== *)
theory Spec2Isabelle
  imports PositionStore AlgoStrategies AlgoEngine Compliance Netting CapitalInv InvestorInv EodNav CorpActionsInv FxInv BlockInv
begin

text \<open>
  Verification library of the mini-hedge backend (\<open>src/app\<close>), a multi-tenant hedge-fund platform
  whose modules share a PostgreSQL database and a Kafka bus.

  \<^bold>\<open>How the parts interact.\<close>  The order service creates orders, asks the compliance gate, routes and
  submits them to a broker, books the fills and publishes \<open>trades.executed\<close>; algorithmic parents are
  sliced by runners that create child orders.  The position module consumes the trades: an
  event-sourced aggregate behind an idempotent handler, whose events a projector turns into the
  read model.  The post-trade monitor re-evaluates the rules on position changes.  Cash management
  consumes the same trades as settlements and books them when they are due.  Capital accounts turn
  the fund's daily profit and fees into investor snapshots, and process subscriptions and
  redemptions, which credit and debit cash.  The investor operations lead a subscription or a
  redemption through the decisions it needs and hand it to the capital accounts on its dealing date.
  Fee accounting accrues management and performance fees on the net asset value.  The end of day runs
  all of them in a fixed order of steps: it finalizes prices, reconciles positions and cash with the
  broker and the administrator, and calculates and stores net asset values and profits.  Corporate
  actions are turned into adjustments and published on the same topic as the trades.

  \<^bold>\<open>Theories.\<close>
  \<^item> \<open>Prelude\<close>: exceptions and the error monad, tables of rows with a key.  \<open>Effects\<close>: computations on
    a shared state that may raise, their specifications (\<open>triple\<close>, \<open>keeps\<close>) and the locales
    \<open>command_system\<close> and \<open>logged_system\<close>, which lift an invariant of single commands to every sequence;
    they are interpreted on the order world, the cash ledger, the capital accounts and the investor
    requests.  \<open>PyNum\<close>: \<open>decimal\<close> arithmetic with its 28-digit context, \<open>quantize\<close>, IEEE doubles.
    \<open>PyDate\<close>: \<open>datetime.date\<close>, proleptic Gregorian ordinals.
  \<^item> \<open>Positions\<close> (\<open>modules/positions/core/aggregate.py\<close>, \<open>strategy.py\<close>): lots, buys, sells, splits,
    dividends, replay; valuation strategies.  \<open>PositionStore\<close> (\<open>event_store.py\<close>, \<open>trade_handler.py\<close>,
    \<open>position_projector.py\<close>, \<open>mtm_handler.py\<close>): the append-only log with its idempotency keys, the
    retry on a sequence conflict, the read model and mark to market.
  \<^item> \<open>OrderState\<close> (\<open>modules/orders/core/state_machine.py\<close>), \<open>Orders\<close> and \<open>OrderInv\<close>
    (\<open>modules/orders/services/order.py\<close>, \<open>core/compliance_gateway.py\<close>, \<open>compliance_orchestrator.py\<close>,
    \<open>broker_gateway.py\<close>): the life cycle, creation, the gate, submission, fills and execution reports.
    \<open>AlgoStrategies\<close> and \<open>AlgoEngine\<close> (\<open>core/algo_strategies.py\<close>, \<open>algo_runner.py\<close>, \<open>algo_engine.py\<close>):
    slicing, the runner and recovery.
  \<^item> \<open>ComplianceTypes\<close>, \<open>Compliance\<close> (\<open>modules/compliance/core\<close>): the evaluators, the fail-closed
    pre-trade gate, the violation table of the post-trade monitor, the remediation advice.
  \<^item> \<open>Ledger\<close> (\<open>shared/database.py\<close>, \<open>shared/repository.py\<close>): database sessions with uncommitted writes,
    numeric columns, the bus, grouping and rounding facts.  \<open>BusinessDays\<close>, \<open>Cash\<close>, \<open>CashInv\<close>,
    \<open>Netting\<close> (\<open>modules/cash_management\<close>).  \<open>Capital\<close>, \<open>CapitalInv\<close> (\<open>modules/capital_accounts\<close>).
  \<^item> \<open>FundTerms\<close>, \<open>InvestorOps\<close>, \<open>InvestorInv\<close> (\<open>modules/investor_operations\<close>): dealing dates and the
    redemption gate, the two request machines (one locale \<open>life_cycle\<close>, interpreted on both), every
    operation of the subscription, redemption and KYC services, called in one session, as a request or in
    the background.
  \<^item> \<open>Fees\<close>, \<open>FeesInv\<close> (\<open>modules/fee_accounting\<close>): the calculator, schedules, accruals with their running
    totals, crystallization and the high water mark, approval, summaries.
  \<^item> \<open>Recon\<close>, \<open>ReconInv\<close> (\<open>modules/eod/core/reconciler.py\<close>, \<open>auto_resolver.py\<close>, \<open>escalation.py\<close>): three-way
    matching, tracked breaks, automatic resolution and ageing.  \<open>Eod\<close>, \<open>EodInv\<close>, \<open>EodRun\<close>, \<open>EodNav\<close>
    (\<open>orchestrator.py\<close>, \<open>nav_calculator.py\<close>, \<open>pnl_snapshot.py\<close>, \<open>price_finalization.py\<close>): a run as a
    computation on a product of the other components' states (\<open>eod_state\<close>), each operation lifted to its part;
    the locale \<open>step_frame\<close> carries what the operations of the steps keep through a whole run.
  \<^item> \<open>CorpActions\<close>, \<open>CorpActionsInv\<close> (\<open>modules/corporate_actions\<close>): the adjustments of splits, dividends,
    spinoffs and mergers, their processing with the idempotency check, and what the position handler
    (\<open>modules/positions/core/trade_handler.py\<close>) makes of the messages.
  \<^item> \<open>Blocks\<close>, \<open>BlockInv\<close> (\<open>modules/orders/services/allocation.py\<close>): orders for several funds, their compliance
    check leg by leg, execution in one fund and the distribution of the fill.
  \<^item> \<open>FxHedge\<close>, \<open>FxInv\<close> (\<open>modules/fx_hedging\<close>, \<open>modules/market_data/core/fx.py\<close>): the converter, forward rates and
    marks, recommendations, the life of a forward through opening, closing and rolling, interest rates.
  \<^item> This theory: orders with the compliance gate, and fills with the position handler.

  \<^bold>\<open>What the lemmas show.\<close>  For each component an invariant of its state kept by every operation, errors
  included; what each operation does on every branch; equivalence of the rule evaluators and of the
  transition table with declarative definitions; refinement of the event log by the read model; and,
  where the code does not do what it means to, a theorem that says what it does instead.

  \<^bold>\<open>Conventions and parameters.\<close>  A Python function that may raise is a function into \<open>exn + 'a\<close>.  The
  clock, fresh identifiers, the broker, the bus, numeric columns, the security master and the FX
  converter are arguments (\<open>oenv\<close>, \<open>env\<close>, \<open>gate_env\<close>, \<open>ledger_env\<close>, \<open>recon_env\<close>, \<open>eod_env\<close>), used only through
  named hypotheses (\<open>env_ok\<close>, \<open>col_spec\<close>, \<open>scan_spec\<close>, \<open>env_live\<close>).  Rows keep their insertion order; a query
  without an order returns them in an order that is a parameter.  Loops are structural or have a
  measure; the iceberg loop, which may not end, is a \<open>partial_function (option)\<close>.  Decimals are
  rationals with the rounding of the context written out; bounds such as \<open>10 ^ 14\<close> are those of the
  columns and make the arithmetic exact.

  \<^bold>\<open>Not modelled.\<close>  Routes, authentication, seeds, migrations and the front ends; log lines and metrics;
  lengths of text columns; time stamps that no decision depends on; the numerical modules (risk, alpha,
  backtesting, research), whose content is NumPy and pandas code; external adapters and the mock
  exchange.  The components of the manifest name the reason for each.
\<close>

section \<open>Orders and compliance together\<close>

definition gated :: "gate_env \<Rightarrow> oenv \<Rightarrow> oenv" where
  \<comment> \<open>the order service wired to the in-process gate, as \<open>ComplianceGateway\<close> does\<close>
  "gated ge en = en\<lparr>en_check := (\<lambda>tc. Inr (check_trade ge tc))\<rparr>"

lemma resolve_gated [simp]: "resolve (gated ge en) bid = resolve en bid"
  by (cases bid; cases "en_registry en") (auto simp: resolve_def gated_def split: option.split)

lemma env_ok_gated [simp]: "env_ok (gated ge en) = env_ok en"
  by (simp add: env_ok_def col_ok_def) (simp add: gated_def)

lemma check_trade_approved:
  assumes "dc_approved (check_trade ge tc)"
  shows "\<exists>rules. ge_rules ge = Inr rules \<and> (\<forall>r\<in>set rules. rd_severity r = Block \<longrightarrow>
    (\<exists>vs st mx. ge_positions ge (tc_portfolio tc) = Inr vs \<and> build_hypothetical_state ge tc vs = Inr st \<and>
       rule_limit r = Inr mx \<and> compliant_with st (rd_params r) (rd_type r) mx))"
proof -
  obtain d where d: "gate_evaluate ge tc = Inr d" "dc_approved d"
    using assms by (auto simp: check_trade_def system_block_def split: sum.splits)
  then obtain rules where rules: "ge_rules ge = Inr rules" by (auto simp: gate_evaluate_def bindE_Inr_iff)
  with gate_approved[OF d rules] evaluate_passed show ?thesis by blast
qed

section \<open>Properties\<close>



definition as_bus_event :: "order_event \<Rightarrow> trade_msg \<Rightarrow> bus_event" where
  \<comment> \<open>the event as the trade handler decodes it\<close>
  "as_bus_event ev m = \<lparr>be_type = oe_type ev, be_data = TradeMsg m, be_actor = None, be_fund = Some (oe_fund ev)\<rparr>"

lemma publish_up:
  assumes "en_has_bus en" "\<forall>t e. en_publish en t e = None"
  shows "publish en fund base ev w = (w\<lparr>w_bus := w_bus w @ [(fund_topic fund base, ev)]\<rparr>, Inr ())"
  using assms by (simp add: publish_def)

text \<open>What is on the bus stays there.\<close>

definition bus_from :: "world \<Rightarrow> world \<Rightarrow> bool" where
  "bus_from w0 w \<longleftrightarrow> set (w_bus w0) \<subseteq> set (w_bus w)"

lemma bus_modify: "(\<And>w. set (w_bus w) \<subseteq> set (w_bus (f w))) \<Longrightarrow> keeps (bus_from w0) (modifyS f)"
  by (rule keeps_modify) (auto simp: bus_from_def)

lemma bus_publish: "keeps (bus_from w0) (publish en fund base ev)"
  unfolding publish_def by (intro keeps_rules bus_modify) auto

lemma bus_rest:
  "keeps (bus_from w0) (publish_filled en od q p fund)"
  "keeps (bus_from w0) (update_parent_from_children en pid fund)"
  "keeps (bus_from w0) (engine_on_child_filled od)"
  unfolding publish_filled_def update_parent_from_children_def update_state_def get_by_id_def
    get_children_def engine_on_child_filled_def Let_def
  by (intro keeps_rules bus_publish bus_modify; auto simp: put_orders_def)+

section \<open>From the fill to the position\<close>

text \<open>C40. A fill reaches the positions exactly as it was booked: when the event bus accepts events,
  processing a fill that fits publishes one execution message, and the position trade handler
  answers that message by applying a trade of the filled quantity and price for the order's
  portfolio, instrument and side, under the identifier of the new fill row as idempotency key.\<close>

theorem fill_reaches_position_handler:
  assumes "current fund od w" and "od_state od \<in> {Sent, PartiallyFilled}" and "0 \<le> qty"
    and "qty \<le> dsub (od_quantity od) (od_filled od)"
    and "en_has_bus en" and "\<forall>t e. en_publish en t e = None" and "fund \<noteq> ''''"
  shows "\<exists>ev m. (fund_topic fund ''trades.executed'', ev) \<in> set (w_bus (fst (process_fill en od price qty fund bid t w))) \<and>
    oe_payload ev = TradeExecuted m \<and>
    (\<forall>pe uuid_str ca fresh st. fst (handle_trade_event pe uuid_str ca fresh (as_bus_event ev m) st) =
       fst (apply_trade pe (od_portfolio od) (od_instrument od) (if od_side od = OBuy then Buy else Sell)
              qty price ''USD'' (en_uuid en (w_draws w)) (Some (uuid_str (en_uuid en (w_draws w)))) st))"
proof -
  let ?tid = "en_uuid en (w_draws w)"
  obtain avg w1 where run: "process_fill en od price qty fund bid t w =
      after_fill en (set_state en (fill_target od qty) (fill_update od qty avg) od) ?tid price qty fund
        (fill_target od qty) (put_row en fund od (fill_target od qty) (fill_update od qty avg)
          (put_fills fund (\<lambda>fs. fs @ [fill_row en ?tid od price qty bid t]) w1))"
    using process_fill_eval[OF assms(1-3)] assms(4) by (metis not_less)
  let ?od = "set_state en (fill_target od qty) (fill_update od qty avg) od"
  let ?w2 = "put_row en fund od (fill_target od qty) (fill_update od qty avg)
          (put_fills fund (\<lambda>fs. fs @ [fill_row en ?tid od price qty bid t]) w1)"
  define m where "m = \<lparr>tm_portfolio = od_portfolio od, tm_instrument = od_instrument od,
    tm_side = side_str (od_side od), tm_quantity = qty, tm_price = price, tm_trade_id = Some ?tid,
    tm_currency = Some ''USD''\<rparr>"
  define ev where "ev = \<lparr>oe_type = (if od_side od = OBuy then ''trade.buy'' else ''trade.sell''),
    oe_payload = TradeExecuted m, oe_fund = fund\<rparr>"
  let ?w3 = "?w2\<lparr>w_bus := w_bus ?w2 @ [(fund_topic fund ''trades.executed'', ev)]\<rparr>"
  have pub: "publish_trade_executed en ?od ?tid qty price fund ?w2 = (?w3, Inr ())"
    using publish_up[OF assms(5,6)]
    by (simp add: publish_trade_executed_def trade_payload_def ev_def m_def)
  have rest: "keeps (bus_from ?w3) (thenS (publish_filled en ?od qty price fund)
    (thenS (whenS (fill_target od qty = Filled \<and> en_has_tca en) (modifyS (\<lambda>w. w\<lparr>w_tca := w_tca w @ [od_id ?od]\<rparr>)))
    (thenS (case od_parent ?od of None \<Rightarrow> retS ()
            | Some p \<Rightarrow> thenS (update_parent_from_children en p fund)
                (whenS (en_has_algo en) (engine_on_child_filled ?od)))
           (retS ?od))))"
    by (intro keeps_rules bus_rest bus_modify) auto
  let ?rest = "thenS (publish_filled en ?od qty price fund)
    (thenS (whenS (fill_target od qty = Filled \<and> en_has_tca en) (modifyS (\<lambda>w. w\<lparr>w_tca := w_tca w @ [od_id ?od]\<rparr>)))
    (thenS (case od_parent ?od of None \<Rightarrow> retS ()
            | Some p \<Rightarrow> thenS (update_parent_from_children en p fund)
                (whenS (en_has_algo en) (engine_on_child_filled ?od)))
           (retS ?od)))"
  have "process_fill en od price qty fund bid t w = ?rest ?w3"
    unfolding run after_fill_def by (subst bindS_eval(3), rule pub) simp
  with keeps_fst[OF rest, of ?w3] have "bus_from ?w3 (fst (process_fill en od price qty fund bid t w))"
    by (simp add: bus_from_def)
  then have "(fund_topic fund ''trades.executed'', ev) \<in> set (w_bus (fst (process_fill en od price qty fund bid t w)))"
    by (auto simp: bus_from_def)
  moreover have "side_str (od_side od) = ''buy'' \<longleftrightarrow> od_side od = OBuy" by (cases "od_side od") simp_all
  then have "fst (handle_trade_event pe uuid_str ca fresh (as_bus_event ev m) st) =
       fst (apply_trade pe (od_portfolio od) (od_instrument od) (if od_side od = OBuy then Buy else Sell)
              qty price ''USD'' ?tid (Some (uuid_str ?tid)) st)" for pe uuid_str ca fresh st
    using assms(7)
    by (auto simp: handle_trade_event_def as_bus_event_def ev_def m_def truthy_def Let_def split: prod.split sum.split option.split)
  ultimately show ?thesis
    by (intro exI[of _ ev] exI[of _ m]) (simp add: ev_def)
qed

theorem fill_reaches_position_handler_witness:
  "\<exists>ev m. oe_payload ev = TradeExecuted m \<and>
    (fund_topic ''f'' ''trades.executed'', ev) \<in> set (w_bus (fst (process_fill (demo_oenv ''filled'' True)
      demo_order 50 1 ''f'' None None
      (exec_cmd (demo_oenv ''filled'' True) (CreateOrder demo_request ''f'' ''a'') empty_world))))"
proof -
  let ?w = "exec_cmd (demo_oenv ''filled'' True) (CreateOrder demo_request ''f'' ''a'') empty_world"
  have "current ''f'' demo_order ?w" by (simp add: current_def demo_rows del: exec_cmd.simps)
  moreover have "dsub 10 6 = 4" by (simp add: dec_defs exact_simps)
  moreover have "en_has_bus (demo_oenv ''filled'' True)" "\<forall>t e. en_publish (demo_oenv ''filled'' True) t e = None"
    by (simp_all add: demo_oenv_def)
  ultimately show ?thesis
    using fill_reaches_position_handler[of "''f''" demo_order ?w 1 "demo_oenv ''filled'' True" 50 None None]
    by (auto simp: demo_rows simp del: exec_cmd.simps)
qed

end
